(* ===== verification/Azan_Prelude.thy ===== *)
theory Azan_Prelude
  imports Complex_Main "HOL-Library.AList"
begin

text \<open>
  Shared vocabulary of the development: JavaScript values as the code stores them in
  configuration objects (a JSON tree in which a property may also be \<open>undefined\<close>), the
  property reads and writes the code performs on them, the strings operations it uses, and
  the errors it throws. Objects are association lists in insertion order; \<open>AList.update\<close>
  replaces a property in place or appends it, as an assignment does in JavaScript. Numbers are
  rationals: every finite double is one. The prototype chain is not modelled: a property that
  is not an own property reads as \<open>undefined\<close>.
\<close>

named_theorems js_simps \<open>evaluation of property reads, writes and truthiness\<close>
named_theorems str_simps \<open>evaluation of string operations\<close>

section \<open>Values\<close>

datatype json =
    JUndef
  | JNull
  | JBool bool
  | JNum rat
  | JStr string
  | JArr "json list"
  | JObj "(string \<times> json) list"

type_synonym jobj = "(string \<times> json) list"

fun truthy :: "json \<Rightarrow> bool" where
  "truthy JUndef = False"
| "truthy JNull = False"
| "truthy (JBool b) = b"
| "truthy (JNum n) = (n \<noteq> 0)"
| "truthy (JStr s) = (s \<noteq> [])"
| "truthy (JArr _) = True"
| "truthy (JObj _) = True"

fun is_object :: "json \<Rightarrow> bool" where
  "is_object (JObj _) = True"
| "is_object _ = False"

text \<open>\<open>typeof v === "object" && v !== null\<close>: arrays are objects too.\<close>

fun typeof_object :: "json \<Rightarrow> bool" where
  "typeof_object (JObj _) = True"
| "typeof_object (JArr _) = True"
| "typeof_object _ = False"

fun str_of :: "json \<Rightarrow> string option" where
  "str_of (JStr s) = Some s"
| "str_of _ = None"

fun num_of :: "json \<Rightarrow> rat option" where
  "num_of (JNum n) = Some n"
| "num_of _ = None"

fun arr_of :: "json \<Rightarrow> json list" where
  "arr_of (JArr xs) = xs"
| "arr_of _ = []"

section \<open>Property reads and writes\<close>

text \<open>
  Array indices as property names: the canonical decimal numerals.
\<close>

definition digit_val :: "char \<Rightarrow> nat option" where
  "digit_val c =
     (if 48 \<le> (of_char c :: nat) \<and> (of_char c :: nat) \<le> 57
      then Some ((of_char c :: nat) - 48) else None)"

fun digits_val :: "nat \<Rightarrow> string \<Rightarrow> nat option" where
  "digits_val acc [] = Some acc"
| "digits_val acc (c # cs) =
     (case digit_val c of None \<Rightarrow> None | Some d \<Rightarrow> digits_val (10 * acc + d) cs)"

definition array_index :: "string \<Rightarrow> nat option" where
  "array_index k =
     (if k = [] \<or> (length k > 1 \<and> hd k = CHR ''0'') then None else digits_val 0 k)"

fun nat_str :: "nat \<Rightarrow> string" where
  "nat_str n =
     (if n < 10 then [char_of (48 + n)] else nat_str (n div 10) @ [char_of (48 + n mod 10)])"

declare nat_str.simps [simp del]

definition list_put :: "json list \<Rightarrow> nat \<Rightarrow> json \<Rightarrow> json list" where
  "list_put xs i v =
     (if i < length xs then xs[i := v] else xs @ replicate (i - length xs) JUndef @ [v])"

text \<open>
  \<open>x?.k\<close>, and \<open>x.k\<close> where the code has just tested that \<open>x\<close> is truthy.
\<close>

fun jget :: "json \<Rightarrow> string \<Rightarrow> json" where
  "jget (JObj kvs) k = (case map_of kvs k of None \<Rightarrow> JUndef | Some v \<Rightarrow> v)"
| "jget (JArr xs) k =
     (case array_index k of None \<Rightarrow> JUndef
      | Some i \<Rightarrow> if i < length xs then xs ! i else JUndef)"
| "jget _ k = JUndef"

text \<open>\<open>x.k = v\<close>; a write to a value that is not an object leaves it unchanged.\<close>

fun jput :: "json \<Rightarrow> string \<Rightarrow> json \<Rightarrow> json" where
  "jput (JObj kvs) k v = JObj (AList.update k v kvs)"
| "jput (JArr xs) k v =
     (case array_index k of None \<Rightarrow> JArr xs | Some i \<Rightarrow> JArr (list_put xs i v))"
| "jput x k v = x"

text \<open>\<open>delete x.k\<close>\<close>

fun jdel :: "json \<Rightarrow> string \<Rightarrow> json" where
  "jdel (JObj kvs) k = JObj (AList.delete k kvs)"
| "jdel (JArr xs) k =
     (case array_index k of None \<Rightarrow> JArr xs
      | Some i \<Rightarrow> if i < length xs then JArr (xs[i := JUndef]) else JArr xs)"
| "jdel x k = x"

text \<open>\<open>Object.entries\<close> and \<open>Object.keys\<close>\<close>

fun entries :: "json \<Rightarrow> jobj" where
  "entries (JObj kvs) = kvs"
| "entries (JArr xs) = zip (map nat_str [0..<length xs]) xs"
| "entries _ = []"

abbreviation jkeys :: "json \<Rightarrow> string list" where
  "jkeys x \<equiv> map fst (entries x)"

fun jget_path :: "json \<Rightarrow> string list \<Rightarrow> json" where
  "jget_path x [] = x"
| "jget_path x (k # ks) = jget_path (jget x k) ks"

text \<open>
  Well-formed values: an object has each key once. Everything \<open>JSON.parse\<close> returns and
  every property write below stays in this class.
\<close>

fun wf_json :: "json \<Rightarrow> bool" where
  "wf_json (JObj kvs) = (distinct (map fst kvs) \<and> (\<forall>kv \<in> set kvs. wf_json (snd kv)))"
| "wf_json (JArr xs) = (\<forall>x \<in> set xs. wf_json x)"
| "wf_json _ = True"

text \<open>
  \<open>JSON.parse(JSON.stringify(v))\<close>: undefined properties are dropped, undefined array
  elements become null.
\<close>

fun json_copy :: "json \<Rightarrow> json" where
  "json_copy (JObj kvs) =
     JObj (map (\<lambda>kv. (fst kv, json_copy (snd kv))) (filter (\<lambda>kv. snd kv \<noteq> JUndef) kvs))"
| "json_copy (JArr xs) = JArr (map (\<lambda>x. if x = JUndef then JNull else json_copy x) xs)"
| "json_copy x = x"

subsection \<open>Laws of reads and writes\<close>

lemma jget_jput_same [simp]: "is_object x \<Longrightarrow> jget (jput x k v) k = v"
  by (cases x) (auto simp: update_conv')

lemma jget_jput_other [simp]: "is_object x \<Longrightarrow> k \<noteq> k' \<Longrightarrow> jget (jput x k v) k' = jget x k'"
  by (cases x) (auto simp: update_conv')

lemma jget_jput: "is_object x \<Longrightarrow> jget (jput x k v) k' = (if k' = k then v else jget x k')"
  by simp

lemma jget_jdel_same [simp]: "is_object x \<Longrightarrow> jget (jdel x k) k = JUndef"
  by (cases x) (auto simp: delete_conv')

lemma jget_jdel_other [simp]: "is_object x \<Longrightarrow> k \<noteq> k' \<Longrightarrow> jget (jdel x k) k' = jget x k'"
  by (cases x) (auto simp: delete_conv')

lemma jget_jdel: "is_object x \<Longrightarrow> jget (jdel x k) k' = (if k' = k then JUndef else jget x k')"
  by simp

lemma is_object_jput [simp]: "is_object (jput x k v) = is_object x"
  by (cases x) (auto split: option.splits)

lemma is_object_jdel [simp]: "is_object (jdel x k) = is_object x"
  by (cases x) (auto split: option.splits)

lemma is_object_truthy: "is_object x \<Longrightarrow> truthy x"
  by (cases x) auto

lemma jget_not_obj [simp]: "\<not> typeof_object x \<Longrightarrow> jget x k = JUndef"
  by (cases x) auto

lemma wf_jget: "wf_json x \<Longrightarrow> wf_json (jget x k)"
proof (cases x)
  case (JObj kvs)
  assume wf: "wf_json x"
  show ?thesis
  proof (cases "map_of kvs k")
    case (Some v)
    then have "(k, v) \<in> set kvs" by (rule map_of_SomeD)
    with wf JObj Some show ?thesis by fastforce
  qed (simp add: JObj)
qed (auto split: option.splits)

lemma set_update_subset: "set (AList.update k v kvs) \<subseteq> insert (k, v) (set kvs)"
  by (induction kvs) auto

lemma wf_jput_obj: "is_object x \<Longrightarrow> wf_json x \<Longrightarrow> wf_json v \<Longrightarrow> wf_json (jput x k v)"
  using set_update_subset by (cases x) (fastforce intro: distinct_update)+

lemma wf_jdel_obj: "is_object x \<Longrightarrow> wf_json x \<Longrightarrow> wf_json (jdel x k)"
  by (cases x) (auto simp: AList.delete_eq intro: distinct_map_filter)

lemma map_of_filter_val:
  "distinct (map fst kvs) \<Longrightarrow>
   map_of (filter (\<lambda>kv. P (snd kv)) kvs) k =
     (case map_of kvs k of None \<Rightarrow> None | Some v \<Rightarrow> if P v then Some v else None)"
proof (induction kvs)
  case (Cons a kvs)
  have "k = fst a \<Longrightarrow> map_of kvs k = None"
    using Cons.prems by (auto simp: map_of_eq_None_iff)
  with Cons show ?case by (cases a) (auto split: option.splits)
qed simp

lemma map_of_map_snd: "map_of (map (\<lambda>kv. (fst kv, f (snd kv))) kvs) k = map_option f (map_of kvs k)"
  by (induction kvs) auto

lemma json_copy_undef [simp]: "json_copy x = JUndef \<longleftrightarrow> x = JUndef"
  by (cases x) auto

lemma jget_json_copy:
  assumes "wf_json x" "is_object x"
  shows "jget (json_copy x) k = json_copy (jget x k)"
  using assms
  by (cases x) (auto simp: map_of_map_snd map_of_filter_val [where P = "\<lambda>v. v \<noteq> JUndef"]
      split: option.splits)

lemma jget_json_copy_defined:
  assumes "is_object x" "jget x k \<noteq> JUndef"
  shows "jget (json_copy x) k = json_copy (jget x k)"
proof -
  have "map_of kvs k = Some v \<Longrightarrow> v \<noteq> JUndef \<Longrightarrow> map_of (filter (\<lambda>kv. snd kv \<noteq> JUndef) kvs) k = Some v" for kvs v
    by (induction kvs) (auto split: if_splits)
  then show ?thesis using assms by (cases x) (auto simp: map_of_map_snd split: option.splits)
qed

lemma truthy_json_copy [simp]: "truthy (json_copy x) = truthy x"
  by (cases x) auto

lemma is_object_json_copy [simp]: "is_object (json_copy x) = is_object x"
  by (cases x) auto

lemma filter_map_fst_distinct: "distinct (map fst kvs) \<Longrightarrow> distinct (map fst (filter P kvs))"
  by (rule distinct_map_filter)

lemma wf_json_copy: "wf_json x \<Longrightarrow> wf_json (json_copy x)"
proof (induction x rule: json_copy.induct)
  case (1 kvs)
  then show ?case by (auto simp: comp_def distinct_map_filter)
qed auto

lemma json_copy_idem [simp]: "json_copy (json_copy x) = json_copy x"
proof (induction x rule: json_copy.induct)
  case (1 kvs)
  then show ?case by (auto simp: filter_map comp_def)
next
  case (2 xs)
  then show ?case by auto
qed auto

text \<open>Values without undefined parts are fixed by the copy.\<close>

fun defined :: "json \<Rightarrow> bool" where
  "defined JUndef = False"
| "defined (JObj kvs) = (\<forall>kv \<in> set kvs. defined (snd kv))"
| "defined (JArr xs) = (\<forall>x \<in> set xs. defined x)"
| "defined _ = True"

lemma json_copy_defined: "defined x \<Longrightarrow> json_copy x = x"
proof (induction x rule: json_copy.induct)
  case (1 kvs)
  have nu: "\<forall>kv \<in> set kvs. snd kv \<noteq> JUndef"
    using "1.prems" by fastforce
  then have f: "filter (\<lambda>kv. snd kv \<noteq> JUndef) kvs = kvs" by (simp add: filter_True)
  have "map (\<lambda>kv. (fst kv, json_copy (snd kv))) kvs = map id kvs"
    using 1 nu by (intro map_cong) (auto simp: prod_eq_iff)
  with f show ?case by simp
next
  case (2 xs)
  then have "map (\<lambda>x. if x = JUndef then JNull else json_copy x) xs = map id xs"
    by (intro map_cong) auto
  then show ?case by simp
qed auto

end
