(* ===== verification/JS_Strings.thy ===== *)
theory JS_Strings
  imports Azan_Prelude
begin

text \<open>
  The JavaScript string methods the code calls, on byte strings: \<open>startsWith\<close>,
  \<open>endsWith\<close>, \<open>includes\<close>, \<open>split\<close>, \<open>join\<close>, \<open>trim\<close>, \<open>toUpperCase\<close>, \<open>toLowerCase\<close>,
  \<open>charAt(0).toUpperCase() + slice(1)\<close> and \<open>Number\<close>, with the laws the components share.
\<close>

definition startsWith :: "string \<Rightarrow> string \<Rightarrow> bool" where
  "startsWith s p = (take (length p) s = p)"

definition endsWith :: "string \<Rightarrow> string \<Rightarrow> bool" where
  "endsWith s p = startsWith (rev s) (rev p)"

fun str_includes :: "string \<Rightarrow> string \<Rightarrow> bool" where
  "str_includes [] p = (p = [])"
| "str_includes (c # s) p = (startsWith (c # s) p \<or> str_includes s p)"

fun split_on :: "char \<Rightarrow> string \<Rightarrow> string list" where
  "split_on d [] = [[]]"
| "split_on d (c # s) =
     (if c = d then [] # split_on d s
      else case split_on d s of [] \<Rightarrow> [[c]] | w # ws \<Rightarrow> (c # w) # ws)"

fun join :: "string \<Rightarrow> string list \<Rightarrow> string" where
  "join d [] = []"
| "join d [w] = w"
| "join d (w # ws) = w @ d @ join d ws"

text \<open>The white space \<open>trim\<close> removes.\<close>

definition is_ws :: "char \<Rightarrow> bool" where
  "is_ws c = (c = CHR '' '' \<or> 9 \<le> (of_char c :: nat) \<and> (of_char c :: nat) \<le> 13
              \<or> (of_char c :: nat) = 160)"

definition trim :: "string \<Rightarrow> string" where
  "trim s = rev (dropWhile is_ws (rev (dropWhile is_ws s)))"

definition upper_char :: "char \<Rightarrow> char" where
  "upper_char c =
     (if 97 \<le> (of_char c :: nat) \<and> (of_char c :: nat) \<le> 122
      then char_of ((of_char c :: nat) - 32) else c)"

definition lower_char :: "char \<Rightarrow> char" where
  "lower_char c =
     (if 65 \<le> (of_char c :: nat) \<and> (of_char c :: nat) \<le> 90
      then char_of ((of_char c :: nat) + 32) else c)"

definition toUpperCase :: "string \<Rightarrow> string" where
  "toUpperCase s = map upper_char s"

definition toLowerCase :: "string \<Rightarrow> string" where
  "toLowerCase s = map lower_char s"

fun capitalise :: "string \<Rightarrow> string" where
  "capitalise [] = []"
| "capitalise (c # s) = upper_char c # s"

definition nl :: string where
  "nl = [CHR 0x0A]"

definition cr :: char where
  "cr = CHR 0x0D"

text \<open>
  \<open>s.split(/\r?\n/)\<close>: split at line feeds, a carriage return before a line feed belongs to
  the separator.
\<close>

definition strip_cr :: "string \<Rightarrow> string" where
  "strip_cr w = (if w \<noteq> [] \<and> last w = cr then butlast w else w)"

definition split_lines :: "string \<Rightarrow> string list" where
  "split_lines s = (let ws = split_on (hd nl) s in map strip_cr (butlast ws) @ [last ws])"

text \<open>
  \<open>Number(s)\<close> on decimal numerals: surrounding white space is ignored, the empty string is
  0, and \<open>None\<close> is \<open>NaN\<close>. Exponents, hexadecimal literals and infinities are
  not used by the code's time strings and are read as \<open>NaN\<close>.
\<close>

definition decimal :: "string \<Rightarrow> rat option" where
  "decimal s =
     (case split_on (CHR ''.'') s of
        [w] \<Rightarrow> if w = [] then None else map_option of_nat (digits_val 0 w)
      | [w, f] \<Rightarrow>
          if w = [] \<and> f = [] then None
          else (case (digits_val 0 w, digits_val 0 f) of
                  (Some a, Some b) \<Rightarrow> Some (of_nat a + of_nat b / 10 ^ length f)
                | _ \<Rightarrow> None)
      | _ \<Rightarrow> None)"

definition js_number :: "string \<Rightarrow> rat option" where
  "js_number s =
     (case trim s of
        [] \<Rightarrow> Some 0
      | c # cs \<Rightarrow>
          if c = CHR ''-'' then map_option uminus (decimal cs)
          else if c = CHR ''+'' then decimal cs
          else decimal (c # cs))"

section \<open>Laws\<close>

lemma startsWith_append [simp]: "startsWith (p @ s) p"
  by (simp add: startsWith_def)

lemma startsWith_iff: "startsWith s p \<longleftrightarrow> (\<exists>t. s = p @ t)"
  unfolding startsWith_def by (metis append_eq_conv_conj append_take_drop_id)

lemma startsWith_Nil [simp]: "startsWith s []"
  by (simp add: startsWith_def)

lemma str_includes_char: "str_includes s [c] \<longleftrightarrow> c \<in> set s"
  by (induction s) (auto simp: startsWith_def)

lemma split_on_nonempty [simp]: "split_on d s \<noteq> []"
  by (induction s) (auto split: list.splits)

lemma join_Cons: "ws \<noteq> [] \<Longrightarrow> join d (w # ws) = w @ d @ join d ws"
  by (cases ws) auto

lemma join_snoc: "ws \<noteq> [] \<Longrightarrow> join d (ws @ [w]) = join d ws @ d @ w"
proof (induction ws)
  case (Cons v ws)
  then show ?case by (cases "ws = []") (simp_all add: join_Cons)
qed simp

lemma join_split_on: "join [d] (split_on d s) = s"
proof (induction s)
  case (Cons c s)
  show ?case
  proof (cases "split_on d s")
    case (Cons w ws)
    then show ?thesis using Cons.IH by (cases ws) auto
  qed simp
qed simp

lemma split_on_no_delim: "w \<in> set (split_on d s) \<Longrightarrow> d \<notin> set w"
proof (induction s arbitrary: w)
  case (Cons c s)
  show ?case
  proof (cases "split_on d s")
    case (Cons v vs)
    with Cons.IH Cons.prems show ?thesis by (auto split: if_splits)
  qed simp
qed simp

lemma split_on_word: "d \<notin> set w \<Longrightarrow> split_on d w = [w]"
  by (induction w) auto

lemma split_on_append:
  "d \<notin> set w \<Longrightarrow> split_on d (w @ d # s) = w # split_on d s"
  by (induction w) auto

lemma split_on_join:
  assumes "ws \<noteq> []" "\<forall>w \<in> set ws. d \<notin> set w"
  shows "split_on d (join [d] ws) = ws"
  using assms
proof (induction ws)
  case (Cons w ws)
  show ?case
  proof (cases "ws = []")
    case True
    with Cons show ?thesis by (simp add: split_on_word)
  next
    case False
    with Cons show ?thesis by (simp add: join_Cons split_on_append)
  qed
qed simp

lemma set_join: "set (join d ws) \<subseteq> set d \<union> (\<Union>w \<in> set ws. set w)"
  by (induction d ws rule: join.induct) auto

lemma set_split_on: "w \<in> set (split_on d s) \<Longrightarrow> set w \<subseteq> set s"
proof (induction s arbitrary: w)
  case (Cons c s)
  then show ?case by (auto split: if_splits list.splits) blast+
qed simp

lemma trim_last:
  assumes "trim s \<noteq> []"
  shows "\<not> is_ws (last (trim s))"
  using assms hd_dropWhile [of is_ws "rev (dropWhile is_ws s)"]
  unfolding trim_def by (metis last_rev rev_is_Nil_conv)

lemma trim_noop:
  assumes "s = [] \<or> \<not> is_ws (hd s) \<and> \<not> is_ws (last s)"
  shows "trim s = s"
proof (cases "s = []")
  case False
  with assms have "dropWhile is_ws s = s" "dropWhile is_ws (rev s) = rev s"
    by (simp_all add: dropWhile_eq_self_iff hd_rev)
  then show ?thesis by (simp add: trim_def)
qed (simp add: trim_def)

lemma is_ws_nl [simp]: "is_ws (hd nl)"
  by (simp add: is_ws_def nl_def)

lemma toUpperCase_length [simp]: "length (toUpperCase s) = length s"
  by (simp add: toUpperCase_def)

end
