(* ===== verification/JS_Runtime.thy ===== *)
theory JS_Runtime
  imports JS_Strings
begin

text \<open>
  The errors the code throws, number coercion, and the interface of the Luxon date library.
  Luxon is a package outside the repository: its operations are the fields of the record
  \<open>luxon\<close>, an argument of every definition that uses dates, and \<open>luxon_ok\<close> states the
  documented behaviour the theorems rely on. \<open>utc_luxon\<close> is a concrete instance of it, on
  instants in milliseconds, used by the witnesses.
\<close>

section \<open>Errors\<close>

datatype err =
    Error string
  | TypeError string
  | ConfigNotInitializedError
  | CriticalConfigurationError string
  | ProviderConnectionError string int string
  | ProviderValidationError string json bool
  | ZodError "(string list \<times> string) list"
  | AbortError string

text \<open>\<open>issues.map(...).join(", ")\<close>, the rendering of the issues of a Zod error.\<close>

definition format_issue :: "string list \<times> string \<Rightarrow> string" where
  "format_issue i =
     (let p = join ''.'' (fst i) in if p \<noteq> [] then p @ '': '' @ snd i else snd i)"

definition format_issues :: "(string list \<times> string) list \<Rightarrow> string" where
  "format_issues is = join '', '' (map format_issue is)"

fun err_message :: "err \<Rightarrow> string" where
  "err_message (Error m) = m"
| "err_message (TypeError m) = m"
| "err_message ConfigNotInitializedError = ''ConfigService not initialised. Call init() first.''"
| "err_message (CriticalConfigurationError m) = m"
| "err_message (ProviderConnectionError m _ _) = m"
| "err_message (ProviderValidationError m _ _) = m"
| "err_message (ZodError is) = format_issues is"
| "err_message (AbortError m) = m"

fun is_ProviderValidationError :: "err \<Rightarrow> bool" where
  "is_ProviderValidationError (ProviderValidationError _ _ _) = True"
| "is_ProviderValidationError _ = False"

fun is_ZodError :: "err \<Rightarrow> bool" where
  "is_ZodError (ZodError _) = True"
| "is_ZodError _ = False"

type_synonym 'a res = "err + 'a"

definition bindR :: "'a res \<Rightarrow> ('a \<Rightarrow> 'b res) \<Rightarrow> 'b res" where
  "bindR r f = (case r of Inl e \<Rightarrow> Inl e | Inr x \<Rightarrow> f x)"

lemma bindR_simps [simp]: "bindR (Inl e) f = Inl e" "bindR (Inr x) f = f x"
  by (simp_all add: bindR_def)

lemma bindR_Inr: "bindR r f = Inr y \<longleftrightarrow> (\<exists>x. r = Inr x \<and> f x = Inr y)"
  by (cases r) auto

section \<open>Number coercion\<close>

text \<open>
  \<open>Number(v)\<close> as relational operators apply it; \<open>None\<close> is \<open>NaN\<close>. Arrays and
  objects do not occur where the code compares numbers and are read as \<open>NaN\<close>.
\<close>

fun to_number :: "json \<Rightarrow> rat option" where
  "to_number JNull = Some 0"
| "to_number (JBool b) = Some (if b then 1 else 0)"
| "to_number (JNum q) = Some q"
| "to_number (JStr s) = js_number s"
| "to_number _ = None"

definition js_gt :: "json \<Rightarrow> json \<Rightarrow> bool" where
  "js_gt a b =
     (case (to_number a, to_number b) of (Some x, Some y) \<Rightarrow> x > y | _ \<Rightarrow> False)"

lemma js_gt_num [simp]: "js_gt (JNum a) (JNum b) = (a > b)"
  by (simp add: js_gt_def)

text \<open>\<open>a % b\<close> for a non-negative dividend and a positive divisor.\<close>

definition js_rem :: "rat \<Rightarrow> rat \<Rightarrow> rat" where
  "js_rem a b = a - b * of_int \<lfloor>a / b\<rfloor>"

lemma js_rem_int: "0 < b \<Longrightarrow> js_rem (of_int a) (of_int b) = of_int (a mod b)"
proof -
  have "\<lfloor>(of_int a :: rat) / of_int b\<rfloor> = a div b"
    by (rule floor_divide_of_int_eq)
  then show ?thesis
    by (simp add: js_rem_def minus_div_mult_eq_mod [symmetric] mult.commute)
qed

section \<open>Luxon\<close>

datatype unitval = UndefNum | NaN | Num rat

record 'dt luxon =
  lx_fromISO :: "json \<Rightarrow> 'dt"
  lx_fromISOZone :: "string \<Rightarrow> json \<Rightarrow> 'dt"
  lx_fromYMD :: "string option \<Rightarrow> json \<Rightarrow> json \<Rightarrow> json \<Rightarrow> 'dt"
  lx_setZone :: "string \<Rightarrow> 'dt \<Rightarrow> 'dt"
  lx_isValid :: "'dt \<Rightarrow> bool"
  lx_valueOf :: "'dt \<Rightarrow> int"
  lx_zone :: "'dt \<Rightarrow> string"
  lx_minute :: "'dt \<Rightarrow> int"
  lx_year :: "'dt \<Rightarrow> int"
  lx_plus :: "string \<Rightarrow> json \<Rightarrow> 'dt \<Rightarrow> err + 'dt"
  lx_minus :: "string \<Rightarrow> json \<Rightarrow> 'dt \<Rightarrow> err + 'dt"
  lx_set :: "(string \<times> unitval) list \<Rightarrow> 'dt \<Rightarrow> err + 'dt"
  lx_startOfDay :: "'dt \<Rightarrow> 'dt"
  lx_toISO :: "'dt \<Rightarrow> json"
  lx_toISODate :: "'dt \<Rightarrow> json"

text \<open>Comparison of two dates compares instants; an invalid date is \<open>NaN\<close> there.\<close>

definition lx_less :: "'dt luxon \<Rightarrow> 'dt \<Rightarrow> 'dt \<Rightarrow> bool" where
  "lx_less L a b = (lx_isValid L a \<and> lx_isValid L b \<and> lx_valueOf L a < lx_valueOf L b)"

text \<open>
  What the theorems use of Luxon, as its documentation states it. \<open>off z\<close> is the offset of
  zone \<open>z\<close> in minutes modulo 60, which is constant for zones that change their offset
  by whole hours: \<open>off\<close> occurs only in the first law.
\<close>

definition minute_law :: "'dt luxon \<Rightarrow> (string \<Rightarrow> int) \<Rightarrow> bool" where
  "minute_law L off =
     (\<forall>d. lx_isValid L d \<longrightarrow>
        lx_minute L d = (lx_valueOf L d div 60000 + off (lx_zone L d)) mod 60)"

definition plus_minutes_law :: "'dt luxon \<Rightarrow> bool" where
  "plus_minutes_law L =
     (\<forall>m d. lx_isValid L d \<longrightarrow>
        (\<exists>d'. lx_plus L ''minutes'' (JNum (of_int m)) d = Inr d' \<and> lx_isValid L d' \<and>
              lx_zone L d' = lx_zone L d \<and> lx_valueOf L d' = lx_valueOf L d + 60000 * m))"

definition minus_minutes_law :: "'dt luxon \<Rightarrow> bool" where
  "minus_minutes_law L =
     (\<forall>m d. lx_isValid L d \<longrightarrow>
        (\<exists>d'. lx_minus L ''minutes'' (JNum (of_int m)) d = Inr d' \<and> lx_isValid L d' \<and>
              lx_zone L d' = lx_zone L d \<and> lx_valueOf L d' = lx_valueOf L d - 60000 * m))"

definition minus_millis_law :: "'dt luxon \<Rightarrow> bool" where
  "minus_millis_law L =
     (\<forall>m d. lx_isValid L d \<longrightarrow>
        (\<exists>d'. lx_minus L ''milliseconds'' (JNum (of_int m)) d = Inr d' \<and> lx_isValid L d' \<and>
              lx_zone L d' = lx_zone L d \<and> lx_valueOf L d' = lx_valueOf L d - m))"

definition zero_seconds_law :: "'dt luxon \<Rightarrow> bool" where
  "zero_seconds_law L =
     (\<forall>d. lx_isValid L d \<longrightarrow>
        (\<exists>d'. lx_set L [(''second'', Num 0), (''millisecond'', Num 0)] d = Inr d' \<and>
              lx_isValid L d' \<and> lx_zone L d' = lx_zone L d \<and>
              lx_valueOf L d' = lx_valueOf L d - lx_valueOf L d mod 60000))"

definition set_zone_law :: "'dt luxon \<Rightarrow> string \<Rightarrow> bool" where
  "set_zone_law L z =
     (\<forall>d. lx_isValid L d \<longrightarrow>
        lx_isValid L (lx_setZone L z d) \<and> lx_zone L (lx_setZone L z d) = z \<and>
        lx_valueOf L (lx_setZone L z d) = lx_valueOf L d)"

definition iso_roundtrip_law :: "'dt luxon \<Rightarrow> bool" where
  "iso_roundtrip_law L =
     (\<forall>d. lx_isValid L d \<longrightarrow>
        (\<exists>s. lx_toISO L d = JStr s \<and> s \<noteq> []) \<and>
        lx_isValid L (lx_fromISO L (lx_toISO L d)) \<and>
        lx_valueOf L (lx_fromISO L (lx_toISO L d)) = lx_valueOf L d)"

definition luxon_ok :: "'dt luxon \<Rightarrow> (string \<Rightarrow> int) \<Rightarrow> string \<Rightarrow> bool" where
  "luxon_ok L off z =
     (minute_law L off \<and> plus_minutes_law L \<and> minus_minutes_law L \<and> minus_millis_law L \<and>
      zero_seconds_law L \<and> set_zone_law L z \<and> iso_roundtrip_law L)"

lemmas luxon_laws =
  luxon_ok_def minute_law_def plus_minutes_law_def minus_minutes_law_def minus_millis_law_def
  zero_seconds_law_def set_zone_law_def iso_roundtrip_law_def

lemma luxon_minute:
  "luxon_ok L off z \<Longrightarrow> lx_isValid L d \<Longrightarrow>
   lx_minute L d = (lx_valueOf L d div 60000 + off (lx_zone L d)) mod 60"
  unfolding luxon_ok_def minute_law_def by blast

lemma luxon_setZone:
  assumes "luxon_ok L off z" "lx_isValid L d"
  shows "lx_isValid L (lx_setZone L z d)" "lx_zone L (lx_setZone L z d) = z"
    "lx_valueOf L (lx_setZone L z d) = lx_valueOf L d"
  using assms unfolding luxon_ok_def set_zone_law_def by blast+

lemma luxon_plus_minutes:
  assumes "luxon_ok L off z" "lx_isValid L d"
  obtains d' where "lx_plus L ''minutes'' (JNum (of_int m)) d = Inr d'" "lx_isValid L d'"
    "lx_zone L d' = lx_zone L d" "lx_valueOf L d' = lx_valueOf L d + 60000 * m"
  using assms unfolding luxon_ok_def plus_minutes_law_def by blast

lemma luxon_minus_minutes:
  assumes "luxon_ok L off z" "lx_isValid L d"
  obtains d' where "lx_minus L ''minutes'' (JNum (of_int m)) d = Inr d'" "lx_isValid L d'"
    "lx_zone L d' = lx_zone L d" "lx_valueOf L d' = lx_valueOf L d - 60000 * m"
  using assms unfolding luxon_ok_def minus_minutes_law_def by blast

lemma luxon_minus_millis:
  assumes "luxon_ok L off z" "lx_isValid L d"
  obtains d' where "lx_minus L ''milliseconds'' (JNum (of_int m)) d = Inr d'" "lx_isValid L d'"
    "lx_zone L d' = lx_zone L d" "lx_valueOf L d' = lx_valueOf L d - m"
  using assms unfolding luxon_ok_def minus_millis_law_def by blast

lemma luxon_zero_seconds:
  assumes "luxon_ok L off z" "lx_isValid L d"
  obtains d' where "lx_set L [(''second'', Num 0), (''millisecond'', Num 0)] d = Inr d'"
    "lx_isValid L d'" "lx_zone L d' = lx_zone L d"
    "lx_valueOf L d' = lx_valueOf L d - lx_valueOf L d mod 60000"
  using assms unfolding luxon_ok_def zero_seconds_law_def by blast

lemma luxon_toISO:
  assumes "luxon_ok L off z" "lx_isValid L d"
  obtains w where "lx_toISO L d = JStr w" "w \<noteq> []" "lx_isValid L (lx_fromISO L (JStr w))"
    "lx_valueOf L (lx_fromISO L (JStr w)) = lx_valueOf L d"
  using assms unfolding luxon_ok_def iso_roundtrip_law_def by metis

section \<open>Decimal numerals\<close>

lemma digit_val_char_of: "d < 10 \<Longrightarrow> digit_val (char_of (48 + d)) = Some d"
  by (simp add: digit_val_def)

lemma digits_val_append: "digits_val a (xs @ ys) = Option.bind (digits_val a xs) (\<lambda>b. digits_val b ys)"
  by (induction xs arbitrary: a) (auto split: option.splits)

lemma digits_val_nat_str: "digits_val 0 (nat_str n) = Some n"
proof (induction n rule: nat_str.induct)
  case (1 n)
  show ?case
  proof (cases "n < 10")
    case True
    then show ?thesis by (simp add: nat_str.simps [of n] digit_val_char_of)
  next
    case False
    with 1 show ?thesis
      by (simp add: nat_str.simps [of n] digits_val_append digit_val_char_of)
  qed
qed

lemma nat_str_not_Nil [simp]: "nat_str n \<noteq> []"
  by (simp add: nat_str.simps [of n])

lemma nat_str_inj: "nat_str m = nat_str n \<Longrightarrow> m = n"
  by (metis digits_val_nat_str option.inject)

lemma nat_str_digits: "c \<in> set (nat_str n) \<Longrightarrow> 48 \<le> (of_char c :: nat) \<and> (of_char c :: nat) \<le> 57"
proof (induction n rule: nat_str.induct)
  case (1 n)
  show ?case
  proof (cases "n < 10")
    case True
    with "1.prems" show ?thesis by (simp add: nat_str.simps [of n])
  next
    case False
    with 1 show ?thesis by (auto simp: nat_str.simps [of n])
  qed
qed

section \<open>A concrete instance for evaluation\<close>

text \<open>Instants in milliseconds with a zone name; all zones have the offset of UTC.\<close>

definition int_str :: "int \<Rightarrow> string" where
  "int_str i = (if i < 0 then CHR ''-'' # nat_str (nat (- i)) else nat_str (nat i))"

definition int_val :: "string \<Rightarrow> int option" where
  "int_val s =
     (case s of
        [] \<Rightarrow> None
      | c # cs \<Rightarrow> if c = CHR ''-'' then map_option (\<lambda>n. - int n) (digits_val 0 cs)
                  else map_option int (digits_val 0 s))"

lemma hd_nat_str: "48 \<le> (of_char (hd (nat_str n)) :: nat)"
proof (induction n rule: nat_str.induct)
  case (1 n)
  then show ?case
    by (cases "n < 10") (simp_all add: nat_str.simps [of n] hd_append)
qed

lemma nat_str_no_sign: "hd (nat_str n) \<noteq> CHR ''-''"
proof
  assume "hd (nat_str n) = CHR ''-''"
  with hd_nat_str [of n] have "48 \<le> (of_char (CHR ''-'') :: nat)" by metis
  then show False by simp
qed

lemma int_val_int_str: "int_val (int_str i) = Some i"
proof (cases "i < 0")
  case True
  then show ?thesis by (simp add: int_str_def int_val_def digits_val_nat_str)
next
  case False
  obtain c cs where cs: "nat_str (nat i) = c # cs"
    using nat_str_not_Nil [of "nat i"] by (cases "nat_str (nat i)") auto
  with nat_str_no_sign [of "nat i"] have "c \<noteq> CHR ''-''" by simp
  with False cs digits_val_nat_str [of "nat i"] show ?thesis
    by (simp add: int_str_def int_val_def)
qed

type_synonym utc = "(int \<times> string) option"

definition utc_shift :: "string \<Rightarrow> int option" where
  "utc_shift u =
     (if u = ''milliseconds'' then Some 1 else if u = ''minutes'' then Some 60000
      else if u = ''days'' then Some 86400000 else None)"

definition utc_plus :: "int \<Rightarrow> string \<Rightarrow> json \<Rightarrow> utc \<Rightarrow> err + utc" where
  "utc_plus sg u v d =
     (case (utc_shift u, v) of
        (Some k, JNum q) \<Rightarrow> Inr (map_option (\<lambda>(t, z). (t + sg * k * \<lfloor>q\<rfloor>, z)) d)
      | _ \<Rightarrow> Inl (Error ''Invalid unit value''))"

definition utc_set :: "(string \<times> unitval) list \<Rightarrow> utc \<Rightarrow> err + utc" where
  "utc_set us d =
     (if us = [(''second'', Num 0), (''millisecond'', Num 0)]
      then Inr (map_option (\<lambda>(t, z). (t - t mod 60000, z)) d)
      else case (map_of us ''hour'', map_of us ''minute'') of
        (Some (Num h), Some (Num m)) \<Rightarrow>
          Inr (map_option (\<lambda>(t, z). (t - t mod 86400000 + 3600000 * \<lfloor>h\<rfloor> + 60000 * \<lfloor>m\<rfloor>, z)) d)
      | _ \<Rightarrow> Inl (Error ''Invalid unit value''))"

definition utc_of_json :: "string \<Rightarrow> json \<Rightarrow> utc" where
  "utc_of_json z v =
     (case v of JStr s \<Rightarrow> map_option (\<lambda>t. (t, z)) (int_val s) | _ \<Rightarrow> None)"

definition utc_luxon :: "utc luxon" where
  "utc_luxon =
     \<lparr>lx_fromISO = utc_of_json ''local'',
      lx_fromISOZone = utc_of_json,
      lx_fromYMD = (\<lambda>z y m d.
        case (y, m, d) of
          (JNum y', JNum m', JNum d') \<Rightarrow>
             Some (86400000 * (365 * (\<lfloor>y'\<rfloor> - 1970) + 31 * (\<lfloor>m'\<rfloor> - 1) + \<lfloor>d'\<rfloor> - 1),
                   case z of None \<Rightarrow> ''local'' | Some n \<Rightarrow> n)
        | _ \<Rightarrow> None),
      lx_setZone = (\<lambda>z. map_option (\<lambda>(t, _). (t, z))),
      lx_isValid = (\<lambda>d. d \<noteq> None),
      lx_valueOf = (\<lambda>d. case d of None \<Rightarrow> 0 | Some (t, _) \<Rightarrow> t),
      lx_zone = (\<lambda>d. case d of None \<Rightarrow> [] | Some (_, z) \<Rightarrow> z),
      lx_minute = (\<lambda>d. case d of None \<Rightarrow> 0 | Some (t, _) \<Rightarrow> (t div 60000) mod 60),
      lx_year = (\<lambda>d. case d of None \<Rightarrow> 0 | Some (t, _) \<Rightarrow> 1970 + t div 31536000000),
      lx_plus = utc_plus 1,
      lx_minus = utc_plus (- 1),
      lx_set = utc_set,
      lx_startOfDay = map_option (\<lambda>(t, z). (t - t mod 86400000, z)),
      lx_toISO = (\<lambda>d. case d of None \<Rightarrow> JNull | Some (t, _) \<Rightarrow> JStr (int_str t)),
      lx_toISODate =
        (\<lambda>d. case d of None \<Rightarrow> JNull | Some (t, _) \<Rightarrow> JStr (int_str (t div 86400000)))\<rparr>"

lemma int_str_not_Nil [simp]: "int_str i \<noteq> []"
  by (simp add: int_str_def)

lemma utc_luxon_ok: "luxon_ok utc_luxon (\<lambda>_. 0) z"
  by (auto simp: luxon_laws utc_luxon_def utc_plus_def utc_shift_def utc_set_def utc_of_json_def
      int_val_int_str)

end
