(* ===== verification/Calculations.thy ===== *)
theory Calculations
  imports JS_Runtime
begin

text \<open>
  \<open>src/src/utils/calculations.js\<close>: the iqamah time of a prayer (\<open>calculateIqamah\<close>) and
  the next prayer of a day (\<open>calculateNextPrayer\<close>). The theorems show that the computed
  iqamah falls on the rounding grid, never before the minute of the requested offset and less
  than one interval after it, and that the next prayer is the earliest one after the given
  instant.
\<close>

section \<open>Iqamah\<close>

definition unit_of :: "rat option \<Rightarrow> unitval" where
  "unit_of v = (case v of None \<Rightarrow> NaN | Some q \<Rightarrow> Num q)"

definition nth_unit :: "unitval list \<Rightarrow> nat \<Rightarrow> unitval" where
  "nth_unit us i = (if i < length us then us ! i else UndefNum)"

definition fixedIqamah :: "'dt luxon \<Rightarrow> json \<Rightarrow> 'dt \<Rightarrow> json res" where
  "fixedIqamah L fixedTime prayerTime =
     (case fixedTime of
        JStr ft \<Rightarrow>
          (let parts = map (\<lambda>p. unit_of (js_number p)) (split_on (CHR '':'') ft) in
           bindR (lx_set L [(''hour'', nth_unit parts 0), (''minute'', nth_unit parts 1),
                            (''second'', Num 0), (''millisecond'', Num 0)] prayerTime)
             (\<lambda>d. Inr (lx_toISO L d)))
      | _ \<Rightarrow> Inl (TypeError ''settings.fixedTime.split is not a function''))"

text \<open>The rounding step: \<open>minute % roundTo\<close> minutes are filled up to the next interval.\<close>

definition roundUp :: "'dt luxon \<Rightarrow> json \<Rightarrow> 'dt \<Rightarrow> 'dt res" where
  "roundUp L roundTo t =
     (case to_number roundTo of
        None \<Rightarrow> Inr t
      | Some r \<Rightarrow>
          if r > 0 then
            (let remainder = js_rem (of_int (lx_minute L t)) r in
             if remainder \<noteq> 0 then lx_plus L ''minutes'' (JNum (r - remainder)) t else Inr t)
          else Inr t)"

definition calculateIqamah :: "'dt luxon \<Rightarrow> json \<Rightarrow> json \<Rightarrow> string \<Rightarrow> json res" where
  "calculateIqamah L prayerStartISO settings timezone =
     (if \<not> truthy prayerStartISO \<or> \<not> truthy settings \<or> timezone = [] then
        Inl (Error ''Invalid arguments passed to calculateIqamah'')
      else
        let prayerTime = lx_setZone L timezone (lx_fromISO L prayerStartISO) in
        if \<not> lx_isValid L prayerTime then Inl (Error ''Invalid prayerStartISO format'')
        else if truthy (jget settings ''fixedTime'') then
          fixedIqamah L (jget settings ''fixedTime'') prayerTime
        else
          bindR (lx_plus L ''minutes'' (jget settings ''iqamahOffset'') prayerTime) (\<lambda>t0.
          bindR (lx_set L [(''second'', Num 0), (''millisecond'', Num 0)] t0) (\<lambda>t1.
          bindR (roundUp L (jget settings ''roundTo'') t1) (\<lambda>t2.
          Inr (lx_toISO L t2)))))"

section \<open>Next prayer\<close>

definition prayerNames :: "string list" where
  "prayerNames = [''fajr'', ''sunrise'', ''dhuhr'', ''asr'', ''maghrib'', ''isha'']"

fun nextPrayerLoop :: "'dt luxon \<Rightarrow> json \<Rightarrow> 'dt \<Rightarrow> string list \<Rightarrow> json" where
  "nextPrayerLoop L prayers now [] = JNull"
| "nextPrayerLoop L prayers now (name # names) =
     (let start = jget (jget prayers name) ''start'' in
      if truthy (jget prayers name) \<and> truthy start \<and> lx_less L now (lx_fromISO L start)
      then JObj [(''name'', JStr name), (''time'', start), (''isTomorrow'', JBool False)]
      else nextPrayerLoop L prayers now names)"

definition calculateNextPrayer :: "'dt luxon \<Rightarrow> json \<Rightarrow> 'dt \<Rightarrow> json" where
  "calculateNextPrayer L prayers now = nextPrayerLoop L prayers now prayerNames"

section \<open>Correctness\<close>

text \<open>Rounding up keeps validity and zone, and moves the instant by less than one interval.\<close>

lemma roundUp_grid:
  assumes ok: "luxon_ok L off z" and v: "lx_isValid L t" and r: "0 < r" "r dvd 60"
    and grid: "lx_valueOf L t mod 60000 = 0"
  obtains t' where "roundUp L (JNum (of_int r)) t = Inr t'" and "lx_isValid L t'"
    and "(lx_valueOf L t' div 60000 + off (lx_zone L t)) mod r = 0"
    and "lx_zone L t' = lx_zone L t"
    and "lx_valueOf L t \<le> lx_valueOf L t'" and "lx_valueOf L t' < lx_valueOf L t + 60000 * r"
proof -
  let ?m = "lx_minute L t" and ?b = "lx_valueOf L t div 60000" and ?o = "off (lx_zone L t)"
  have m: "?m = (?b + ?o) mod 60"
    using ok v by (rule luxon_minute)
  have mr: "?m mod r = (?b + ?o) mod r"
    unfolding m using r(2) by (rule mod_mod_cancel)
  have rem: "js_rem (of_int ?m) (of_int r) = of_int (?m mod r)"
    using r(1) by (rule js_rem_int)
  show thesis
  proof (cases "?m mod r = 0")
    case True
    then have "roundUp L (JNum (of_int r)) t = Inr t"
      using rem by (simp add: roundUp_def Let_def)
    with that [of t] True mr v r show thesis by simp
  next
    case False
    let ?k = "r - ?m mod r"
    obtain t' where t': "lx_plus L ''minutes'' (JNum (of_int ?k)) t = Inr t'" "lx_isValid L t'"
      "lx_zone L t' = lx_zone L t" "lx_valueOf L t' = lx_valueOf L t + 60000 * ?k"
      using luxon_plus_minutes [OF ok v] by blast
    have k: "0 < ?k" "?k < r"
      using False pos_mod_bound [OF r(1), of ?m] pos_mod_sign [OF r(1), of ?m] by linarith+
    have "roundUp L (JNum (of_int r)) t = Inr t'"
      using rem False t'(1) r(1) by (simp add: roundUp_def Let_def)
    moreover have "(lx_valueOf L t' div 60000 + ?o) mod r = 0"
    proof -
      have "lx_valueOf L t' div 60000 = ?b + ?k"
        using t'(4) by simp
      then have "lx_valueOf L t' div 60000 + ?o = (?b + ?o) - (?b + ?o) mod r + r"
        using mr by simp
      then show ?thesis by (simp add: minus_mod_eq_mult_div)
    qed
    ultimately show thesis
      using that [of t'] t' k by simp
  qed
qed

text \<open>
  C27. For a start time Luxon can read, an offset of a whole number of minutes and a rounding
  interval that divides the hour, the calculated iqamah exists; its minute of the hour is a
  multiple of the interval; and with \<open>base\<close> the start plus the offset cut down to the
  minute, it lies in the half-open interval of one rounding step from \<open>base\<close> on.
\<close>

theorem calculateIqamah_on_grid:
  fixes L :: "'dt luxon" and m r :: int
  assumes ok: "luxon_ok L off tz" and tz: "tz \<noteq> []" and startISO: "startISO \<noteq> []"
    and start: "lx_isValid L (lx_fromISO L (JStr startISO))"
    and settings: "is_object s" "\<not> truthy (jget s ''fixedTime'')"
      "jget s ''iqamahOffset'' = JNum (of_int m)" "jget s ''roundTo'' = JNum (of_int r)"
    and r: "0 < r" "r dvd 60"
    and base: "base = (lx_valueOf L (lx_fromISO L (JStr startISO)) div 60000 + m) * 60000"
  shows "\<exists>w. calculateIqamah L (JStr startISO) s tz = Inr (JStr w) \<and>
           lx_minute L (lx_setZone L tz (lx_fromISO L (JStr w))) mod r = 0 \<and>
           base \<le> lx_valueOf L (lx_fromISO L (JStr w)) \<and>
           lx_valueOf L (lx_fromISO L (JStr w)) < base + 60000 * r"
proof -
  let ?p = "lx_setZone L tz (lx_fromISO L (JStr startISO))"
  have p: "lx_isValid L ?p" "lx_zone L ?p = tz"
    "lx_valueOf L ?p = lx_valueOf L (lx_fromISO L (JStr startISO))"
    using luxon_setZone [OF ok start] .
  obtain t0 where t0: "lx_plus L ''minutes'' (JNum (of_int m)) ?p = Inr t0" "lx_isValid L t0"
    "lx_zone L t0 = tz" "lx_valueOf L t0 = lx_valueOf L ?p + 60000 * m"
    using luxon_plus_minutes [OF ok p(1)] p(2) by metis
  obtain t1 where t1: "lx_set L [(''second'', Num 0), (''millisecond'', Num 0)] t0 = Inr t1"
    "lx_isValid L t1" "lx_zone L t1 = tz"
    "lx_valueOf L t1 = lx_valueOf L t0 - lx_valueOf L t0 mod 60000"
    using luxon_zero_seconds [OF ok t0(2)] t0(3) by metis
  have t1b: "lx_valueOf L t1 = base"
    using t0(4) t1(4) p(3) base by (simp add: minus_mod_eq_div_mult)
  then have t1m: "lx_valueOf L t1 mod 60000 = 0"
    using base by simp
  obtain t2 where t2: "roundUp L (JNum (of_int r)) t1 = Inr t2" "lx_isValid L t2"
    "(lx_valueOf L t2 div 60000 + off tz) mod r = 0" "lx_zone L t2 = tz"
    "base \<le> lx_valueOf L t2" "lx_valueOf L t2 < base + 60000 * r"
    using roundUp_grid [OF ok t1(2) r t1m] t1(3) t1b by metis
  obtain w where w: "lx_toISO L t2 = JStr w" "lx_isValid L (lx_fromISO L (JStr w))"
    "lx_valueOf L (lx_fromISO L (JStr w)) = lx_valueOf L t2"
    using luxon_toISO [OF ok t2(2)] by blast
  have "lx_minute L (lx_setZone L tz (lx_fromISO L (JStr w))) =
        (lx_valueOf L t2 div 60000 + off tz) mod 60"
    using luxon_minute [OF ok luxon_setZone(1) [OF ok w(2)]] luxon_setZone [OF ok w(2)] w(3)
    by simp
  then have "lx_minute L (lx_setZone L tz (lx_fromISO L (JStr w))) mod r = 0"
    using t2(3) r(2) by (simp add: mod_mod_cancel)
  moreover have "calculateIqamah L (JStr startISO) s tz = Inr (JStr w)"
    using tz startISO settings is_object_truthy [OF settings(1)] p t0 t1 t2 w
    by (simp add: calculateIqamah_def Let_def)
  ultimately show ?thesis using t2 w by auto
qed

theorem calculateIqamah_on_grid_witness:
  "\<exists>w. calculateIqamah utc_luxon (JStr ''43261000'')
         (JObj [(''iqamahOffset'', JNum 20), (''roundTo'', JNum 15), (''fixedTime'', JNull)])
         ''Europe/London'' = Inr (JStr w) \<and>
       lx_minute utc_luxon (lx_setZone utc_luxon ''Europe/London''
         (lx_fromISO utc_luxon (JStr w))) mod 15 = 0 \<and>
       44460000 \<le> lx_valueOf utc_luxon (lx_fromISO utc_luxon (JStr w)) \<and>
       lx_valueOf utc_luxon (lx_fromISO utc_luxon (JStr w)) < 44460000 + 60000 * 15"
proof -
  have startISO: "lx_fromISO utc_luxon (JStr ''43261000'') = Some (43261000, ''local'')"
    by (simp add: utc_luxon_def utc_of_json_def int_val_def digit_val_def)
  show ?thesis
    by (rule calculateIqamah_on_grid [OF utc_luxon_ok, where m = 20])
       (simp_all add: startISO, simp_all add: utc_luxon_def)
qed

lemma nextPrayerLoop_find:
  "nextPrayerLoop L prayers now names =
     (case find (\<lambda>n. truthy (jget prayers n) \<and> truthy (jget (jget prayers n) ''start'') \<and>
                     lx_less L now (lx_fromISO L (jget (jget prayers n) ''start''))) names of
        None \<Rightarrow> JNull
      | Some n \<Rightarrow> JObj [(''name'', JStr n), (''time'', jget (jget prayers n) ''start''),
                        (''isTomorrow'', JBool False)])"
  by (induction names) (auto simp: Let_def)

text \<open>The prayers of a day are listed in chronological order.\<close>

definition startOf :: "'dt luxon \<Rightarrow> json \<Rightarrow> string \<Rightarrow> 'dt" where
  "startOf L prayers n = lx_fromISO L (jget (jget prayers n) ''start'')"

definition hasStart :: "json \<Rightarrow> string \<Rightarrow> bool" where
  "hasStart prayers n = (truthy (jget prayers n) \<and> truthy (jget (jget prayers n) ''start''))"

definition chronological :: "'dt luxon \<Rightarrow> json \<Rightarrow> bool" where
  "chronological L prayers =
     sorted (map (\<lambda>n. lx_valueOf L (startOf L prayers n))
       (filter (hasStart prayers) prayerNames))"

lemma sorted_find_least:
  assumes "sorted (map f (filter P xs))" "find (\<lambda>x. P x \<and> Q x) xs = Some y"
    "x \<in> set xs" "P x" "Q x"
  shows "f y \<le> f x"
  using assms
proof (induction xs)
  case (Cons a xs)
  then show ?case by (auto split: if_splits)
qed simp

text \<open>
  On a day whose prayer times are in order, \<open>calculateNextPrayer\<close> answers with a prayer
  that starts after \<open>now\<close>, and no prayer of the day that starts after \<open>now\<close> starts
  earlier; it answers \<open>null\<close> exactly when no prayer of the day is still to come.
\<close>

theorem calculateNextPrayer_earliest:
  assumes "chronological L prayers"
  shows "(calculateNextPrayer L prayers now = JNull \<longleftrightarrow>
            (\<forall>n \<in> set prayerNames. hasStart prayers n \<longrightarrow> \<not> lx_less L now (startOf L prayers n))) \<and>
         (calculateNextPrayer L prayers now \<noteq> JNull \<longrightarrow>
            (\<exists>n \<in> set prayerNames.
               calculateNextPrayer L prayers now =
                 JObj [(''name'', JStr n), (''time'', jget (jget prayers n) ''start''),
                       (''isTomorrow'', JBool False)] \<and>
               hasStart prayers n \<and> lx_less L now (startOf L prayers n) \<and>
               (\<forall>n' \<in> set prayerNames. hasStart prayers n' \<and> lx_less L now (startOf L prayers n')
                  \<longrightarrow> lx_valueOf L (startOf L prayers n) \<le> lx_valueOf L (startOf L prayers n'))))"
proof -
  let ?Q = "\<lambda>n. lx_less L now (startOf L prayers n)"
  have loop: "calculateNextPrayer L prayers now =
     (case find (\<lambda>n. hasStart prayers n \<and> ?Q n) prayerNames of None \<Rightarrow> JNull
      | Some n \<Rightarrow> JObj [(''name'', JStr n), (''time'', jget (jget prayers n) ''start''),
                        (''isTomorrow'', JBool False)])"
    by (simp add: calculateNextPrayer_def nextPrayerLoop_find hasStart_def startOf_def
        conj_assoc)
  show ?thesis
  proof (cases "find (\<lambda>n. hasStart prayers n \<and> ?Q n) prayerNames")
    case None
    then have "\<forall>n \<in> set prayerNames. hasStart prayers n \<longrightarrow> \<not> ?Q n"
      by (auto simp: find_None_iff)
    with None show ?thesis unfolding loop by simp
  next
    case (Some n)
    then have n: "n \<in> set prayerNames" "hasStart prayers n" "?Q n"
      by (auto simp: find_Some_iff)
    have "\<forall>n' \<in> set prayerNames. hasStart prayers n' \<and> ?Q n' \<longrightarrow>
        lx_valueOf L (startOf L prayers n) \<le> lx_valueOf L (startOf L prayers n')"
      using sorted_find_least [OF assms [unfolded chronological_def] Some] by blast
    with n show ?thesis unfolding loop using Some by auto
  qed
qed

definition sampleDay :: json where
  "sampleDay =
     JObj [(''fajr'', JObj [(''start'', JStr ''18000000'')]),
           (''dhuhr'', JObj [(''start'', JStr ''43200000'')]),
           (''isha'', JObj [(''start'', JStr ''72000000'')])]"

theorem calculateNextPrayer_earliest_witness:
  "chronological utc_luxon sampleDay \<and>
   calculateNextPrayer utc_luxon sampleDay (Some (20000000, ''local'')) \<noteq> JNull"
proof -
  have c: "chronological utc_luxon sampleDay"
    by (simp add: chronological_def prayerNames_def hasStart_def startOf_def sampleDay_def
        utc_luxon_def utc_of_json_def int_val_def digit_val_def)
  have "hasStart sampleDay ''dhuhr''"
    "lx_less utc_luxon (Some (20000000, ''local'')) (startOf utc_luxon sampleDay ''dhuhr'')"
    by (simp_all add: hasStart_def startOf_def sampleDay_def lx_less_def utc_luxon_def
        utc_of_json_def int_val_def digit_val_def)
  moreover have "''dhuhr'' \<in> set prayerNames" by (simp add: prayerNames_def)
  ultimately show ?thesis
    using c calculateNextPrayer_earliest [OF c, of "Some (20000000, ''local'')"] by blast
qed

end
