(* ===== verification/Node_Paths.thy ===== *)
theory Node_Paths
  imports JS_Runtime "HOL-Library.Sublist"
begin

text \<open>
  Node's POSIX \<open>path\<close> functions as the code uses them (\<open>normalize\<close>, \<open>resolve\<close>,
  \<open>relative\<close>, \<open>join\<close>, \<open>basename\<close>, \<open>extname\<close>) and \<open>isWithinRoot\<close> of
  \<open>src/src/utils/pathUtils.js\<close>. The meaning of an absolute path is the list of its
  segments after \<open>.\<close> and \<open>..\<close> are resolved (\<open>psegs\<close>); the lemmas show that
  \<open>isWithinRoot\<close> implies that the segments of the rootDir are a prefix of the segments of the
  target.
\<close>

definition slash :: char where
  "slash = CHR ''/''"

definition isAbsolute :: "string \<Rightarrow> bool" where
  "isAbsolute p = (p \<noteq> [] \<and> hd p = slash)"

text \<open>\<open>normalizeString\<close>: the accumulator is the list of segments kept so far, last first.\<close>

fun norm_segs :: "bool \<Rightarrow> string list \<Rightarrow> string list \<Rightarrow> string list" where
  "norm_segs allowAbove acc [] = rev acc"
| "norm_segs allowAbove acc (s # ss) =
     (if s = [] \<or> s = ''.'' then norm_segs allowAbove acc ss
      else if s = ''..'' then
        (case acc of
           a # as \<Rightarrow>
             if a \<noteq> ''..'' then norm_segs allowAbove as ss
             else if allowAbove then norm_segs allowAbove (s # acc) ss
             else norm_segs allowAbove acc ss
         | [] \<Rightarrow> if allowAbove then norm_segs allowAbove [s] ss else norm_segs allowAbove [] ss)
      else norm_segs allowAbove (s # acc) ss)"

definition psegs :: "string \<Rightarrow> string list" where
  "psegs p = norm_segs False [] (split_on slash p)"

definition path_normalize :: "string \<Rightarrow> string" where
  "path_normalize p =
     (if p = [] then ''.''
      else
        let trailing = (last p = slash);
            body = join [slash] (norm_segs (\<not> isAbsolute p) [] (split_on slash p)) in
        if body = [] then
          (if isAbsolute p then [slash] else if trailing then ''./'' else ''.'')
        else
          (if isAbsolute p then [slash] else []) @ body @ (if trailing then [slash] else []))"

text \<open>\<open>path.resolve(p)\<close>; \<open>cwd\<close> is the working directory of the process.\<close>

definition path_resolve :: "string \<Rightarrow> string \<Rightarrow> string" where
  "path_resolve cwd p =
     slash # join [slash] (psegs (if isAbsolute p then p else cwd @ slash # p))"

fun strip_common :: "string list \<Rightarrow> string list \<Rightarrow> string list \<times> string list" where
  "strip_common (x # xs) (y # ys) = (if x = y then strip_common xs ys else (x # xs, y # ys))"
| "strip_common xs ys = (xs, ys)"

definition path_relative :: "string \<Rightarrow> string \<Rightarrow> string \<Rightarrow> string" where
  "path_relative cwd from dest =
     (let (f, t) = strip_common (psegs (path_resolve cwd from)) (psegs (path_resolve cwd dest)) in
      join [slash] (replicate (length f) ''..'' @ t))"

definition path_join :: "string \<Rightarrow> string \<Rightarrow> string" where
  "path_join a b = path_normalize (a @ slash # b)"

text \<open>\<open>path.basename\<close> and \<open>path.extname\<close>: trailing separators are ignored.\<close>

definition strip_slashes :: "string \<Rightarrow> string" where
  "strip_slashes p = rev (dropWhile (\<lambda>c. c = slash) (rev p))"

definition path_basename :: "string \<Rightarrow> string" where
  "path_basename p = last (split_on slash (strip_slashes p))"

definition path_extname :: "string \<Rightarrow> string" where
  "path_extname p =
     (let b = path_basename p; ext = takeWhile (\<lambda>c. c \<noteq> CHR ''.'') (rev b);
          stem = drop (length ext) (rev b) in
      if stem = [] \<or> length stem = 1 \<or> b = ''..'' then []
      else CHR ''.'' # rev ext)"

section \<open>isWithinRoot\<close>

definition isWithinRoot :: "string \<Rightarrow> string \<Rightarrow> bool" where
  "isWithinRoot rootPath targetPath =
     (if \<not> isAbsolute rootPath \<or> \<not> isAbsolute targetPath then False
      else
        let normalizedRoot = path_normalize rootPath;
            normalizedTarget = path_normalize targetPath;
            relativePath = path_relative [slash] normalizedRoot normalizedTarget in
        relativePath = [] \<or>
        (\<not> startsWith relativePath ''..'' \<and> \<not> isAbsolute relativePath))"

section \<open>Segments\<close>

text \<open>An ordinary segment is a directory entry name.\<close>

definition ordinary :: "string \<Rightarrow> bool" where
  "ordinary s = (s \<noteq> [] \<and> s \<noteq> ''.'' \<and> s \<noteq> ''..'' \<and> slash \<notin> set s)"

lemma norm_segs_ordinary:
  assumes "\<forall>s \<in> set ss. slash \<notin> set s" "\<forall>a \<in> set acc. ordinary a"
  shows "\<forall>s \<in> set (norm_segs False acc ss). ordinary s"
  using assms
proof (induction ss arbitrary: acc)
  case (Cons s ss)
  consider "s = [] \<or> s = ''.''" | "s = ''..''" | "ordinary s"
    using Cons.prems(1) by (auto simp: ordinary_def)
  then show ?case
  proof cases
    case 2
    show ?thesis
    proof (cases acc)
      case Nil
      with 2 Cons.IH [of "[]"] Cons.prems show ?thesis by simp
    next
      case (Cons a as)
      then have "a \<noteq> ''..''" using Cons.prems(2) by (auto simp: ordinary_def)
      with 2 Cons Cons.IH [of as] Cons.prems show ?thesis by simp
    qed
  next
    case 3
    then have eq: "norm_segs False acc (s # ss) = norm_segs False (s # acc) ss"
      by (simp add: ordinary_def)
    show ?thesis unfolding eq by (rule Cons.IH) (use 3 Cons.prems in auto)
  qed (use Cons in auto)
qed simp

lemma psegs_ordinary: "\<forall>s \<in> set (psegs p). ordinary s"
  unfolding psegs_def by (rule norm_segs_ordinary) (auto dest: split_on_no_delim)

lemma norm_segs_id: "\<forall>s \<in> set ss. ordinary s \<Longrightarrow> norm_segs b acc ss = rev acc @ ss"
  by (induction ss arbitrary: acc) (auto simp: ordinary_def)

lemma norm_segs_Nil_end: "norm_segs b acc (ss @ [[]]) = norm_segs b acc ss"
  by (induction b acc ss rule: norm_segs.induct) (auto split: list.splits)

lemma norm_segs_append_ordinary:
  "\<forall>s \<in> set ss. ordinary s \<Longrightarrow> norm_segs b acc (ss @ ts) = norm_segs b (rev ss @ acc) ts"
  by (induction ss arbitrary: acc) (auto simp: ordinary_def)

lemma ordinary_no_slash: "\<forall>s \<in> set ss. ordinary s \<Longrightarrow> \<forall>w \<in> set ss. slash \<notin> set w"
  by (simp add: ordinary_def)

lemma psegs_join: "\<forall>s \<in> set ss. ordinary s \<Longrightarrow> psegs (slash # join [slash] ss) = ss"
  using split_on_join [of ss slash] ordinary_no_slash [of ss]
  by (cases "ss = []") (simp_all add: psegs_def norm_segs_id)

lemma psegs_join_slash:
  assumes "\<forall>s \<in> set ss. ordinary s" "ss \<noteq> []"
  shows "psegs (slash # join [slash] ss @ [slash]) = ss"
proof -
  have "join [slash] ss @ [slash] = join [slash] (ss @ [[]])"
    using assms(2) by (simp add: join_snoc)
  moreover have "split_on slash (join [slash] (ss @ [[]])) = ss @ [[]]"
    using ordinary_no_slash [OF assms(1)] by (intro split_on_join) auto
  ultimately show ?thesis
    using norm_segs_id [OF assms(1)] by (simp add: psegs_def norm_segs_Nil_end)
qed

lemma join_Nil_iff: "\<forall>s \<in> set ss. ordinary s \<Longrightarrow> join [slash] ss = [] \<longleftrightarrow> ss = []"
  by (cases ss; cases "tl ss") (auto simp: ordinary_def)

lemma psegs_resolve: "isAbsolute p \<Longrightarrow> psegs (path_resolve cwd p) = psegs p"
  by (simp add: path_resolve_def psegs_join psegs_ordinary)

lemma path_normalize_absolute:
  assumes "isAbsolute p"
  shows "path_normalize p =
    (if psegs p = [] then [slash]
     else slash # join [slash] (psegs p) @ (if last p = slash then [slash] else []))"
proof -
  have "norm_segs False [] (split_on slash p) = psegs p" by (simp add: psegs_def)
  moreover have "p \<noteq> []" using assms by (simp add: isAbsolute_def)
  ultimately show ?thesis
    using assms psegs_ordinary [of p] by (simp add: path_normalize_def Let_def join_Nil_iff)
qed

lemma psegs_normalize: "isAbsolute p \<Longrightarrow> psegs (path_normalize p) = psegs p"
  using psegs_ordinary [of p] psegs_join [of "[]"]
  by (simp add: path_normalize_absolute psegs_join psegs_join_slash)

lemma isAbsolute_normalize: "isAbsolute p \<Longrightarrow> isAbsolute (path_normalize p)"
  by (auto simp: path_normalize_def Let_def isAbsolute_def)

lemma strip_common_prefix: "strip_common xs ys = ([], zs) \<longleftrightarrow> ys = xs @ zs"
  by (induction xs ys rule: strip_common.induct) auto

lemma startsWith_dotdot: "startsWith (join [slash] (''..'' # ss)) ''..''"
  by (cases ss) (simp_all add: startsWith_def)

text \<open>Containment in terms of segments.\<close>

definition contained :: "string \<Rightarrow> string \<Rightarrow> bool" where
  "contained rootDir p = (isAbsolute p \<and> prefix (psegs rootDir) (psegs p))"

lemma isWithinRoot_contained:
  assumes "isWithinRoot rootDir p"
  shows "contained rootDir p"
proof -
  have abs: "isAbsolute rootDir" "isAbsolute p"
    using assms by (auto simp: isWithinRoot_def split: if_splits)
  obtain f t where ft: "strip_common (psegs rootDir) (psegs p) = (f, t)" by fastforce
  have rel: "path_relative [slash] (path_normalize rootDir) (path_normalize p) =
      join [slash] (replicate (length f) ''..'' @ t)"
    using abs ft
    by (simp add: path_relative_def psegs_resolve psegs_normalize isAbsolute_normalize)
  have "f = []"
  proof (rule ccontr)
    assume "f \<noteq> []"
    then obtain n where n: "length f = Suc n" by (cases f) auto
    have sw: "startsWith (join [slash] (replicate (length f) ''..'' @ t)) ''..''"
      unfolding n using startsWith_dotdot [of "replicate n ''..'' @ t"] by simp
    moreover have "join [slash] (replicate (length f) ''..'' @ t) \<noteq> []"
      using sw by (auto simp: startsWith_def)
    ultimately show False
      using assms abs rel by (simp add: isWithinRoot_def Let_def)
  qed
  with ft abs show ?thesis
    by (simp add: contained_def strip_common_prefix)
qed

lemma isWithinRoot_iff:
  assumes abs: "isAbsolute rootDir" "isAbsolute p" and segs: "psegs p = psegs rootDir @ t"
  shows "isWithinRoot rootDir p \<longleftrightarrow> t = [] \<or> \<not> startsWith (hd t) ''..''"
proof -
  have rel: "path_relative [slash] (path_normalize rootDir) (path_normalize p) = join [slash] t"
    using abs segs strip_common_prefix [of "psegs rootDir" "psegs p" t]
    by (simp add: path_relative_def psegs_resolve psegs_normalize isAbsolute_normalize)
  have ordt: "\<forall>s \<in> set t. ordinary s"
    using psegs_ordinary [of p] segs by auto
  show ?thesis
  proof (cases t)
    case Nil
    then show ?thesis using abs rel by (simp add: isWithinRoot_def)
  next
    case (Cons a as)
    have a: "ordinary a" using ordt Cons by simp
    have j: "join [slash] t = a @ (if as = [] then [] else slash # join [slash] as)"
      using Cons by (cases as) auto
    have "\<not> isAbsolute (join [slash] t)"
      using a j by (cases a) (auto simp: isAbsolute_def ordinary_def)
    moreover have "startsWith (join [slash] t) ''..'' = startsWith a ''..''"
    proof -
      have "take 2 (join [slash] t) = ''..'' \<longleftrightarrow> take 2 a = ''..''"
      proof (cases "length a \<ge> 2")
        case True
        then show ?thesis unfolding j by simp
      next
        case False
        with a obtain c where c: "a = [c]" "c \<noteq> CHR ''.''"
          by (cases a; cases "tl a") (auto simp: ordinary_def)
        then show ?thesis unfolding j by (auto simp: slash_def)
      qed
      then show ?thesis by (simp add: startsWith_def numeral_2_eq_2)
    qed
    moreover have "join [slash] t \<noteq> []"
      using ordt Cons by (simp add: join_Nil_iff)
    ultimately show ?thesis
      using abs rel Cons by (simp add: isWithinRoot_def Let_def)
  qed
qed

end
