(* ===== verification/Audio_Source.thy ===== *)
theory Audio_Source
  imports Node_Paths
begin

text \<open>
  \<open>src/src/utils/normalizeSource.js\<close>: every audio source, whatever its shape, becomes a file
  inside the audio directory or an http(s) URL, or is refused. Also the file-name checks of
  \<open>src/src/controllers/settingsController.js\<close> (\<open>sanitizeFilename\<close>) and of the upload
  middleware. \<open>audioRoot\<close> is the absolute audio directory of the installation and \<open>cwd\<close>
  the working directory of the process. The theorems show that no accepted source leaves the
  audio directory or uses another protocol.
\<close>

section \<open>normalizeSource\<close>

datatype execSource = FileSource string string | UrlSource string

definition PUBLIC_AUDIO_PREFIX :: string where
  "PUBLIC_AUDIO_PREFIX = ''/public/audio/''"

definition is_alpha :: "char \<Rightarrow> bool" where
  "is_alpha c =
     (65 \<le> (of_char c :: nat) \<and> (of_char c :: nat) \<le> 90 \<or>
      97 \<le> (of_char c :: nat) \<and> (of_char c :: nat) \<le> 122)"

definition is_digit :: "char \<Rightarrow> bool" where
  "is_digit c = (48 \<le> (of_char c :: nat) \<and> (of_char c :: nat) \<le> 57)"

text \<open>\<open>/^[a-zA-Z][a-zA-Z0-9+.-]*:/i\<close>\<close>

definition scheme_char :: "char \<Rightarrow> bool" where
  "scheme_char c = (is_alpha c \<or> is_digit c \<or> c \<in> set ''+.-'')"

definition hasProtocol :: "string \<Rightarrow> bool" where
  "hasProtocol url =
     (case url of
        [] \<Rightarrow> False
      | c # cs \<Rightarrow> is_alpha c \<and> (case dropWhile scheme_char cs of [] \<Rightarrow> False | d # _ \<Rightarrow> d = CHR '':''))"

text \<open>\<open>/^https?:\/\//i\<close>\<close>

definition isHttpUrl :: "string \<Rightarrow> bool" where
  "isHttpUrl url =
     (startsWith (toLowerCase url) ''http://'' \<or> startsWith (toLowerCase url) ''https://'')"

definition validateUrlProtocol :: "string \<Rightarrow> unit res" where
  "validateUrlProtocol url =
     (if isHttpUrl url then Inr () else Inl (Error ''Only http and https URLs are allowed''))"

definition validatePathTraversal :: "string \<Rightarrow> string \<Rightarrow> unit res" where
  "validatePathTraversal audioRoot absolutePath =
     (if isWithinRoot audioRoot absolutePath then Inr ()
      else Inl (Error ''Path traversal detected: resolved path is outside audio directory''))"

text \<open>\<open>typeof v === "string" && v.length > 0\<close>\<close>

fun nonempty_str :: "json \<Rightarrow> bool" where
  "nonempty_str (JStr s) = (s \<noteq> [])"
| "nonempty_str _ = False"

fun the_str :: "json \<Rightarrow> string" where
  "the_str (JStr s) = s"
| "the_str _ = []"

definition drop_leading_slash :: "string \<Rightarrow> string" where
  "drop_leading_slash s = (case s of [] \<Rightarrow> [] | c # cs \<Rightarrow> if c = slash then cs else s)"

definition buildFileSource ::
  "string \<Rightarrow> string \<Rightarrow> json \<Rightarrow> bool \<Rightarrow> bool \<Rightarrow> bool \<Rightarrow> execSource res" where
  "buildFileSource audioRoot cwd source hasPath hasFilePath hasUrl =
     bindR
       (if hasPath then Inr (drop_leading_slash (the_str (jget source ''path'')))
        else if hasFilePath then
          Inr (path_relative cwd audioRoot (the_str (jget source ''filePath'')))
        else if hasUrl \<and> startsWith (the_str (jget source ''url'')) PUBLIC_AUDIO_PREFIX then
          Inr (drop (length PUBLIC_AUDIO_PREFIX) (the_str (jget source ''url'')))
        else Inl (Error ''Invalid source: could not determine source type''))
       (\<lambda>rel.
          let relativePath = join ''/'' (split_on slash rel);
              absolutePath =
                (if hasFilePath then path_normalize (the_str (jget source ''filePath''))
                 else path_normalize (audioRoot @ [slash] @ relativePath));
              url = (if hasUrl then the_str (jget source ''url'')
                     else PUBLIC_AUDIO_PREFIX @ relativePath) in
          bindR (validatePathTraversal audioRoot absolutePath)
            (\<lambda>_. Inr (FileSource absolutePath url)))"

definition normalizeSource :: "string \<Rightarrow> string \<Rightarrow> json \<Rightarrow> execSource res" where
  "normalizeSource audioRoot cwd source =
     (let hasPath = nonempty_str (jget source ''path'');
          hasFilePath = nonempty_str (jget source ''filePath'');
          hasUrl = nonempty_str (jget source ''url'');
          url = the_str (jget source ''url'') in
      if \<not> typeof_object source then Inl (Error ''Invalid source: must be a non-null object'')
      else if jget source ''type'' = JStr ''file'' then
        (if \<not> hasFilePath \<and> \<not> hasUrl then
           Inl (Error ''Invalid source: typed file source requires filePath or url'')
         else
           bindR (if hasUrl \<and> hasProtocol url then validateUrlProtocol url else Inr ())
             (\<lambda>_. buildFileSource audioRoot cwd source False hasFilePath hasUrl))
      else if jget source ''type'' = JStr ''url'' then
        (if \<not> hasUrl then Inl (Error ''Invalid source: typed url source requires url'')
         else bindR (validateUrlProtocol url) (\<lambda>_. Inr (UrlSource url)))
      else if \<not> hasPath \<and> \<not> hasFilePath \<and> \<not> hasUrl then
        Inl (Error ''Invalid source: must contain at least one of path, filePath, or url'')
      else if hasUrl \<and> hasProtocol url then
        bindR (validateUrlProtocol url) (\<lambda>_. Inr (UrlSource url))
      else buildFileSource audioRoot cwd source hasPath hasFilePath hasUrl)"

section \<open>File names from requests\<close>

text \<open>\<open>/[^\w._-]/g\<close> replaced by an underscore\<close>

definition safe_name_char :: "char \<Rightarrow> bool" where
  "safe_name_char c = (is_alpha c \<or> is_digit c \<or> c \<in> set ''_.-'')"

definition underscored :: "string \<Rightarrow> string" where
  "underscored = map (\<lambda>c. if safe_name_char c then c else CHR ''_'')"

definition sanitizeFilename :: "json \<Rightarrow> string res" where
  "sanitizeFilename raw =
     (case raw of
        JStr s \<Rightarrow>
          if s = [] then Inl (Error ''Invalid filename'')
          else
            let cleaned = underscored (path_basename s) in
            if cleaned = [] \<or> cleaned \<noteq> s \<or> cleaned = ''.'' \<or> cleaned = ''..''
            then Inl (Error ''Invalid filename'') else Inr cleaned
      | _ \<Rightarrow> Inl (Error ''Invalid filename''))"

text \<open>The name under which the upload middleware stores a file: \<open>/[^a-z0-9.]/gi\<close> replaced.\<close>

definition uploadFilename :: "string \<Rightarrow> string" where
  "uploadFilename originalname =
     map (\<lambda>c. if is_alpha c \<or> is_digit c \<or> c = CHR ''.'' then c else CHR ''_'')
       (path_basename originalname)"

definition audioExtensions :: "string list" where
  "audioExtensions = [''.mp3'', ''.wav'', ''.aac'', ''.ogg'', ''.opus'', ''.flac'', ''.m4a'']"

definition uploadFileFilter :: "string \<Rightarrow> string \<Rightarrow> unit res" where
  "uploadFileFilter mimetype originalname =
     (if startsWith mimetype ''audio/'' \<or>
         toLowerCase (path_extname originalname) \<in> set audioExtensions
      then Inr () else Inl (Error ''Only audio files are allowed''))"

section \<open>Safety\<close>

lemma isWithinRoot_absolute: "isWithinRoot r p \<Longrightarrow> isAbsolute r \<and> isAbsolute p"
  by (auto simp: isWithinRoot_def split: if_splits)

lemma buildFileSource_Inr:
  assumes "buildFileSource audioRoot cwd source hasPath hasFilePath hasUrl = Inr x"
  obtains f u where "x = FileSource f u" "isWithinRoot audioRoot f"
    "hasUrl \<longrightarrow> u = the_str (jget source ''url'')"
    "\<not> hasUrl \<longrightarrow> startsWith u PUBLIC_AUDIO_PREFIX"
  using assms that unfolding buildFileSource_def bindR_Inr validatePathTraversal_def Let_def
  by (auto split: if_splits)

lemma hasProtocol_prefix: "startsWith u PUBLIC_AUDIO_PREFIX \<Longrightarrow> \<not> hasProtocol u"
  by (auto simp: startsWith_iff PUBLIC_AUDIO_PREFIX_def hasProtocol_def is_alpha_def)

lemma normalizeSource_UrlSource:
  "normalizeSource audioRoot cwd source = Inr (UrlSource url) \<Longrightarrow> isHttpUrl url"
  by (auto simp: normalizeSource_def Let_def bindR_Inr validateUrlProtocol_def
      elim: buildFileSource_Inr split: if_splits)

lemma normalizeSource_FileSource:
  assumes "normalizeSource audioRoot cwd source = Inr (FileSource f u)"
  shows "isWithinRoot audioRoot f" "hasProtocol u \<longrightarrow> isHttpUrl u"
proof -
  obtain hp hf hu where b: "buildFileSource audioRoot cwd source hp hf hu = Inr (FileSource f u)"
    and hu: "hu = nonempty_str (jget source ''url'')"
    and pr: "hu \<and> hasProtocol (the_str (jget source ''url'')) \<longrightarrow>
             isHttpUrl (the_str (jget source ''url''))"
    using assms
    by (auto simp: normalizeSource_def Let_def bindR_Inr validateUrlProtocol_def split: if_splits)
  show "isWithinRoot audioRoot f" "hasProtocol u \<longrightarrow> isHttpUrl u"
    using buildFileSource_Inr [OF b] pr hasProtocol_prefix by (metis execSource.inject(1))+
qed

lemma isWithinRoot_no_dotdot: "isWithinRoot r f \<Longrightarrow> contained r f \<and> ''..'' \<notin> set (psegs f)"
  using psegs_ordinary [of f] by (auto simp: isWithinRoot_contained ordinary_def)

text \<open>
  C7. Whatever the shape of the source a caller passes, a source that \<open>normalizeSource\<close>
  accepts is either an http(s) URL or a file whose absolute path, with all dot segments
  resolved, lies below the audio directory, together with a URL that is relative or http(s).
\<close>

theorem normalizeSource_contained:
  assumes "normalizeSource audioRoot cwd source = Inr x"
  shows "case x of
           FileSource filePath url \<Rightarrow>
             contained audioRoot filePath \<and> ''..'' \<notin> set (psegs filePath) \<and>
             (hasProtocol url \<longrightarrow> isHttpUrl url)
         | UrlSource url \<Rightarrow> isHttpUrl url"
  using assms normalizeSource_UrlSource normalizeSource_FileSource isWithinRoot_no_dotdot
  by (cases x) (simp_all, blast)

definition sampleRoot :: string where
  "sampleRoot = ''/app/public/audio''"

theorem normalizeSource_contained_witness:
  "normalizeSource sampleRoot ''/app'' (JObj [(''path'', JStr ''custom/a.mp3'')]) =
     Inr (FileSource ''/app/public/audio/custom/a.mp3'' ''/public/audio/custom/a.mp3'') \<and>
   contained sampleRoot ''/app/public/audio/custom/a.mp3''"
proof -
  have "normalizeSource sampleRoot ''/app'' (JObj [(''path'', JStr ''custom/a.mp3'')]) =
     Inr (FileSource ''/app/public/audio/custom/a.mp3'' ''/public/audio/custom/a.mp3'')"
    by code_simp
  with normalizeSource_contained [OF this] show ?thesis by simp
qed

text \<open>Ordinary relative paths are accepted.\<close>

lemma norm_root_segs:
  assumes "isAbsolute r" "\<forall>s \<in> set ss. ordinary s"
  shows "psegs (r @ [slash] @ join [slash] ss) = psegs r @ ss"
proof -
  have *: "norm_segs False acc (split_on slash (u @ slash # join [slash] ss)) =
      norm_segs False acc (split_on slash u) @ ss" for acc u
  proof -
    have sp: "split_on slash (u @ slash # w) = split_on slash u @ split_on slash w" for w
      by (induction u) (auto split: list.splits)
    have ss: "norm_segs False a (split_on slash (join [slash] ss)) = rev a @ ss" for a
      using split_on_join [of ss slash] ordinary_no_slash [OF assms(2)] norm_segs_id [OF assms(2)]
      by (cases "ss = []") simp_all
    have "norm_segs False a (xs @ split_on slash (join [slash] ss)) = norm_segs False a xs @ ss"
      for a xs
      by (induction xs arbitrary: a) (auto simp: ss split: list.splits)
    then show ?thesis by (simp add: sp)
  qed
  show ?thesis using * [of "[]" r] by (simp add: psegs_def)
qed

text \<open>
  A relative path of ordinary directory entry names, as the automation service and the
  file manager produce them, is accepted: it denotes the file below the audio directory with
  exactly these segments, and its public URL is the audio prefix followed by the path.
\<close>

theorem normalizeSource_accepts:
  assumes rootDir: "isAbsolute audioRoot"
    and ss: "ss \<noteq> []" "\<forall>s \<in> set ss. ordinary s" "\<not> startsWith (hd ss) ''..''"
  shows "\<exists>f. normalizeSource audioRoot cwd (JObj [(''path'', JStr (join ''/'' ss))]) =
               Inr (FileSource f (PUBLIC_AUDIO_PREFIX @ join ''/'' ss)) \<and>
             psegs f = psegs audioRoot @ ss"
proof -
  let ?rel = "join [slash] ss" and ?f = "path_normalize (audioRoot @ [slash] @ join [slash] ss)"
  have sl: "''/'' = [slash]" by (simp add: slash_def)
  have ne: "?rel \<noteq> []" using ss by (simp add: join_Nil_iff)
  obtain c cs where c: "?rel = c # cs" "c \<noteq> slash"
    using ss(1,2) by (cases ss; cases "tl ss"; cases "hd ss") (auto simp: ordinary_def)
  have abs: "isAbsolute (audioRoot @ [slash] @ ?rel)"
    using rootDir by (simp add: isAbsolute_def hd_append)
  have segs: "psegs ?f = psegs audioRoot @ ss"
    using psegs_normalize [OF abs] norm_root_segs [OF rootDir ss(2)] by simp
  have "isWithinRoot audioRoot ?f"
    using isWithinRoot_iff [OF rootDir isAbsolute_normalize [OF abs] segs] ss by simp
  moreover have "drop_leading_slash ?rel = ?rel"
    using c by (simp add: drop_leading_slash_def)
  ultimately have "normalizeSource audioRoot cwd (JObj [(''path'', JStr ?rel)]) =
      Inr (FileSource ?f (PUBLIC_AUDIO_PREFIX @ ?rel))"
    using ne by (simp add: normalizeSource_def Let_def buildFileSource_def validatePathTraversal_def
        sl join_split_on)
  with segs show ?thesis unfolding sl by blast
qed

theorem normalizeSource_accepts_witness:
  "\<exists>f. normalizeSource sampleRoot ''/app'' (JObj [(''path'', JStr (join ''/'' [''cache'', ''x.mp3'']))]) =
         Inr (FileSource f (PUBLIC_AUDIO_PREFIX @ join ''/'' [''cache'', ''x.mp3''])) \<and>
       psegs f = psegs sampleRoot @ [''cache'', ''x.mp3'']"
  by (rule normalizeSource_accepts)
     (simp_all add: isAbsolute_def sampleRoot_def slash_def ordinary_def startsWith_def)

lemma basename_no_slash: "slash \<notin> set (path_basename p)"
  unfolding path_basename_def by (rule split_on_no_delim) (rule last_in_set, simp)

lemma basename_plain: "slash \<notin> set s \<Longrightarrow> path_basename s = s"
proof -
  assume s: "slash \<notin> set s"
  have "s = [] \<or> last s \<noteq> slash"
    using s last_in_set [of s] by fastforce
  then have "dropWhile (\<lambda>c. c = slash) (rev s) = rev s"
    by (auto simp: dropWhile_eq_self_iff hd_rev)
  then have "strip_slashes s = s" by (simp add: strip_slashes_def)
  with s show ?thesis by (simp add: path_basename_def split_on_word)
qed

lemma safe_char_slash [simp]: "\<not> safe_name_char slash"
  by (simp add: safe_name_char_def is_alpha_def is_digit_def slash_def)

lemma underscored_safe: "c \<in> set (underscored t) \<Longrightarrow> safe_name_char c"
  by (auto simp: underscored_def safe_name_char_def split: if_splits)

lemma underscored_id: "\<forall>c \<in> set t. safe_name_char c \<Longrightarrow> underscored t = t"
  by (induction t) (auto simp: underscored_def)

lemma sanitized_fixpoint:
  "underscored (path_basename s) = s \<longleftrightarrow> (\<forall>c \<in> set s. safe_name_char c)"
proof
  assume "underscored (path_basename s) = s"
  then show "\<forall>c \<in> set s. safe_name_char c" using underscored_safe by metis
next
  assume safe: "\<forall>c \<in> set s. safe_name_char c"
  then have "slash \<notin> set s" using safe_char_slash by blast
  with safe show "underscored (path_basename s) = s"
    by (simp add: basename_plain underscored_id)
qed

lemma sanitizeFilename_iff:
  "sanitizeFilename raw = Inr f \<longleftrightarrow>
      raw = JStr f \<and> f \<noteq> [] \<and> f \<noteq> ''.'' \<and> f \<noteq> ''..'' \<and> (\<forall>c \<in> set f. safe_name_char c)"
proof (cases raw)
  case (JStr s)
  then show ?thesis
    using sanitized_fixpoint [of s]
    by (cases "underscored (path_basename s) = s") (auto simp: sanitizeFilename_def)
qed (auto simp: sanitizeFilename_def)

lemma sanitizeFilename_ordinary: "sanitizeFilename raw = Inr f \<Longrightarrow> ordinary f"
  using safe_char_slash unfolding ordinary_def sanitizeFilename_iff by blast

text \<open>
  \<open>sanitizeFilename\<close> accepts exactly the non-empty strings over letters, digits,
  underscore, dot and hyphen that are not a dot segment, and returns them unchanged; joined to
  a directory such a name denotes an entry of that very directory.
\<close>

theorem sanitizeFilename_exact:
  "(sanitizeFilename raw = Inr f \<longleftrightarrow>
      raw = JStr f \<and> f \<noteq> [] \<and> f \<noteq> ''.'' \<and> f \<noteq> ''..'' \<and> (\<forall>c \<in> set f. safe_name_char c)) \<and>
   (sanitizeFilename raw = Inr f \<and> isAbsolute dir \<longrightarrow>
      psegs (dir @ [slash] @ f) = psegs dir @ [f])"
  using sanitizeFilename_iff sanitizeFilename_ordinary norm_root_segs [of dir "[f]"] by auto

theorem sanitizeFilename_exact_witness:
  "sanitizeFilename (JStr ''adhan-1.mp3'') = Inr ''adhan-1.mp3'' \<and>
   psegs (sampleRoot @ [slash] @ ''adhan-1.mp3'') = psegs sampleRoot @ [''adhan-1.mp3'']"
proof -
  have "sanitizeFilename (JStr ''adhan-1.mp3'') = Inr ''adhan-1.mp3''" by code_simp
  moreover have "isAbsolute sampleRoot" by code_simp
  ultimately show ?thesis
    using sanitizeFilename_exact [of "JStr ''adhan-1.mp3''" "''adhan-1.mp3''" sampleRoot] by blast
qed

end
