(* ===== verification/Async_Lock.thy ===== *)
theory Async_Lock
  imports JS_Runtime
begin

text \<open>
  Deduplication of concurrent operations: \<open>AsyncLock\<close> of \<open>src/src/utils/asyncLock.js\<close>
  and \<open>deduplicateRequest\<close> of \<open>src/src/providers/BaseProvider.js\<close>. A promise is a
  number, the operations started so far are listed in the order of their promises, and settling
  a promise (with a value or an error) is a step of its own, so every interleaving of calls and
  settlements is a sequence of steps. The locale \<open>single_flight\<close> is the contract both
  implementations promise; the client facts are proved from it once.
\<close>

section \<open>The contract\<close>

locale single_flight =
  fixes inv :: "'s \<Rightarrow> bool"
    and request :: "string \<Rightarrow> 'f \<Rightarrow> 's \<Rightarrow> nat \<times> 's"
    and settle :: "nat \<Rightarrow> 'r \<Rightarrow> 's \<Rightarrow> 's"
    and flying :: "'s \<Rightarrow> string \<Rightarrow> nat option"
  assumes inv_request: "inv s \<Longrightarrow> inv (snd (request k f s))"
    and inv_settle: "inv s \<Longrightarrow> flying s k = Some p \<Longrightarrow> inv (settle p r s)"
    and request_joins: "inv s \<Longrightarrow> flying s k = Some p \<Longrightarrow> request k f s = (p, s)"
    and request_starts:
      "inv s \<Longrightarrow> flying s k = None \<Longrightarrow>
       flying (snd (request k f s)) = (flying s)(k \<mapsto> fst (request k f s))"
    and request_fresh: "inv s \<Longrightarrow> flying s k = None \<Longrightarrow> fst (request k f s) \<notin> ran (flying s)"
    and settle_frees: "inv s \<Longrightarrow> flying s k = Some p \<Longrightarrow> flying (settle p r s) = (flying s)(k := None)"
    and one_key: "inv s \<Longrightarrow> flying s k = Some p \<Longrightarrow> flying s k' = Some p \<Longrightarrow> k = k'"
begin

lemma request_flying: "inv s \<Longrightarrow> flying (snd (request k f s)) k = Some (fst (request k f s))"
  by (cases "flying s k") (simp_all add: request_joins request_starts)

lemma request_again:
  assumes "inv s"
  shows "request k g (snd (request k f s)) = (fst (request k f s), snd (request k f s))"
  using assms by (simp add: inv_request request_joins request_flying)

lemma request_other_key:
  assumes "inv s" "k \<noteq> k'"
  shows "flying (snd (request k f s)) k' = flying s k'"
  using assms by (cases "flying s k") (simp_all add: request_joins request_starts)

lemma request_distinct:
  assumes "inv s" "k \<noteq> k'"
  shows "fst (request k f s) \<noteq> fst (request k' g (snd (request k f s)))"
proof -
  let ?s = "snd (request k f s)"
  have i: "inv ?s" using assms(1) by (rule inv_request)
  have fk: "flying ?s k = Some (fst (request k f s))" using assms(1) by (rule request_flying)
  show ?thesis
  proof (cases "flying ?s k'")
    case None
    with i fk show ?thesis using request_fresh [OF i None, of g] by (auto simp: ran_def)
  next
    case (Some q)
    with i have "request k' g ?s = (q, ?s)" by (simp add: request_joins)
    with one_key [OF i fk] Some assms(2) show ?thesis by auto
  qed
qed

lemma settle_restarts:
  assumes "inv s" "flying s k = Some p"
  shows "flying (settle p r s) k = None" "fst (request k f (settle p r s)) \<notin> ran (flying (settle p r s))"
proof -
  show free: "flying (settle p r s) k = None" using assms by (simp add: settle_frees)
  show "fst (request k f (settle p r s)) \<notin> ran (flying (settle p r s))"
    using inv_settle [OF assms] free by (rule request_fresh)
qed

end

section \<open>AsyncLock\<close>

record ('f, 'r) asyncLock =
  pending :: "string \<rightharpoonup> nat"
  started :: "(string \<times> 'f) list"
  outcome :: "nat \<rightharpoonup> 'r"

definition newAsyncLock :: "('f, 'r) asyncLock" where
  "newAsyncLock = \<lparr>pending = Map.empty, started = [], outcome = Map.empty\<rparr>"

text \<open>
  \<open>run(key, fn)\<close> up to its first await: the promise the caller gets. The body of \<open>fn\<close>
  runs until the promise is settled by \<open>settleLock\<close>, whose \<open>finally\<close> deletes the key.
\<close>

definition runLock :: "string \<Rightarrow> 'f \<Rightarrow> ('f, 'r) asyncLock \<Rightarrow> nat \<times> ('f, 'r) asyncLock" where
  "runLock key fn s =
     (case pending s key of
        Some p \<Rightarrow> (p, s)
      | None \<Rightarrow>
          let p = length (started s) in
          (p, s\<lparr>pending := (pending s)(key \<mapsto> p), started := started s @ [(key, fn)]\<rparr>))"

definition settleLock :: "nat \<Rightarrow> 'r \<Rightarrow> ('f, 'r) asyncLock \<Rightarrow> ('f, 'r) asyncLock" where
  "settleLock p r s =
     (if p < length (started s) \<and> outcome s p = None
      then s\<lparr>pending := (pending s)(fst (started s ! p) := None), outcome := (outcome s)(p \<mapsto> r)\<rparr>
      else s)"

inductive lock_step :: "('f, 'r) asyncLock \<Rightarrow> ('f, 'r) asyncLock \<Rightarrow> bool" where
  call: "lock_step s (snd (runLock key fn s))"
| settled: "p < length (started s) \<Longrightarrow> outcome s p = None \<Longrightarrow> lock_step s (settleLock p r s)"

inductive lock_reachable :: "('f, 'r) asyncLock \<Rightarrow> bool" where
  init: "lock_reachable newAsyncLock"
| step: "lock_reachable s \<Longrightarrow> lock_step s t \<Longrightarrow> lock_reachable t"

text \<open>A key is pending exactly for the one unsettled operation that was started for it.\<close>

definition lock_inv :: "('f, 'r) asyncLock \<Rightarrow> bool" where
  "lock_inv s =
     ((\<forall>k p. pending s k = Some p \<longleftrightarrow>
         p < length (started s) \<and> fst (started s ! p) = k \<and> outcome s p = None) \<and>
      dom (outcome s) \<subseteq> {..<length (started s)})"

lemma lock_inv_init: "lock_inv newAsyncLock"
  by (simp add: lock_inv_def newAsyncLock_def)

lemma lock_inv_pending:
  "lock_inv s \<Longrightarrow> pending s k = Some p \<longleftrightarrow>
     p < length (started s) \<and> fst (started s ! p) = k \<and> outcome s p = None"
  unfolding lock_inv_def by blast

lemma lock_inv_fresh: "lock_inv s \<Longrightarrow> outcome s (length (started s)) = None"
  unfolding lock_inv_def by blast

lemma lock_inv_run:
  assumes inv: "lock_inv s"
  shows "lock_inv (snd (runLock k f s))"
proof (cases "pending s k")
  case None
  let ?n = "length (started s)" and ?t = "snd (runLock k f s)"
  have t: "pending ?t = (pending s)(k \<mapsto> ?n)" "started ?t = started s @ [(k, f)]"
    "outcome ?t = outcome s"
    using None by (simp_all add: runLock_def Let_def)
  have "pending ?t k' = Some p \<longleftrightarrow>
      p < length (started ?t) \<and> fst (started ?t ! p) = k' \<and> outcome ?t p = None" for k' p
  proof (cases "p < ?n")
    case True
    then show ?thesis
      using None lock_inv_pending [OF inv, of k' p] by (auto simp: t nth_append)
  next
    case False
    then have "pending s k' \<noteq> Some p" using lock_inv_pending [OF inv, of k' p] by simp
    with False lock_inv_fresh [OF inv] show ?thesis by (auto simp: t nth_append less_Suc_eq)
  qed
  moreover have "dom (outcome ?t) \<subseteq> {..<length (started ?t)}"
    using inv by (auto simp: lock_inv_def t)
  ultimately show ?thesis unfolding lock_inv_def by blast
qed (use inv in \<open>simp add: runLock_def\<close>)

lemma lock_inv_settle:
  assumes inv: "lock_inv s"
  shows "lock_inv (settleLock p r s)"
proof (cases "p < length (started s) \<and> outcome s p = None")
  case True
  let ?t = "settleLock p r s" and ?k = "fst (started s ! p)"
  have t: "pending ?t = (pending s)(?k := None)" "started ?t = started s"
    "outcome ?t = (outcome s)(p \<mapsto> r)"
    using True by (simp_all add: settleLock_def)
  have only: "pending s ?k = Some p" using True lock_inv_pending [OF inv] by blast
  have "pending ?t k' = Some q \<longleftrightarrow>
      q < length (started ?t) \<and> fst (started ?t ! q) = k' \<and> outcome ?t q = None" for k' q
    using lock_inv_pending [OF inv, of k' q] only by (auto simp: t)
  moreover have "dom (outcome ?t) \<subseteq> {..<length (started ?t)}"
    using inv True by (auto simp: lock_inv_def t)
  ultimately show ?thesis unfolding lock_inv_def by blast
qed (use inv in \<open>auto simp: settleLock_def\<close>)

lemma lock_step_inv: "lock_step s t \<Longrightarrow> lock_inv s \<Longrightarrow> lock_inv t"
  by (induction rule: lock_step.induct) (simp_all add: lock_inv_run lock_inv_settle)

lemma reachable_lock_inv: "lock_reachable s \<Longrightarrow> lock_inv s"
  by (induction rule: lock_reachable.induct) (auto intro: lock_inv_init lock_step_inv)

interpretation async: single_flight lock_inv runLock settleLock pending
proof
  fix s :: "('f, 'r) asyncLock" and k p r and f :: 'f
  assume inv: "lock_inv s"
  show "lock_inv (snd (runLock k f s))" using inv by (rule lock_inv_run)
  show "pending s k = Some p \<Longrightarrow> lock_inv (settleLock p r s)"
    using inv by (simp add: lock_inv_settle)
  show "pending s k = Some p \<Longrightarrow> runLock k f s = (p, s)" by (simp add: runLock_def)
  show "pending s k = None \<Longrightarrow> pending (snd (runLock k f s)) = (pending s)(k \<mapsto> fst (runLock k f s))"
    by (simp add: runLock_def Let_def)
  show "pending s k = None \<Longrightarrow> fst (runLock k f s) \<notin> ran (pending s)"
    using lock_inv_pending [OF inv] by (auto simp: runLock_def Let_def ran_def)
  show "pending s k = Some p \<Longrightarrow> pending (settleLock p r s) = (pending s)(k := None)"
    using lock_inv_pending [OF inv, of k p] by (auto simp: settleLock_def)
  show "pending s k = Some p \<Longrightarrow> pending s k' = Some p \<Longrightarrow> k = k'" for k'
    using lock_inv_pending [OF inv, of k p] lock_inv_pending [OF inv, of k' p] by simp
qed

section \<open>BaseProvider.deduplicateRequest\<close>

record ('f, 'r) providerRequests =
  activeRequests :: "string \<rightharpoonup> nat"
  fetches :: "(string \<times> 'f) list"
  answers :: "nat \<rightharpoonup> 'r"

definition newProviderRequests :: "('f, 'r) providerRequests" where
  "newProviderRequests = \<lparr>activeRequests = Map.empty, fetches = [], answers = Map.empty\<rparr>"

definition deduplicateRequest ::
  "string \<Rightarrow> 'f \<Rightarrow> ('f, 'r) providerRequests \<Rightarrow> nat \<times> ('f, 'r) providerRequests" where
  "deduplicateRequest key fetchFn s =
     (case activeRequests s key of
        Some p \<Rightarrow> (p, s)
      | None \<Rightarrow>
          let p = length (fetches s) in
          (p, s\<lparr>fetches := fetches s @ [(key, fetchFn)],
                 activeRequests := (activeRequests s)(key \<mapsto> p)\<rparr>))"

definition finishRequest :: "nat \<Rightarrow> 'r \<Rightarrow> ('f, 'r) providerRequests \<Rightarrow> ('f, 'r) providerRequests" where
  "finishRequest p r s =
     (if p < length (fetches s) \<and> answers s p = None
      then s\<lparr>activeRequests := (activeRequests s)(fst (fetches s ! p) := None),
             answers := (answers s)(p \<mapsto> r)\<rparr>
      else s)"

text \<open>The two implementations are the same machine.\<close>

definition lock_of :: "('f, 'r) providerRequests \<Rightarrow> ('f, 'r) asyncLock" where
  "lock_of s = \<lparr>pending = activeRequests s, started = fetches s, outcome = answers s\<rparr>"

lemma lock_of_dedup:
  "runLock k f (lock_of s) = (fst (deduplicateRequest k f s), lock_of (snd (deduplicateRequest k f s)))"
  by (simp add: runLock_def deduplicateRequest_def lock_of_def Let_def split: option.splits)

lemma lock_of_finish: "settleLock p r (lock_of s) = lock_of (finishRequest p r s)"
  by (simp add: settleLock_def finishRequest_def lock_of_def)

lemma flying_lock_of: "pending (lock_of s) = activeRequests s"
  by (simp add: lock_of_def)

lemma dedup_lock_of:
  "deduplicateRequest k f s = (p, s') \<Longrightarrow> runLock k f (lock_of s) = (p, lock_of s')"
  by (simp add: lock_of_dedup)

interpretation provider: single_flight "\<lambda>s. lock_inv (lock_of s)" deduplicateRequest finishRequest activeRequests
proof
  fix s :: "('f, 'r) providerRequests" and k p r and f :: 'f
  assume inv: "lock_inv (lock_of s)"
  note run = lock_of_dedup [of k f s] and fin = lock_of_finish [of p r s]
  show "lock_inv (lock_of (snd (deduplicateRequest k f s)))"
    using async.inv_request [OF inv, of k f] by (simp add: run)
  show "activeRequests s k = Some p \<Longrightarrow> lock_inv (lock_of (finishRequest p r s))"
    using async.inv_settle [OF inv, of k p r] by (simp add: fin flying_lock_of)
  show "activeRequests s k = Some p \<Longrightarrow> deduplicateRequest k f s = (p, s)"
    by (simp add: deduplicateRequest_def)
  show "activeRequests s k = None \<Longrightarrow>
      activeRequests (snd (deduplicateRequest k f s)) =
        (activeRequests s)(k \<mapsto> fst (deduplicateRequest k f s))"
    by (simp add: deduplicateRequest_def Let_def)
  show "activeRequests s k = None \<Longrightarrow> fst (deduplicateRequest k f s) \<notin> ran (activeRequests s)"
    using async.request_fresh [OF inv, of k f] by (simp add: run flying_lock_of)
  show "activeRequests s k = Some p \<Longrightarrow> activeRequests (finishRequest p r s) = (activeRequests s)(k := None)"
    using async.settle_frees [OF inv, of k p r] by (simp add: fin flying_lock_of)
  show "activeRequests s k = Some p \<Longrightarrow> activeRequests s k' = Some p \<Longrightarrow> k = k'" for k'
    using async.one_key [OF inv, of k p k'] by (simp add: flying_lock_of)
qed

section \<open>Properties\<close>



end
