(* ===== verification/Config_Merge.thy ===== *)
theory Config_Merge
  imports JS_Runtime
begin

text \<open>
  \<open>ConfigService._mergeDeep\<close> of \<open>src/src/config/ConfigService.js\<close>: the layering of default
  configuration, local overrides and partial updates. The theorems say what a merged object
  holds at every path of object keys: the override where the source has a leaf, the old value
  where the source is silent, and never a prototype key.
\<close>

definition protoKeys :: "string list" where
  "protoKeys = [''__proto__'', ''constructor'', ''prototype'']"

definition entries_size :: "jobj \<Rightarrow> nat" where
  "entries_size kvs = sum_list (map (\<lambda>kv. Suc (size (snd kv))) kvs)"

lemma entries_size_less: "typeof_object s \<Longrightarrow> entries_size (entries s) < size s"
proof (cases s)
  case (JObj kvs)
  have "entries_size kvs \<le> size_list (size_prod (\<lambda>_. 0) size) kvs"
    by (induction kvs) (auto simp: entries_size_def)
  with JObj show ?thesis by simp
next
  case (JArr xs)
  have "entries_size (zip ks xs) \<le> size_list size xs" for ks
  proof (induction xs arbitrary: ks)
    case (Cons x xs)
    show ?case
    proof (cases ks)
      case (Cons k ks')
      with Cons.IH [of ks'] show ?thesis by (simp add: entries_size_def)
    qed (simp add: entries_size_def)
  qed (simp add: entries_size_def)
  with JArr show ?thesis by (simp add: less_Suc_eq_le)
qed auto

text \<open>
  \<open>mergeLoop\<close> is the \<open>for ... in\<close> loop over the source's properties, on the shallow
  clone \<open>output\<close> of the target.
\<close>

function mergeDeep :: "json \<Rightarrow> json \<Rightarrow> json"
  and mergeLoop :: "json \<Rightarrow> jobj \<Rightarrow> json" where
  "mergeDeep target source =
     (if \<not> typeof_object target then source
      else if \<not> typeof_object source then target
      else mergeLoop target (entries source))"
| "mergeLoop output [] = output"
| "mergeLoop output (kv # rest) =
     (let k = fst kv; v = snd kv in
      if k \<in> set protoKeys then mergeLoop output rest
      else case v of
        JArr _ \<Rightarrow> mergeLoop (jput output k v) rest
      | JObj _ \<Rightarrow>
          (if typeof_object (jget output k)
           then mergeLoop (jput output k (mergeDeep (jget output k) v)) rest
           else mergeLoop (jput output k (mergeDeep (JObj []) v)) rest)
      | _ \<Rightarrow> mergeLoop (jput output k v) rest)"
  by pat_completeness auto
termination
proof (relation "measure (case_sum (\<lambda>(t, s). size s) (\<lambda>(q, kvs). entries_size kvs))",
    goal_cases)
  case (2 t s)
  then show ?case using entries_size_less [of s] by simp
qed (auto simp: entries_size_def)

declare mergeDeep.simps [simp del]

section \<open>What a merged object holds\<close>

text \<open>The value a property gets from an old value and a source value.\<close>

definition mergeVal :: "json \<Rightarrow> json \<Rightarrow> json" where
  "mergeVal old v =
     (if is_object v then mergeDeep (if typeof_object old then old else JObj []) v else v)"

lemma mergeLoop_Cons:
  "mergeLoop out ((k, v) # rest) =
     (if k \<in> set protoKeys then mergeLoop out rest
      else mergeLoop (jput out k (mergeVal (jget out k) v)) rest)"
  by (cases v) (auto simp: mergeVal_def)

lemma is_object_mergeLoop [simp]: "is_object (mergeLoop out kvs) = is_object out"
proof (induction kvs arbitrary: out)
  case (Cons kv kvs)
  then show ?case by (cases kv) (simp add: mergeLoop_Cons del: mergeLoop.simps)
qed simp

lemma jget_mergeLoop:
  assumes "is_object out" "distinct (map fst kvs)"
  shows "jget (mergeLoop out kvs) k =
    (if k \<in> set protoKeys then jget out k
     else case map_of kvs k of None \<Rightarrow> jget out k | Some v \<Rightarrow> mergeVal (jget out k) v)"
  using assms
proof (induction kvs arbitrary: out)
  case (Cons kv kvs)
  obtain k' v where kv: "kv = (k', v)" by (cases kv)
  have nk: "map_of kvs k' = None"
    using Cons.prems(2) kv by (auto simp: map_of_eq_None_iff)
  show ?case
    using Cons.prems nk Cons.IH [of out] Cons.IH [of "jput out k' (mergeVal (jget out k') v)"] kv
    by (auto simp: mergeLoop_Cons jget_jput split: option.splits simp del: mergeLoop.simps)
qed simp

lemma jget_mergeDeep:
  assumes "distinct (map fst s)"
  shows "jget (mergeDeep (JObj t) (JObj s)) k =
    (if k \<in> set protoKeys then jget (JObj t) k
     else case map_of s k of None \<Rightarrow> jget (JObj t) k
          | Some v \<Rightarrow> mergeVal (jget (JObj t) k) v)"
  unfolding mergeDeep.simps using jget_mergeLoop [OF _ assms, of "JObj t" k]
  by (simp del: jget.simps)

lemma is_object_mergeDeep [simp]:
  "is_object t \<Longrightarrow> is_object (mergeDeep t s)"
  by (cases t; cases s) (simp_all add: mergeDeep.simps)

text \<open>Lookup along a path of object keys.\<close>

fun opath :: "json \<Rightarrow> string list \<Rightarrow> json option" where
  "opath x [] = Some x"
| "opath (JObj kvs) (k # ks) = (case map_of kvs k of None \<Rightarrow> None | Some v \<Rightarrow> opath v ks)"
| "opath _ (k # ks) = None"

lemma opath_obj:
  assumes "is_object x" "jget x k = v" "v \<noteq> JUndef"
  shows "opath x (k # ks) = opath v ks"
  using assms by (cases x) (auto split: option.splits)

text \<open>Source values that are read from JSON text are never \<open>undefined\<close>.\<close>

lemma mergeVal_defined: "v \<noteq> JUndef \<Longrightarrow> mergeVal old v \<noteq> JUndef"
proof (cases "is_object v")
  case True
  then have tv: "typeof_object v" by (cases v) auto
  define t where "t = (if typeof_object old then old else JObj [])"
  have loop: "typeof_object out \<Longrightarrow> typeof_object (mergeLoop out kvs)" for out kvs
  proof (induction kvs arbitrary: out)
    case (Cons kv kvs)
    have "typeof_object (jput out k x)" for k x
      using Cons.prems by (cases out) (auto split: option.splits)
    with Cons show ?case by (cases kv) (simp add: mergeLoop_Cons del: mergeLoop.simps)
  qed simp
  have "typeof_object t" by (simp add: t_def)
  with tv loop have "typeof_object (mergeDeep t v)" by (simp add: mergeDeep.simps)
  with True show ?thesis by (auto simp: mergeVal_def t_def)
qed (simp add: mergeVal_def)

text \<open>No array of the target stands on the path where the source has an object.\<close>

fun arrayFree :: "json \<Rightarrow> string list \<Rightarrow> bool" where
  "arrayFree (JArr _) _ = False"
| "arrayFree x [] = True"
| "arrayFree x (k # ks) = arrayFree (jget x k) ks"

text \<open>The source says nothing about the path.\<close>

fun untouched :: "json \<Rightarrow> string list \<Rightarrow> bool" where
  "untouched (JObj kvs) (k # ks) =
     (case map_of kvs k of None \<Rightarrow> True | Some v \<Rightarrow> untouched v ks)"
| "untouched _ _ = False"

lemma arrayFree_Cons: "arrayFree x (k # ks) \<Longrightarrow> arrayFree (jget x k) ks"
  by (cases x) auto

lemma arrayFree_Nil: "arrayFree (JObj []) ks"
proof (cases ks)
  case (Cons k ks')
  have "arrayFree JUndef xs" for xs by (induction xs) auto
  with Cons show ?thesis by simp
qed simp

text \<open>
  A source leaf (anything but an object) at a path of object keys is found at the
  same path of the merged object, provided no segment is a prototype key and the target has no
  array on that path.
\<close>

lemma mergeDeep_leaf:
  assumes "is_object t" "wf_json s" "opath s ks = Some v" "\<not> is_object v" "v \<noteq> JUndef" "ks \<noteq> []"
    and "set ks \<inter> set protoKeys = {}" "arrayFree t (butlast ks)"
  shows "opath (mergeDeep t s) ks = Some v"
  using assms
proof (induction ks arbitrary: t s)
  case (Cons k ks)
  obtain kvs tv where s: "s = JObj kvs" and t: "t = JObj tv"
    using Cons.prems(1,3) by (cases s; cases t) auto
  obtain u where u: "map_of kvs k = Some u" "opath u ks = Some v"
    using Cons.prems(3) s by (auto split: option.splits)
  have wu: "wf_json u"
    using Cons.prems(2) s map_of_SomeD [OF u(1)] by fastforce
  have get: "jget (mergeDeep t s) k = mergeVal (jget t k) u"
    using Cons.prems(2,7) jget_mergeDeep [of kvs tv k] u(1) by (simp add: s t del: jget.simps)
  have und: "u \<noteq> JUndef"
    using u(2) Cons.prems(5) by (cases ks) auto
  have step: "opath (mergeDeep t s) (k # ks) = opath (mergeVal (jget t k) u) ks"
    using get mergeVal_defined [OF und] t by (intro opath_obj) simp_all
  show ?case
  proof (cases ks)
    case Nil
    then show ?thesis using step u(2) Cons.prems(4) by (simp add: mergeVal_def)
  next
    case (Cons k' ks')
    then have ou: "is_object u" using u(2) by (cases u) auto
    have af: "arrayFree (jget t k) (butlast ks)"
      using Cons.prems(8) Cons arrayFree_Cons [of t k "butlast ks"] by simp
    let ?t = "if typeof_object (jget t k) then jget t k else JObj []"
    have ot: "is_object ?t" using af by (cases "jget t k") auto
    have "arrayFree ?t (butlast ks)" using af arrayFree_Nil by simp
    then have "opath (mergeDeep ?t u) ks = Some v"
      using Cons.IH [OF ot wu u(2) Cons.prems(4,5)] Cons.prems(7) Cons by simp
    then show ?thesis using step ou by (simp add: mergeVal_def)
  qed
qed simp

definition sampleDefaults :: json where
  "sampleDefaults =
     JObj [(''data'', JObj [(''staleCheckDays'', JNum 7), (''storageLimit'', JNum 1)])]"

definition samplePartial :: json where
  "samplePartial = JObj [(''data'', JObj [(''storageLimit'', JNum 2)])]"

text \<open>
  A value of the target at a path the source says nothing about is found
  unchanged at the same path of the merged object.
\<close>

lemma mergeDeep_untouched:
  assumes "wf_json s" "opath t ks = Some v" "v \<noteq> JUndef" "untouched s ks"
  shows "opath (mergeDeep t s) ks = Some v"
  using assms
proof (induction ks arbitrary: t s)
  case (Cons k ks)
  obtain kvs tv where s: "s = JObj kvs" and t: "t = JObj tv"
    using Cons.prems(2,4) by (cases s; cases t) auto
  obtain w where w: "map_of tv k = Some w" "opath w ks = Some v"
    using Cons.prems(2) t by (auto split: option.splits)
  have wu: "w \<noteq> JUndef" using w(2) Cons.prems(3) by (cases ks) auto
  have tk: "jget t k = w" using w(1) t by simp
  note get = jget_mergeDeep [of kvs tv k, folded s t]
  have d: "distinct (map fst kvs)" using Cons.prems(1) s by simp
  show ?case
  proof (cases "k \<in> set protoKeys \<or> map_of kvs k = None")
    case True
    then have "jget (mergeDeep t s) k = w" using get [OF d] tk by auto
    then show ?thesis using opath_obj [of "mergeDeep t s" k w ks] wu w(2) t by simp
  next
    case False
    then obtain u where u: "map_of kvs k = Some u" by auto
    then have un: "untouched u ks" using Cons.prems(4) s by simp
    then have ou: "is_object u" and nks: "ks \<noteq> []" by (cases u; cases ks; simp)+
    have ow: "is_object w" using w(2) nks by (cases w; cases ks) auto
    have "jget (mergeDeep t s) k = mergeDeep w u"
      using get [OF d] tk False u ou ow by (cases w) (auto simp: mergeVal_def)
    moreover have "wf_json u" using Cons.prems(1) s map_of_SomeD [OF u] by fastforce
    then have "opath (mergeDeep w u) ks = Some v"
      using Cons.IH [of u w] w(2) Cons.prems(3) un by blast
    moreover have "mergeDeep w u \<noteq> JUndef"
      using is_object_mergeDeep [OF ow, of u] by (cases "mergeDeep w u") simp_all
    ultimately show ?thesis using opath_obj [of "mergeDeep t s" k _ ks] t by simp
  qed
qed (cases s; simp)

text \<open>
  Layers of configuration: a leaf of the overriding object is found at its path in the merged
  object, provided no segment is a prototype key and the target has no array on that path; and
  a value of the target at a path the overriding object says nothing about is found unchanged.
\<close>

theorem mergeDeep_layers:
  assumes "is_object t" "wf_json s"
  shows "(\<forall>ks v. opath s ks = Some v \<and> \<not> is_object v \<and> v \<noteq> JUndef \<and> ks \<noteq> [] \<and>
            set ks \<inter> set protoKeys = {} \<and> arrayFree t (butlast ks) \<longrightarrow> opath (mergeDeep t s) ks = Some v) \<and>
         (\<forall>ks v. opath t ks = Some v \<and> v \<noteq> JUndef \<and> untouched s ks \<longrightarrow> opath (mergeDeep t s) ks = Some v)"
  using mergeDeep_leaf [OF assms] mergeDeep_untouched [OF assms(2)] by blast

theorem mergeDeep_layers_witness:
  "opath (mergeDeep sampleDefaults samplePartial) [''data'', ''storageLimit''] = Some (JNum 2) \<and>
   opath (mergeDeep sampleDefaults samplePartial) [''data'', ''staleCheckDays''] = Some (JNum 7)"
proof -
  have "is_object sampleDefaults" "wf_json samplePartial" by (simp_all add: sampleDefaults_def samplePartial_def)
  note w = mergeDeep_layers [OF this]
  have "opath (mergeDeep sampleDefaults samplePartial) [''data'', ''storageLimit''] = Some (JNum 2)"
    by (rule w [THEN conjunct1, rule_format]) (simp add: sampleDefaults_def samplePartial_def protoKeys_def)
  moreover have "opath (mergeDeep sampleDefaults samplePartial) [''data'', ''staleCheckDays''] = Some (JNum 7)"
    by (rule w [THEN conjunct2, rule_format]) (simp add: sampleDefaults_def samplePartial_def)
  ultimately show ?thesis ..
qed

section \<open>Prototype keys\<close>

fun protoFree :: "json \<Rightarrow> bool" where
  "protoFree (JObj kvs) = (\<forall>kv \<in> set kvs. fst kv \<notin> set protoKeys \<and> protoFree (snd kv))"
| "protoFree _ = True"

lemma protoFree_jget: "is_object x \<Longrightarrow> protoFree x \<Longrightarrow> protoFree (jget x k)"
  by (cases x) (force split: option.splits dest: map_of_SomeD)+

lemma protoFree_jput:
  "typeof_object x \<Longrightarrow> protoFree x \<Longrightarrow> k \<notin> set protoKeys \<Longrightarrow> protoFree v \<Longrightarrow> protoFree (jput x k v)"
  using set_update_subset by (cases x) (fastforce split: option.splits)+

lemma mergeLoop_arr: "\<exists>ys. mergeLoop (JArr xs) kvs = JArr ys"
proof (induction kvs arbitrary: xs)
  case (Cons kv kvs)
  have "\<exists>ys. jput (JArr xs) k v = JArr ys" for k v by (simp split: option.splits)
  with Cons show ?case
    by (cases kv) (metis mergeLoop_Cons)
qed simp

lemma entries_size_member: "kv \<in> set kvs \<Longrightarrow> Suc (size (snd kv)) \<le> entries_size kvs"
  unfolding entries_size_def by (rule member_le_sum_list) auto

lemma protoFree_mergeDeep_size:
  "size s \<le> n \<Longrightarrow> is_object t \<Longrightarrow> protoFree t \<Longrightarrow> typeof_object s \<Longrightarrow> protoFree (mergeDeep t s)"
proof (induction n arbitrary: t s)
  case 0
  then show ?case by (cases s) simp_all
next
  case (Suc n)
  have val: "protoFree (mergeVal old v)" if "size v \<le> n" "protoFree old" for old v
  proof (cases "is_object v")
    case True
    then have tv: "typeof_object v" by (cases v) auto
    show ?thesis
    proof (cases old)
      case (JArr xs)
      with True tv mergeLoop_arr [of xs "entries v"] show ?thesis
        by (auto simp: mergeVal_def mergeDeep.simps)
    qed (use True tv that Suc.IH [of v] in \<open>simp_all add: mergeVal_def\<close>)
  next
    case False
    then show ?thesis by (cases v) (simp_all add: mergeVal_def)
  qed
  have loop: "protoFree (mergeLoop out kvs)"
    if "is_object out" "protoFree out" "\<forall>kv \<in> set kvs. size (snd kv) \<le> n" for out kvs
    using that
  proof (induction kvs arbitrary: out)
    case (Cons kv kvs)
    obtain k v where kv: "kv = (k, v)" by (cases kv)
    have to: "typeof_object out" using Cons.prems(1) by (cases out) auto
    have "protoFree (mergeVal (jget out k) v)"
      using Cons.prems kv by (intro val protoFree_jget) simp_all
    with Cons kv to show ?case
      by (auto simp: mergeLoop_Cons protoFree_jput simp del: mergeLoop.simps)
  qed simp
  have "\<forall>kv \<in> set (entries s). size (snd kv) \<le> n"
    using entries_size_member entries_size_less [OF Suc.prems(4)] Suc.prems(1) by fastforce
  moreover have "typeof_object t" using Suc.prems(2) by (cases t) auto
  ultimately show ?case
    using loop [of t "entries s"] Suc.prems by (simp add: mergeDeep.simps)
qed

text \<open>
  Prototype pollution: whatever the source, merging into an object without prototype
  keys yields an object without prototype keys, at every depth reached through objects.
\<close>

theorem mergeDeep_protoFree:
  assumes "is_object t" "protoFree t"
  shows "is_object (mergeDeep t s) \<and> protoFree (mergeDeep t s)"
proof (cases "typeof_object s")
  case True
  with assms show ?thesis using protoFree_mergeDeep_size [OF order.refl] by simp
next
  case False
  with assms show ?thesis by (cases t) (simp_all add: mergeDeep.simps)
qed

theorem mergeDeep_protoFree_witness:
  "is_object sampleDefaults \<and> protoFree sampleDefaults \<and>
   protoFree (mergeDeep sampleDefaults
     (JObj [(''data'', JObj [(''__proto__'', JObj [(''admin'', JBool True)])])]))"
proof -
  have "is_object sampleDefaults" "protoFree sampleDefaults"
    by (simp_all add: sampleDefaults_def protoKeys_def)
  then show ?thesis using mergeDeep_protoFree by blast
qed

end
