(* ===== verification/Secret_Crypto.thy ===== *)
theory Secret_Crypto
  imports JS_Runtime
begin

text \<open>
  \<open>src/src/utils/encryption.js\<close> and \<open>src/src/utils/passwordUtils.js\<close>. Node's crypto
  primitives (scrypt, AES-256-GCM, random bytes) are parameters, collected in the record
  \<open>crypto\<close> with hexadecimal strings for buffers; \<open>crypto_ok\<close> states what the code relies
  on: decryption inverts encryption under the same key and nonce, and hexadecimal renderings
  are non-empty and contain no colon. Random bytes are an argument of each operation.
\<close>

record crypto =
  cr_scrypt :: "string \<Rightarrow> string \<Rightarrow> nat \<Rightarrow> string"
  cr_encrypt :: "string \<Rightarrow> string \<Rightarrow> string \<Rightarrow> string \<times> string"
  cr_decrypt :: "string \<Rightarrow> string \<Rightarrow> string \<Rightarrow> string \<Rightarrow> string option"

definition colon :: char where
  "colon = CHR '':''"

definition crypto_ok :: "crypto \<Rightarrow> bool" where
  "crypto_ok C =
     ((\<forall>key iv p. cr_decrypt C key iv (fst (cr_encrypt C key iv p)) (snd (cr_encrypt C key iv p)) = Some p) \<and>
      (\<forall>key iv p. colon \<notin> set (fst (cr_encrypt C key iv p)) \<and> colon \<notin> set (snd (cr_encrypt C key iv p))) \<and>
      (\<forall>p s n. cr_scrypt C p s n \<noteq> [] \<and> colon \<notin> set (cr_scrypt C p s n)))"

section \<open>encryption.js\<close>

definition deriveKey :: "crypto \<Rightarrow> string option \<Rightarrow> string \<Rightarrow> string res" where
  "deriveKey C salt secret =
     (case salt of
        None \<Rightarrow> Inl (Error ''ENCRYPTION_SALT environment variable is required'')
      | Some s \<Rightarrow>
          if s = [] then Inl (Error ''ENCRYPTION_SALT environment variable is required'')
          else Inr (cr_scrypt C secret s 32))"

definition encrypt :: "crypto \<Rightarrow> string option \<Rightarrow> string \<Rightarrow> string \<Rightarrow> string \<Rightarrow> string res" where
  "encrypt C salt iv plaintext key =
     (if plaintext = [] then Inr plaintext
      else bindR (deriveKey C salt key) (\<lambda>derivedKey.
        let (authTag, encrypted) = cr_encrypt C derivedKey iv plaintext in
        Inr (iv @ [colon] @ authTag @ [colon] @ encrypted)))"

definition decrypt :: "crypto \<Rightarrow> string option \<Rightarrow> string \<Rightarrow> string \<Rightarrow> string res" where
  "decrypt C salt ciphertext key =
     (if ciphertext = [] \<or> colon \<notin> set ciphertext then Inr ciphertext
      else case split_on colon ciphertext of
        [ivHex, authTagHex, encrypted] \<Rightarrow>
          bindR (deriveKey C salt key) (\<lambda>derivedKey.
            case cr_decrypt C derivedKey ivHex authTagHex encrypted of
              None \<Rightarrow> Inl (Error ''Unsupported state or unable to authenticate data'')
            | Some p \<Rightarrow> Inr p)
      | _ \<Rightarrow> Inl (Error ''Invalid ciphertext format''))"

definition mask :: string where
  "mask = ''********''"

definition isMasked :: "json \<Rightarrow> bool" where
  "isMasked v = (v = JStr mask)"

section \<open>passwordUtils.js\<close>

definition hashPassword :: "crypto \<Rightarrow> string \<Rightarrow> string \<Rightarrow> string" where
  "hashPassword C salt password = salt @ [colon] @ cr_scrypt C password salt 64"

definition verifyPassword :: "crypto \<Rightarrow> string \<Rightarrow> string option \<Rightarrow> bool" where
  "verifyPassword C password storedHash =
     (case storedHash of
        None \<Rightarrow> False
      | Some h \<Rightarrow>
          if h = [] \<or> colon \<notin> set h then False
          else case split_on colon h of
            salt # originalHash # _ \<Rightarrow>
              if salt = [] \<or> originalHash = [] then False
              else originalHash = cr_scrypt C password salt 64
          | _ \<Rightarrow> False)"

section \<open>Round trips\<close>

lemma encrypt_has_colon:
  "p \<noteq> [] \<Longrightarrow> encrypt C salt iv p key = Inr c \<Longrightarrow> colon \<in> set c"
  by (auto simp: encrypt_def bindR_Inr case_prod_beta Let_def)

lemma split_three:
  assumes "d \<notin> set a" "d \<notin> set b" "d \<notin> set c"
  shows "split_on d (a @ [d] @ b @ [d] @ c) = [a, b, c]"
  using assms by (simp add: split_on_append split_on_word)

lemma encrypt_total: "salt = Some s \<Longrightarrow> s \<noteq> [] \<Longrightarrow> \<exists>c. encrypt C salt iv p key = Inr c"
  by (simp add: encrypt_def deriveKey_def split: prod.splits)

lemma encrypt_then_decrypt:
  assumes C: "crypto_ok C" and s: "salt = Some s" "s \<noteq> []" and iv: "colon \<notin> set iv" and p: "p \<noteq> []"
  shows "\<exists>c. encrypt C salt iv p key = Inr c \<and> colon \<in> set c \<and> decrypt C salt c key = Inr p"
proof -
  let ?k = "cr_scrypt C key s 32"
  obtain t e where te: "cr_encrypt C ?k iv p = (t, e)" by fastforce
  have tag: "colon \<notin> set t" "colon \<notin> set e" "cr_decrypt C ?k iv t e = Some p"
    using C te unfolding crypto_ok_def by (metis fst_conv snd_conv)+
  have enc: "encrypt C salt iv p key = Inr (iv @ [colon] @ t @ [colon] @ e)"
    using s p te by (simp add: encrypt_def deriveKey_def)
  have "decrypt C salt (iv @ [colon] @ t @ [colon] @ e) key = Inr p"
    using s tag by (simp add: decrypt_def deriveKey_def split_three [OF iv tag(1,2), simplified])
  with enc show ?thesis by auto
qed

text \<open>
  With a salt configured, every non-empty plaintext encrypts to a string
  that contains a colon (so it is recognised as encrypted) and decrypts to the plaintext under
  the same secret, whatever the nonce.
\<close>

theorem decrypt_encrypt:
  assumes "crypto_ok C" "salt = Some s" "s \<noteq> []" "colon \<notin> set iv" "p \<noteq> []"
  shows "\<exists>c. encrypt C salt iv p key = Inr c \<and> colon \<in> set c \<and> decrypt C salt c key = Inr p"
  using assms by (rule encrypt_then_decrypt)

text \<open>A concrete instance, with reversal as the cipher, for evaluation.\<close>

definition toyCrypto :: crypto where
  "toyCrypto =
     \<lparr>cr_scrypt = (\<lambda>p s n. ''k'' @ filter (\<lambda>c. c \<noteq> colon) (p @ s)),
      cr_encrypt = (\<lambda>key iv p. (''t'', concat (map (\<lambda>c. nat_str (of_char c) @ ''.'') p))),
      cr_decrypt = (\<lambda>key iv t c.
        if t \<noteq> ''t'' then None
        else Some (map (\<lambda>w. char_of (the (digits_val 0 w))) (butlast (split_on (CHR ''.'') c))))\<rparr>"

lemma nat_str_no_colon: "colon \<notin> set (nat_str n)"
  using nat_str_digits [of colon n] by (auto simp: colon_def)

lemma nat_str_no_dot: "CHR ''.'' \<notin> set (nat_str n)"
  using nat_str_digits [of "CHR ''.''" n] by auto

lemma split_dotted:
  "split_on (CHR ''.'') (concat (map (\<lambda>c. nat_str (of_char c) @ ''.'') p)) =
   map (\<lambda>c. nat_str (of_char c)) p @ [[]]"
  by (induction p) (simp_all add: split_on_append nat_str_no_dot)

lemma toyCrypto_ok: "crypto_ok toyCrypto"
proof -
  have "map ((\<lambda>w. char_of (the (digits_val 0 w))) \<circ> (\<lambda>c. nat_str (of_char c))) p = p" for p :: string
    by (induction p) (simp_all add: digits_val_nat_str)
  then show ?thesis
    by (auto simp: crypto_ok_def toyCrypto_def split_dotted nat_str_no_colon [unfolded colon_def] colon_def)
qed

theorem decrypt_encrypt_witness:
  "\<exists>c. encrypt toyCrypto (Some ''salt'') ''ab12'' ''secret'' ''jwt'' = Inr c \<and> colon \<in> set c \<and>
       decrypt toyCrypto (Some ''salt'') c ''jwt'' = Inr ''secret''"
  by (rule decrypt_encrypt [OF toyCrypto_ok refl]) (simp_all add: colon_def)

text \<open>
  A password verifies against its own hash for every random salt; a stored value that is
  missing, or has no colon, an empty salt or an empty hash verifies no password at all; and
  verification accepts exactly when scrypt of the candidate under the stored salt is the
  stored hash.
\<close>

theorem verifyPassword_hash:
  assumes "crypto_ok C" "colon \<notin> set salt" "salt \<noteq> []"
  shows "verifyPassword C p (Some (hashPassword C salt p)) \<and>
         (verifyPassword C q (Some (hashPassword C salt p)) \<longleftrightarrow>
            cr_scrypt C q salt 64 = cr_scrypt C p salt 64) \<and>
         \<not> verifyPassword C q None \<and>
         (colon \<notin> set h \<longrightarrow> \<not> verifyPassword C q (Some h)) \<and>
         \<not> verifyPassword C q (Some (colon # h)) \<and> \<not> verifyPassword C q (Some (salt @ [colon]))"
proof -
  have h: "cr_scrypt C p salt 64 \<noteq> []" "colon \<notin> set (cr_scrypt C p salt 64)"
    using assms(1) by (simp_all add: crypto_ok_def)
  then have "split_on colon (hashPassword C salt p) = [salt, cr_scrypt C p salt 64]"
    using assms(2) by (simp add: hashPassword_def split_on_append split_on_word)
  moreover have "split_on colon (salt @ [colon]) = [salt, []]"
    using assms(2) split_on_append [of colon salt "[]"] by simp
  ultimately show ?thesis
    using assms h by (auto simp: verifyPassword_def hashPassword_def split: list.splits)
qed

theorem verifyPassword_hash_witness:
  "verifyPassword toyCrypto ''hunter2'' (Some (hashPassword toyCrypto ''s4lt'' ''hunter2''))"
  using verifyPassword_hash [OF toyCrypto_ok, of "''s4lt''" "''hunter2''"] by (simp add: colon_def)

end
