(* ===== verification/Registry.thy ===== *)
theory Registry
  imports JS_Runtime
begin

text \<open>
  The two registries of the server: output strategies (\<open>src/src/outputs/OutputFactory.js\<close>
  and the metadata of the three strategies) and prayer-time providers
  (\<open>src/src/providers/ProviderFactory.js\<close> and the metadata of the two providers). A
  JavaScript \<open>Map\<close> is an association list in insertion order. The locale \<open>keyed_registry\<close>
  is what the rest of the server relies on: what a lookup finds after a registration.
\<close>

section \<open>Metadata\<close>

record paramMeta =
  pm_key :: string
  pm_sensitive :: bool
  pm_requiredForHealth :: bool
  pm_options :: "string list"

record outputMeta =
  om_id :: string
  om_label :: string
  om_timeoutMs :: nat
  om_defaultLeadTimeMs :: "int option"
  om_hidden :: bool
  om_supportedSourceTypes :: "string list"
  om_params :: "paramMeta list"

record providerMeta =
  pv_id :: string
  pv_label :: string
  pv_requiresCoordinates :: bool
  pv_providesIqamah :: bool
  pv_parameters :: "paramMeta list"

definition plainParam :: "string \<Rightarrow> paramMeta" where
  "plainParam k =
     \<lparr>pm_key = k, pm_sensitive = False, pm_requiredForHealth = False, pm_options = []\<rparr>"

definition ALLOWED_AUDIO_PLAYERS :: "string list" where
  "ALLOWED_AUDIO_PLAYERS = [''mpg123'', ''omxplayer'', ''aplay'', ''mplayer'', ''cvlc'']"

definition browserMeta :: outputMeta where
  "browserMeta =
     \<lparr>om_id = ''browser'', om_label = ''Browser (SSE)'', om_timeoutMs = 1000,
      om_defaultLeadTimeMs = None, om_hidden = True, om_supportedSourceTypes = [''file'', ''url''],
      om_params = []\<rparr>"

definition localMeta :: outputMeta where
  "localMeta =
     \<lparr>om_id = ''local'', om_label = ''Local Audio'', om_timeoutMs = 30000,
      om_defaultLeadTimeMs = Some 0, om_hidden = False, om_supportedSourceTypes = [''file'', ''url''],
      om_params = [\<lparr>pm_key = ''audioPlayer'', pm_sensitive = False, pm_requiredForHealth = True,
                    pm_options = ALLOWED_AUDIO_PLAYERS\<rparr>]\<rparr>"

definition voiceMonkeyMeta :: outputMeta where
  "voiceMonkeyMeta =
     \<lparr>om_id = ''voicemonkey'', om_label = ''VoiceMonkey (Alexa)'', om_timeoutMs = 10000,
      om_defaultLeadTimeMs = Some 2000, om_hidden = False,
      om_supportedSourceTypes = [''file'', ''url''],
      om_params = [\<lparr>pm_key = ''token'', pm_sensitive = True, pm_requiredForHealth = True,
                    pm_options = []\<rparr>,
                   \<lparr>pm_key = ''device'', pm_sensitive = True, pm_requiredForHealth = False,
                    pm_options = []\<rparr>]\<rparr>"

definition aladhanMeta :: providerMeta where
  "aladhanMeta =
     \<lparr>pv_id = ''aladhan'', pv_label = ''Aladhan.com'', pv_requiresCoordinates = True,
      pv_providesIqamah = False,
      pv_parameters = map plainParam
        [''method'', ''madhab'', ''latitudeAdjustmentMethod'', ''midnightMode'']\<rparr>"

definition myMasjidMeta :: providerMeta where
  "myMasjidMeta =
     \<lparr>pv_id = ''mymasjid'', pv_label = ''MyMasjid'', pv_requiresCoordinates = False,
      pv_providesIqamah = True, pv_parameters = [plainParam ''masjidId'']\<rparr>"

text \<open>\<open>params.filter((p) => p.sensitive).map((p) => p.key)\<close>\<close>

definition sensitiveKeys :: "paramMeta list \<Rightarrow> string list" where
  "sensitiveKeys ps = map pm_key (filter pm_sensitive ps)"

section \<open>The contract of a registry\<close>

locale keyed_registry =
  fixes rinv :: "'r \<Rightarrow> bool"
    and lookup :: "'r \<Rightarrow> string \<Rightarrow> 'm option"
    and add :: "string \<Rightarrow> 'm \<Rightarrow> 'r \<Rightarrow> 'r"
    and members :: "'r \<Rightarrow> 'm list"
  assumes inv_add: "rinv r \<Longrightarrow> rinv (add k m r)"
    and lookup_add: "rinv r \<Longrightarrow> lookup (add k m r) = (lookup r)(k \<mapsto> m)"
    and members_iff: "rinv r \<Longrightarrow> m \<in> set (members r) \<longleftrightarrow> (\<exists>k. lookup r k = Some m)"
begin

lemma added_member: "rinv r \<Longrightarrow> m \<in> set (members (add k m r))"
  by (auto simp: members_iff inv_add lookup_add)

lemma add_keeps: "rinv r \<Longrightarrow> k \<noteq> k' \<Longrightarrow> lookup (add k m r) k' = lookup r k'"
  by (simp add: lookup_add)

lemma members_add:
  "rinv r \<Longrightarrow> set (members (add k m r)) = insert m {x. \<exists>j. j \<noteq> k \<and> lookup r j = Some x}"
  by (auto simp: members_iff inv_add lookup_add split: if_splits)

end

section \<open>OutputFactory\<close>

type_synonym outputRegistry = "(string \<times> outputMeta) list"

text \<open>
  A strategy class is represented by its metadata, which is all the factory reads of it.
\<close>

definition registerOutput :: "outputMeta \<Rightarrow> outputRegistry \<Rightarrow> outputRegistry res" where
  "registerOutput meta reg =
     (if om_id meta = [] then Inl (Error ''Strategy must have valid metadata with an ID'')
      else Inr (AList.update (om_id meta) meta reg))"

definition getStrategy :: "outputRegistry \<Rightarrow> string \<Rightarrow> outputMeta res" where
  "getStrategy reg i =
     (case map_of reg i of
        None \<Rightarrow> Inl (Error (''Strategy '' @ [CHR 0x27] @ i @ [CHR 0x27] @ '' not found''))
      | Some m \<Rightarrow> Inr m)"

definition getAllStrategies :: "outputRegistry \<Rightarrow> outputMeta list" where
  "getAllStrategies reg = map snd reg"

text \<open>\<open>BaseOutput.getSecretRequirementKeys\<close> of an instance\<close>

definition strategySecretKeys :: "outputMeta \<Rightarrow> string list" where
  "strategySecretKeys meta = sensitiveKeys (om_params meta)"

definition getSecretRequirementKeys :: "outputRegistry \<Rightarrow> (string \<times> string) list" where
  "getSecretRequirementKeys reg =
     concat (map (\<lambda>(i, m). map (\<lambda>k. (i, k)) (strategySecretKeys m)) reg)"

definition builtinOutputs :: outputRegistry where
  "builtinOutputs =
     (case bindR (registerOutput localMeta [])
             (\<lambda>r. bindR (registerOutput voiceMonkeyMeta r) (registerOutput browserMeta)) of
        Inl _ \<Rightarrow> [] | Inr r \<Rightarrow> r)"

interpretation outputs: keyed_registry "\<lambda>r. distinct (map fst r)" map_of AList.update "map snd"
proof
  fix r :: "(string \<times> 'm) list" and k m
  assume inv: "distinct (map fst r)"
  show "distinct (map fst (AList.update k m r))" using inv by (rule distinct_update)
  show "map_of (AList.update k m r) = (map_of r)(k \<mapsto> m)" by (simp add: update_conv')
  show "m \<in> set (map snd r) \<longleftrightarrow> (\<exists>k. map_of r k = Some m)"
    using inv by (force simp: map_of_eq_Some_iff)
qed

section \<open>ProviderFactory\<close>

type_synonym providerRegistry = "(string \<times> providerMeta) list"

definition registerProvider :: "string \<Rightarrow> providerMeta \<Rightarrow> providerRegistry \<Rightarrow> providerRegistry" where
  "registerProvider ptype cls reg = AList.update ptype cls reg"

text \<open>\<open>ProviderFactory.getProviderClass\<close>; \<open>create\<close> looks the class up the same way.\<close>

definition getProviderClass :: "providerRegistry \<Rightarrow> json \<Rightarrow> providerMeta res" where
  "getProviderClass reg ptype =
     (case ptype of
        JStr t \<Rightarrow>
          (case map_of reg t of
             None \<Rightarrow> Inl (Error (''Unknown provider type: '' @ t)) | Some m \<Rightarrow> Inr m)
      | _ \<Rightarrow> Inl (Error ''Unknown provider type''))"

definition getRegisteredProviders :: "providerRegistry \<Rightarrow> providerMeta list" where
  "getRegisteredProviders reg = map snd reg"

definition builtinProviders :: providerRegistry where
  "builtinProviders =
     registerProvider ''mymasjid'' myMasjidMeta (registerProvider ''aladhan'' aladhanMeta [])"

interpretation providers: keyed_registry "\<lambda>r. distinct (map fst r)" map_of registerProvider getRegisteredProviders
  unfolding registerProvider_def getRegisteredProviders_def
  by unfold_locales

section \<open>Properties\<close>

lemma builtinOutputs_eq:
  "builtinOutputs =
     [(''local'', localMeta), (''voicemonkey'', voiceMonkeyMeta), (''browser'', browserMeta)]"
  by (simp add: builtinOutputs_def registerOutput_def localMeta_def voiceMonkeyMeta_def
      browserMeta_def)

lemma builtinProviders_eq:
  "builtinProviders = [(''aladhan'', aladhanMeta), (''mymasjid'', myMasjidMeta)]"
  by (simp add: builtinProviders_def registerProvider_def)

lemma sensitive_builtin:
  "sensitiveKeys (om_params localMeta) = []"
  "sensitiveKeys (om_params voiceMonkeyMeta) = [''token'', ''device'']"
  "sensitiveKeys (om_params browserMeta) = []"
  "sensitiveKeys (pv_parameters aladhanMeta) = []"
  "sensitiveKeys (pv_parameters myMasjidMeta) = []"
  by (simp_all add: sensitiveKeys_def localMeta_def voiceMonkeyMeta_def browserMeta_def aladhanMeta_def
      myMasjidMeta_def plainParam_def)

lemma registerOutput_Inr:
  "registerOutput m r = Inr r' \<longleftrightarrow> om_id m \<noteq> [] \<and> r' = AList.update (om_id m) m r"
  by (auto simp: registerOutput_def)

text \<open>Every registered strategy is stored under its own identifier.\<close>

definition output_inv :: "outputRegistry \<Rightarrow> bool" where
  "output_inv r = (distinct (map fst r) \<and> (\<forall>(i, m) \<in> set r. om_id m = i \<and> i \<noteq> []))"

lemma output_inv_register: "output_inv r \<Longrightarrow> registerOutput m r = Inr r' \<Longrightarrow> output_inv r'"
  using set_update_subset [of "om_id m" m r]
  by (fastforce simp: output_inv_def registerOutput_Inr intro: distinct_update)

lemma getStrategy_id: "output_inv r \<Longrightarrow> getStrategy r i = Inr m \<Longrightarrow> om_id m = i"
  by (force simp: output_inv_def getStrategy_def split: option.splits dest: map_of_SomeD)

lemma getStrategy_Inr: "getStrategy r i = Inr m \<longleftrightarrow> map_of r i = Some m"
  by (simp add: getStrategy_def split: option.splits)

lemma secretKeys_iff:
  assumes "distinct (map fst r)"
  shows "(i, k) \<in> set (getSecretRequirementKeys r) \<longleftrightarrow>
     (\<exists>m. getStrategy r i = Inr m \<and> k \<in> set (sensitiveKeys (om_params m)))"
proof -
  have "(i, k) \<in> set (getSecretRequirementKeys r) \<longleftrightarrow>
      (\<exists>m. (i, m) \<in> set r \<and> k \<in> set (strategySecretKeys m))"
    by (auto simp: getSecretRequirementKeys_def)
  then show ?thesis
    using assms by (simp add: getStrategy_Inr strategySecretKeys_def)
qed

text \<open>
  Registering an output strategy succeeds exactly when it has an identifier; afterwards the
  identifier resolves to that strategy, every other identifier resolves as before, and the
  secrets the factory reports are exactly the sensitive parameters of the strategies that
  resolve, under the strategy's own identifier.
\<close>

theorem outputFactory_register:
  assumes inv: "output_inv r" and reg: "registerOutput m r = Inr r'"
  shows "getStrategy r' (om_id m) = Inr m \<and>
         (\<forall>i. i \<noteq> om_id m \<longrightarrow> getStrategy r' i = getStrategy r i) \<and>
         output_inv r' \<and>
         (\<forall>i k. (i, k) \<in> set (getSecretRequirementKeys r') \<longleftrightarrow>
            (\<exists>m'. getStrategy r' i = Inr m' \<and> om_id m' = i \<and> k \<in> set (sensitiveKeys (om_params m'))))"
proof -
  have d: "distinct (map fst r)" using inv by (simp add: output_inv_def)
  have r': "r' = AList.update (om_id m) m r" using reg by (simp add: registerOutput_Inr)
  have inv': "output_inv r'" using inv reg by (rule output_inv_register)
  then have "distinct (map fst r')" by (simp add: output_inv_def)
  note keys = secretKeys_iff [OF this]
  have "getStrategy r' (om_id m) = Inr m" "\<forall>i. i \<noteq> om_id m \<longrightarrow> getStrategy r' i = getStrategy r i"
    by (simp_all add: getStrategy_def r' outputs.lookup_add [OF d])
  then show ?thesis
    unfolding keys using inv' getStrategy_id [OF inv'] by blast
qed

theorem outputFactory_register_witness:
  "output_inv [] \<and> registerOutput voiceMonkeyMeta [] = Inr [(''voicemonkey'', voiceMonkeyMeta)] \<and>
   getStrategy [(''voicemonkey'', voiceMonkeyMeta)] ''voicemonkey'' = Inr voiceMonkeyMeta"
proof -
  have i: "output_inv []" by (simp add: output_inv_def)
  have r: "registerOutput voiceMonkeyMeta [] = Inr [(''voicemonkey'', voiceMonkeyMeta)]"
    by (simp add: registerOutput_def voiceMonkeyMeta_def)
  have "om_id voiceMonkeyMeta = ''voicemonkey''" by (simp add: voiceMonkeyMeta_def)
  with outputFactory_register [OF i r] i r show ?thesis by metis
qed

end
