(* ===== verification/Config_Fields.thy ===== *)
theory Config_Fields
  imports Config_Merge Secret_Crypto Registry
begin

text \<open>
  The passes of \<open>src/src/config/ConfigService.js\<close> that mutate a configuration object in place:
  \<open>_applyEnvOverrides\<close>, \<open>_stripSecrets\<close>, \<open>_validateConstraints\<close>, \<open>_cleanSourceData\<close>
  and \<open>_processSensitiveFields\<close>. A pass takes the object and returns the mutated one; an
  assignment below a property of a nested object is \<open>jupd\<close> along the path. The injected
  resolvers, the provider registry, the process environment and the nonces are arguments,
  collected in the record \<open>cfgEnv\<close>. Properties of arrays other than their indices are not
  modelled.
\<close>

section \<open>In-place mutation\<close>

text \<open>
  \<open>jupd k f x\<close> mutates the value of the existing property \<open>k\<close> by \<open>f\<close>;
  \<open>map_entries f x\<close> visits \<open>Object.entries(x)\<close> and mutates every value.
\<close>

fun map_entries :: "(string \<Rightarrow> json \<Rightarrow> json) \<Rightarrow> json \<Rightarrow> json" where
  "map_entries f (JObj kvs) = JObj (map (\<lambda>kv. (fst kv, f (fst kv) (snd kv))) kvs)"
| "map_entries f (JArr xs) = JArr (map (\<lambda>i. f (nat_str i) (xs ! i)) [0..<length xs])"
| "map_entries f x = x"

definition jupd :: "string \<Rightarrow> (json \<Rightarrow> json) \<Rightarrow> json \<Rightarrow> json" where
  "jupd k f x = map_entries (\<lambda>k' v. if k' = k then f v else v) x"

text \<open>Class bodies are strict code: writing a property of a primitive value throws.\<close>

definition setProp :: "json \<Rightarrow> string \<Rightarrow> json \<Rightarrow> json res" where
  "setProp x k v =
     (if typeof_object x then Inr (jput x k v)
      else Inl (TypeError (''Cannot create property '' @ k)))"

definition getProp :: "json \<Rightarrow> string \<Rightarrow> json res" where
  "getProp x k =
     (if x = JUndef \<or> x = JNull then Inl (TypeError (''Cannot read properties (reading '' @ k @ '')''))
      else Inr (jget x k))"

definition modProp :: "string \<Rightarrow> (json \<Rightarrow> json res) \<Rightarrow> json \<Rightarrow> json res" where
  "modProp k f x = bindR (getProp x k) (\<lambda>old. bindR (f old) (setProp x k))"

definition orElse :: "json \<Rightarrow> json \<Rightarrow> json" where
  "orElse v d = (if truthy v then v else d)"

subsection \<open>Laws\<close>

lemma map_entries_cong:
  assumes "\<And>k v. (k, v) \<in> set (entries x) \<Longrightarrow> f k v = g k v"
  shows "map_entries f x = map_entries g x"
proof (cases x)
  case (JArr xs)
  have "(nat_str i, xs ! i) \<in> set (entries x)" if "i < length xs" for i
    using that JArr by (auto simp: set_zip intro!: exI [of _ i])
  with JArr assms show ?thesis by simp
qed (use assms in auto)

lemma map_entries_comp: "map_entries f (map_entries g x) = map_entries (\<lambda>k v. f k (g k v)) x"
  by (cases x) auto

lemma map_entries_id: "map_entries (\<lambda>k v. v) x = x"
  by (cases x) (simp_all add: map_nth)

lemma map_entries_fixed:
  assumes "\<And>k v. (k, v) \<in> set (entries x) \<Longrightarrow> f k v = v"
  shows "map_entries f x = x"
  using map_entries_cong [of x f "\<lambda>k v. v"] assms by (simp add: map_entries_id)

lemma map_of_map_entries:
  "map_of (map (\<lambda>kv. (fst kv, f (fst kv) (snd kv))) kvs) k = map_option (f k) (map_of kvs k)"
  by (induction kvs) auto

lemma is_object_map_entries [simp]: "is_object (map_entries f x) = is_object x"
  by (cases x) auto

lemma typeof_object_map_entries [simp]: "typeof_object (map_entries f x) = typeof_object x"
  by (cases x) auto

lemma truthy_map_entries [simp]: "truthy (map_entries f x) = truthy x"
  by (cases x) auto

lemma jget_map_entries:
  assumes "is_object x" "f k JUndef = JUndef"
  shows "jget (map_entries f x) k = f k (jget x k)"
  using assms by (cases x) (auto simp: map_of_map_entries split: option.splits)

lemma jupd_comp: "jupd k f (jupd k g x) = jupd k (\<lambda>v. f (g v)) x"
  unfolding jupd_def map_entries_comp by (intro map_entries_cong) auto

lemma jupd_commute: "k \<noteq> k' \<Longrightarrow> jupd k f (jupd k' g x) = jupd k' g (jupd k f x)"
  unfolding jupd_def map_entries_comp by (intro map_entries_cong) auto

lemma entries_jget_obj:
  "wf_json x \<Longrightarrow> is_object x \<Longrightarrow> (k, v) \<in> set (entries x) \<Longrightarrow> jget x k = v"
  by (cases x) auto

lemma jupd_fixed:
  assumes "wf_json x" "is_object x" "f (jget x k) = jget x k"
  shows "jupd k f x = x"
  unfolding jupd_def
  by (rule map_entries_fixed) (use assms entries_jget_obj in fastforce)

lemma jupd_cong:
  assumes "wf_json x" "is_object x" "f (jget x k) = g (jget x k)"
  shows "jupd k f x = jupd k g x"
  unfolding jupd_def
  by (rule map_entries_cong) (use assms entries_jget_obj in fastforce)

lemma is_object_jupd [simp]: "is_object (jupd k f x) = is_object x"
  by (simp add: jupd_def)

lemma truthy_jupd [simp]: "truthy (jupd k f x) = truthy x"
  by (simp add: jupd_def)

lemma jget_jupd_same: "is_object x \<Longrightarrow> f JUndef = JUndef \<Longrightarrow> jget (jupd k f x) k = f (jget x k)"
  by (simp add: jupd_def jget_map_entries)

lemma jget_jupd_other [simp]: "is_object x \<Longrightarrow> k \<noteq> k' \<Longrightarrow> jget (jupd k f x) k' = jget x k'"
  by (simp add: jupd_def jget_map_entries)

lemma wf_map_entries:
  assumes "wf_json x" "\<And>k v. wf_json v \<Longrightarrow> wf_json (f k v)"
  shows "wf_json (map_entries f x)"
  using assms by (cases x) (auto simp: comp_def)

lemma wf_jupd: "wf_json x \<Longrightarrow> (\<And>v. wf_json v \<Longrightarrow> wf_json (f v)) \<Longrightarrow> wf_json (jupd k f x)"
  unfolding jupd_def by (rule wf_map_entries) auto

lemma typeof_truthy: "typeof_object x \<Longrightarrow> truthy x"
  by (cases x) auto

lemma modProp_obj:
  "is_object x \<Longrightarrow> modProp k f x = (case f (jget x k) of Inl e \<Rightarrow> Inl e | Inr v \<Rightarrow> Inr (jput x k v))"
  by (cases x) (auto simp: modProp_def getProp_def setProp_def split: sum.splits)

section \<open>The environment of the passes\<close>

record cfgEnv =
  ce_env :: "string \<Rightarrow> string option"
  ce_strategyResolver :: "(string \<Rightarrow> outputMeta res) option"
  ce_secretKeysResolver :: "(string \<times> string) list option"
  ce_providers :: providerRegistry
  ce_crypto :: crypto
  ce_iv :: "string \<Rightarrow> string \<Rightarrow> string"

text \<open>\<open>process.env[k]\<close> where the code tests it for truth: set and not empty.\<close>

definition envVar :: "cfgEnv \<Rightarrow> string \<Rightarrow> string option" where
  "envVar E k = (case ce_env E k of Some v \<Rightarrow> if v = [] then None else Some v | None \<Rightarrow> None)"

definition outputEnvKey :: "string \<Rightarrow> string \<Rightarrow> string" where
  "outputEnvKey strategyId key = toUpperCase strategyId @ ''_'' @ toUpperCase key"

definition roles :: "string list" where
  "roles = [''primary'', ''backup'']"

section \<open>\<open>_applyEnvOverrides\<close>\<close>

text \<open>The assignments for one output secret, with the objects created on the way.\<close>

definition setOutputSecret :: "json \<Rightarrow> string \<Rightarrow> string \<Rightarrow> string \<Rightarrow> json \<Rightarrow> json res" where
  "setOutputSecret fresh strategyId key v automation =
     modProp ''outputs'' (\<lambda>outs.
       modProp strategyId (\<lambda>oc.
         modProp ''params'' (\<lambda>params. setProp (orElse params (JObj [])) key (JStr v))
           (orElse oc fresh))
         (orElse outs (JObj [])))
       automation"

fun foldR :: "('a \<Rightarrow> 's \<Rightarrow> 's res) \<Rightarrow> 'a list \<Rightarrow> 's \<Rightarrow> 's res" where
  "foldR f [] s = Inr s"
| "foldR f (x # xs) s = bindR (f x s) (foldR f xs)"

definition overrideOutput :: "cfgEnv \<Rightarrow> string \<times> string \<Rightarrow> json \<Rightarrow> json res" where
  "overrideOutput E sk config =
     (case envVar E (outputEnvKey (fst sk) (snd sk)) of
        None \<Rightarrow> Inr config
      | Some v \<Rightarrow>
          modProp ''automation''
            (setOutputSecret (JObj [(''params'', JObj [])]) (fst sk) (snd sk) v) config)"

definition mapSource :: "string \<Rightarrow> (json \<Rightarrow> json) \<Rightarrow> json \<Rightarrow> json" where
  "mapSource role f config = jupd ''sources'' (jupd role f) config"

definition overrideSource :: "string \<Rightarrow> string \<Rightarrow> string \<Rightarrow> json \<Rightarrow> json" where
  "overrideSource pid key v source =
     (if jget source ''type'' = JStr pid then jput source key (JStr v) else source)"

definition overrideProviders :: "cfgEnv \<Rightarrow> json \<Rightarrow> json" where
  "overrideProviders E config =
     fold (\<lambda>provider. fold (\<lambda>key config.
         case envVar E (toUpperCase key) of
           None \<Rightarrow> config
         | Some v \<Rightarrow> fold (\<lambda>role. mapSource role (overrideSource (pv_id provider) key v)) roles config)
       (sensitiveKeys (pv_parameters provider)))
     (getRegisteredProviders (ce_providers E)) config"

definition setEnvField :: "cfgEnv \<Rightarrow> string \<Rightarrow> string \<Rightarrow> json \<Rightarrow> json res" where
  "setEnvField E var field config =
     (case envVar E var of
        None \<Rightarrow> Inr config
      | Some v \<Rightarrow> modProp ''automation'' (\<lambda>a. setProp a field (JStr v)) config)"

definition secretKeysMissing :: err where
  "secretKeysMissing = Error ''[ConfigService] Output secret keys resolver not wired. Call setOutputSecretKeysResolver() before init().''"

definition applyEnvOverrides :: "cfgEnv \<Rightarrow> json \<Rightarrow> json res" where
  "applyEnvOverrides E config =
     bindR (getProp config ''automation'') (\<lambda>automation.
     if \<not> truthy automation then Inr config
     else
       bindR (setEnvField E ''BASE_URL'' ''baseUrl'' config) (\<lambda>config.
       bindR (setEnvField E ''PYTHON_SERVICE_URL'' ''pythonServiceUrl'' config) (\<lambda>config.
       case ce_secretKeysResolver E of
         None \<Rightarrow> Inl secretKeysMissing
       | Some secrets \<Rightarrow>
           bindR (foldR (overrideOutput E) secrets config) (\<lambda>config.
           Inr (overrideProviders E config)))))"

section \<open>\<open>_stripSecrets\<close>\<close>

definition delEnvField :: "cfgEnv \<Rightarrow> string \<Rightarrow> string \<Rightarrow> json \<Rightarrow> json" where
  "delEnvField E var field config =
     (if envVar E var = None then config else jupd ''automation'' (\<lambda>a. jdel a field) config)"

definition delProp :: "string \<Rightarrow> json \<Rightarrow> json" where
  "delProp key x = (if jget x key \<noteq> JUndef then jdel x key else x)"

definition stripOutput :: "cfgEnv \<Rightarrow> string \<times> string \<Rightarrow> json \<Rightarrow> json" where
  "stripOutput E sk config =
     (if envVar E (outputEnvKey (fst sk) (snd sk)) = None then config
      else jupd ''automation'' (jupd ''outputs'' (jupd (fst sk) (jupd ''params'' (delProp (snd sk))))) config)"

definition stripSource :: "providerMeta \<Rightarrow> json \<Rightarrow> json" where
  "stripSource provider source =
     (if jget source ''type'' = JStr (pv_id provider)
      then fold delProp (sensitiveKeys (pv_parameters provider)) source else source)"

definition stripProviders :: "cfgEnv \<Rightarrow> json \<Rightarrow> json" where
  "stripProviders E config =
     fold (\<lambda>provider. fold (\<lambda>role. mapSource role (stripSource provider)) roles)
       (getRegisteredProviders (ce_providers E)) config"

definition stripSecrets :: "cfgEnv \<Rightarrow> json \<Rightarrow> json res" where
  "stripSecrets E config =
     bindR (getProp config ''automation'') (\<lambda>automation.
     bindR
       (if truthy automation
        then
          let config = delEnvField E ''BASE_URL'' ''baseUrl'' config;
              config = delEnvField E ''PYTHON_SERVICE_URL'' ''pythonServiceUrl'' config
          in (case ce_secretKeysResolver E of
                None \<Rightarrow> Inl secretKeysMissing
              | Some secrets \<Rightarrow> Inr (fold (stripOutput E) secrets config))
        else Inr config)
       (\<lambda>config. Inr (stripProviders E config)))"

section \<open>\<open>_validateConstraints\<close>\<close>

definition clampLeadTime :: "json \<Rightarrow> json" where
  "clampLeadTime oc =
     (case jget oc ''leadTimeMs'' of
        JNum t \<Rightarrow> if t < -30000 \<or> t > 30000
                  then jput oc ''leadTimeMs'' (JNum (max (-30000) (min t 30000))) else oc
      | _ \<Rightarrow> oc)"

definition playerOptions :: "outputMeta \<Rightarrow> string list" where
  "playerOptions m =
     (case List.find (\<lambda>p. pm_key p = ''audioPlayer'') (om_params m) of
        None \<Rightarrow> [] | Some p \<Rightarrow> pm_options p)"

definition constrainPlayer :: "string \<Rightarrow> outputMeta \<Rightarrow> json \<Rightarrow> json" where
  "constrainPlayer i m oc =
     (if i = ''local'' \<and> truthy (jget (jget oc ''params'') ''audioPlayer'')
         \<and> jget (jget oc ''params'') ''audioPlayer'' \<notin> JStr ` set (playerOptions m)
      then jupd ''params'' (\<lambda>p. jput p ''audioPlayer'' (JStr ''mpg123'')) oc else oc)"

definition constrainOutput :: "(string \<Rightarrow> outputMeta res) \<Rightarrow> string \<Rightarrow> json \<Rightarrow> json" where
  "constrainOutput resolver i oc =
     (case resolver i of Inl _ \<Rightarrow> oc | Inr m \<Rightarrow> constrainPlayer i m (clampLeadTime oc))"

definition strategyResolverMissing :: err where
  "strategyResolverMissing = Error ''[ConfigService] Output strategy resolver not wired. Call setOutputStrategyResolver() before init().''"

definition mapOutputs :: "(string \<Rightarrow> json \<Rightarrow> json) \<Rightarrow> json \<Rightarrow> json" where
  "mapOutputs f config = jupd ''automation'' (jupd ''outputs'' (map_entries f)) config"

definition validateConstraints :: "cfgEnv \<Rightarrow> json \<Rightarrow> json res" where
  "validateConstraints E config =
     bindR (getProp config ''automation'') (\<lambda>automation.
     if \<not> truthy (jget automation ''outputs'') then Inr config
     else case ce_strategyResolver E of
       None \<Rightarrow> Inl strategyResolverMissing
     | Some resolver \<Rightarrow> Inr (mapOutputs (constrainOutput resolver) config))"

section \<open>\<open>_cleanSourceData\<close>\<close>

definition allowedKeys :: "providerMeta \<Rightarrow> string list" where
  "allowedKeys p =
     [''type'', ''enabled''] @ map pm_key (pv_parameters p) @ sensitiveKeys (pv_parameters p)"

definition cleanSource :: "providerMeta list \<Rightarrow> json \<Rightarrow> json" where
  "cleanSource ps source =
     (if \<not> truthy source \<or> \<not> truthy (jget source ''type'') then source
      else case List.find (\<lambda>p. JStr (pv_id p) = jget source ''type'') ps of
        None \<Rightarrow> source
      | Some p \<Rightarrow>
          fold (\<lambda>key s. if key \<notin> set (allowedKeys p) then jdel s key else s) (jkeys source) source)"

definition cleanSourceData :: "cfgEnv \<Rightarrow> json \<Rightarrow> json res" where
  "cleanSourceData E config =
     bindR (getProp config ''sources'') (\<lambda>sources.
     if \<not> truthy sources then Inr config
     else Inr (fold (\<lambda>role. mapSource role (cleanSource (getRegisteredProviders (ce_providers E)))) roles config))"

section \<open>\<open>_processSensitiveFields\<close>\<close>

datatype fieldAction = Encrypt | Decrypt

definition getEncryptionKey :: "cfgEnv \<Rightarrow> string res" where
  "getEncryptionKey E =
     (case envVar E ''JWT_SECRET'' of
        None \<Rightarrow> Inl (CriticalConfigurationError ''JWT_SECRET environment variable is required for security.'')
      | Some k \<Rightarrow> Inr k)"

text \<open>One non-empty string field: \<open>Inl\<close> when \<open>encrypt\<close> throws; a failing
  \<open>decrypt\<close> is caught and keeps the value.\<close>

definition processField :: "cfgEnv \<Rightarrow> string \<Rightarrow> fieldAction \<Rightarrow> string \<Rightarrow> string \<Rightarrow> string res" where
  "processField E key action iv val =
     (case action of
        Encrypt \<Rightarrow>
          if colon \<notin> set val \<and> \<not> isMasked (JStr val)
          then encrypt (ce_crypto E) (ce_env E ''ENCRYPTION_SALT'') iv val key
          else Inr val
      | Decrypt \<Rightarrow>
          if colon \<in> set val
          then (case decrypt (ce_crypto E) (ce_env E ''ENCRYPTION_SALT'') val key of
                  Inl _ \<Rightarrow> Inr val | Inr p \<Rightarrow> Inr p)
          else Inr val)"

text \<open>The loop over the sensitive keys; an exception leaves the fields visited so far changed.\<close>

fun processKeys :: "(string \<Rightarrow> string \<Rightarrow> string res) \<Rightarrow> string list \<Rightarrow> json \<Rightarrow> json" where
  "processKeys f [] x = x"
| "processKeys f (k # ks) x =
     (case jget x k of
        JStr val \<Rightarrow>
          if val \<noteq> []
          then (case f k val of Inl _ \<Rightarrow> x | Inr v \<Rightarrow> processKeys f ks (jput x k (JStr v)))
          else processKeys f ks x
      | _ \<Rightarrow> processKeys f ks x)"

definition processOutput ::
  "cfgEnv \<Rightarrow> (string \<Rightarrow> outputMeta res) \<Rightarrow> string \<Rightarrow> fieldAction \<Rightarrow> string \<Rightarrow> json \<Rightarrow> json" where
  "processOutput E resolver key action i oc =
     (case resolver i of
        Inl _ \<Rightarrow> oc
      | Inr m \<Rightarrow>
          jupd ''params''
            (\<lambda>params. if truthy params
              then processKeys (\<lambda>k. processField E key action (ce_iv E i k)) (sensitiveKeys (om_params m)) params
              else params) oc)"

definition processSource :: "cfgEnv \<Rightarrow> string \<Rightarrow> fieldAction \<Rightarrow> string \<Rightarrow> json \<Rightarrow> json" where
  "processSource E key action role source =
     (if truthy source \<and> truthy (jget source ''type'')
      then (case getProviderClass (ce_providers E) (jget source ''type'') of
              Inl _ \<Rightarrow> source
            | Inr m \<Rightarrow> processKeys (\<lambda>k. processField E key action (ce_iv E role k))
                         (sensitiveKeys (pv_parameters m)) source)
      else source)"

definition processSources :: "cfgEnv \<Rightarrow> string \<Rightarrow> fieldAction \<Rightarrow> json \<Rightarrow> json" where
  "processSources E key action obj =
     fold (\<lambda>role. mapSource role (processSource E key action role)) roles obj"

definition processSensitiveFields :: "cfgEnv \<Rightarrow> fieldAction \<Rightarrow> json \<Rightarrow> json res" where
  "processSensitiveFields E action obj =
     (if \<not> typeof_object obj then Inr obj
      else bindR (getEncryptionKey E) (\<lambda>key.
        if truthy (jget (jget obj ''automation'') ''outputs'')
        then (case ce_strategyResolver E of
                None \<Rightarrow> Inl strategyResolverMissing
              | Some resolver \<Rightarrow>
                  Inr (processSources E key action (mapOutputs (processOutput E resolver key action) obj)))
        else Inr (processSources E key action obj)))"

section \<open>Shape of a configuration\<close>

text \<open>
  The object levels of a configuration, as the schema has them: each is an object or absent.
\<close>

definition optObj :: "json \<Rightarrow> bool" where
  "optObj x = (is_object x \<or> x = JUndef)"

abbreviation outputsOf :: "json \<Rightarrow> json" where
  "outputsOf c \<equiv> jget (jget c ''automation'') ''outputs''"

abbreviation outputOf :: "json \<Rightarrow> string \<Rightarrow> json" where
  "outputOf c i \<equiv> jget (outputsOf c) i"

abbreviation paramsOf :: "json \<Rightarrow> string \<Rightarrow> json" where
  "paramsOf c i \<equiv> jget (outputOf c i) ''params''"

abbreviation sourceOf :: "json \<Rightarrow> string \<Rightarrow> json" where
  "sourceOf c r \<equiv> jget (jget c ''sources'') r"

definition cfgShape :: "json \<Rightarrow> bool" where
  "cfgShape c =
     (is_object c \<and> wf_json c \<and> optObj (jget c ''automation'') \<and> optObj (outputsOf c) \<and>
      optObj (jget c ''sources'') \<and>
      list_all (\<lambda>kv. optObj (snd kv) \<and> optObj (jget (snd kv) ''params'')) (entries (outputsOf c)) \<and>
      list_all (\<lambda>kv. optObj (snd kv)) (entries (jget c ''sources'')))"

lemma optObj_simps [simp]: "optObj JUndef" "optObj (JObj kvs)"
  by (simp_all add: optObj_def)

lemma optObj_is_object: "is_object x \<Longrightarrow> optObj x"
  by (simp add: optObj_def)

lemma optObj_truthy: "optObj x \<Longrightarrow> truthy x = is_object x"
  by (auto simp: optObj_def is_object_truthy)

lemma optObj_map_entries [simp]: "optObj x \<Longrightarrow> optObj (map_entries f x)"
  by (auto simp: optObj_def)

lemma optObj_jupd [simp]: "optObj x \<Longrightarrow> optObj (jupd k f x)"
  by (simp add: jupd_def)

lemma map_entries_undef [simp]: "map_entries f JUndef = JUndef" "jupd k g JUndef = JUndef"
  by (simp_all add: jupd_def)

lemma entries_jget_list_all:
  assumes "list_all (\<lambda>kv. P (snd kv)) (entries x)" "optObj x" "P JUndef"
  shows "P (jget x k)"
  using assms by (cases x) (force simp: optObj_def list_all_iff split: option.splits dest: map_of_SomeD)+

lemma cfgShapeD:
  assumes "cfgShape c"
  shows "is_object c" "wf_json c" "optObj (jget c ''automation'')" "optObj (outputsOf c)"
    "optObj (jget c ''sources'')" "optObj (outputOf c i)" "optObj (paramsOf c i)"
    "optObj (sourceOf c r)"
proof -
  from assms show "is_object c" "wf_json c" "optObj (jget c ''automation'')" "optObj (outputsOf c)"
    "optObj (jget c ''sources'')" by (simp_all add: cfgShape_def)
  show "optObj (outputOf c i)" "optObj (paramsOf c i)"
    using entries_jget_list_all [of "\<lambda>v. optObj v \<and> optObj (jget v ''params'')" "outputsOf c" i] assms
    by (simp_all add: cfgShape_def)
  show "optObj (sourceOf c r)"
    using entries_jget_list_all [of optObj "jget c ''sources''" r] assms by (simp add: cfgShape_def)
qed

lemma jget_map_entries_opt:
  assumes "optObj x" "f k JUndef = JUndef"
  shows "jget (map_entries f x) k = f k (jget x k)"
  using assms jget_map_entries [of x f k] by (auto simp: optObj_def)

lemma jget_jupd:
  assumes "optObj x" "f JUndef = JUndef"
  shows "jget (jupd k f x) k' = (if k' = k then f (jget x k) else jget x k')"
  using assms by (simp add: jupd_def jget_map_entries_opt)

lemma outputOf_mapOutputs:
  assumes "cfgShape c" "f i JUndef = JUndef"
  shows "outputOf (mapOutputs f c) i = f i (outputOf c i)"
  using assms cfgShapeD [OF assms(1)]
  by (simp add: mapOutputs_def jget_jupd optObj_is_object jget_map_entries_opt)

lemma sourceOf_mapOutputs [simp]:
  "cfgShape c \<Longrightarrow> sourceOf (mapOutputs f c) r = sourceOf c r"
  using cfgShapeD by (simp add: mapOutputs_def)

lemma sourceOf_mapSource:
  assumes "cfgShape c" "f JUndef = JUndef"
  shows "sourceOf (mapSource r f c) r' = (if r' = r then f (sourceOf c r) else sourceOf c r')"
  using assms cfgShapeD [OF assms(1)] by (simp add: mapSource_def jget_jupd optObj_is_object)

lemma outputsOf_mapSource [simp]:
  "cfgShape c \<Longrightarrow> outputsOf (mapSource r f c) = outputsOf c"
  using cfgShapeD by (simp add: mapSource_def)

section \<open>Constraints\<close>

lemma clampLeadTime_get:
  "jget (clampLeadTime oc) ''leadTimeMs'' =
     (case jget oc ''leadTimeMs'' of JNum t \<Rightarrow> JNum (max (-30000) (min t 30000)) | v \<Rightarrow> v)"
proof (cases "jget oc ''leadTimeMs''")
  case (JNum t)
  then have "typeof_object oc" by (cases oc) auto
  show ?thesis
  proof (cases oc)
    case (JArr xs)
    with JNum show ?thesis by (simp add: array_index_def digit_val_def)
  qed (use JNum in \<open>auto simp: clampLeadTime_def max_def min_def update_conv'\<close>)
qed (simp_all add: clampLeadTime_def)

lemma clampLeadTime_other:
  "optObj oc \<Longrightarrow> k \<noteq> ''leadTimeMs'' \<Longrightarrow> jget (clampLeadTime oc) k = jget oc k"
  by (auto simp: clampLeadTime_def optObj_def split: json.splits)

lemma optObj_clampLeadTime [simp]: "optObj oc \<Longrightarrow> optObj (clampLeadTime oc)"
  by (auto simp: clampLeadTime_def optObj_def split: json.splits)

lemma constrainOutput_undef [simp]: "constrainOutput R i JUndef = JUndef"
  by (simp add: constrainOutput_def constrainPlayer_def clampLeadTime_def split: sum.splits)

lemma constrainPlayer_leadTime:
  "optObj oc \<Longrightarrow> jget (constrainPlayer i m oc) ''leadTimeMs'' = jget oc ''leadTimeMs''"
  by (auto simp: constrainPlayer_def jget_jupd)

lemma constrainPlayer_player:
  assumes "optObj oc" "optObj (jget oc ''params'')" "i = ''local''"
  shows "\<not> truthy (jget (jget (constrainPlayer i m oc) ''params'') ''audioPlayer'') \<or>
     jget (jget (constrainPlayer i m oc) ''params'') ''audioPlayer''
       \<in> JStr ` set (''mpg123'' # playerOptions m)"
  using assms by (auto simp: constrainPlayer_def jget_jupd optObj_def)

text \<open>
  After \<open>_validateConstraints\<close> every output whose strategy resolves has its lead time
  clamped to [-30000, 30000] ms (values inside the range are kept), the audio player of the
  local output is unset, one of the options the strategy declares, or the default \<open>mpg123\<close>,
  and outputs whose strategy does not resolve are unchanged.
\<close>

theorem validateConstraints_bounds:
  assumes R: "ce_strategyResolver E = Some R" and c: "cfgShape c"
  shows "\<exists>c'. validateConstraints E c = Inr c' \<and>
    (\<forall>i m. R i = Inr m \<longrightarrow>
       jget (outputOf c' i) ''leadTimeMs'' =
         (case jget (outputOf c i) ''leadTimeMs'' of
            JNum t \<Rightarrow> JNum (max (-30000) (min t 30000)) | v \<Rightarrow> v)) \<and>
    (\<forall>m. R ''local'' = Inr m \<longrightarrow>
       \<not> truthy (jget (paramsOf c' ''local'') ''audioPlayer'') \<or>
       jget (paramsOf c' ''local'') ''audioPlayer'' \<in> JStr ` set (''mpg123'' # playerOptions m)) \<and>
    (\<forall>i e. R i = Inl e \<longrightarrow> outputOf c' i = outputOf c i)"
proof -
  note sh = cfgShapeD [OF c]
  let ?c' = "mapOutputs (constrainOutput R) c"
  have val: "validateConstraints E c = Inr ?c' \<or> (validateConstraints E c = Inr c \<and> outputsOf c = JUndef)"
    using R sh(1,4) by (cases c) (auto simp: validateConstraints_def getProp_def optObj_def is_object_truthy)
  have out: "outputOf ?c' i = constrainOutput R i (outputOf c i)" for i
    by (rule outputOf_mapOutputs [OF c]) simp
  have pl: "optObj (jget (clampLeadTime (outputOf c i)) ''params'')" for i
    using sh(6,7) by (simp add: clampLeadTime_other)
  have "jget (constrainOutput R i (outputOf c i)) ''leadTimeMs'' =
      (case jget (outputOf c i) ''leadTimeMs'' of
         JNum t \<Rightarrow> JNum (max (-30000) (min t 30000)) | v \<Rightarrow> v)" if "R i = Inr m" for i m
    using that sh(6) by (simp add: constrainOutput_def constrainPlayer_leadTime clampLeadTime_get)
  moreover have "\<not> truthy (jget (jget (constrainOutput R ''local'' (outputOf c ''local'')) ''params'') ''audioPlayer'') \<or>
       jget (jget (constrainOutput R ''local'' (outputOf c ''local'')) ''params'') ''audioPlayer''
         \<in> JStr ` set (''mpg123'' # playerOptions m)" if "R ''local'' = Inr m" for m
    using that sh(6) constrainPlayer_player [OF _ pl refl] by (simp add: constrainOutput_def)
  moreover have "constrainOutput R i (outputOf c i) = outputOf c i" if "R i = Inl e" for i e
    using that by (simp add: constrainOutput_def)
  ultimately show ?thesis
    using val by (elim disjE; intro exI conjI) (auto simp: out)
qed

definition sampleEnv :: cfgEnv where
  "sampleEnv =
     \<lparr>ce_env = [''JWT_SECRET'' \<mapsto> ''jwt'', ''ENCRYPTION_SALT'' \<mapsto> ''salt'', ''VOICEMONKEY_TOKEN'' \<mapsto> ''tok''],
      ce_strategyResolver = Some (getStrategy builtinOutputs),
      ce_secretKeysResolver = Some (getSecretRequirementKeys builtinOutputs),
      ce_providers = builtinProviders, ce_crypto = toyCrypto, ce_iv = (\<lambda>i k. ''0a1b'')\<rparr>"

definition sampleConfig :: json where
  "sampleConfig =
     JObj [(''automation'', JObj [(''outputs'', JObj
             [(''local'', JObj [(''leadTimeMs'', JNum 90000),
                              (''params'', JObj [(''audioPlayer'', JStr ''rm'')])]),
              (''voicemonkey'', JObj [(''params'', JObj [(''token'', JStr ''abc''), (''device'', JStr ''echo'')])])])]),
           (''sources'', JObj [(''primary'', JObj [(''type'', JStr ''mymasjid''), (''masjidId'', JStr ''m1''),
                                               (''method'', JNum 15)])])]"

lemma sampleConfig_shape: "cfgShape sampleConfig"
  by (simp add: cfgShape_def sampleConfig_def)

lemma sampleEnv_resolver: "ce_strategyResolver sampleEnv = Some (getStrategy builtinOutputs)"
  by (simp add: sampleEnv_def)

theorem validateConstraints_bounds_witness:
  "\<exists>c'. validateConstraints sampleEnv sampleConfig = Inr c' \<and>
     jget (outputOf c' ''local'') ''leadTimeMs'' = JNum 30000"
proof -
  have "getStrategy builtinOutputs ''local'' = Inr localMeta"
    by (simp add: getStrategy_def builtinOutputs_eq)
  with validateConstraints_bounds [OF sampleEnv_resolver sampleConfig_shape]
  show ?thesis by (fastforce simp: sampleConfig_def)
qed

end
