(* ===== verification/Config_Secrets.thy ===== *)
theory Config_Secrets
  imports Config_Fields
begin

text \<open>
  What the in-place passes of \<open>ConfigService\<close> do to sources and secrets: cleaning a source
  leaves exactly the keys of its provider, encrypting for disk and decrypting on load are
  inverse to each other, environment values win over file values, and secrets that come
  from the environment do not reach the file.
\<close>

section \<open>Composition of the passes\<close>

lemma mapSource_comp: "mapSource r f (mapSource r g c) = mapSource r (\<lambda>s. f (g s)) c"
  by (simp add: mapSource_def jupd_comp)

lemma mapSource_commute: "r \<noteq> r' \<Longrightarrow> mapSource r f (mapSource r' g c) = mapSource r' g (mapSource r f c)"
  by (simp add: mapSource_def jupd_comp jupd_commute)

lemma mapOutputs_comp: "mapOutputs f (mapOutputs g c) = mapOutputs (\<lambda>i v. f i (g i v)) c"
  by (simp add: mapOutputs_def jupd_comp map_entries_comp)

lemma mapOutputs_mapSource: "mapOutputs f (mapSource r g c) = mapSource r g (mapOutputs f c)"
  by (simp add: mapOutputs_def mapSource_def jupd_commute [of "''automation''" "''sources''"])

lemma is_object_passes [simp]:
  "is_object (mapOutputs f c) = is_object c" "is_object (mapSource r g c) = is_object c"
  by (simp_all add: mapOutputs_def mapSource_def)

lemma jupd_fixed_opt:
  assumes "wf_json x" "optObj x" "f (jget x k) = jget x k"
  shows "jupd k f x = x"
  using assms jupd_fixed by (auto simp: optObj_def)

lemma mapOutputs_fixed:
  assumes c: "cfgShape c" and f: "\<And>i. f i (outputOf c i) = outputOf c i"
  shows "mapOutputs f c = c"
proof -
  note sh = cfgShapeD [OF c]
  have wo: "wf_json (outputsOf c)" using sh(2) by (intro wf_jget)
  have "map_entries f (outputsOf c) = outputsOf c"
  proof (cases "is_object (outputsOf c)")
    case True
    then show ?thesis
      by (intro map_entries_fixed) (metis entries_jget_obj [OF wo True] f)
  next
    case False
    then show ?thesis using sh(4) by (simp add: optObj_def)
  qed
  then show ?thesis
    unfolding mapOutputs_def using sh by (auto intro!: jupd_fixed_opt optObj_is_object [OF sh(1)] wf_jget)
qed

lemma mapSource_fixed:
  assumes c: "cfgShape c" and f: "f (sourceOf c r) = sourceOf c r"
  shows "mapSource r f c = c"
  using cfgShapeD [OF c] f unfolding mapSource_def
  by (auto intro!: jupd_fixed_opt optObj_is_object [OF cfgShapeD(1) [OF c]] wf_jget)

lemma cfgShape_mapSource:
  assumes c: "cfgShape c" and f: "\<And>v. optObj v \<Longrightarrow> optObj (f v)" "\<And>v. wf_json v \<Longrightarrow> wf_json (f v)"
    and u: "f JUndef = JUndef"
  shows "cfgShape (mapSource r f c)"
proof -
  note sh = cfgShapeD [OF c]
  have "list_all (\<lambda>kv. optObj (snd kv)) (entries (jupd r f (jget c ''sources'')))"
    using c f(1) by (cases "jget c ''sources''")
      (auto simp: cfgShape_def jupd_def list_all_iff in_set_zip optObj_def)
  then show ?thesis
    using c sh f u unfolding cfgShape_def
    by (simp add: mapSource_def jget_jupd optObj_is_object) (auto intro!: wf_jupd)
qed

lemma cfgShape_mapOutputs:
  assumes c: "cfgShape c"
    and f: "\<And>i v. optObj v \<Longrightarrow> optObj (jget v ''params'') \<Longrightarrow> optObj (f i v) \<and> optObj (jget (f i v) ''params'')"
      "\<And>i v. wf_json v \<Longrightarrow> wf_json (f i v)"
  shows "cfgShape (mapOutputs f c)"
proof -
  note sh = cfgShapeD [OF c]
  have "list_all (\<lambda>kv. optObj (snd kv) \<and> optObj (jget (snd kv) ''params'')) (entries (map_entries f (outputsOf c)))"
    using c f(1) sh(4) by (cases "outputsOf c") (auto simp: cfgShape_def list_all_iff optObj_def)
  then show ?thesis
    using c sh f(2) unfolding cfgShape_def
    by (simp add: mapOutputs_def jget_jupd optObj_is_object) (auto intro!: wf_jupd wf_map_entries)
qed

section \<open>Cleaning sources\<close>

lemma fold_jdel:
  "fold (\<lambda>key s. if key \<notin> A then jdel s key else s) ks (JObj kvs) =
   JObj (filter (\<lambda>kv. fst kv \<in> A \<or> fst kv \<notin> set ks) kvs)"
proof (induction ks arbitrary: kvs)
  case (Cons k ks)
  have "filter (\<lambda>kv. fst kv \<in> A \<or> fst kv \<notin> set ks) (AList.delete k kvs) =
        filter (\<lambda>kv. fst kv \<in> A \<or> fst kv \<notin> set (k # ks)) kvs" if "k \<notin> A"
    using that by (auto simp: AList.delete_eq intro!: filter_cong)
  moreover have "filter (\<lambda>kv. fst kv \<in> A \<or> fst kv \<notin> set ks) kvs =
        filter (\<lambda>kv. fst kv \<in> A \<or> fst kv \<notin> set (k # ks)) kvs" if "k \<in> A"
    using that by (auto intro!: filter_cong)
  ultimately show ?case using Cons by simp
qed simp

lemma map_of_filter_key: "map_of (filter (\<lambda>kv. P (fst kv)) kvs) k = (if P k then map_of kvs k else None)"
  by (induction kvs) auto

definition activeProvider :: "providerMeta list \<Rightarrow> json \<Rightarrow> providerMeta option" where
  "activeProvider ps source =
     (if truthy (jget source ''type'')
      then List.find (\<lambda>p. JStr (pv_id p) = jget source ''type'') ps else None)"

lemma cleanSource_eq:
  assumes "optObj s"
  shows "cleanSource ps s =
    (case activeProvider ps s of None \<Rightarrow> s
     | Some p \<Rightarrow> JObj (filter (\<lambda>kv. fst kv \<in> set (allowedKeys p)) (entries s)))"
proof (cases s)
  case (JObj kvs)
  have "filter (\<lambda>kv. fst kv \<in> A \<or> fst kv \<notin> set (map fst kvs)) kvs = filter (\<lambda>kv. fst kv \<in> A) kvs" for A
    by (rule filter_cong) auto
  then show ?thesis
    unfolding cleanSource_def activeProvider_def JObj
    by (simp add: fold_jdel split: option.splits)
qed (use assms in \<open>auto simp: optObj_def cleanSource_def activeProvider_def\<close>)

lemma activeProvider_undef [simp]: "activeProvider ps JUndef = None"
  by (simp add: activeProvider_def)

lemma jget_cleanSource:
  assumes "optObj s"
  shows "jget (cleanSource ps s) k =
    (case activeProvider ps s of None \<Rightarrow> jget s k
     | Some p \<Rightarrow> if k \<in> set (allowedKeys p) then jget s k else JUndef)"
  using assms by (cases s) (auto simp: optObj_def cleanSource_eq
      map_of_filter_key [where P = "\<lambda>x. x \<in> set (allowedKeys p)" for p] split: option.splits)

lemma optObj_cleanSource: "optObj s \<Longrightarrow> optObj (cleanSource ps s)"
  by (simp add: cleanSource_eq split: option.splits)

lemma activeProvider_cleanSource:
  "optObj s \<Longrightarrow> activeProvider ps (cleanSource ps s) = activeProvider ps s"
  unfolding activeProvider_def [of ps "cleanSource ps s"]
  by (auto simp: jget_cleanSource activeProvider_def allowedKeys_def split: option.splits)

lemma cleanSource_idem: "optObj s \<Longrightarrow> cleanSource ps (cleanSource ps s) = cleanSource ps s"
  unfolding cleanSource_eq [of "cleanSource ps s", OF optObj_cleanSource] activeProvider_cleanSource
  by (auto simp: cleanSource_eq split: option.splits)

lemma cleanSource_undef [simp]: "cleanSource ps JUndef = JUndef"
  by (simp add: cleanSource_eq)

lemma wf_jdel: "wf_json x \<Longrightarrow> wf_json (jdel x k)"
  using wf_jdel_obj [of x k] by (cases x) (auto split: option.splits dest!: set_update_subset_insert [THEN subsetD])

lemma wf_cleanSource: "wf_json s \<Longrightarrow> wf_json (cleanSource ps s)"
proof -
  have "wf_json x \<Longrightarrow> wf_json (fold (\<lambda>key s. if key \<notin> A then jdel s key else s) ks x)" for A ks x
    by (induction ks arbitrary: x) (auto simp: wf_jdel)
  then show "wf_json s \<Longrightarrow> ?thesis" by (simp add: cleanSource_def split: option.splits)
qed

text \<open>
  After \<open>_cleanSourceData\<close> a source whose type is registered has exactly its entries under
  \<open>type\<close>, \<open>enabled\<close> and the parameters of its provider, with their values unchanged; a source
  of an unknown type, and everything outside the two sources, is unchanged; cleaning twice is
  cleaning once.
\<close>

theorem cleanSourceData_keys:
  assumes c: "cfgShape c"
  shows "\<exists>c'. cleanSourceData E c = Inr c' \<and>
    (\<forall>r k. jget (sourceOf c' r) k =
       (case (if r \<in> set roles
              then activeProvider (getRegisteredProviders (ce_providers E)) (sourceOf c r) else None) of
          None \<Rightarrow> jget (sourceOf c r) k
        | Some p \<Rightarrow> if k \<in> set (allowedKeys p) then jget (sourceOf c r) k else JUndef)) \<and>
    (\<forall>k. k \<noteq> ''sources'' \<longrightarrow> jget c' k = jget c k) \<and>
    cleanSourceData E c' = Inr c'"
proof -
  define ps where "ps = getRegisteredProviders (ce_providers E)"
  note sh = cfgShapeD [OF c]
  let ?P = "mapSource ''primary'' (cleanSource ps)" and ?B = "mapSource ''backup'' (cleanSource ps)"
  have eq: "cleanSourceData E x = (if truthy (jget x ''sources'') then Inr (?B (?P x)) else Inr x)"
    if "is_object x" for x
    using that by (cases x) (simp_all add: cleanSourceData_def getProp_def roles_def ps_def)
  have nosrc: "?B (?P c) = c" if "\<not> truthy (jget c ''sources'')"
  proof -
    have "jget c ''sources'' = JUndef" using that sh(5) by (auto simp: optObj_def is_object_truthy)
    then have "?P c = c" "?B c = c" using c by (simp_all add: mapSource_fixed)
    then show ?thesis by simp
  qed
  then have run: "cleanSourceData E c = Inr (?B (?P c))" using eq [OF sh(1)] by simp
  have cc: "cfgShape (?B (?P c))"
    by (intro cfgShape_mapSource c optObj_cleanSource wf_cleanSource cleanSource_undef)
  have src: "sourceOf (?B (?P c)) r = (if r \<in> set roles then cleanSource ps (sourceOf c r) else sourceOf c r)" for r
    using sh by (simp add: mapSource_def jget_jupd optObj_is_object roles_def)
  have "?P (?B (?P c)) = ?B (?P c)" "?B (?B (?P c)) = ?B (?P c)"
    using sh by (auto intro!: mapSource_fixed [OF cc] simp: src roles_def cleanSource_idem)
  then have "cleanSourceData E (?B (?P c)) = Inr (?B (?P c))"
    using eq [OF cfgShapeD(1) [OF cc]] by simp
  moreover have "k \<noteq> ''sources'' \<longrightarrow> jget (?B (?P c)) k = jget c k" for k
    using sh by (simp add: mapSource_def)
  moreover have "jget (sourceOf (?B (?P c)) r) k =
       (case (if r \<in> set roles then activeProvider ps (sourceOf c r) else None) of
          None \<Rightarrow> jget (sourceOf c r) k
        | Some p \<Rightarrow> if k \<in> set (allowedKeys p) then jget (sourceOf c r) k else JUndef)" for r k
    using sh(8) by (simp add: src jget_cleanSource)
  ultimately show ?thesis using run unfolding ps_def by blast
qed

theorem cleanSourceData_keys_witness:
  "\<exists>c'. cleanSourceData sampleEnv sampleConfig = Inr c' \<and>
     jget (sourceOf c' ''primary'') ''method'' = JUndef \<and>
     jget (sourceOf c' ''primary'') ''masjidId'' = JStr ''m1''"
proof -
  have "activeProvider (getRegisteredProviders (ce_providers sampleEnv)) (sourceOf sampleConfig ''primary'') = Some myMasjidMeta"
    by (simp add: activeProvider_def sampleConfig_def sampleEnv_def getRegisteredProviders_def
        builtinProviders_eq aladhanMeta_def myMasjidMeta_def)
  moreover have "''masjidId'' \<in> set (allowedKeys myMasjidMeta)" "''method'' \<notin> set (allowedKeys myMasjidMeta)"
    by (simp_all add: allowedKeys_def myMasjidMeta_def plainParam_def sensitiveKeys_def)
  moreover have "jget (sourceOf sampleConfig ''primary'') ''masjidId'' = JStr ''m1''"
    by (simp add: sampleConfig_def)
  moreover obtain c' where "cleanSourceData sampleEnv sampleConfig = Inr c'"
    "\<And>r k. jget (sourceOf c' r) k =
       (case (if r \<in> set roles
              then activeProvider (getRegisteredProviders (ce_providers sampleEnv)) (sourceOf sampleConfig r) else None) of
          None \<Rightarrow> jget (sourceOf sampleConfig r) k
        | Some p \<Rightarrow> if k \<in> set (allowedKeys p) then jget (sourceOf sampleConfig r) k else JUndef)"
    using cleanSourceData_keys [OF sampleConfig_shape, of sampleEnv] by blast
  ultimately show ?thesis by (auto simp: roles_def)
qed

section \<open>Encrypting for disk, decrypting on load\<close>

definition fieldMap :: "(string \<Rightarrow> string res) \<Rightarrow> json \<Rightarrow> json" where
  "fieldMap f v =
     (case v of
        JStr s \<Rightarrow> if s = [] then v else (case f s of Inl _ \<Rightarrow> v | Inr t \<Rightarrow> JStr t)
      | _ \<Rightarrow> v)"

lemma fieldMap_undef [simp]: "fieldMap f JUndef = JUndef"
  by (simp add: fieldMap_def)

lemma jput_jupd:
  assumes "is_object x" "wf_json x" "jget x k \<noteq> JUndef"
  shows "jput x k v = jupd k (\<lambda>_. v) x"
proof -
  obtain kvs where x: "x = JObj kvs" using assms(1) by (cases x) auto
  have "k \<in> fst ` set kvs"
    using assms(3) x by (force split: option.splits dest: map_of_SomeD)
  moreover have "distinct (map fst kvs)" using assms(2) x by simp
  ultimately have "AList.update k v kvs = map (\<lambda>kv. (fst kv, if fst kv = k then v else snd kv)) kvs"
  proof (induction kvs)
    case (Cons a kvs)
    show ?case
    proof (cases "fst a = k")
      case True
      with Cons.prems(2) have "k \<notin> fst ` set kvs" by simp
      then have "\<forall>kv \<in> set kvs. fst kv \<noteq> k" by (metis image_eqI)
      then have "map (\<lambda>kv. (fst kv, if fst kv = k then v else snd kv)) kvs = map id kvs"
        by (intro map_cong) auto
      with True show ?thesis by (cases a) simp
    qed (use Cons in \<open>cases a; simp\<close>)
  qed simp
  then show ?thesis by (simp add: x jupd_def)
qed

lemma wf_fieldMap: "wf_json v \<Longrightarrow> wf_json (fieldMap f v)"
  by (cases v) (auto simp: fieldMap_def split: sum.splits)

lemma processKeys_map:
  assumes "is_object x" "wf_json x" "distinct ks" "\<And>k s. k \<in> set ks \<Longrightarrow> \<exists>t. f k s = Inr t"
  shows "processKeys f ks x = map_entries (\<lambda>k v. if k \<in> set ks then fieldMap (f k) v else v) x"
  using assms
proof (induction ks arbitrary: x)
  case Nil
  then show ?case by (simp add: map_entries_id)
next
  case (Cons k ks)
  let ?u = "jupd k (fieldMap (f k)) x"
  have wu: "wf_json ?u" using Cons.prems(2) by (rule wf_jupd) (rule wf_fieldMap)
  have "processKeys f (k # ks) x = processKeys f ks ?u"
  proof (cases "\<exists>s. jget x k = JStr s \<and> s \<noteq> []")
    case True
    then obtain s where s: "jget x k = JStr s" "s \<noteq> []" by blast
    obtain t where t: "f k s = Inr t" using Cons.prems(4) [of k s] by auto
    have "jput x k (JStr t) = ?u"
      unfolding jput_jupd [OF Cons.prems(1,2), of k, simplified s(1), simplified]
      using Cons.prems s t by (intro jupd_cong) (simp_all add: fieldMap_def)
    with s t show ?thesis by simp
  next
    case False
    then have "fieldMap (f k) (jget x k) = jget x k"
      by (auto simp: fieldMap_def split: json.splits)
    then have "?u = x" using Cons.prems(1,2) by (simp add: jupd_fixed)
    with False show ?thesis by (cases "jget x k") auto
  qed
  also have "\<dots> = map_entries (\<lambda>k v. if k \<in> set ks then fieldMap (f k) v else v) ?u"
    using Cons.prems wu by (intro Cons.IH) auto
  also have "\<dots> = map_entries (\<lambda>j v. if j \<in> set (k # ks) then fieldMap (f j) v else v) x"
    unfolding jupd_def map_entries_comp using Cons.prems(3) by (intro map_entries_cong) auto
  finally show ?case .
qed

text \<open>
  A ready environment: resolvers wired, key and salt set, nonces rendered in hexadecimal, and
  the metadata of strategies and providers naming each sensitive parameter once.
\<close>

definition cryptoReady :: "cfgEnv \<Rightarrow> string \<Rightarrow> bool" where
  "cryptoReady E key =
     (crypto_ok (ce_crypto E) \<and> envVar E ''JWT_SECRET'' = Some key \<and>
      envVar E ''ENCRYPTION_SALT'' \<noteq> None \<and> (\<forall>i k. colon \<notin> set (ce_iv E i k)))"

definition metaReady :: "cfgEnv \<Rightarrow> (string \<Rightarrow> outputMeta res) \<Rightarrow> bool" where
  "metaReady E R =
     (ce_strategyResolver E = Some R \<and>
      (\<forall>i m. R i = Inr m \<longrightarrow> distinct (sensitiveKeys (om_params m))) \<and>
      (\<forall>(t, p) \<in> set (ce_providers E). distinct (sensitiveKeys (pv_parameters p)) \<and>
         ''type'' \<notin> set (sensitiveKeys (pv_parameters p))))"

lemma salt_set: "cryptoReady E key \<Longrightarrow> \<exists>s. ce_env E ''ENCRYPTION_SALT'' = Some s \<and> s \<noteq> []"
  by (auto simp: cryptoReady_def envVar_def split: option.splits if_splits)

lemma encrypt_decrypt_ready:
  assumes r: "cryptoReady E key" and "colon \<notin> set iv" "p \<noteq> []"
  shows "\<exists>c. encrypt (ce_crypto E) (ce_env E ''ENCRYPTION_SALT'') iv p key = Inr c \<and> colon \<in> set c \<and>
    decrypt (ce_crypto E) (ce_env E ''ENCRYPTION_SALT'') c key = Inr p"
proof -
  from r obtain s where "ce_env E ''ENCRYPTION_SALT'' = Some s" "s \<noteq> []" using salt_set by blast
  with assms show ?thesis by (auto simp: cryptoReady_def intro!: encrypt_then_decrypt)
qed

lemma processField_total:
  assumes "cryptoReady E key"
  shows "\<exists>t. processField E key a iv s = Inr t"
  using salt_set [OF assms] by (cases a) (auto simp: processField_def encrypt_total split: sum.splits)

lemma field_roundtrip:
  assumes "cryptoReady E key" "colon \<notin> set iv" "\<And>s. v = JStr s \<Longrightarrow> colon \<notin> set s"
  shows "fieldMap (processField E key Decrypt iv') (fieldMap (processField E key Encrypt iv) v) = v"
proof (cases v)
  case (JStr s)
  with assms(3) have nc: "colon \<notin> set s" by blast
  show ?thesis
  proof (cases "s = [] \<or> isMasked (JStr s)")
    case True
    with JStr nc show ?thesis by (auto simp: fieldMap_def processField_def)
  next
    case False
    with encrypt_decrypt_ready [OF assms(1,2)] obtain c where
      "encrypt (ce_crypto E) (ce_env E ''ENCRYPTION_SALT'') iv s key = Inr c" "colon \<in> set c"
      "decrypt (ce_crypto E) (ce_env E ''ENCRYPTION_SALT'') c key = Inr s" by blast
    with JStr nc False show ?thesis by (auto simp: fieldMap_def processField_def)
  qed
qed (simp_all add: fieldMap_def)

lemma encrypted_field:
  assumes "cryptoReady E key" "colon \<notin> set iv" "s \<noteq> []" "s \<noteq> mask"
  shows "\<exists>t. fieldMap (processField E key Encrypt iv) (JStr s) = JStr t \<and> colon \<in> set t"
  using assms encrypt_decrypt_ready [OF assms(1-3)]
  by (auto simp: fieldMap_def processField_def isMasked_def)

subsection \<open>The passes keep the shape\<close>

lemma wf_jput: "wf_json x \<Longrightarrow> wf_json v \<Longrightarrow> wf_json (jput x k v)"
proof (cases x)
  case (JArr xs)
  assume "wf_json x" "wf_json v"
  with JArr show ?thesis
    by (auto simp: list_put_def split: option.splits dest!: set_update_subset_insert [THEN subsetD])
qed (use wf_jput_obj [of x v k] in auto)

lemma wf_processKeys: "wf_json x \<Longrightarrow> wf_json (processKeys f ks x)"
proof (induction ks arbitrary: x)
  case (Cons k ks)
  have "wf_json (jput x k (JStr v))" for v using Cons.prems by (rule wf_jput) simp
  with Cons show ?case by (simp split: json.splits sum.splits)
qed simp

lemma is_object_processKeys [simp]: "is_object (processKeys f ks x) = is_object x"
  by (induction ks arbitrary: x) (auto split: json.splits sum.splits)

lemma processKeys_undef [simp]: "processKeys f ks JUndef = JUndef"
  by (induction ks) auto

lemma optObj_processKeys: "optObj x \<Longrightarrow> optObj (processKeys f ks x)"
  by (auto simp: optObj_def)

lemma cfgShape_processOutputs: "cfgShape c \<Longrightarrow> cfgShape (mapOutputs (processOutput E R key a) c)"
proof (rule cfgShape_mapOutputs)
  fix i v
  assume "optObj v" "optObj (jget v ''params'')"
  then show "optObj (processOutput E R key a i v) \<and> optObj (jget (processOutput E R key a i v) ''params'')"
    by (simp add: processOutput_def jget_jupd optObj_processKeys split: sum.splits)
next
  fix i v
  assume "wf_json v"
  then show "wf_json (processOutput E R key a i v)"
    by (auto simp: processOutput_def intro!: wf_jupd wf_processKeys split: sum.splits)
qed

lemma processSource_undef [simp]: "processSource E key a r JUndef = JUndef"
  by (simp add: processSource_def)

lemma processOutput_undef [simp]: "processOutput E R key a i JUndef = JUndef"
  by (simp add: processOutput_def split: sum.splits)

lemma cfgShape_processSource:
  "cfgShape c \<Longrightarrow> cfgShape (mapSource r (processSource E key a r) c)"
  by (rule cfgShape_mapSource)
     (auto simp: processSource_def optObj_processKeys wf_processKeys split: sum.splits)

lemma processSensitiveFields_eq:
  assumes key: "envVar E ''JWT_SECRET'' = Some key" and R: "ce_strategyResolver E = Some R" and c: "cfgShape c"
  shows "processSensitiveFields E a c = Inr (processSources E key a (mapOutputs (processOutput E R key a) c))"
proof -
  note sh = cfgShapeD [OF c]
  have "typeof_object c" using sh(1) by (cases c) auto
  moreover have "mapOutputs (processOutput E R key a) c = c" if "\<not> truthy (outputsOf c)"
  proof -
    have "outputsOf c = JUndef" using that sh(4) by (auto simp: optObj_def is_object_truthy)
    then show ?thesis by (intro mapOutputs_fixed c) simp
  qed
  ultimately show ?thesis
    by (simp add: processSensitiveFields_def getEncryptionKey_def key R)
qed

text \<open>Sensitive values as the user enters them: no colon.\<close>

definition plainSecrets :: "cfgEnv \<Rightarrow> (string \<Rightarrow> outputMeta res) \<Rightarrow> json \<Rightarrow> bool" where
  "plainSecrets E R c =
     ((\<forall>i m k s. R i = Inr m \<longrightarrow> k \<in> set (sensitiveKeys (om_params m)) \<longrightarrow>
         jget (paramsOf c i) k = JStr s \<longrightarrow> colon \<notin> set s) \<and>
      (\<forall>r m k s. getProviderClass (ce_providers E) (jget (sourceOf c r) ''type'') = Inr m \<longrightarrow>
         k \<in> set (sensitiveKeys (pv_parameters m)) \<longrightarrow>
         jget (sourceOf c r) k = JStr s \<longrightarrow> colon \<notin> set s))"

lemma keys_roundtrip:
  assumes r: "cryptoReady E key" and x: "optObj x" "wf_json x" and d: "distinct ks"
    and plain: "\<And>k s. k \<in> set ks \<Longrightarrow> jget x k = JStr s \<Longrightarrow> colon \<notin> set s"
    and iv: "\<And>k. colon \<notin> set (iv k)"
  shows "processKeys (\<lambda>k. processField E key Decrypt (iv' k)) ks
           (processKeys (\<lambda>k. processField E key Encrypt (iv k)) ks x) = x"
proof (cases "is_object x")
  case True
  have tot: "\<exists>t. processField E key a w s = Inr t" for a w s by (rule processField_total [OF r])
  let ?e = "processKeys (\<lambda>k. processField E key Encrypt (iv k)) ks x"
  have e: "?e = map_entries (\<lambda>k v. if k \<in> set ks then fieldMap (processField E key Encrypt (iv k)) v else v) x"
    using True x(2) d tot by (rule processKeys_map)
  have "processKeys (\<lambda>k. processField E key Decrypt (iv' k)) ks ?e =
      map_entries (\<lambda>k v. if k \<in> set ks then fieldMap (processField E key Decrypt (iv' k)) v else v) ?e"
    using True x(2) by (intro processKeys_map d tot wf_processKeys) simp_all
  also have "\<dots> = x"
    unfolding e map_entries_comp
  proof (rule map_entries_fixed)
    fix k v assume "(k, v) \<in> set (entries x)"
    then have "jget x k = v" using True x(2) entries_jget_obj by blast
    then show "(if k \<in> set ks then fieldMap (processField E key Decrypt (iv' k))
        (if k \<in> set ks then fieldMap (processField E key Encrypt (iv k)) v else v)
        else if k \<in> set ks then fieldMap (processField E key Encrypt (iv k)) v else v) = v"
      using field_roundtrip [OF r iv] plain by auto
  qed
  finally show ?thesis .
next
  case False
  then show ?thesis using x(1) by (simp add: optObj_def)
qed

lemma output_roundtrip:
  assumes r: "cryptoReady E key" and m: "metaReady E R" and c: "cfgShape c" and p: "plainSecrets E R c"
  shows "processOutput E R key Decrypt i (processOutput E R key Encrypt i (outputOf c i)) = outputOf c i"
proof (cases "R i")
  case (Inr meta)
  note sh = cfgShapeD [OF c]
  let ?f = "\<lambda>a params. if truthy params
     then processKeys (\<lambda>k. processField E key a (ce_iv E i k)) (sensitiveKeys (om_params meta)) params
     else params"
  have iv: "colon \<notin> set (ce_iv E i k)" for k using r by (simp add: cryptoReady_def)
  have d: "distinct (sensitiveKeys (om_params meta))" using m Inr by (simp add: metaReady_def)
  have pl: "\<And>k s. k \<in> set (sensitiveKeys (om_params meta)) \<Longrightarrow> jget (paramsOf c i) k = JStr s \<Longrightarrow> colon \<notin> set s"
    using p Inr by (simp add: plainSecrets_def)
  have wf: "wf_json (paramsOf c i)" "wf_json (outputOf c i)" using sh(2) by (simp_all only: wf_jget)
  have tr: "truthy (processKeys f ks (paramsOf c i)) = truthy (paramsOf c i)" for f ks
    using optObj_truthy [OF sh(7)] optObj_truthy [OF optObj_processKeys [OF sh(7)]] by simp
  have "?f Decrypt (?f Encrypt (paramsOf c i)) = paramsOf c i"
    using keys_roundtrip [OF r sh(7) wf(1) d pl iv] by (auto simp: tr)
  then have "jupd ''params'' (\<lambda>v. ?f Decrypt (?f Encrypt v)) (outputOf c i) = outputOf c i"
    using wf(2) sh(6) by (intro jupd_fixed_opt)
  then show ?thesis by (simp add: processOutput_def Inr jupd_comp)
qed (simp add: processOutput_def)

lemma jget_processKeys_other: "k \<notin> set ks \<Longrightarrow> optObj x \<Longrightarrow> jget (processKeys f ks x) k = jget x k"
proof (induction ks arbitrary: x)
  case (Cons j ks)
  then have "optObj (jput x j (JStr v))" for v by (auto simp: optObj_def)
  moreover have "jget (jput x j (JStr v)) k = jget x k" for v
    using Cons.prems by (auto simp: optObj_def)
  ultimately show ?case using Cons by (simp split: json.splits sum.splits)
qed simp

lemma source_roundtrip:
  assumes r: "cryptoReady E key" and m: "metaReady E R" and c: "cfgShape c" and p: "plainSecrets E R c"
  shows "processSource E key Decrypt w (processSource E key Encrypt w (sourceOf c w)) = sourceOf c w"
proof (cases "getProviderClass (ce_providers E) (jget (sourceOf c w) ''type'')")
  case (Inr meta)
  note sh = cfgShapeD [OF c]
  let ?ks = "sensitiveKeys (pv_parameters meta)"
  obtain t where "(t, meta) \<in> set (ce_providers E)"
    using Inr by (auto simp: getProviderClass_def split: json.splits option.splits dest!: map_of_SomeD)
  then have d: "distinct ?ks" "''type'' \<notin> set ?ks" using m by (auto simp: metaReady_def)
  have iv: "colon \<notin> set (ce_iv E w k)" for k using r by (simp add: cryptoReady_def)
  have pl: "\<And>k s. k \<in> set ?ks \<Longrightarrow> jget (sourceOf c w) k = JStr s \<Longrightarrow> colon \<notin> set s"
    using p Inr unfolding plainSecrets_def by blast
  have wf: "wf_json (sourceOf c w)" using sh(2) by (simp_all only: wf_jget)
  have ty: "jget (processKeys f ?ks (sourceOf c w)) ''type'' = jget (sourceOf c w) ''type''" for f
    using d(2) sh(8) by (rule jget_processKeys_other)
  have tr: "truthy (processKeys f ?ks (sourceOf c w)) = truthy (sourceOf c w)" for f
    using optObj_truthy [OF sh(8)] optObj_truthy [OF optObj_processKeys [OF sh(8)]] by simp
  have "processKeys (\<lambda>k. processField E key Decrypt (ce_iv E w k)) ?ks
      (processKeys (\<lambda>k. processField E key Encrypt (ce_iv E w k)) ?ks (sourceOf c w)) = sourceOf c w"
    by (rule keys_roundtrip [OF r sh(8) wf d(1)]) (use pl iv in auto)
  then show ?thesis
    by (cases "truthy (sourceOf c w) \<and> truthy (jget (sourceOf c w) ''type'')")
       (auto simp: processSource_def Inr ty tr)
qed (simp add: processSource_def)

lemma jget_encrypted:
  assumes r: "cryptoReady E key" and d: "distinct ks" "k \<in> set ks" and x: "is_object x" "wf_json x"
    and iv: "\<And>k. colon \<notin> set (iv k)" and s: "jget x k = JStr s" "s \<noteq> []" "s \<noteq> mask"
  shows "\<exists>t. jget (processKeys (\<lambda>k. processField E key Encrypt (iv k)) ks x) k = JStr t \<and> colon \<in> set t"
proof -
  have "processKeys (\<lambda>k. processField E key Encrypt (iv k)) ks x =
      map_entries (\<lambda>k v. if k \<in> set ks then fieldMap (processField E key Encrypt (iv k)) v else v) x"
    using x d(1) processField_total [OF r] by (rule processKeys_map)
  then have "jget (processKeys (\<lambda>k. processField E key Encrypt (iv k)) ks x) k =
      fieldMap (processField E key Encrypt (iv k)) (JStr s)"
    using x(1) d(2) s(1) by (simp add: jget_map_entries)
  then show ?thesis using encrypted_field [OF r iv s(2,3)] by simp
qed

lemma processSources_eq:
  "processSources E key a c =
   mapSource ''backup'' (processSource E key a ''backup'')
     (mapSource ''primary'' (processSource E key a ''primary'') c)"
  by (simp add: processSources_def roles_def)

lemma cfgShape_processSources: "cfgShape c \<Longrightarrow> cfgShape (processSources E key a c)"
  by (simp add: processSources_eq cfgShape_processSource)

lemma processSources_roundtrip:
  assumes "cryptoReady E key" "metaReady E R" "cfgShape c" "plainSecrets E R c"
  shows "processSources E key Decrypt (processSources E key Encrypt c) = c"
proof -
  let ?m = "\<lambda>a w. mapSource w (processSource E key a w)"
  have inv: "?m Decrypt w (?m Encrypt w c) = c" for w
    unfolding mapSource_comp by (rule mapSource_fixed [OF assms(3)]) (rule source_roundtrip [OF assms])
  have "processSources E key Decrypt (processSources E key Encrypt c) =
      ?m Decrypt ''backup'' (?m Encrypt ''backup'' (?m Decrypt ''primary'' (?m Encrypt ''primary'' c)))"
    unfolding processSources_eq by (simp add: mapSource_commute [of "''primary''" "''backup''"])
  then show ?thesis by (simp add: inv)
qed

lemma mapOutputs_processSources:
  "mapOutputs f (processSources E key a c) = processSources E key a (mapOutputs f c)"
  by (simp add: processSources_eq mapOutputs_mapSource)


lemma sampleEnv_ready: "cryptoReady sampleEnv ''jwt''"
  by (simp add: cryptoReady_def sampleEnv_def toyCrypto_ok envVar_def colon_def)

lemma sampleEnv_meta: "metaReady sampleEnv (getStrategy builtinOutputs)"
  by (auto simp: metaReady_def sampleEnv_def getStrategy_def builtinOutputs_eq builtinProviders_eq
      localMeta_def voiceMonkeyMeta_def browserMeta_def aladhanMeta_def myMasjidMeta_def
      sensitiveKeys_def plainParam_def split: if_splits)

lemma sampleConfig_plain: "plainSecrets sampleEnv (getStrategy builtinOutputs) sampleConfig"
  by (auto simp: plainSecrets_def sampleConfig_def sampleEnv_def getStrategy_def builtinOutputs_eq
      builtinProviders_eq getProviderClass_def localMeta_def voiceMonkeyMeta_def browserMeta_def
      aladhanMeta_def myMasjidMeta_def sensitiveKeys_def plainParam_def colon_def
      split: if_splits json.splits option.splits)


section \<open>Environment overrides\<close>

definition autoShape :: "json \<Rightarrow> bool" where
  "autoShape c =
     (is_object c \<and> is_object (jget c ''automation'') \<and> optObj (outputsOf c) \<and>
      (\<forall>i. optObj (outputOf c i) \<and> optObj (paramsOf c i)))"

definition freshOutput :: json where
  "freshOutput = JObj [(''params'', JObj [])]"

lemma orElse_obj [simp]: "optObj x \<Longrightarrow> is_object d \<Longrightarrow> is_object (orElse x d)"
  by (auto simp: orElse_def optObj_def is_object_truthy)

lemma jget_orElse_empty [simp]: "optObj x \<Longrightarrow> jget (orElse x (JObj [])) k = jget x k"
  by (auto simp: orElse_def optObj_def is_object_truthy)

lemma orElse_fresh:
  assumes "optObj oc" "optObj (jget oc ''params'')"
  shows "optObj (jget (orElse oc freshOutput) ''params'')"
    "jget (jget (orElse oc freshOutput) ''params'') k = jget (jget oc ''params'') k"
  using assms by (auto simp: orElse_def optObj_def is_object_truthy freshOutput_def)

lemma setOutputSecret_eq:
  assumes "is_object a" "optObj (jget a ''outputs'')" "optObj (jget (jget a ''outputs'') i)"
    "optObj (jget (jget (jget a ''outputs'') i) ''params'')"
  shows "setOutputSecret freshOutput i k v a =
    Inr (jput a ''outputs'' (jput (orElse (jget a ''outputs'') (JObj [])) i
      (jput (orElse (jget (jget a ''outputs'') i) freshOutput) ''params''
        (jput (orElse (jget (orElse (jget (jget a ''outputs'') i) freshOutput) ''params'') (JObj [])) k (JStr v)))))"
proof -
  let ?oc = "orElse (jget (jget a ''outputs'') i) freshOutput"
  have f: "is_object freshOutput" by (simp add: freshOutput_def)
  have p: "is_object (orElse (jget ?oc ''params'') (JObj []))"
    using orElse_fresh(1) [OF assms(3,4)] by simp
  then have "typeof_object (orElse (jget ?oc ''params'') (JObj []))"
    by (cases "orElse (jget ?oc ''params'') (JObj [])") auto
  then show ?thesis
    using assms f by (simp add: setOutputSecret_def modProp_obj setProp_def)
qed

lemma overrideOutput_step:
  assumes c: "autoShape c" and e: "envVar E (outputEnvKey i k) = Some v"
  shows "\<exists>c'. overrideOutput E (i, k) c = Inr c' \<and> autoShape c' \<and>
    (\<forall>i' k'. jget (paramsOf c' i') k' = (if i' = i \<and> k' = k then JStr v else jget (paramsOf c i') k')) \<and>
    (\<forall>f. f \<noteq> ''outputs'' \<longrightarrow> jget (jget c' ''automation'') f = jget (jget c ''automation'') f)"
proof -
  have sh: "is_object c" "is_object (jget c ''automation'')" "optObj (outputsOf c)"
    "\<And>i. optObj (outputOf c i)" "\<And>i. optObj (paramsOf c i)"
    using c by (simp_all add: autoShape_def)
  let ?oc = "orElse (outputOf c i) freshOutput"
  have f: "is_object freshOutput" by (simp add: freshOutput_def)
  note fr = orElse_fresh [OF sh(4) sh(5), of i]
  define c' where "c' = jput c ''automation'' (jput (jget c ''automation'') ''outputs''
      (jput (orElse (outputsOf c) (JObj [])) i
        (jput ?oc ''params'' (jput (orElse (jget ?oc ''params'') (JObj [])) k (JStr v)))))"
  have "overrideOutput E (i, k) c = Inr c'"
    using sh e by (simp add: overrideOutput_def modProp_obj freshOutput_def [symmetric] setOutputSecret_eq c'_def)
  moreover have out: "outputOf c' i' = (if i' = i
      then jput ?oc ''params'' (jput (orElse (jget ?oc ''params'') (JObj [])) k (JStr v)) else outputOf c i')" for i'
    using sh by (simp add: c'_def jget_jput)
  moreover have par: "paramsOf c' i' = (if i' = i
      then jput (orElse (jget ?oc ''params'') (JObj [])) k (JStr v) else paramsOf c i')" for i'
    using sh f by (simp add: out jget_jput)
  moreover have "jget (paramsOf c' i') k' = (if i' = i \<and> k' = k then JStr v else jget (paramsOf c i') k')" for i' k'
    using fr by (simp add: par jget_jput)
  moreover have "autoShape c'"
    unfolding autoShape_def par out using sh f fr
    by (simp add: c'_def jget_jput optObj_is_object)
  moreover have "f \<noteq> ''outputs'' \<longrightarrow> jget (jget c' ''automation'') f = jget (jget c ''automation'') f" for f
    using sh by (simp add: c'_def)
  ultimately show ?thesis by blast
qed

lemma overrideOutputs:
  "autoShape c \<Longrightarrow> \<exists>c'. foldR (overrideOutput E) secrets c = Inr c' \<and> autoShape c' \<and>
    (\<forall>i k. jget (paramsOf c' i) k =
       (if (i, k) \<in> set secrets \<and> envVar E (outputEnvKey i k) \<noteq> None
        then JStr (the (envVar E (outputEnvKey i k))) else jget (paramsOf c i) k)) \<and>
    (\<forall>f. f \<noteq> ''outputs'' \<longrightarrow> jget (jget c' ''automation'') f = jget (jget c ''automation'') f)"
proof (induction secrets arbitrary: c)
  case (Cons sk secrets)
  obtain i k where sk: "sk = (i, k)" by (cases sk)
  show ?case
  proof (cases "envVar E (outputEnvKey i k)")
    case None
    then have "overrideOutput E sk c = Inr c" by (simp add: overrideOutput_def sk)
    with Cons.IH [OF Cons.prems] None show ?thesis by (fastforce simp: sk)
  next
    case (Some v)
    from overrideOutput_step [OF Cons.prems Some] obtain c1 where c1:
      "overrideOutput E sk c = Inr c1" "autoShape c1"
      "\<And>i' k'. jget (paramsOf c1 i') k' = (if i' = i \<and> k' = k then JStr v else jget (paramsOf c i') k')"
      "\<And>f. f \<noteq> ''outputs'' \<Longrightarrow> jget (jget c1 ''automation'') f = jget (jget c ''automation'') f"
      unfolding sk by blast
    from Cons.IH [OF c1(2)] obtain c' where c': "foldR (overrideOutput E) secrets c1 = Inr c'" "autoShape c'"
      "\<And>i k. jget (paramsOf c' i) k =
         (if (i, k) \<in> set secrets \<and> envVar E (outputEnvKey i k) \<noteq> None
          then JStr (the (envVar E (outputEnvKey i k))) else jget (paramsOf c1 i) k)"
      "\<And>f. f \<noteq> ''outputs'' \<Longrightarrow> jget (jget c' ''automation'') f = jget (jget c1 ''automation'') f" by blast
    show ?thesis
      by (rule exI [of _ c']) (use c1 c' Some sk in \<open>auto simp: c1(3) c'(3)\<close>)
  qed
qed simp

lemma overrideProviders_other:
  "is_object c \<Longrightarrow> k \<noteq> ''sources'' \<Longrightarrow>
   is_object (overrideProviders E c) \<and> jget (overrideProviders E c) k = jget c k"
proof -
  assume c: "is_object c" and k: "k \<noteq> ''sources''"
  let ?J = "\<lambda>x. is_object x \<and> jget x k = jget c k"
  have ms: "?J x \<Longrightarrow> ?J (mapSource r f x)" for r f x
    using k by (simp add: mapSource_def)
  have fi: "?J x \<Longrightarrow> (\<And>y z. z \<in> set xs \<Longrightarrow> ?J y \<Longrightarrow> ?J (g z y)) \<Longrightarrow> ?J (fold g xs x)"
    for g :: "'a \<Rightarrow> json \<Rightarrow> json" and xs x
    by (induction xs arbitrary: x) auto
  show ?thesis
    unfolding overrideProviders_def
    by (intro fi) (use c ms in \<open>auto simp: roles_def split: option.split\<close>)
qed

lemma setEnvField_step:
  assumes "autoShape c" "f \<noteq> ''outputs''"
  shows "\<exists>c'. setEnvField E var f c = Inr c' \<and> autoShape c' \<and> outputsOf c' = outputsOf c \<and>
    (\<forall>g. jget (jget c' ''automation'') g =
       (if g = f \<and> envVar E var \<noteq> None then JStr (the (envVar E var)) else jget (jget c ''automation'') g))"
proof (cases "envVar E var")
  case None
  with assms show ?thesis by (simp add: setEnvField_def)
next
  case (Some v)
  have sh: "is_object c" "is_object (jget c ''automation'')" using assms(1) by (simp_all add: autoShape_def)
  have "typeof_object (jget c ''automation'')" using sh(2) by (cases "jget c ''automation''") auto
  then have "setEnvField E var f c = Inr (jput c ''automation'' (jput (jget c ''automation'') f (JStr v)))"
    using sh Some by (simp add: setEnvField_def modProp_obj setProp_def)
  with sh Some assms show ?thesis by (simp add: autoShape_def jget_jput)
qed


lemma sampleConfig_auto: "autoShape sampleConfig"
  by (simp add: autoShape_def sampleConfig_def)

lemma outputEnvKey_voicemonkey:
  "outputEnvKey ''voicemonkey'' ''token'' = ''VOICEMONKEY_TOKEN''"
  "outputEnvKey ''voicemonkey'' ''device'' = ''VOICEMONKEY_DEVICE''"
  by code_simp+


section \<open>Stripping secrets before a save\<close>

lemma delProp_undef [simp]: "delProp k JUndef = JUndef"
  by (simp add: delProp_def)

lemma jget_delProp: "optObj x \<Longrightarrow> jget (delProp k x) k' = (if k' = k then JUndef else jget x k')"
  by (auto simp: delProp_def optObj_def)

lemma optObj_delProp: "optObj x \<Longrightarrow> optObj (delProp k x)"
  by (auto simp: delProp_def optObj_def)

lemma wf_delProp: "wf_json x \<Longrightarrow> wf_json (delProp k x)"
  by (simp add: delProp_def wf_jdel)

lemma stripOutput_step:
  assumes c: "cfgShape c"
  shows "cfgShape (stripOutput E (i, k) c)"
    "jget (paramsOf (stripOutput E (i, k) c) i') k' =
       (if i' = i \<and> k' = k \<and> envVar E (outputEnvKey i k) \<noteq> None then JUndef else jget (paramsOf c i') k')"
proof -
  note sh = cfgShapeD [OF c]
  let ?f = "\<lambda>j v. if j = i then jupd ''params'' (delProp k) v else v"
  have eq: "stripOutput E (i, k) c = (if envVar E (outputEnvKey i k) = None then c else mapOutputs ?f c)"
  proof -
    have "jupd i (jupd ''params'' (delProp k)) = map_entries ?f" by (simp add: jupd_def [of i] fun_eq_iff)
    then show ?thesis by (simp add: stripOutput_def mapOutputs_def)
  qed
  have "cfgShape (mapOutputs ?f c)"
    by (rule cfgShape_mapOutputs [OF c])
       (auto simp: jget_jupd optObj_delProp intro!: wf_jupd wf_delProp)
  then show "cfgShape (stripOutput E (i, k) c)" using c by (simp add: eq)
  have "outputOf (mapOutputs ?f c) i' = ?f i' (outputOf c i')"
    by (rule outputOf_mapOutputs [OF c]) simp
  then have "jget (paramsOf (mapOutputs ?f c) i') k' =
      (if i' = i \<and> k' = k then JUndef else jget (paramsOf c i') k')"
    using sh by (simp add: jget_jupd jget_delProp)
  then show "jget (paramsOf (stripOutput E (i, k) c) i') k' =
      (if i' = i \<and> k' = k \<and> envVar E (outputEnvKey i k) \<noteq> None then JUndef else jget (paramsOf c i') k')"
    by (cases "envVar E (outputEnvKey i k) = None"; cases "i' = i \<and> k' = k") (auto simp: eq)
qed

lemma stripOutputs:
  "cfgShape c \<Longrightarrow> cfgShape (fold (stripOutput E) secrets c) \<and>
   (\<forall>i k. jget (paramsOf (fold (stripOutput E) secrets c) i) k =
      (if (i, k) \<in> set secrets \<and> envVar E (outputEnvKey i k) \<noteq> None then JUndef
       else jget (paramsOf c i) k))"
proof (induction secrets arbitrary: c)
  case (Cons sk secrets)
  obtain i k where sk: "sk = (i, k)" by (cases sk)
  show ?case
    using Cons.IH [OF stripOutput_step(1) [OF Cons.prems, of E i k]] stripOutput_step(2) [OF Cons.prems]
    by (simp add: sk) auto
qed simp

lemma fold_delProp: "optObj x \<Longrightarrow> optObj (fold delProp ks x) \<and>
   (\<forall>k. jget (fold delProp ks x) k = (if k \<in> set ks then JUndef else jget x k))"
  by (induction ks arbitrary: x) (auto simp: optObj_delProp jget_delProp)

lemma fold_delProp_undef [simp]: "fold delProp ks JUndef = JUndef"
  by (induction ks) auto

lemma stripSource_undef [simp]: "stripSource p JUndef = JUndef"
  by (simp add: stripSource_def)

lemma cfgShape_stripSource: "cfgShape c \<Longrightarrow> cfgShape (mapSource r (stripSource p) c)"
proof (rule cfgShape_mapSource)
  have "wf_json x \<Longrightarrow> wf_json (fold delProp ks x)" for ks x
    by (induction ks arbitrary: x) (auto simp: wf_delProp)
  then show "\<And>v. wf_json v \<Longrightarrow> wf_json (stripSource p v)" by (simp add: stripSource_def)
qed (simp_all add: stripSource_def fold_delProp)

definition stripRoles :: "providerMeta \<Rightarrow> json \<Rightarrow> json" where
  "stripRoles p c = mapSource ''backup'' (stripSource p) (mapSource ''primary'' (stripSource p) c)"

lemma stripProviders_eq: "stripProviders E c = fold stripRoles (getRegisteredProviders (ce_providers E)) c"
proof -
  have "fold (\<lambda>role. mapSource role (stripSource p)) roles = stripRoles p" for p
    by (simp add: roles_def stripRoles_def fun_eq_iff)
  then show ?thesis by (simp add: stripProviders_def)
qed

lemma stripRoles_step:
  assumes c: "cfgShape c" and t: "''type'' \<notin> set (sensitiveKeys (pv_parameters p))"
  shows "cfgShape (stripRoles p c)" "outputsOf (stripRoles p c) = outputsOf c"
    "jget (stripRoles p c) ''automation'' = jget c ''automation''"
    "jget (sourceOf (stripRoles p c) r) k =
       (if r \<in> set roles \<and> jget (sourceOf c r) ''type'' = JStr (pv_id p) \<and>
           k \<in> set (sensitiveKeys (pv_parameters p)) then JUndef else jget (sourceOf c r) k)"
proof -
  have c1: "cfgShape (mapSource ''primary'' (stripSource p) c)" using c by (rule cfgShape_stripSource)
  then show "cfgShape (stripRoles p c)" unfolding stripRoles_def by (rule cfgShape_stripSource)
  show "outputsOf (stripRoles p c) = outputsOf c" using c c1 by (simp add: stripRoles_def)
  show "jget (stripRoles p c) ''automation'' = jget c ''automation''"
    using cfgShapeD(1) [OF c] by (simp add: stripRoles_def mapSource_def)
  have "sourceOf (stripRoles p c) r = (if r \<in> set roles then stripSource p (sourceOf c r) else sourceOf c r)"
    using c c1 by (simp add: stripRoles_def sourceOf_mapSource roles_def)
  then show "jget (sourceOf (stripRoles p c) r) k =
       (if r \<in> set roles \<and> jget (sourceOf c r) ''type'' = JStr (pv_id p) \<and>
           k \<in> set (sensitiveKeys (pv_parameters p)) then JUndef else jget (sourceOf c r) k)"
    using fold_delProp [OF cfgShapeD(8) [OF c]] by (simp add: stripSource_def)
qed

lemma stripRoles_fold:
  assumes "cfgShape c" "\<forall>p \<in> set ps. ''type'' \<notin> set (sensitiveKeys (pv_parameters p))"
  shows "jget (fold stripRoles ps c) ''automation'' = jget c ''automation'' \<and>
    (\<forall>r k. jget (sourceOf (fold stripRoles ps c) r) k =
       (if r \<in> set roles \<and> (\<exists>p \<in> set ps. jget (sourceOf c r) ''type'' = JStr (pv_id p) \<and>
           k \<in> set (sensitiveKeys (pv_parameters p))) then JUndef else jget (sourceOf c r) k))"
  using assms
proof (induction ps arbitrary: c)
  case (Cons p ps)
  then have t: "''type'' \<notin> set (sensitiveKeys (pv_parameters p))" by simp
  note st = stripRoles_step [OF Cons.prems(1) t]
  show ?case using Cons.IH [OF st(1)] Cons.prems(2) t by (simp add: st(3,4)) auto
qed simp

text \<open>
  \<open>_stripSecrets\<close>: in the object that is about to be saved, every output secret whose
  environment variable is set is absent, every sensitive field of a source of a registered
  type is absent, and all other output parameters and source fields are unchanged.
\<close>

theorem stripSecrets_absent:
  assumes c: "cfgShape c" and s: "ce_secretKeysResolver E = Some secrets" and m: "metaReady E R"
  shows "\<exists>c'. stripSecrets E c = Inr c' \<and>
    (is_object (jget c ''automation'') \<longrightarrow>
     (\<forall>i k. jget (paramsOf c' i) k =
       (if (i, k) \<in> set secrets \<and> envVar E (outputEnvKey i k) \<noteq> None then JUndef
        else jget (paramsOf c i) k))) \<and>
    (\<forall>r k. jget (sourceOf c' r) k =
       (if r \<in> set roles \<and> (\<exists>p \<in> set (getRegisteredProviders (ce_providers E)).
             jget (sourceOf c r) ''type'' = JStr (pv_id p) \<and> k \<in> set (sensitiveKeys (pv_parameters p)))
        then JUndef else jget (sourceOf c r) k))"
proof -
  note sh = cfgShapeD [OF c]
  let ?ps = "getRegisteredProviders (ce_providers E)"
  have t: "\<forall>p \<in> set ?ps. ''type'' \<notin> set (sensitiveKeys (pv_parameters p))"
    using m by (auto simp: metaReady_def getRegisteredProviders_def)
  have del: "cfgShape (delEnvField E var f x) \<and> outputsOf (delEnvField E var f x) = outputsOf x \<and>
      jget (delEnvField E var f x) ''sources'' = jget x ''sources''"
    if "cfgShape x" "is_object (jget x ''automation'')" "f \<noteq> ''outputs''" for var f x
    using that cfgShapeD [OF that(1)]
    by (auto simp: delEnvField_def jget_jupd optObj_is_object cfgShape_def intro!: wf_jupd wf_jdel)
  have src: "jget (fold (stripOutput E) sks x) ''sources'' = jget x ''sources''" if "is_object x" for sks x
    using that by (induction sks arbitrary: x) (auto simp: stripOutput_def)
  show ?thesis
  proof (cases "is_object (jget c ''automation'')")
    case True
    let ?a = "delEnvField E ''BASE_URL'' ''baseUrl'' c"
    let ?b = "delEnvField E ''PYTHON_SERVICE_URL'' ''pythonServiceUrl'' ?a"
    let ?c = "fold (stripOutput E) secrets ?b"
    have a: "cfgShape ?a" "outputsOf ?a = outputsOf c" "jget ?a ''sources'' = jget c ''sources''"
      using del [OF c True] by auto
    have oa: "is_object (jget ?a ''automation'')"
      using True sh by (simp add: delEnvField_def jget_jupd optObj_is_object)
    have b: "cfgShape ?b" "outputsOf ?b = outputsOf c" "jget ?b ''sources'' = jget c ''sources''"
      using del [OF a(1) oa] a by auto
    have "stripSecrets E c = Inr (fold stripRoles ?ps ?c)"
      using True s sh(1) by (cases c) (simp_all add: stripSecrets_def getProp_def is_object_truthy stripProviders_eq)
    moreover have "cfgShape ?c" using stripOutputs [OF b(1)] by blast
    note fin = stripRoles_fold [OF this t] stripOutputs [OF b(1), of E secrets]
    have "sourceOf ?c r = sourceOf c r" for r using src [OF cfgShapeD(1) [OF b(1)]] b(3) by simp
    with fin b(2) show ?thesis using calculation by auto
  next
    case False
    then have "jget c ''automation'' = JUndef" using sh(3) by (simp add: optObj_def)
    then have "stripSecrets E c = Inr (fold stripRoles ?ps c)"
      using sh(1) by (cases c) (simp_all add: stripSecrets_def getProp_def stripProviders_eq)
    with stripRoles_fold [OF c t] False show ?thesis by auto
  qed
qed

theorem stripSecrets_absent_witness:
  "\<exists>c'. stripSecrets sampleEnv sampleConfig = Inr c' \<and>
     jget (paramsOf c' ''voicemonkey'') ''token'' = JUndef"
proof -
  have s: "ce_secretKeysResolver sampleEnv = Some [(''voicemonkey'', ''token''), (''voicemonkey'', ''device'')]"
    by (simp add: sampleEnv_def getSecretRequirementKeys_def builtinOutputs_eq strategySecretKeys_def
        sensitiveKeys_def localMeta_def voiceMonkeyMeta_def browserMeta_def)
  have "envVar sampleEnv (outputEnvKey ''voicemonkey'' ''token'') = Some ''tok''"
    by (simp add: envVar_def sampleEnv_def outputEnvKey_voicemonkey)
  moreover have "is_object (jget sampleConfig ''automation'')" by (simp add: sampleConfig_def)
  ultimately show ?thesis
    using stripSecrets_absent [OF sampleConfig_shape s sampleEnv_meta]
    by (metis list.set_intros(1) option.distinct(1))
qed

end
