(* ===== verification/Migration.thy ===== *)
theory Migration
  imports Config_Secrets
begin

text \<open>
  \<open>src/src/services/system/migrationService.js\<close>: the chain of configuration migrations from
  version 1 to version 5, and the migration of secrets from the environment into the
  configuration. A write below a primitive value throws, as in strict code.
\<close>

text \<open>\<open>{ ...config, version: n }\<close>\<close>

fun spread :: "json \<Rightarrow> jobj" where
  "spread (JObj kvs) = kvs"
| "spread (JArr xs) = entries (JArr xs)"
| "spread (JStr s) = entries (JArr (map (\<lambda>c. JStr [c]) s))"
| "spread _ = []"

definition withVersion :: "nat \<Rightarrow> json \<Rightarrow> json" where
  "withVersion n config = JObj (AList.update ''version'' (JNum (of_nat n)) (spread config))"

definition legacyOutput :: "json \<Rightarrow> json" where
  "legacyOutput legacy =
     JObj [(''enabled'', JBool (truthy (jget legacy ''enabled''))),
           (''leadTimeMs'', JNum 0),
           (''params'', JObj [(''token'', jget legacy ''token''), (''device'', jget legacy ''device'')])]"

definition migrateV1toV2 :: "json \<Rightarrow> json res" where
  "migrateV1toV2 config =
     (let v2 = withVersion 2 config;
          v2 = (if truthy (jget v2 ''automation'') then v2 else jput v2 ''automation'' (JObj []))
      in bindR (if truthy (outputsOf v2) then Inr v2
                else modProp ''automation'' (\<lambda>a. setProp a ''outputs'' (JObj [])) v2) (\<lambda>v2.
         let legacy = jget (jget v2 ''automation'') ''voiceMonkey'' in
         if truthy legacy
         then modProp ''automation'' (\<lambda>a.
                bindR (modProp ''outputs'' (\<lambda>outs. setProp outs ''voicemonkey'' (legacyOutput legacy)) a)
                  (\<lambda>a. Inr (jdel a ''voiceMonkey''))) v2
         else Inr v2))"

definition moveCalculation :: "json \<Rightarrow> json \<Rightarrow> json" where
  "moveCalculation calc primary =
     (if jget primary ''type'' = JStr ''aladhan''
      then fold (\<lambda>k p. jput p k (jget calc k))
             [''method'', ''madhab'', ''latitudeAdjustmentMethod'', ''midnightMode''] primary
      else primary)"

definition migrateV2toV3 :: "json \<Rightarrow> json" where
  "migrateV2toV3 config =
     (let v3 = withVersion 3 config; calc = jget v3 ''calculation'' in
      if truthy calc \<and> truthy (jget v3 ''sources'') \<and> truthy (sourceOf v3 ''primary'')
      then jdel (mapSource ''primary'' (moveCalculation calc) v3) ''calculation''
      else v3)"

definition defaultHealthChecks :: json where
  "defaultHealthChecks = JObj [(''api'', JBool True), (''tts'', JBool True)]"

definition migrateV3toV4 :: "json \<Rightarrow> json res" where
  "migrateV3toV4 config =
     (let v4 = withVersion 4 config in
      if \<not> truthy (jget v4 ''system'')
      then Inr (jput v4 ''system'' (JObj [(''healthChecks'', defaultHealthChecks)]))
      else if \<not> truthy (jget (jget v4 ''system'') ''healthChecks'')
      then modProp ''system'' (\<lambda>s. setProp s ''healthChecks'' defaultHealthChecks) v4
      else Inr v4)"

definition migrateV4toV5 :: "json \<Rightarrow> json res" where
  "migrateV4toV5 config =
     (let v5 = withVersion 5 config in
      if \<not> truthy (jget v5 ''security'')
      then Inr (jput v5 ''security'' (JObj [(''tokenVersion'', JNum 1)]))
      else if jget (jget v5 ''security'') ''tokenVersion'' = JUndef
      then modProp ''security'' (\<lambda>s. setProp s ''tokenVersion'' (JNum 1)) v5
      else Inr v5)"

definition migrateConfig :: "json \<Rightarrow> json res" where
  "migrateConfig config =
     (let c = json_copy config in
      bindR (getProp c ''version'') (\<lambda>v.
      bindR (if \<not> truthy v \<or> v = JNum 1 then migrateV1toV2 c else Inr c) (\<lambda>c.
      let c = (if jget c ''version'' = JNum 2 then migrateV2toV3 c else c) in
      bindR (if jget c ''version'' = JNum 3 then migrateV3toV4 c else Inr c) (\<lambda>c.
      if jget c ''version'' = JNum 4 then migrateV4toV5 c else Inr c))))"

section \<open>\<open>migrateEnvSecrets\<close>\<close>

type_synonym migState = "json \<times> bool \<times> string list"

definition disabledOutput :: json where
  "disabledOutput = JObj [(''enabled'', JBool False), (''params'', JObj [])]"

definition migrateOutputSecret :: "cfgEnv \<Rightarrow> string \<times> string \<Rightarrow> migState \<Rightarrow> migState res" where
  "migrateOutputSecret E sk st =
     (let (config, changed, migratedKeys) = st; (strategyId, key) = sk;
          envKey = outputEnvKey strategyId key in
      case envVar E envKey of
        None \<Rightarrow> Inr st
      | Some envValue \<Rightarrow>
          bindR
            (modProp ''automation'' (\<lambda>a.
               modProp ''outputs'' (\<lambda>outs.
                 modProp strategyId (\<lambda>oc.
                   modProp ''params'' (\<lambda>p.
                     let params = orElse p (JObj []) in
                     if truthy (jget params key) then Inr params else setProp params key (JStr envValue))
                   (orElse oc disabledOutput))
                 (orElse outs (JObj [])))
               (orElse a (JObj []))) config)
            (\<lambda>config'.
               if truthy (jget (paramsOf config strategyId) key) then Inr (config', changed, migratedKeys)
               else Inr (config', True, migratedKeys @ [envKey])))"

definition migrateSourceSecret :: "cfgEnv \<Rightarrow> string \<Rightarrow> string \<Rightarrow> string \<Rightarrow> migState \<Rightarrow> migState" where
  "migrateSourceSecret E pid sKey role st =
     (let (config, changed, migratedKeys) = st; envKey = toUpperCase sKey;
          source = sourceOf config role in
      case envVar E envKey of
        None \<Rightarrow> st
      | Some envValue \<Rightarrow>
          if jget source ''type'' = JStr pid \<and> \<not> truthy (jget source sKey)
          then (mapSource role (\<lambda>s. jput s sKey (JStr envValue)) config, True,
                if envKey \<in> set migratedKeys then migratedKeys else migratedKeys @ [envKey])
          else st)"

definition migrateEnvSecrets :: "cfgEnv \<Rightarrow> json \<Rightarrow> migState res" where
  "migrateEnvSecrets E config =
     (case ce_secretKeysResolver E of
        None \<Rightarrow> Inl (Error ''[MigrationService] Output secret keys resolver not wired. Call setOutputSecretKeysResolver() before migrateEnvSecrets().'')
      | Some secrets \<Rightarrow>
          bindR (foldR (migrateOutputSecret E) secrets (config, False, [])) (\<lambda>st.
          Inr (fold (\<lambda>provider. fold (\<lambda>sKey. fold (migrateSourceSecret E (pv_id provider) sKey) roles)
                 (sensitiveKeys (pv_parameters provider)))
               (getRegisteredProviders (ce_providers E)) st)))"

section \<open>The version chain\<close>

lemma withVersion_get:
  "is_object c \<Longrightarrow> jget (withVersion n c) k = (if k = ''version'' then JNum (of_nat n) else jget c k)"
  by (cases c) (auto simp: withVersion_def update_conv')

lemma is_object_withVersion [simp]: "is_object (withVersion n c)"
  by (simp add: withVersion_def)

lemma setProp_obj: "is_object x \<Longrightarrow> setProp x k v = Inr (jput x k v)"
  by (cases x) (auto simp: setProp_def)

lemma migrateV4toV5_ok:
  assumes "is_object c" "optObj (jget c ''security'')"
  shows "\<exists>c'. migrateV4toV5 c = Inr c' \<and> is_object c' \<and> jget c' ''version'' = JNum 5 \<and>
    jget (jget c' ''security'') ''tokenVersion'' \<noteq> JUndef \<and>
    (\<forall>k. k \<notin> {''version'', ''security''} \<longrightarrow> jget c' k = jget c k)"
  using assms
  by (auto simp: migrateV4toV5_def Let_def withVersion_get modProp_obj setProp_obj jget_jput optObj_def
      is_object_truthy)

lemma migrateV3toV4_ok:
  assumes "is_object c" "optObj (jget c ''system'')"
  shows "\<exists>c'. migrateV3toV4 c = Inr c' \<and> is_object c' \<and> jget c' ''version'' = JNum 4 \<and>
    truthy (jget (jget c' ''system'') ''healthChecks'') \<and>
    (\<forall>k. k \<notin> {''version'', ''system''} \<longrightarrow> jget c' k = jget c k)"
  using assms
  by (auto simp: migrateV3toV4_def Let_def withVersion_get modProp_obj setProp_obj jget_jput optObj_def
      is_object_truthy defaultHealthChecks_def)

lemma migrateV2toV3_ok:
  assumes "is_object c"
  shows "is_object (migrateV2toV3 c) \<and> jget (migrateV2toV3 c) ''version'' = JNum 3 \<and>
    (\<forall>k. k \<notin> {''version'', ''calculation'', ''sources''} \<longrightarrow> jget (migrateV2toV3 c) k = jget c k) \<and>
    (truthy (jget c ''calculation'') \<longrightarrow> truthy (jget c ''sources'') \<longrightarrow> truthy (sourceOf c ''primary'') \<longrightarrow>
       jget (migrateV2toV3 c) ''calculation'' = JUndef)"
  using assms
  by (auto simp: migrateV2toV3_def Let_def withVersion_get mapSource_def jget_jdel jget_jupd optObj_is_object)

lemma migrateV1toV2_ok:
  assumes c: "is_object c" and a: "optObj (jget c ''automation'')" and o: "optObj (outputsOf c)"
  shows "\<exists>c'. migrateV1toV2 c = Inr c' \<and> is_object c' \<and> jget c' ''version'' = JNum 2 \<and>
    \<not> truthy (jget (jget c' ''automation'') ''voiceMonkey'') \<and> is_object (outputsOf c') \<and>
    (truthy (jget (jget c ''automation'') ''voiceMonkey'') \<longrightarrow>
       outputOf c' ''voicemonkey'' = legacyOutput (jget (jget c ''automation'') ''voiceMonkey'')) \<and>
    (\<forall>k. k \<notin> {''version'', ''automation''} \<longrightarrow> jget c' k = jget c k)"
proof (cases "is_object (jget c ''automation'')")
  case True
  show ?thesis
  proof (cases "is_object (outputsOf c)")
    case o: True
    with True c show ?thesis
      by (simp add: migrateV1toV2_def Let_def withVersion_get modProp_obj setProp_obj jget_jput is_object_truthy)
  next
    case False
    with o have "outputsOf c = JUndef" by (simp add: optObj_def)
    with True c show ?thesis
      by (simp add: migrateV1toV2_def Let_def withVersion_get modProp_obj setProp_obj jget_jput is_object_truthy)
  qed
next
  case False
  with a have "jget c ''automation'' = JUndef" by (simp add: optObj_def)
  with c show ?thesis
    by (simp add: migrateV1toV2_def Let_def withVersion_get modProp_obj setProp_obj jget_jput is_object_truthy)
qed

text \<open>The two steps that apply only to some versions, with what they keep.\<close>

abbreviation keptBut :: "string set \<Rightarrow> json \<Rightarrow> json \<Rightarrow> bool" where
  "keptBut S x y \<equiv> \<forall>k. k \<notin> S \<longrightarrow> jget y k = jget x k"

abbreviation firstVersion :: "json \<Rightarrow> bool" where
  "firstVersion c \<equiv> \<not> truthy (jget c ''version'') \<or> jget c ''version'' = JNum 1"

lemma migrate_from_v1:
  assumes "is_object c" "optObj (jget c ''automation'')" "optObj (outputsOf c)"
    and v: "firstVersion c \<or> jget c ''version'' \<in> {JNum 2, JNum 3, JNum 4}"
  shows "\<exists>c1. (if firstVersion c then migrateV1toV2 c else Inr c) = Inr c1 \<and> is_object c1 \<and>
      keptBut {''version'', ''automation''} c c1 \<and> jget c1 ''version'' \<in> {JNum 2, JNum 3, JNum 4} \<and>
      (jget c ''version'' \<noteq> JNum 4 \<longrightarrow> jget c1 ''version'' \<noteq> JNum 4) \<and>
      (firstVersion c \<longrightarrow> \<not> truthy (jget (jget c1 ''automation'') ''voiceMonkey'') \<and>
       (truthy (jget (jget c ''automation'') ''voiceMonkey'') \<longrightarrow>
          outputOf c1 ''voicemonkey'' = legacyOutput (jget (jget c ''automation'') ''voiceMonkey'')))"
proof (cases "firstVersion c")
  case True
  from migrateV1toV2_ok [OF assms(1-3)] obtain c1 where "migrateV1toV2 c = Inr c1" "is_object c1"
    "jget c1 ''version'' = JNum 2" "\<not> truthy (jget (jget c1 ''automation'') ''voiceMonkey'')"
    "truthy (jget (jget c ''automation'') ''voiceMonkey'') \<longrightarrow>
       outputOf c1 ''voicemonkey'' = legacyOutput (jget (jget c ''automation'') ''voiceMonkey'')"
    "keptBut {''version'', ''automation''} c c1" by blast
  with True show ?thesis by (intro exI [of _ c1]) simp
next
  case False
  with assms(1) v show ?thesis by (intro exI [of _ c]) auto
qed

lemma migrate_from_v3:
  assumes "is_object c" "optObj (jget c ''system'')" "jget c ''version'' \<in> {JNum 3, JNum 4}"
  shows "\<exists>c3. (if jget c ''version'' = JNum 3 then migrateV3toV4 c else Inr c) = Inr c3 \<and> is_object c3 \<and>
      jget c3 ''version'' = JNum 4 \<and> keptBut {''version'', ''system''} c c3 \<and>
      (jget c ''version'' = JNum 3 \<longrightarrow> truthy (jget (jget c3 ''system'') ''healthChecks''))"
proof (cases "jget c ''version'' = JNum 3")
  case True
  with migrateV3toV4_ok [OF assms(1,2)] show ?thesis by simp blast
next
  case False
  with assms(1,3) show ?thesis by (intro exI [of _ c]) simp
qed

lemma migrateConfig_current:
  assumes "is_object c" "jget c ''version'' = JNum 5"
  shows "migrateConfig c = Inr (json_copy c)"
proof -
  have "jget (json_copy c) ''version'' = JNum 5"
    using jget_json_copy_defined [OF assms(1), of "''version''"] assms(2) by simp
  then show ?thesis
    using assms(1) by (cases c) (simp_all add: migrateConfig_def Let_def getProp_def del: jget.simps)
qed

text \<open>
  Every configuration file of version 1 (or without a version) to 4 whose object levels are
  objects migrates to version 5, with health checks and a token version present; from version 1
  the legacy VoiceMonkey block is gone and its credentials are the parameters of the
  \<open>voicemonkey\<close> output; every top-level section the migrations do not name is unchanged; and
  migrating the result again changes nothing (up to the JSON copy).
\<close>

theorem migrateConfig_v5:
  assumes c: "is_object c" "defined c" and sh: "optObj (jget c ''automation'')" "optObj (outputsOf c)"
      "optObj (jget c ''system'')" "optObj (jget c ''security'')"
    and v: "\<not> truthy (jget c ''version'') \<or> jget c ''version'' \<in> {JNum 1, JNum 2, JNum 3, JNum 4}"
  shows "\<exists>c'. migrateConfig c = Inr c' \<and> jget c' ''version'' = JNum 5 \<and>
    jget (jget c' ''security'') ''tokenVersion'' \<noteq> JUndef \<and>
    (jget c ''version'' \<noteq> JNum 4 \<longrightarrow> truthy (jget (jget c' ''system'') ''healthChecks'')) \<and>
    (\<not> truthy (jget c ''version'') \<or> jget c ''version'' = JNum 1 \<longrightarrow>
       \<not> truthy (jget (jget c' ''automation'') ''voiceMonkey'') \<and>
       (truthy (jget (jget c ''automation'') ''voiceMonkey'') \<longrightarrow>
          outputOf c' ''voicemonkey'' = legacyOutput (jget (jget c ''automation'') ''voiceMonkey''))) \<and>
    (\<forall>k. k \<notin> {''version'', ''automation'', ''calculation'', ''sources'', ''system'', ''security''} \<longrightarrow>
       jget c' k = jget c k) \<and>
    migrateConfig c' = Inr (json_copy c')"
proof -
  have v': "firstVersion c \<or> jget c ''version'' \<in> {JNum 2, JNum 3, JNum 4}" using v by auto
  obtain c1 where c1: "(if firstVersion c then migrateV1toV2 c else Inr c) = Inr c1" "is_object c1"
      "keptBut {''version'', ''automation''} c c1" "jget c1 ''version'' \<in> {JNum 2, JNum 3, JNum 4}"
      "jget c ''version'' \<noteq> JNum 4 \<longrightarrow> jget c1 ''version'' \<noteq> JNum 4"
      "firstVersion c \<longrightarrow> \<not> truthy (jget (jget c1 ''automation'') ''voiceMonkey'') \<and>
       (truthy (jget (jget c ''automation'') ''voiceMonkey'') \<longrightarrow>
          outputOf c1 ''voicemonkey'' = legacyOutput (jget (jget c ''automation'') ''voiceMonkey''))"
    using migrate_from_v1 [OF c(1) sh(1,2) v'] by blast
  define c2 where "c2 = (if jget c1 ''version'' = JNum 2 then migrateV2toV3 c1 else c1)"
  have c2: "is_object c2" "jget c2 ''version'' \<in> {JNum 3, JNum 4}"
      "keptBut {''version'', ''calculation'', ''sources''} c1 c2"
      "jget c1 ''version'' \<noteq> JNum 4 \<longrightarrow> jget c2 ''version'' = JNum 3"
    using migrateV2toV3_ok [OF c1(2)] c1(2,4) by (auto simp: c2_def)
  have sys2: "optObj (jget c2 ''system'')" using sh(3) c1(3) c2(3) by simp
  obtain c3 where
    c3: "(if jget c2 ''version'' = JNum 3 then migrateV3toV4 c2 else Inr c2) = Inr c3" "is_object c3"
      "jget c3 ''version'' = JNum 4" "keptBut {''version'', ''system''} c2 c3"
      "jget c2 ''version'' = JNum 3 \<longrightarrow> truthy (jget (jget c3 ''system'') ''healthChecks'')"
    using migrate_from_v3 [OF c2(1) sys2 c2(2)] by blast
  have sec3: "optObj (jget c3 ''security'')" using sh(4) c1(3) c2(3) c3(4) by simp
  from migrateV4toV5_ok [OF c3(2) sec3] obtain c4 where
    c4: "migrateV4toV5 c3 = Inr c4" "is_object c4" "jget c4 ''version'' = JNum 5"
      "jget (jget c4 ''security'') ''tokenVersion'' \<noteq> JUndef" "keptBut {''version'', ''security''} c3 c4" by blast
  have "c \<noteq> JUndef" "c \<noteq> JNull" using c(1) by auto
  then have "migrateConfig c = Inr c4"
    using c1(1) c3(1,3) c4(1)
    by (cases "jget c2 ''version'' = JNum 3")
       (auto simp: migrateConfig_def Let_def json_copy_defined [OF c(2)] getProp_def c2_def [symmetric])
  moreover note migrateConfig_current [OF c4(2,3)]
  moreover have "jget c4 ''automation'' = jget c1 ''automation''" "jget c4 ''system'' = jget c3 ''system''"
    using c2(3) c3(4) c4(5) by simp_all
  ultimately show ?thesis
    using c1(3,5,6) c2(3,4) c3(4,5) c4 by (intro exI [of _ c4]) simp
qed

definition legacyConfig :: json where
  "legacyConfig =
     JObj [(''automation'', JObj [(''voiceMonkey'', JObj [(''enabled'', JBool True), (''token'', JStr ''t'')])])]"

theorem migrateConfig_v5_witness:
  "\<exists>c'. migrateConfig legacyConfig = Inr c' \<and> jget c' ''version'' = JNum 5 \<and>
     jget (paramsOf c' ''voicemonkey'') ''token'' = JStr ''t''"
proof -
  have pre: "is_object legacyConfig" "defined legacyConfig" "optObj (jget legacyConfig ''automation'')"
    "optObj (outputsOf legacyConfig)" "optObj (jget legacyConfig ''system'')"
    "optObj (jget legacyConfig ''security'')"
    "\<not> truthy (jget legacyConfig ''version'') \<or> jget legacyConfig ''version'' \<in> {JNum 1, JNum 2, JNum 3, JNum 4}"
    by (simp_all add: legacyConfig_def)
  obtain c' where "migrateConfig legacyConfig = Inr c'" "jget c' ''version'' = JNum 5"
    "outputOf c' ''voicemonkey'' = legacyOutput (jget (jget legacyConfig ''automation'') ''voiceMonkey'')"
    using migrateConfig_v5 [OF pre] by (auto simp: legacyConfig_def)
  moreover have "jget (jget (legacyOutput (jget (jget legacyConfig ''automation'') ''voiceMonkey'')) ''params'') ''token'' = JStr ''t''"
    by (simp add: legacyOutput_def legacyConfig_def)
  ultimately show ?thesis by auto
qed

section \<open>Secrets from the environment\<close>

definition optShape :: "json \<Rightarrow> bool" where
  "optShape c =
     (is_object c \<and> optObj (jget c ''automation'') \<and> optObj (outputsOf c) \<and>
      (\<forall>i. optObj (outputOf c i) \<and> optObj (paramsOf c i)))"

lemma orElse_disabled:
  assumes "optObj oc" "optObj (jget oc ''params'')"
  shows "optObj (jget (orElse oc disabledOutput) ''params'')"
    "jget (jget (orElse oc disabledOutput) ''params'') k = jget (jget oc ''params'') k"
  using assms by (auto simp: orElse_def optObj_def is_object_truthy disabledOutput_def)

lemma ensureParams:
  assumes c: "optShape c"
    and g: "g (jget (orElse (outputOf c i) disabledOutput) ''params'') = Inr p" "is_object p"
  shows "\<exists>c'. modProp ''automation'' (\<lambda>a. modProp ''outputs'' (\<lambda>outs. modProp i (\<lambda>oc.
      modProp ''params'' g (orElse oc disabledOutput)) (orElse outs (JObj []))) (orElse a (JObj []))) c = Inr c' \<and>
    optShape c' \<and> (\<forall>i'. paramsOf c' i' = (if i' = i then p else paramsOf c i')) \<and>
    jget c' ''sources'' = jget c ''sources''"
proof -
  have sh: "is_object c" "optObj (jget c ''automation'')" "optObj (outputsOf c)"
    "\<And>i. optObj (outputOf c i)" "\<And>i. optObj (paramsOf c i)"
    using c by (simp_all add: optShape_def)
  have d: "is_object disabledOutput" by (simp add: disabledOutput_def)
  define c' where "c' = jput c ''automation'' (jput (orElse (jget c ''automation'') (JObj [])) ''outputs''
      (jput (orElse (outputsOf c) (JObj [])) i (jput (orElse (outputOf c i) disabledOutput) ''params'' p)))"
  have "modProp ''automation'' (\<lambda>a. modProp ''outputs'' (\<lambda>outs. modProp i (\<lambda>oc.
      modProp ''params'' g (orElse oc disabledOutput)) (orElse outs (JObj []))) (orElse a (JObj []))) c = Inr c'"
    using sh d g by (simp add: modProp_obj c'_def)
  moreover have out: "outputOf c' i' = (if i' = i then jput (orElse (outputOf c i) disabledOutput) ''params'' p
      else outputOf c i')" for i'
    using sh d by (simp add: c'_def jget_jput)
  moreover have par: "paramsOf c' i' = (if i' = i then p else paramsOf c i')" for i'
    using sh d by (simp add: out jget_jput)
  moreover have "optShape c'"
    unfolding optShape_def par out using sh d g(2) by (simp add: c'_def jget_jput optObj_is_object)
  moreover have "jget c' ''sources'' = jget c ''sources''" using sh(1) by (simp add: c'_def)
  ultimately show ?thesis by blast
qed

text \<open>The value a secret has after the migration.\<close>

definition migratedValue :: "cfgEnv \<Rightarrow> (string \<times> string) list \<Rightarrow> json \<Rightarrow> string \<Rightarrow> string \<Rightarrow> json" where
  "migratedValue E secrets old i k =
     (if (i, k) \<in> set secrets \<and> envVar E (outputEnvKey i k) \<noteq> None \<and> \<not> truthy old
      then JStr (the (envVar E (outputEnvKey i k))) else old)"

lemma migrateOutputSecret_step:
  assumes c: "optShape c"
  shows "\<exists>c' ch' ks'. migrateOutputSecret E (i, k) (c, ch, ks) = Inr (c', ch', ks') \<and> optShape c' \<and>
    (\<forall>i' k'. jget (paramsOf c' i') k' = migratedValue E [(i, k)] (jget (paramsOf c i') k') i' k') \<and>
    jget c' ''sources'' = jget c ''sources'' \<and> ((ch \<longleftrightarrow> ks \<noteq> []) \<longrightarrow> (ch' \<longleftrightarrow> ks' \<noteq> [])) \<and>
    set ks' = set ks \<union> (if envVar E (outputEnvKey i k) \<noteq> None \<and> \<not> truthy (jget (paramsOf c i) k)
                        then {outputEnvKey i k} else {})"
proof (cases "envVar E (outputEnvKey i k)")
  case None
  with c show ?thesis by (simp add: migrateOutputSecret_def migratedValue_def)
next
  case (Some v)
  let ?x = "jget (orElse (outputOf c i) disabledOutput) ''params''"
  let ?p = "orElse ?x (JObj [])"
  define p where "p = (if truthy (jget ?p k) then ?p else jput ?p k (JStr v))"
  let ?g = "\<lambda>p. let params = orElse p (JObj []) in if truthy (jget params k) then Inr params else setProp params k (JStr v)"
  have sh: "optObj (outputOf c i)" "optObj (paramsOf c i)" using c by (simp_all add: optShape_def)
  note d = orElse_disabled [OF sh]
  have op: "is_object ?p" using d(1) by simp
  then have g: "?g ?x = Inr p" "is_object p" by (simp_all add: p_def Let_def setProp_obj)
  have get: "jget ?p k' = jget (paramsOf c i) k'" for k' using d by simp
  have gp: "jget p k' = (if k' = k \<and> \<not> truthy (jget (paramsOf c i) k) then JStr v else jget (paramsOf c i) k')" for k'
    using op by (simp add: p_def get jget_jput)
  from ensureParams [where g = ?g, OF c g] obtain c' where c':
    "modProp ''automation'' (\<lambda>a. modProp ''outputs'' (\<lambda>outs. modProp i (\<lambda>oc.
      modProp ''params'' ?g (orElse oc disabledOutput)) (orElse outs (JObj []))) (orElse a (JObj []))) c = Inr c'"
    "optShape c'" "\<And>i'. paramsOf c' i' = (if i' = i then p else paramsOf c i')"
    "jget c' ''sources'' = jget c ''sources''" by blast
  have val: "jget (paramsOf c' i') k' = migratedValue E [(i, k)] (jget (paramsOf c i') k') i' k'" for i' k'
    using Some by (auto simp: c'(3) gp migratedValue_def)
  show ?thesis
    using c'(1,2,4) val Some by (cases "truthy (jget (paramsOf c i) k)") (auto simp: migrateOutputSecret_def)
qed

lemma migratedValue_Cons:
  "migratedValue E secrets (migratedValue E [sk] old i k) i k = migratedValue E (sk # secrets) old i k"
proof -
  have "envVar E x \<noteq> Some []" for x by (simp add: envVar_def split: option.splits)
  then show ?thesis by (auto simp: migratedValue_def)
qed

lemma migrateOutputSecrets:
  assumes "optShape c"
  shows "\<exists>c' ch' ks'. foldR (migrateOutputSecret E) secrets (c, ch, ks) = Inr (c', ch', ks') \<and> optShape c' \<and>
    (\<forall>i k. jget (paramsOf c' i) k = migratedValue E secrets (jget (paramsOf c i) k) i k) \<and>
    jget c' ''sources'' = jget c ''sources'' \<and> ((ch \<longleftrightarrow> ks \<noteq> []) \<longrightarrow> (ch' \<longleftrightarrow> ks' \<noteq> [])) \<and>
    set ks' = set ks \<union> {outputEnvKey i k | i k. (i, k) \<in> set secrets \<and>
       envVar E (outputEnvKey i k) \<noteq> None \<and> \<not> truthy (jget (paramsOf c i) k)}"
  using assms
proof (induction secrets arbitrary: c ch ks)
  case Nil
  then show ?case by (simp add: migratedValue_def)
next
  case (Cons sk secrets)
  obtain i k where sk: "sk = (i, k)" by (cases sk)
  from migrateOutputSecret_step [OF Cons.prems, of E i k ch ks] obtain c1 ch1 ks1 where c1:
    "migrateOutputSecret E sk (c, ch, ks) = Inr (c1, ch1, ks1)" "optShape c1"
    "\<And>i' k'. jget (paramsOf c1 i') k' = migratedValue E [sk] (jget (paramsOf c i') k') i' k'"
    "jget c1 ''sources'' = jget c ''sources''" "(ch \<longleftrightarrow> ks \<noteq> []) \<longrightarrow> (ch1 \<longleftrightarrow> ks1 \<noteq> [])"
    "set ks1 = set ks \<union> (if envVar E (outputEnvKey i k) \<noteq> None \<and> \<not> truthy (jget (paramsOf c i) k)
                        then {outputEnvKey i k} else {})"
    unfolding sk by blast
  from Cons.IH [OF c1(2), of ch1 ks1] obtain c' ch' ks' where c':
    "foldR (migrateOutputSecret E) secrets (c1, ch1, ks1) = Inr (c', ch', ks')" "optShape c'"
    "\<And>i k. jget (paramsOf c' i) k = migratedValue E secrets (jget (paramsOf c1 i) k) i k"
    "jget c' ''sources'' = jget c1 ''sources''" "(ch1 \<longleftrightarrow> ks1 \<noteq> []) \<longrightarrow> (ch' \<longleftrightarrow> ks' \<noteq> [])"
    "set ks' = set ks1 \<union> {outputEnvKey i k | i k. (i, k) \<in> set secrets \<and>
       envVar E (outputEnvKey i k) \<noteq> None \<and> \<not> truthy (jget (paramsOf c1 i) k)}" by blast
  have "envVar E x \<noteq> Some []" for x by (simp add: envVar_def split: option.splits)
  then have tr: "truthy (jget (paramsOf c1 i') k') \<longleftrightarrow> truthy (jget (paramsOf c i') k') \<or>
      ((i', k') = sk \<and> envVar E (outputEnvKey i' k') \<noteq> None)" for i' k'
    by (auto simp: c1(3) migratedValue_def)
  have "set ks' = set ks \<union> {outputEnvKey i k | i k. (i, k) \<in> set (sk # secrets) \<and>
       envVar E (outputEnvKey i k) \<noteq> None \<and> \<not> truthy (jget (paramsOf c i) k)}"
    unfolding c'(6) c1(6) tr sk by auto
  with c1(1,4,5) c'(1,2,4,5) show ?case
    by (simp add: c'(3) c1(3) migratedValue_Cons)
qed

lemma migrateSourceSecret_step:
  assumes "migrateSourceSecret E pid sKey role (c, ch, ks) = (c', ch', ks')" "is_object c"
  shows "is_object c' \<and> jget c' ''automation'' = jget c ''automation'' \<and>
    ((ch \<longleftrightarrow> ks \<noteq> []) \<longrightarrow> (ch' \<longleftrightarrow> ks' \<noteq> [])) \<and>
    set ks \<subseteq> set ks' \<and> (\<forall>k \<in> set ks' - set ks. envVar E k \<noteq> None)"
  using assms
  by (auto simp: migrateSourceSecret_def Let_def mapSource_def split: option.splits if_splits)

definition migInv :: "cfgEnv \<Rightarrow> json \<Rightarrow> string list \<Rightarrow> migState \<Rightarrow> bool" where
  "migInv E a ks st =
     (is_object (fst st) \<and> jget (fst st) ''automation'' = a \<and>
      (fst (snd st) \<longleftrightarrow> snd (snd st) \<noteq> []) \<and> set ks \<subseteq> set (snd (snd st)) \<and>
      (\<forall>k \<in> set (snd (snd st)) - set ks. envVar E k \<noteq> None))"

lemma migInv_step: "migInv E a ks st \<Longrightarrow> migInv E a ks (migrateSourceSecret E pid sKey role st)"
proof -
  assume inv: "migInv E a ks st"
  obtain c ch k c' ch' k' where st: "st = (c, ch, k)"
    "migrateSourceSecret E pid sKey role st = (c', ch', k')" by (metis prod_cases3)
  have "is_object c" using inv by (simp add: migInv_def st(1))
  note step = migrateSourceSecret_step [OF st(2) [unfolded st(1)] this]
  from inv have "jget c ''automation'' = a" "ch \<longleftrightarrow> k \<noteq> []" "set ks \<subseteq> set k" "\<forall>x \<in> set k - set ks. envVar E x \<noteq> None"
    by (simp_all add: migInv_def st(1))
  with step show ?thesis unfolding st(2) migInv_def by auto
qed

lemma fold_inv: "P x \<Longrightarrow> (\<And>y z. P y \<Longrightarrow> P (g z y)) \<Longrightarrow> P (fold g zs x)"
  by (induction zs arbitrary: x) auto

lemma migInv_providers:
  assumes "migInv E a ks st"
  shows "migInv E a ks (fold (\<lambda>provider. fold (\<lambda>sKey. fold (migrateSourceSecret E (pv_id provider) sKey) roles)
                 (sensitiveKeys (pv_parameters provider))) ps st)"
  by (intro fold_inv [where P = "migInv E a ks"] assms migInv_step)

text \<open>
  \<open>migrateEnvSecrets\<close> writes an environment secret into the parameters of its output
  exactly when the configuration has no value there, and keeps every other parameter; the
  \<open>changed\<close> flag is set exactly when keys are reported; and the reported keys, which the caller
  deletes from the \<open>.env\<close> file, are names of variables that are set, among them every output
  secret that was written.
\<close>

theorem migrateEnvSecrets_fills:
  assumes c: "optShape c" and s: "ce_secretKeysResolver E = Some secrets"
  shows "\<exists>c' changed keys. migrateEnvSecrets E c = Inr (c', changed, keys) \<and>
    (\<forall>i k. jget (paramsOf c' i) k =
       (if (i, k) \<in> set secrets \<and> envVar E (outputEnvKey i k) \<noteq> None \<and> \<not> truthy (jget (paramsOf c i) k)
        then JStr (the (envVar E (outputEnvKey i k))) else jget (paramsOf c i) k)) \<and>
    (changed \<longleftrightarrow> keys \<noteq> []) \<and> (\<forall>k \<in> set keys. envVar E k \<noteq> None) \<and>
    (\<forall>i k. (i, k) \<in> set secrets \<and> envVar E (outputEnvKey i k) \<noteq> None \<and>
       \<not> truthy (jget (paramsOf c i) k) \<longrightarrow> outputEnvKey i k \<in> set keys)"
proof -
  obtain c1 ch1 ks1 where c1: "foldR (migrateOutputSecret E) secrets (c, False, []) = Inr (c1, ch1, ks1)"
    "optShape c1" "\<And>i k. jget (paramsOf c1 i) k = migratedValue E secrets (jget (paramsOf c i) k) i k"
    "ch1 \<longleftrightarrow> ks1 \<noteq> []"
    "set ks1 = {outputEnvKey i k | i k. (i, k) \<in> set secrets \<and>
       envVar E (outputEnvKey i k) \<noteq> None \<and> \<not> truthy (jget (paramsOf c i) k)}"
    using migrateOutputSecrets [OF c, of E secrets False "[]"] by auto
  define st where "st = fold (\<lambda>provider. fold (\<lambda>sKey. fold (migrateSourceSecret E (pv_id provider) sKey) roles)
      (sensitiveKeys (pv_parameters provider))) (getRegisteredProviders (ce_providers E)) (c1, ch1, ks1)"
  have "migInv E (jget c1 ''automation'') ks1 (c1, ch1, ks1)"
    using c1(2,4) by (simp add: migInv_def optShape_def)
  then have inv: "migInv E (jget c1 ''automation'') ks1 st"
    unfolding st_def by (rule migInv_providers)
  obtain c' ch keys where st: "st = (c', ch, keys)" by (cases st) auto
  have "migrateEnvSecrets E c = Inr (c', ch, keys)"
    using c1(1) s by (simp add: migrateEnvSecrets_def st [symmetric] st_def)
  moreover have fin: "jget c' ''automation'' = jget c1 ''automation''" "ch \<longleftrightarrow> keys \<noteq> []" "set ks1 \<subseteq> set keys"
    "\<forall>k \<in> set keys - set ks1. envVar E k \<noteq> None"
    using inv by (simp_all add: migInv_def st)
  moreover have "envVar E k \<noteq> None" if "k \<in> set keys" for k
  proof (cases "k \<in> set ks1")
    case True
    then show ?thesis unfolding c1(5) by blast
  next
    case False
    with that fin(4) show ?thesis by blast
  qed
  moreover have "jget (paramsOf c' i) k =
       (if (i, k) \<in> set secrets \<and> envVar E (outputEnvKey i k) \<noteq> None \<and> \<not> truthy (jget (paramsOf c i) k)
        then JStr (the (envVar E (outputEnvKey i k))) else jget (paramsOf c i) k)" for i k
    unfolding fin(1) c1(3) by (simp add: migratedValue_def)
  moreover have "outputEnvKey i k \<in> set keys"
    if "(i, k) \<in> set secrets \<and> envVar E (outputEnvKey i k) \<noteq> None \<and> \<not> truthy (jget (paramsOf c i) k)" for i k
    using that fin(3) c1(5) by blast
  ultimately show ?thesis by blast
qed

theorem migrateEnvSecrets_fills_witness:
  "\<exists>c' changed keys. migrateEnvSecrets sampleEnv legacyConfig = Inr (c', changed, keys) \<and>
     jget (paramsOf c' ''voicemonkey'') ''token'' = JStr ''tok'' \<and> changed \<and>
     ''VOICEMONKEY_TOKEN'' \<in> set keys"
proof -
  have s: "ce_secretKeysResolver sampleEnv = Some [(''voicemonkey'', ''token''), (''voicemonkey'', ''device'')]"
    by (simp add: sampleEnv_def getSecretRequirementKeys_def builtinOutputs_eq strategySecretKeys_def
        sensitiveKeys_def localMeta_def voiceMonkeyMeta_def browserMeta_def)
  have sh: "optShape legacyConfig" by (simp add: optShape_def legacyConfig_def)
  have e: "envVar sampleEnv (outputEnvKey ''voicemonkey'' ''token'') = Some ''tok''"
    by (simp add: envVar_def sampleEnv_def outputEnvKey_voicemonkey)
  have u: "\<not> truthy (jget (paramsOf legacyConfig ''voicemonkey'') ''token'')"
    by (simp add: legacyConfig_def)
  obtain c' changed keys where r: "migrateEnvSecrets sampleEnv legacyConfig = Inr (c', changed, keys)"
    "\<And>i k. jget (paramsOf c' i) k =
       (if (i, k) \<in> set [(''voicemonkey'', ''token''), (''voicemonkey'', ''device'')] \<and>
           envVar sampleEnv (outputEnvKey i k) \<noteq> None \<and> \<not> truthy (jget (paramsOf legacyConfig i) k)
        then JStr (the (envVar sampleEnv (outputEnvKey i k))) else jget (paramsOf legacyConfig i) k)"
    "changed \<longleftrightarrow> keys \<noteq> []"
    "\<And>i k. (i, k) \<in> set [(''voicemonkey'', ''token''), (''voicemonkey'', ''device'')] \<and>
       envVar sampleEnv (outputEnvKey i k) \<noteq> None \<and> \<not> truthy (jget (paramsOf legacyConfig i) k) \<Longrightarrow>
       outputEnvKey i k \<in> set keys"
    using migrateEnvSecrets_fills [OF sh s] by blast
  have "outputEnvKey ''voicemonkey'' ''token'' \<in> set keys" using r(4) e u by simp
  moreover have "jget (paramsOf c' ''voicemonkey'') ''token'' = JStr ''tok''"
    unfolding r(2) using e u by simp
  ultimately show ?thesis using r(1,3) by (auto simp: outputEnvKey_voicemonkey)
qed

end
