(* ===== verification/Config_Service.thy ===== *)
theory Config_Service
  imports Migration
begin

text \<open>
  The stateful part of \<open>src/src/config/ConfigService.js\<close>: \<open>init\<close>, \<open>get\<close>, \<open>reload\<close>,
  \<open>_saveLocal\<close>, \<open>update\<close>, \<open>_validateSources\<close>, the resolver setters and \<open>reset\<close>. An
  operation is a function on the world (the service's fields, the process environment and
  the files it reads and writes) that returns the new world and a value or an error; a thrown
  error keeps the effects that happened before it. The Zod schemas are parameters: the
  configuration schema and the schema of a provider (with a flag for the extension by
  \<open>enabled\<close> of backup sources). Failures of the file system during a save are an argument.
\<close>

section \<open>The world\<close>

text \<open>\<open>local.json\<close>: absent, unreadable, blank, not JSON, or a JSON value.\<close>

datatype localFile = Missing | Unreadable | Blank | Corrupt | Parsed json

record cfgWorld =
  cw_config :: json
  cw_isInitialized :: bool
  cw_isSaving :: bool
  cw_env :: cfgEnv
  cw_migrationKeys :: "(string \<times> string) list option"
  cw_dotenv :: "string \<Rightarrow> string option"
  cw_default :: json
  cw_local :: localFile
  cw_pendingDeletes :: "string list"

record schemas =
  sc_config :: "json \<Rightarrow> json res"
  sc_provider :: "providerMeta \<Rightarrow> bool \<Rightarrow> json \<Rightarrow> json res"

type_synonym 'a step = "cfgWorld \<Rightarrow> cfgWorld \<times> 'a res"

definition bindS :: "'a step \<Rightarrow> ('a \<Rightarrow> 'b step) \<Rightarrow> 'b step" where
  "bindS m f = (\<lambda>w. case m w of (w', Inl e) \<Rightarrow> (w', Inl e) | (w', Inr x) \<Rightarrow> f x w')"

definition returnS :: "'a \<Rightarrow> 'a step" where
  "returnS x = (\<lambda>w. (w, Inr x))"

definition throwS :: "err \<Rightarrow> 'a step" where
  "throwS e = (\<lambda>w. (w, Inl e))"

text \<open>A pure pass, run with the environment of the world.\<close>

definition passS :: "(cfgEnv \<Rightarrow> 'a res) \<Rightarrow> 'a step" where
  "passS f = (\<lambda>w. (w, f (cw_env w)))"

text \<open>The instance the module creates: \<open>_config\<close> is null.\<close>

definition newConfigService :: "cfgWorld \<Rightarrow> cfgWorld" where
  "newConfigService w =
     w\<lparr>cw_config := JNull, cw_isInitialized := False, cw_isSaving := False,
       cw_env := (cw_env w)\<lparr>ce_strategyResolver := None, ce_secretKeysResolver := None\<rparr>\<rparr>"

definition resetConfigService :: "cfgWorld \<Rightarrow> cfgWorld" where
  "resetConfigService w = (newConfigService w)\<lparr>cw_migrationKeys := None\<rparr>"

section \<open>\<open>get\<close> and the setters\<close>

definition getConfig :: "cfgWorld \<Rightarrow> json res" where
  "getConfig w = (if \<not> truthy (cw_config w) then Inl ConfigNotInitializedError else Inr (cw_config w))"

text \<open>\<open>None\<close> stands for an argument that is not a function.\<close>

definition setOutputStrategyResolver :: "(string \<Rightarrow> outputMeta res) option \<Rightarrow> unit step" where
  "setOutputStrategyResolver resolver w =
     (case resolver of
        None \<Rightarrow> (w, Inl (TypeError ''[ConfigService] setOutputStrategyResolver() expects a function.''))
      | Some f \<Rightarrow> (w\<lparr>cw_env := (cw_env w)\<lparr>ce_strategyResolver := Some f\<rparr>\<rparr>, Inr ()))"

definition setOutputSecretKeysResolver :: "(string \<times> string) list option \<Rightarrow> unit step" where
  "setOutputSecretKeysResolver resolver w =
     (case resolver of
        None \<Rightarrow> (w, Inl (TypeError ''[ConfigService] setOutputSecretKeysResolver() expects a function.''))
      | Some f \<Rightarrow> (w\<lparr>cw_env := (cw_env w)\<lparr>ce_secretKeysResolver := Some f\<rparr>\<rparr>, Inr ()))"

section \<open>\<open>_validateSources\<close>\<close>

definition validateSource :: "schemas \<Rightarrow> cfgEnv \<Rightarrow> json \<Rightarrow> string \<Rightarrow> unit res" where
  "validateSource S E config role =
     (let source = sourceOf config role in
      if \<not> truthy source \<or> \<not> truthy (jget source ''type'') then Inr ()
      else bindR (getProviderClass (ce_providers E) (jget source ''type'')) (\<lambda>cls.
        case sc_provider S cls (role = ''backup'') source of
          Inr _ \<Rightarrow> Inr ()
        | Inl e \<Rightarrow>
            if is_ZodError e then Inl (Error (''['' @ toUpperCase role @ '' Source] '' @ err_message e))
            else Inl e))"

definition validateSources :: "schemas \<Rightarrow> cfgEnv \<Rightarrow> json \<Rightarrow> unit res" where
  "validateSources S E config =
     bindR (getProp config ''sources'') (\<lambda>sources.
     if \<not> truthy sources then Inr ()
     else bindR (validateSource S E config ''primary'') (\<lambda>_. validateSource S E config ''backup''))"

text \<open>\<open>configSchema.parse\<close> with the rendering of its errors.\<close>

definition parseSchema :: "schemas \<Rightarrow> json \<Rightarrow> json res" where
  "parseSchema S raw =
     (case sc_config S raw of
        Inr c \<Rightarrow> Inr c
      | Inl e \<Rightarrow> if is_ZodError e then Inl (Error (''Configuration Validation Failed: '' @ err_message e)) else Inl e)"

section \<open>\<open>_saveLocal\<close>\<close>

text \<open>
  The temporary file is written, verified and renamed over \<open>local.json\<close>; a failure of any of
  the three (\<open>fault\<close>, with its message) is reported after the temporary file is removed.
\<close>

definition saveLocal :: "string option \<Rightarrow> json \<Rightarrow> unit step" where
  "saveLocal fault config =
     bindS (passS (\<lambda>E. processSensitiveFields E Encrypt (json_copy config))) (\<lambda>copy w.
     case fault of
       None \<Rightarrow> (w\<lparr>cw_local := Parsed (json_copy copy)\<rparr>, Inr ())
     | Some m \<Rightarrow> (w, Inl (Error (''Atomic configuration save failed: '' @ m))))"

section \<open>\<open>reload\<close>\<close>

text \<open>\<open>dotenv.config({ override: true })\<close>\<close>

definition loadDotenv :: "unit step" where
  "loadDotenv w = (w\<lparr>cw_env := (cw_env w)\<lparr>ce_env := ce_env (cw_env w) ++ cw_dotenv w\<rparr>\<rparr>, Inr ())"

definition orZero :: "json \<Rightarrow> json" where
  "orZero v = orElse v (JNum 0)"

text \<open>The body of the \<open>try\<close> block that merges \<open>local.json\<close>.\<close>

definition mergeLocal :: "string option \<Rightarrow> json \<Rightarrow> json step" where
  "mergeLocal fault rawConfig =
     (\<lambda>w. case cw_local w of
        Parsed localConfig \<Rightarrow>
          (bindS (passS (\<lambda>_. migrateConfig localConfig)) (\<lambda>migratedLocal.
             if js_gt (orZero (jget migratedLocal ''version'')) (orZero (jget localConfig ''version''))
             then bindS (saveLocal fault migratedLocal) (\<lambda>_. returnS (mergeDeep rawConfig migratedLocal))
             else returnS (mergeDeep rawConfig localConfig))) w
      | Blank \<Rightarrow> (w, Inr rawConfig)
      | Missing \<Rightarrow> (w, Inl (Error ''ENOENT''))
      | Unreadable \<Rightarrow> (w, Inl (Error ''EACCES''))
      | Corrupt \<Rightarrow> (w, Inl (Error ''SyntaxError'')))"

text \<open>Every error of that block is caught: the defaults are used.\<close>

definition loadLocal :: "string option \<Rightarrow> json \<Rightarrow> json step" where
  "loadLocal fault rawConfig =
     (\<lambda>w. case mergeLocal fault rawConfig w of
        (w', Inl _) \<Rightarrow> (w', Inr rawConfig) | (w', Inr c) \<Rightarrow> (w', Inr c))"

definition migrateEnvStep :: "string option \<Rightarrow> json \<Rightarrow> json step" where
  "migrateEnvStep fault rawConfig =
     (\<lambda>w. case migrateEnvSecrets ((cw_env w)\<lparr>ce_secretKeysResolver := cw_migrationKeys w\<rparr>) rawConfig of
        Inl e \<Rightarrow> (w, Inl e)
      | Inr (envMigrated, changed, migratedKeys) \<Rightarrow>
          if changed
          then bindS (saveLocal fault envMigrated)
                 (\<lambda>_ w. (w\<lparr>cw_pendingDeletes := cw_pendingDeletes w @ migratedKeys\<rparr>, Inr envMigrated)) w
          else (w, Inr envMigrated))"

definition reload :: "schemas \<Rightarrow> string option \<Rightarrow> unit step" where
  "reload S fault =
     bindS loadDotenv (\<lambda>_.
     bindS (\<lambda>w. loadLocal fault (cw_default w) w) (\<lambda>rawConfig.
     bindS (passS (\<lambda>E. processSensitiveFields E Decrypt rawConfig)) (\<lambda>rawConfig.
     bindS (passS (\<lambda>_. migrateConfig rawConfig)) (\<lambda>rawConfig.
     bindS (migrateEnvStep fault rawConfig) (\<lambda>rawConfig.
     bindS (passS (\<lambda>E. applyEnvOverrides E rawConfig)) (\<lambda>rawConfig.
     bindS (passS (\<lambda>E. validateConstraints E rawConfig)) (\<lambda>rawConfig.
     bindS (passS (\<lambda>E. cleanSourceData E rawConfig)) (\<lambda>rawConfig.
     bindS (passS (\<lambda>E. validateSources S E rawConfig)) (\<lambda>_.
     bindS (passS (\<lambda>_. parseSchema S rawConfig)) (\<lambda>config w.
       (w\<lparr>cw_config := config\<rparr>, Inr ())))))))))))"

section \<open>\<open>init\<close>\<close>

definition requireEnv :: "string \<Rightarrow> unit step" where
  "requireEnv var w =
     (if envVar (cw_env w) var = None
      then (w, Inl (CriticalConfigurationError (var @ '' environment variable is required for security.'')))
      else (w, Inr ()))"

definition initConfig :: "schemas \<Rightarrow> string option \<Rightarrow> unit step" where
  "initConfig S fault w =
     (if cw_isInitialized w then (w, Inr ())
      else bindS (reload S fault) (\<lambda>_. bindS (requireEnv ''JWT_SECRET'') (\<lambda>_.
             bindS (requireEnv ''ENCRYPTION_SALT'') (\<lambda>_ w. (w\<lparr>cw_isInitialized := True\<rparr>, Inr ())))) w)"

section \<open>\<open>update\<close>\<close>

definition currentLocal :: "cfgWorld \<Rightarrow> json res" where
  "currentLocal w =
     (case cw_local w of
        Parsed c \<Rightarrow> Inr c
      | Unreadable \<Rightarrow> Inl (Error ''EACCES'')
      | _ \<Rightarrow> Inr (JObj []))"

definition updateBody :: "schemas \<Rightarrow> string option \<Rightarrow> json \<Rightarrow> unit step" where
  "updateBody S fault partialConfig =
     bindS (\<lambda>w. (w, currentLocal w)) (\<lambda>local.
     let merged = mergeDeep local partialConfig in
     bindS (passS (\<lambda>E. cleanSourceData E merged)) (\<lambda>candidate.
     bindS (passS (\<lambda>E. stripSecrets E candidate)) (\<lambda>newLocal.
     bindS (\<lambda>w. (w, applyEnvOverrides (cw_env w) (mergeDeep (cw_default w) newLocal))) (\<lambda>full.
     bindS (passS (\<lambda>_. parseSchema S full)) (\<lambda>_.
     bindS (passS (\<lambda>E. validateSources S E full)) (\<lambda>_.
     bindS (saveLocal fault newLocal) (\<lambda>_.
     reload S fault)))))))"

definition update :: "schemas \<Rightarrow> string option \<Rightarrow> json \<Rightarrow> unit step" where
  "update S fault partialConfig w =
     (if cw_isSaving w then (w, Inl (Error ''Configuration save in progress''))
      else case updateBody S fault partialConfig (w\<lparr>cw_isSaving := True\<rparr>) of
        (w', r) \<Rightarrow> (w'\<lparr>cw_isSaving := False\<rparr>, r))"

section \<open>What an operation leaves alone\<close>

named_theorems frame_rules \<open>steps that keep the service's own fields\<close>

text \<open>The fields of the service itself, and \<open>local.json\<close> when the save fails.\<close>

definition framed :: "string option \<Rightarrow> 'a step \<Rightarrow> bool" where
  "framed fault m =
     (\<forall>w. cw_config (fst (m w)) = cw_config w \<and> cw_isSaving (fst (m w)) = cw_isSaving w \<and>
          cw_isInitialized (fst (m w)) = cw_isInitialized w \<and>
          (fault \<noteq> None \<longrightarrow> cw_local (fst (m w)) = cw_local w))"

lemma bindS_split: "bindS m f w = (case snd (m w) of Inl e \<Rightarrow> (fst (m w), Inl e) | Inr x \<Rightarrow> f x (fst (m w)))"
  by (simp add: bindS_def split: prod.splits sum.splits)

lemma bindS_Inr: "bindS m f w = (w', Inr y) \<longleftrightarrow> (\<exists>w1 x. m w = (w1, Inr x) \<and> f x w1 = (w', Inr y))"
  by (auto simp: bindS_def split: prod.splits sum.splits)

lemma bindS_Inl:
  "bindS m f w = (w', Inl e) \<longleftrightarrow>
   m w = (w', Inl e) \<or> (\<exists>w1 x. m w = (w1, Inr x) \<and> f x w1 = (w', Inl e))"
  by (auto simp: bindS_def split: prod.splits sum.splits)

lemma framed_bindS [frame_rules]: "framed q m \<Longrightarrow> (\<And>x. framed q (f x)) \<Longrightarrow> framed q (bindS m f)"
  unfolding framed_def bindS_split by (auto split: sum.splits)

lemma framed_pure [frame_rules]:
  "framed q (passS g)" "framed q (returnS x)" "framed q (throwS e)" "framed q (\<lambda>w. (w, h w))"
  by (simp_all add: framed_def passS_def returnS_def throwS_def)

lemma framed_saveLocal [frame_rules]: "framed q (saveLocal q c)"
  unfolding saveLocal_def
  by (intro frame_rules) (simp add: framed_def split: option.splits)

lemma framed_loadDotenv [frame_rules]: "framed q loadDotenv"
  by (simp add: framed_def loadDotenv_def)

lemma framed_if [frame_rules]: "framed q m \<Longrightarrow> framed q m' \<Longrightarrow> framed q (if b then m else m')"
  by simp

lemma framedD:
  assumes "framed q m" "m w = (w', r)"
  shows "cw_config w' = cw_config w" "cw_isSaving w' = cw_isSaving w"
    "cw_isInitialized w' = cw_isInitialized w" "q \<noteq> None \<Longrightarrow> cw_local w' = cw_local w"
  using assms unfolding framed_def by (metis fst_conv)+

lemma framed_mergeLocal [frame_rules]: "framed q (mergeLocal q c)"
proof -
  have "framed q (bindS (passS (\<lambda>_. migrateConfig l)) (\<lambda>m.
      if js_gt (orZero (jget m ''version'')) (orZero (jget l ''version''))
      then bindS (saveLocal q m) (\<lambda>_. returnS (mergeDeep c m)) else returnS (mergeDeep c l)))" for l
    by (intro frame_rules)
  then show ?thesis unfolding mergeLocal_def framed_def by (auto split: localFile.splits)
qed

lemma framed_loadLocal [frame_rules]: "framed q (loadLocal q c)"
  using framed_mergeLocal [of q c] unfolding framed_def loadLocal_def
  by (auto split: prod.splits sum.splits simp: prod_eq_iff)

lemma framed_loadDefault [frame_rules]: "framed q (\<lambda>w. loadLocal q (cw_default w) w)"
  using framed_loadLocal unfolding framed_def by blast

lemma framed_migrateEnvStep [frame_rules]: "framed q (migrateEnvStep q c)"
proof -
  have "framed q (bindS (saveLocal q x)
      (\<lambda>_ w. (w\<lparr>cw_pendingDeletes := cw_pendingDeletes w @ ks\<rparr>, Inr y)))" for x ks and y :: json
    by (intro frame_rules) (simp add: framed_def)
  then show ?thesis unfolding migrateEnvStep_def framed_def by (auto split: sum.splits)
qed

text \<open>\<open>reload\<close> up to, and without, the assignment to \<open>_config\<close>.\<close>

definition reloadConfig :: "schemas \<Rightarrow> string option \<Rightarrow> json step" where
  "reloadConfig S fault =
     bindS loadDotenv (\<lambda>_.
     bindS (\<lambda>w. loadLocal fault (cw_default w) w) (\<lambda>rawConfig.
     bindS (passS (\<lambda>E. processSensitiveFields E Decrypt rawConfig)) (\<lambda>rawConfig.
     bindS (passS (\<lambda>_. migrateConfig rawConfig)) (\<lambda>rawConfig.
     bindS (migrateEnvStep fault rawConfig) (\<lambda>rawConfig.
     bindS (passS (\<lambda>E. applyEnvOverrides E rawConfig)) (\<lambda>rawConfig.
     bindS (passS (\<lambda>E. validateConstraints E rawConfig)) (\<lambda>rawConfig.
     bindS (passS (\<lambda>E. cleanSourceData E rawConfig)) (\<lambda>rawConfig.
     bindS (passS (\<lambda>E. validateSources S E rawConfig)) (\<lambda>_.
     passS (\<lambda>_. parseSchema S rawConfig))))))))))"

lemma bindS_assoc: "bindS (bindS m f) g = bindS m (\<lambda>x. bindS (f x) g)"
  by (auto simp: bindS_def fun_eq_iff split: prod.splits sum.splits)

lemma reload_eq: "reload S q = bindS (reloadConfig S q) (\<lambda>c w. (w\<lparr>cw_config := c\<rparr>, Inr ()))"
  by (simp add: reload_def reloadConfig_def bindS_assoc)

lemma framed_reloadConfig: "framed q (reloadConfig S q)"
  unfolding reloadConfig_def by (intro frame_rules)

lemma parseSchema_Inr: "parseSchema S raw = Inr c \<longleftrightarrow> sc_config S raw = Inr c"
  by (simp add: parseSchema_def split: sum.splits if_splits)

lemma reloadConfig_valid:
  "reloadConfig S q w = (w', Inr c) \<Longrightarrow> \<exists>raw. sc_config S raw = Inr c"
  unfolding reloadConfig_def by (auto simp: bindS_Inr passS_def parseSchema_Inr)

lemma reload_result:
  assumes "reload S q w = (w', r)"
  shows "cw_isSaving w' = cw_isSaving w" "cw_isInitialized w' = cw_isInitialized w"
    "q \<noteq> None \<Longrightarrow> cw_local w' = cw_local w" "r = Inl e \<Longrightarrow> cw_config w' = cw_config w"
    "r = Inr () \<Longrightarrow> \<exists>raw. sc_config S raw = Inr (cw_config w')"
proof -
  obtain w1 s where rc: "reloadConfig S q w = (w1, s)" by fastforce
  note fr = framedD [OF framed_reloadConfig rc]
  have r: "(w', r) = (case s of Inl e \<Rightarrow> (w1, Inl e) | Inr c \<Rightarrow> (w1\<lparr>cw_config := c\<rparr>, Inr ()))"
    using assms rc by (simp add: reload_eq bindS_def)
  show "cw_isSaving w' = cw_isSaving w" "cw_isInitialized w' = cw_isInitialized w"
    "q \<noteq> None \<Longrightarrow> cw_local w' = cw_local w" "r = Inl e \<Longrightarrow> cw_config w' = cw_config w"
    using r fr by (auto split: sum.splits)
  show "r = Inr () \<Longrightarrow> \<exists>raw. sc_config S raw = Inr (cw_config w')"
    using r rc reloadConfig_valid by (auto split: sum.splits)
qed

text \<open>
  C28. \<open>reload\<close> never damages the running service: when any step fails (missing secrets,
  unwired resolvers, invalid sources, a schema error) the configuration in memory is the one
  before the call; when it succeeds, the configuration in memory is a value the schema
  accepted. It never touches the saving and initialisation flags, and a failing save leaves
  \<open>local.json\<close> as it was.
\<close>

theorem reload_failsafe:
  "let (w', r) = reload S fault w in
   (case r of Inl e \<Rightarrow> cw_config w' = cw_config w \<and> getConfig w' = getConfig w
            | Inr _ \<Rightarrow> (\<exists>raw. sc_config S raw = Inr (cw_config w'))) \<and>
   cw_isSaving w' = cw_isSaving w \<and> cw_isInitialized w' = cw_isInitialized w \<and>
   (\<forall>m. fault = Some m \<longrightarrow> cw_local w' = cw_local w)"
proof -
  obtain w' r where r: "reload S fault w = (w', r)" by fastforce
  note res = reload_result [OF r]
  show ?thesis
  proof (cases r)
    case (Inl e)
    with res r show ?thesis by (simp add: getConfig_def)
  next
    case (Inr u)
    with res r show ?thesis by simp
  qed
qed

definition acceptAll :: schemas where
  "acceptAll = \<lparr>sc_config = Inr, sc_provider = (\<lambda>m b c. Inr c)\<rparr>"

definition sampleWorld :: cfgWorld where
  "sampleWorld =
     \<lparr>cw_config = JNull, cw_isInitialized = False, cw_isSaving = False, cw_env = sampleEnv,
      cw_migrationKeys = Some [], cw_dotenv = Map.empty,
      cw_default = JObj [(''version'', JNum 5)], cw_local = Missing, cw_pendingDeletes = []\<rparr>"

theorem reload_failsafe_witness:
  "snd (reload acceptAll None (sampleWorld\<lparr>cw_migrationKeys := None, cw_config := JObj []\<rparr>)) =
     Inl (Error ''[MigrationService] Output secret keys resolver not wired. Call setOutputSecretKeysResolver() before migrateEnvSecrets().'') \<and>
   cw_config (fst (reload acceptAll None (sampleWorld\<lparr>cw_migrationKeys := None, cw_config := JObj []\<rparr>))) = JObj []"
proof -
  let ?w = "sampleWorld\<lparr>cw_migrationKeys := None, cw_config := JObj []\<rparr>"
  have e: "snd (reload acceptAll None ?w) =
     Inl (Error ''[MigrationService] Output secret keys resolver not wired. Call setOutputSecretKeysResolver() before migrateEnvSecrets().'')"
    by (simp add: reload_def bindS_def loadDotenv_def loadLocal_def mergeLocal_def passS_def sampleWorld_def
        processSensitiveFields_def getEncryptionKey_def envVar_def sampleEnv_def processSources_def roles_def
        mapSource_def jupd_def migrateConfig_def getProp_def migrateEnvStep_def migrateEnvSecrets_def)
  with reload_failsafe [of acceptAll None ?w] show ?thesis by (auto simp: sampleWorld_def split: prod.splits)
qed

section \<open>Updates\<close>

text \<open>The checks of \<open>update\<close> before the first write.\<close>

definition checkUpdate :: "schemas \<Rightarrow> json \<Rightarrow> json step" where
  "checkUpdate S partialConfig =
     bindS (\<lambda>w. (w, currentLocal w)) (\<lambda>local.
     bindS (passS (\<lambda>E. cleanSourceData E (mergeDeep local partialConfig))) (\<lambda>candidate.
     bindS (passS (\<lambda>E. stripSecrets E candidate)) (\<lambda>newLocal.
     bindS (\<lambda>w. (w, applyEnvOverrides (cw_env w) (mergeDeep (cw_default w) newLocal))) (\<lambda>full.
     bindS (passS (\<lambda>_. parseSchema S full)) (\<lambda>_.
     bindS (passS (\<lambda>E. validateSources S E full)) (\<lambda>_.
     returnS newLocal))))))"

lemma bindS_returnS: "bindS (returnS x) f = f x"
  by (simp add: bindS_def returnS_def fun_eq_iff)

lemma updateBody_eq:
  "updateBody S q p = bindS (checkUpdate S p) (\<lambda>newLocal. bindS (saveLocal q newLocal) (\<lambda>_. reload S q))"
  by (simp add: updateBody_def checkUpdate_def bindS_assoc bindS_returnS Let_def)

text \<open>The candidate passed: the defaults with it, and the environment on top, satisfy the schema.\<close>

definition candidateValid :: "schemas \<Rightarrow> cfgWorld \<Rightarrow> json \<Rightarrow> json \<Rightarrow> bool" where
  "candidateValid S w p newLocal =
     (\<exists>local cand full c. currentLocal w = Inr local \<and>
        cleanSourceData (cw_env w) (mergeDeep local p) = Inr cand \<and>
        stripSecrets (cw_env w) cand = Inr newLocal \<and>
        applyEnvOverrides (cw_env w) (mergeDeep (cw_default w) newLocal) = Inr full \<and>
        sc_config S full = Inr c \<and> validateSources S (cw_env w) full = Inr ())"

lemma checkUpdate_same: "checkUpdate S p w = (w', r) \<Longrightarrow> w' = w"
  by (auto simp: checkUpdate_def bindS_def passS_def returnS_def split: sum.splits)

lemma checkUpdate_Inr: "checkUpdate S p w = (w', Inr n) \<Longrightarrow> candidateValid S w p n"
  unfolding checkUpdate_def candidateValid_def
  by (auto simp: bindS_Inr passS_def returnS_def parseSchema_Inr)

text \<open>
  C2. \<open>update\<close> is guarded and all or nothing for the running service: while a save is in
  progress it is rejected without any effect; otherwise the saving flag is always released at
  the end, whatever happens; an error leaves the configuration in memory unchanged; the local
  file changes only when the merged candidate, completed by the defaults and the environment,
  passed the schema and the source checks and the file system accepted the write; and on
  success the configuration in memory is one the schema accepted.
\<close>

theorem update_guarded:
  assumes "update S fault p w = (w', r)"
  shows "(cw_isSaving w \<longrightarrow> w' = w \<and> r = Inl (Error ''Configuration save in progress'')) \<and>
    (\<not> cw_isSaving w \<longrightarrow>
       \<not> cw_isSaving w' \<and>
       (case r of Inl e \<Rightarrow> cw_config w' = cw_config w
                | Inr _ \<Rightarrow> (\<exists>raw. sc_config S raw = Inr (cw_config w'))) \<and>
       (cw_local w' \<noteq> cw_local w \<longrightarrow> fault = None \<and> (\<exists>newLocal. candidateValid S w p newLocal)))"
proof (cases "cw_isSaving w")
  case True
  with assms show ?thesis by (simp add: update_def)
next
  case False
  define w0 where "w0 = w\<lparr>cw_isSaving := True\<rparr>"
  obtain w1 s where body: "updateBody S fault p w0 = (w1, s)" by fastforce
  have w': "w' = w1\<lparr>cw_isSaving := False\<rparr>" "r = s"
    using assms False body by (simp_all add: update_def w0_def)
  obtain w2 t where chk: "checkUpdate S p w0 = (w2, t)" by fastforce
  have w2: "w2 = w0" using checkUpdate_same [OF chk] .
  show ?thesis
  proof (cases t)
    case (Inl e)
    then have "w1 = w0" "s = Inl e" using body chk w2 by (simp_all add: updateBody_eq bindS_def)
    with False w' show ?thesis by (simp add: w0_def)
  next
    case (Inr newLocal)
    have "candidateValid S w0 p newLocal" using checkUpdate_Inr chk Inr by blast
    then have cv: "candidateValid S w p newLocal" by (simp add: candidateValid_def currentLocal_def w0_def)
    obtain w3 u where sv: "saveLocal fault newLocal w0 = (w3, u)" by fastforce
    note f3 = framedD [OF framed_saveLocal sv]
    have rest: "(w1, s) = (case u of Inl e \<Rightarrow> (w3, Inl e) | Inr _ \<Rightarrow> reload S fault w3)"
      using body chk w2 Inr sv by (simp add: updateBody_eq bindS_def split: sum.splits)
    show ?thesis
    proof (cases u)
      case (Inl e)
      with rest f3 False w' cv show ?thesis by (cases fault) (auto simp: w0_def)
    next
      case (Inr x)
      with rest have rl: "reload S fault w3 = (w1, s)" by simp
      note res = reload_result [OF rl]
      have "cw_local w1 = cw_local w" if "fault \<noteq> None" using res(3) f3(4) that by (simp add: w0_def)
      moreover have "s = Inl e \<Longrightarrow> cw_config w1 = cw_config w" for e using res(4) f3(1) by (simp add: w0_def)
      ultimately show ?thesis
        using res(5) False w' cv by (cases s; cases fault) auto
    qed
  qed
qed

theorem update_guarded_witness:
  "\<exists>w' r. update acceptAll None (JObj []) (sampleWorld\<lparr>cw_isSaving := True\<rparr>) = (w', r) \<and>
     r = Inl (Error ''Configuration save in progress'') \<and> w' = sampleWorld\<lparr>cw_isSaving := True\<rparr>"
proof -
  obtain w' r where u: "update acceptAll None (JObj []) (sampleWorld\<lparr>cw_isSaving := True\<rparr>) = (w', r)" by fastforce
  from update_guarded [OF u] u show ?thesis by simp
qed

section \<open>Initialisation\<close>

text \<open>
  C37. After a successful \<open>init\<close> of a new service the flag is set, both security variables are
  set, and the configuration is one the schema accepted; a failing \<open>init\<close> leaves the service
  uninitialised; and calling \<open>init\<close> again after success does nothing.
\<close>

theorem initConfig_ready:
  assumes "\<not> cw_isInitialized w" "initConfig S fault w = (w', r)"
  shows "case r of
      Inl e \<Rightarrow> \<not> cw_isInitialized w'
    | Inr _ \<Rightarrow> cw_isInitialized w' \<and> envVar (cw_env w') ''JWT_SECRET'' \<noteq> None \<and>
        envVar (cw_env w') ''ENCRYPTION_SALT'' \<noteq> None \<and>
        (\<exists>raw. sc_config S raw = Inr (cw_config w')) \<and>
        initConfig S fault w' = (w', Inr ())"
proof -
  obtain w1 s where rl: "reload S fault w = (w1, s)" by fastforce
  note res = reload_result [OF rl]
  have "initConfig S fault w = (case s of Inl e \<Rightarrow> (w1, Inl e)
    | Inr _ \<Rightarrow> if envVar (cw_env w1) ''JWT_SECRET'' = None
        then (w1, Inl (CriticalConfigurationError ''JWT_SECRET environment variable is required for security.''))
        else if envVar (cw_env w1) ''ENCRYPTION_SALT'' = None
        then (w1, Inl (CriticalConfigurationError ''ENCRYPTION_SALT environment variable is required for security.''))
        else (w1\<lparr>cw_isInitialized := True\<rparr>, Inr ()))"
    using assms(1) rl by (simp add: initConfig_def bindS_def requireEnv_def split: sum.splits)
  with assms res show ?thesis
    by (cases s) (auto simp: initConfig_def split: if_splits)
qed

theorem initConfig_ready_witness:
  "\<exists>w'. initConfig acceptAll None sampleWorld = (w', Inr ()) \<and> cw_isInitialized w'"
proof -
  have "snd (initConfig acceptAll None sampleWorld) = Inr ()"
    by (simp add: initConfig_def requireEnv_def reload_def bindS_def loadDotenv_def loadLocal_def mergeLocal_def
        passS_def sampleWorld_def processSensitiveFields_def getEncryptionKey_def envVar_def sampleEnv_def
        processSources_def roles_def mapSource_def jupd_def migrateConfig_def getProp_def migrateEnvStep_def
        migrateEnvSecrets_def applyEnvOverrides_def validateConstraints_def cleanSourceData_def
        validateSources_def parseSchema_def acceptAll_def builtinProviders_eq getRegisteredProviders_def
        sensitive_builtin)
  moreover have "\<not> cw_isInitialized sampleWorld" by (simp add: sampleWorld_def)
  moreover obtain w' r where i: "initConfig acceptAll None sampleWorld = (w', r)" by fastforce
  ultimately show ?thesis using initConfig_ready [OF _ i] by simp
qed

end
