(* ===== verification/Config_Persist.thy ===== *)
theory Config_Persist
  imports Config_Service
begin

text \<open>
  What the configuration service saves is what it then serves, followed through every pass of
  \<open>update\<close> and \<open>reload\<close> for the token version of \<open>security\<close>: the merges, the cleaning of sources,
  the removal and restoration of secrets, the encryption for the file, the migrations and the
  schema. The session handling of the authentication component rests on it.
\<close>

section \<open>A configuration with a given token version\<close>

definition keyed :: "json \<Rightarrow> bool" where
  "keyed x = (\<exists>kvs. x = JObj kvs \<and> distinct (map fst kvs))"

definition tokenVersion :: "json \<Rightarrow> json" where
  "tokenVersion c = jget (jget c ''security'') ''tokenVersion''"

definition holdsVersion :: "rat \<Rightarrow> json \<Rightarrow> bool" where
  "holdsVersion q c \<longleftrightarrow>
     keyed c \<and> jget c ''version'' = JNum 5 \<and> keyed (jget c ''security'') \<and> tokenVersion c = JNum q"

lemma keyed_obj [simp]: "keyed x \<Longrightarrow> is_object x"
  by (auto simp: keyed_def)

lemma keyed_jput: "keyed x \<Longrightarrow> keyed (jput x k v)"
  by (auto simp: keyed_def distinct_update)

lemma keyed_jdel: "keyed x \<Longrightarrow> keyed (jdel x k)"
  by (auto simp: keyed_def distinct_delete)

lemma keyed_map_entries: "keyed x \<Longrightarrow> keyed (map_entries f x)"
  by (auto simp: keyed_def o_def)

lemma keyed_jupd: "keyed x \<Longrightarrow> keyed (jupd k f x)"
  by (simp add: jupd_def keyed_map_entries)

lemma keyed_json_copy: "keyed x \<Longrightarrow> keyed (json_copy x)"
  by (auto simp: keyed_def o_def distinct_map_filter)

text \<open>Writes below another key keep the version.\<close>

lemma holds_other:
  assumes "holdsVersion q c" "keyed c'" "jget c' ''version'' = jget c ''version''"
    "jget c' ''security'' = jget c ''security''"
  shows "holdsVersion q c'"
  using assms by (simp add: holdsVersion_def tokenVersion_def)

lemma holds_jupd:
  "holdsVersion q c \<Longrightarrow> k \<noteq> ''version'' \<Longrightarrow> k \<noteq> ''security'' \<Longrightarrow> holdsVersion q (jupd k f c)"
  by (rule holds_other) (auto simp: holdsVersion_def keyed_jupd)

lemma holds_jput:
  "holdsVersion q c \<Longrightarrow> k \<noteq> ''version'' \<Longrightarrow> k \<noteq> ''security'' \<Longrightarrow> holdsVersion q (jput c k v)"
  by (rule holds_other) (auto simp: holdsVersion_def keyed_jput)

lemma holds_modProp:
  assumes "holdsVersion q c" "k \<noteq> ''version''" "k \<noteq> ''security''" "modProp k f c = Inr c'"
  shows "holdsVersion q c'"
proof -
  have "is_object c" using assms(1) by (simp add: holdsVersion_def)
  then show ?thesis using assms holds_jput by (auto simp: modProp_obj split: sum.splits)
qed

lemma holds_mapSource: "holdsVersion q c \<Longrightarrow> holdsVersion q (mapSource r f c)"
  by (simp add: mapSource_def holds_jupd)

lemma holds_mapOutputs: "holdsVersion q c \<Longrightarrow> holdsVersion q (mapOutputs f c)"
  by (simp add: mapOutputs_def holds_jupd)

lemma holds_fold: "(\<And>x c. holdsVersion q c \<Longrightarrow> holdsVersion q (f x c)) \<Longrightarrow> holdsVersion q c \<Longrightarrow> holdsVersion q (fold f xs c)"
  by (induction xs arbitrary: c) auto

lemma holds_fold_fst:
  "(\<And>x st. holdsVersion q (fst st) \<Longrightarrow> holdsVersion q (fst (f x st))) \<Longrightarrow> holdsVersion q (fst st) \<Longrightarrow>
   holdsVersion q (fst (fold f xs st))"
  by (induction xs arbitrary: st) auto

lemma holds_foldR:
  assumes "\<And>x c c'. P c \<Longrightarrow> f x c = Inr c' \<Longrightarrow> P c'" "P c" "foldR f xs c = Inr c'"
  shows "P c'"
  using assms(2,3) by (induction xs arbitrary: c) (auto simp: bindR_Inr intro: assms(1))

lemma holds_json_copy:
  assumes "holdsVersion q c"
  shows "holdsVersion q (json_copy c)"
proof -
  have c: "keyed c" "jget c ''version'' = JNum 5" "keyed (jget c ''security'')" "tokenVersion c = JNum q"
    using assms by (auto simp: holdsVersion_def)
  have "jget c ''security'' \<noteq> JUndef" using c(3) by (auto simp: keyed_def)
  then have s: "jget (json_copy c) ''security'' = json_copy (jget c ''security'')"
    using c(1) by (simp add: jget_json_copy_defined)
  have "jget (json_copy (jget c ''security'')) ''tokenVersion'' = json_copy (JNum q)"
    using c(3,4) by (subst jget_json_copy_defined) (auto simp: tokenVersion_def)
  then show ?thesis
    using c s by (simp add: holdsVersion_def tokenVersion_def keyed_json_copy jget_json_copy_defined)
qed

section \<open>The passes\<close>

lemma holds_cleanSourceData: "cleanSourceData E c = Inr c' \<Longrightarrow> holdsVersion q c \<Longrightarrow> holdsVersion q c'"
  by (auto simp: cleanSourceData_def bindR_Inr intro!: holds_fold holds_mapSource split: if_splits)

lemma holds_stripSecrets: "stripSecrets E c = Inr c' \<Longrightarrow> holdsVersion q c \<Longrightarrow> holdsVersion q c'"
  by (auto simp: stripSecrets_def bindR_Inr stripProviders_def stripOutput_def delEnvField_def Let_def
      intro!: holds_fold holds_mapSource holds_jupd split: if_splits option.splits)

lemma holds_applyEnvOverrides:
  assumes "applyEnvOverrides E c = Inr c'" "holdsVersion q c"
  shows "holdsVersion q c'"
proof -
  have field: "holdsVersion q d'" if "setEnvField E v f d = Inr d'" "holdsVersion q d" for v f d d'
    using that holds_modProp [of q d "''automation''"] by (auto simp: setEnvField_def split: option.splits)
  have out: "holdsVersion q d'" if "holdsVersion q d" "overrideOutput E sk d = Inr d'" for sk d d'
    using that holds_modProp [of q d "''automation''"] by (auto simp: overrideOutput_def split: option.splits)
  have outs: "holdsVersion q d'" if "foldR (overrideOutput E) ks d = Inr d'" "holdsVersion q d" for ks d d'
    using holds_foldR [of "holdsVersion q", OF out that(2,1)] .
  have prov: "holdsVersion q (overrideProviders E d)" if "holdsVersion q d" for d
    unfolding overrideProviders_def using that
    by (auto intro!: holds_fold holds_mapSource split: option.splits)
  show ?thesis
    using assms unfolding applyEnvOverrides_def
    by (auto simp: bindR_Inr split: if_splits option.splits intro!: prov dest!: outs field)
qed

lemma holds_validateConstraints: "validateConstraints E c = Inr c' \<Longrightarrow> holdsVersion q c \<Longrightarrow> holdsVersion q c'"
  by (auto simp: validateConstraints_def bindR_Inr holds_mapOutputs split: if_splits option.splits)

lemma holds_processSensitiveFields:
  "processSensitiveFields E a c = Inr c' \<Longrightarrow> holdsVersion q c \<Longrightarrow> holdsVersion q c'"
  by (auto simp: processSensitiveFields_def processSources_def bindR_Inr
      intro!: holds_fold holds_mapSource holds_mapOutputs split: if_splits option.splits)

lemma migrateConfig_holds: "holdsVersion q c \<Longrightarrow> migrateConfig c = Inr (json_copy c)"
proof -
  assume h: "holdsVersion q c"
  then have v: "jget (json_copy c) ''version'' = JNum 5" "is_object (json_copy c)"
    using holds_json_copy [OF h] by (simp_all add: holdsVersion_def)
  then have "getProp (json_copy c) ''version'' = Inr (JNum 5)"
    by (cases "json_copy c") (simp_all add: getProp_def)
  with v show ?thesis by (simp add: migrateConfig_def Let_def)
qed

lemma holds_migrateEnvSecrets:
  assumes "migrateEnvSecrets E c = Inr (c', ch, ks)" "holdsVersion q c"
  shows "holdsVersion q c'"
proof -
  have out: "holdsVersion q (fst st')" if "holdsVersion q (fst st)" "migrateOutputSecret E sk st = Inr st'" for sk st st'
    using that holds_modProp [of q "fst st" "''automation''"]
    by (cases st; cases sk) (auto simp: migrateOutputSecret_def Let_def bindR_Inr split: option.splits if_splits)
  have outs: "holdsVersion q (fst st')"
    if "foldR (migrateOutputSecret E) xs st = Inr st'" "holdsVersion q (fst st)" for xs st st'
    using holds_foldR [of "\<lambda>st. holdsVersion q (fst st)", OF out that(2,1)] .
  have src: "holdsVersion q (fst (migrateSourceSecret E pid k r st))" if "holdsVersion q (fst st)" for pid k r st
    using that by (cases st) (auto simp: migrateSourceSecret_def Let_def holds_mapSource split: option.splits)
  obtain secrets st where st: "foldR (migrateOutputSecret E) secrets (c, False, []) = Inr st"
    "fold (\<lambda>provider. fold (\<lambda>sKey. fold (migrateSourceSecret E (pv_id provider) sKey) roles)
       (sensitiveKeys (pv_parameters provider))) (getRegisteredProviders (ce_providers E)) st = (c', ch, ks)"
    using assms(1) unfolding migrateEnvSecrets_def by (auto simp: bindR_Inr split: option.splits)
  have "holdsVersion q (fst (fold (\<lambda>provider. fold (\<lambda>sKey. fold (migrateSourceSecret E (pv_id provider) sKey) roles)
       (sensitiveKeys (pv_parameters provider))) (getRegisteredProviders (ce_providers E)) st))"
    by (rule holds_fold_fst, rule holds_fold_fst, rule holds_fold_fst, erule src) (use outs [OF st(1)] assms(2) in simp_all)
  then show ?thesis using st(2) by simp
qed

section \<open>Merging\<close>

definition mergeTarget :: "json \<Rightarrow> bool" where
  "mergeTarget t \<longleftrightarrow> keyed t \<and> (keyed (jget t ''security'') \<or> \<not> typeof_object (jget t ''security''))"

lemma keyed_mergeLoop: "keyed out \<Longrightarrow> keyed (mergeLoop out kvs)"
proof (induction kvs arbitrary: out)
  case (Cons kv kvs)
  then show ?case by (cases kv) (simp add: mergeLoop_Cons keyed_jput del: mergeLoop.simps)
qed simp

lemma keyed_mergeDeep: "keyed t \<Longrightarrow> keyed (mergeDeep t s)"
  using keyed_mergeLoop [of t "entries s"] by (auto simp: keyed_def mergeDeep.simps)

lemma jget_mergeDeep_keyed:
  assumes "keyed t" "keyed s" "k \<notin> set protoKeys"
  shows "jget (mergeDeep t s) k = (if \<exists>v. (k, v) \<in> set (entries s) then mergeVal (jget t k) (jget s k) else jget t k)"
proof -
  obtain tk sk where ts: "t = JObj tk" "s = JObj sk" "distinct (map fst sk)" using assms by (auto simp: keyed_def)
  show ?thesis
    using jget_mergeDeep [OF ts(3), of tk k] assms(3) ts(3)
    by (force simp: ts(1,2) split: option.splits dest: map_of_SomeD)
qed

lemma not_proto [simp]:
  "''security'' \<notin> set protoKeys" "''tokenVersion'' \<notin> set protoKeys" "''version'' \<notin> set protoKeys"
  by (simp_all add: protoKeys_def)

lemma entries_defined: "keyed s \<Longrightarrow> jget s k \<noteq> JUndef \<Longrightarrow> \<exists>v. (k, v) \<in> set (entries s)"
  by (auto simp: keyed_def split: option.splits dest: map_of_SomeD)

lemma mergeDeep_security:
  assumes "mergeTarget t" "keyed s" "keyed (jget s ''security'')" "tokenVersion s = JNum q"
  shows "keyed (jget (mergeDeep t s) ''security'')" "tokenVersion (mergeDeep t s) = JNum q"
proof -
  let ?old = "if typeof_object (jget t ''security'') then jget t ''security'' else JObj []"
  have old: "keyed ?old" using assms(1) by (auto simp: mergeTarget_def keyed_def)
  have "jget s ''security'' \<noteq> JUndef" using assms(3) by (auto simp: keyed_def)
  then have eq: "jget (mergeDeep t s) ''security'' = mergeDeep ?old (jget s ''security'')"
    using assms entries_defined [OF assms(2)]
    by (simp add: jget_mergeDeep_keyed mergeTarget_def mergeVal_def)
  show "keyed (jget (mergeDeep t s) ''security'')" unfolding eq using old by (rule keyed_mergeDeep)
  have "\<exists>v. (''tokenVersion'', v) \<in> set (entries (jget s ''security''))"
    using assms(4) by (intro entries_defined [OF assms(3)]) (simp add: tokenVersion_def)
  then show "tokenVersion (mergeDeep t s) = JNum q"
    using assms(3,4) old by (simp add: tokenVersion_def eq jget_mergeDeep_keyed mergeVal_def)
qed

lemma holds_mergeDefault:
  assumes "mergeTarget t" "holdsVersion q s"
  shows "holdsVersion q (mergeDeep t s)"
proof -
  have s: "keyed s" "jget s ''version'' = JNum 5" "keyed (jget s ''security'')" "tokenVersion s = JNum q"
    using assms(2) by (auto simp: holdsVersion_def)
  have "jget (mergeDeep t s) ''version'' = JNum 5"
    using s entries_defined [OF s(1), of "''version''"] assms(1)
    by (simp add: jget_mergeDeep_keyed mergeTarget_def mergeVal_def)
  then show ?thesis
    using mergeDeep_security [OF assms(1) s(1,3,4)] assms(1)
    by (simp add: holdsVersion_def mergeTarget_def keyed_mergeDeep)
qed

text \<open>The partial update that sets a new token version.\<close>

definition versionUpdate :: "rat \<Rightarrow> json" where
  "versionUpdate n = JObj [(''security'', JObj [(''tokenVersion'', JNum n)])]"

lemma holds_mergeUpdate:
  assumes "mergeTarget l" "jget l ''version'' = JNum 5"
  shows "holdsVersion n (mergeDeep l (versionUpdate n))"
proof -
  have v: "keyed (versionUpdate n)" "keyed (jget (versionUpdate n) ''security'')"
    "tokenVersion (versionUpdate n) = JNum n"
    by (auto simp: versionUpdate_def keyed_def tokenVersion_def)
  have "jget (mergeDeep l (versionUpdate n)) ''version'' = JNum 5"
    using assms v(1) by (simp add: jget_mergeDeep_keyed mergeTarget_def versionUpdate_def)
  then show ?thesis
    using mergeDeep_security [OF assms(1) v] assms(1)
    by (simp add: holdsVersion_def mergeTarget_def keyed_mergeDeep)
qed

section \<open>Saving and serving\<close>

text \<open>What a schema parse keeps: Zod returns the declared fields with their values.\<close>

definition keepsTokenVersion :: "schemas \<Rightarrow> bool" where
  "keepsTokenVersion S \<longleftrightarrow> (\<forall>raw c. sc_config S raw = Inr c \<longrightarrow> tokenVersion c = tokenVersion raw)"

lemma saveLocal_holds:
  assumes "saveLocal fault c w = (w', Inr ())" "holdsVersion q c"
  shows "\<exists>l. cw_local w' = Parsed l \<and> holdsVersion q l" "cw_default w' = cw_default w"
proof -
  obtain copy where c: "processSensitiveFields (cw_env w) Encrypt (json_copy c) = Inr copy"
    "w' = w\<lparr>cw_local := Parsed (json_copy copy)\<rparr>"
    using assms(1) by (auto simp: saveLocal_def bindS_Inr passS_def split: option.splits)
  then show "\<exists>l. cw_local w' = Parsed l \<and> holdsVersion q l" "cw_default w' = cw_default w"
    using assms(2) holds_json_copy holds_processSensitiveFields by auto
qed

lemma loadLocal_holds:
  assumes "cw_local w = Parsed l" "holdsVersion q l" "mergeTarget d"
  shows "\<exists>c. loadLocal fault d w = (w, Inr c) \<and> holdsVersion q c"
proof -
  have v: "jget l ''version'' = JNum 5" "jget (json_copy l) ''version'' = JNum 5"
    using assms(2) holds_json_copy [OF assms(2)] by (simp_all add: holdsVersion_def)
  have "mergeLocal fault d w = (w, Inr (mergeDeep d l))"
    unfolding mergeLocal_def assms(1) using v migrateConfig_holds [OF assms(2)]
    by (simp add: bindS_def passS_def returnS_def orZero_def orElse_def)
  then show ?thesis using holds_mergeDefault [OF assms(3,2)] by (simp add: loadLocal_def)
qed

lemma bindS_pass: "bindS (passS f) g w = (w', Inr y) \<Longrightarrow> \<exists>x. f (cw_env w) = Inr x \<and> g x w = (w', Inr y)"
  by (auto simp: bindS_Inr passS_def)

lemma bindS_step: "bindS m g w = (w', Inr y) \<Longrightarrow> \<exists>w1 x. m w = (w1, Inr x) \<and> g x w1 = (w', Inr y)"
  by (simp add: bindS_Inr)

lemma reload_steps:
  assumes "reload S fault w = (w', Inr ())"
  shows "\<exists>w0 c0 c1 c2 c3 w1 c4 c5 c6. loadLocal fault (cw_default (fst (loadDotenv w))) (fst (loadDotenv w)) = (w0, Inr c0) \<and>
    processSensitiveFields (cw_env w0) Decrypt c0 = Inr c1 \<and> migrateConfig c1 = Inr c2 \<and>
    migrateEnvStep fault c2 w0 = (w1, Inr c3) \<and> applyEnvOverrides (cw_env w1) c3 = Inr c4 \<and>
    validateConstraints (cw_env w1) c4 = Inr c5 \<and> cleanSourceData (cw_env w1) c5 = Inr c6 \<and>
    parseSchema S c6 = Inr (cw_config w')"
  using assms unfolding reload_def
  apply -
  apply (drule bindS_step, elim exE conjE)
  apply (drule bindS_step, elim exE conjE)
  apply (drule bindS_pass, elim exE conjE)
  apply (drule bindS_pass, elim exE conjE)
  apply (drule bindS_step, elim exE conjE)
  apply (drule bindS_pass, elim exE conjE)
  apply (drule bindS_pass, elim exE conjE)
  apply (drule bindS_pass, elim exE conjE)
  apply (drule bindS_pass, elim exE conjE)
  apply (drule bindS_pass, elim exE conjE)
  apply (intro exI conjI, simp, assumption+)
  apply auto
  done

lemma reload_holds:
  assumes r: "reload S fault w = (w', Inr ())" and l: "cw_local w = Parsed l" "holdsVersion q l"
    and d: "mergeTarget (cw_default w)" and S: "keepsTokenVersion S"
  shows "tokenVersion (cw_config w') = JNum q"
proof -
  let ?w = "fst (loadDotenv w)"
  have w: "loadDotenv w = (?w, Inr ())" "cw_local ?w = Parsed l" "cw_default ?w = cw_default w"
    using l by (simp_all add: loadDotenv_def)
  obtain c0 where c0: "loadLocal fault (cw_default w) ?w = (?w, Inr c0)" "holdsVersion q c0"
    using loadLocal_holds [OF w(2) l(2) d] by blast
  obtain c1 c2 c3 w1 c4 c5 c6 where
    c1: "processSensitiveFields (cw_env ?w) Decrypt c0 = Inr c1" and
    c2: "migrateConfig c1 = Inr c2" and
    c3: "migrateEnvStep fault c2 ?w = (w1, Inr c3)" and
    c4: "applyEnvOverrides (cw_env w1) c3 = Inr c4" and
    c5: "validateConstraints (cw_env w1) c4 = Inr c5" and
    c6: "cleanSourceData (cw_env w1) c5 = Inr c6" "parseSchema S c6 = Inr (cw_config w')"
    using reload_steps [OF r] unfolding w(3) c0(1) by blast
  have h1: "holdsVersion q c1" using holds_processSensitiveFields [OF c1 c0(2)] .
  have h2: "holdsVersion q c2" using migrateConfig_holds [OF h1] c2 holds_json_copy [OF h1] by simp
  have h3: "holdsVersion q c3"
    using c3 holds_migrateEnvSecrets [OF _ h2]
    by (auto simp: migrateEnvStep_def bindS_Inr split: sum.splits if_splits)
  have h5: "holdsVersion q c5" using holds_validateConstraints [OF c5 holds_applyEnvOverrides [OF c4 h3]] .
  have "holdsVersion q c6" using holds_cleanSourceData [OF c6(1) h5] .
  then show ?thesis using c6(2) S by (auto simp: parseSchema_Inr keepsTokenVersion_def holdsVersion_def)
qed

text \<open>A successful update of the token version is in force afterwards.\<close>

lemma update_tokenVersion:
  assumes u: "update S fault (versionUpdate n) w = (w', Inr ())" and S: "keepsTokenVersion S"
    and l: "cw_local w = Parsed l" "mergeTarget l" "jget l ''version'' = JNum 5"
    and d: "mergeTarget (cw_default w)"
  shows "tokenVersion (cw_config w') = JNum n"
proof -
  let ?w = "w\<lparr>cw_isSaving := True\<rparr>"
  obtain w1 where b: "updateBody S fault (versionUpdate n) ?w = (w1, Inr ())" "cw_config w' = cw_config w1"
    using u by (auto simp: update_def split: if_splits prod.splits)
  obtain cand newLocal w2 where c:
    "cleanSourceData (cw_env w) (mergeDeep l (versionUpdate n)) = Inr cand"
    "stripSecrets (cw_env w) cand = Inr newLocal"
    "saveLocal fault newLocal ?w = (w2, Inr ())" "reload S fault w2 = (w1, Inr ())"
    using b(1) l(1) unfolding updateBody_def
    by (auto simp: bindS_Inr passS_def Let_def currentLocal_def)
  have "holdsVersion n newLocal"
    using holds_stripSecrets [OF c(2)] holds_cleanSourceData [OF c(1)] holds_mergeUpdate [OF l(2,3)] by blast
  then obtain l2 where "cw_local w2 = Parsed l2" "holdsVersion n l2" "cw_default w2 = cw_default ?w"
    using saveLocal_holds [OF c(3)] by blast
  then show ?thesis using reload_holds [OF c(4) _ _ _ S] d b(2) by simp
qed

text \<open>An update that fails leaves the configuration in force.\<close>

lemma update_error_keeps:
  assumes "update S fault p w = (w', Inl e)"
  shows "cw_config w' = cw_config w"
proof (cases "cw_isSaving w")
  case False
  define w0 where "w0 = w\<lparr>cw_isSaving := True\<rparr>"
  have b: "fst (updateBody S fault p w0) = w'\<lparr>cw_isSaving := cw_isSaving (fst (updateBody S fault p w0))\<rparr>"
    "snd (updateBody S fault p w0) = Inl e"
    using assms False by (auto simp: update_def w0_def split: prod.splits)
  have c0: "cw_config w0 = cw_config w" by (simp add: w0_def)
  obtain w1 where w1: "updateBody S fault p w0 = (w1, Inl e)" using b(2) by (metis prod.collapse)
  have "cw_config w1 = cw_config w0"
    using w1 unfolding updateBody_eq bindS_Inl
    by (metis checkUpdate_same framedD(1) framed_saveLocal reload_result(4))
  then show ?thesis using b(1) w1 c0 by (metis cfgWorld.select_convs(1) cfgWorld.surjective cfgWorld.update_convs(3) fst_conv)
qed (use assms in \<open>simp add: update_def\<close>)

end
