(* ===== verification/Env_Manager.thy ===== *)
theory Env_Manager
  imports JS_Runtime
begin

text \<open>
  \<open>src/src/utils/envManager.js\<close>: reading, setting and deleting variables in the \<open>.env\<close> file and
  in the process environment. The file is its content, or absent. \<open>deleteEnvValue\<close> is also
  given in its two asynchronous halves (the read and the write), because the configuration
  service starts several deletions without awaiting them.
\<close>

record envState =
  es_file :: "string option"
  es_process :: "string \<Rightarrow> string option"

section \<open>\<open>parseEnv\<close>\<close>

text \<open>\<open>line.match(/^([^=]+)=(.*)$/)\<close>, with both groups trimmed; a dot matches no line terminator.\<close>

definition eqc :: char where
  "eqc = CHR ''=''"

definition envLine :: "string \<Rightarrow> (string \<times> string) option" where
  "envLine line =
     (let k = takeWhile (\<lambda>c. c \<noteq> eqc) line; r = dropWhile (\<lambda>c. c \<noteq> eqc) line in
      if k = [] \<or> r = [] \<or> cr \<in> set (tl r) \<or> hd nl \<in> set (tl r) then None
      else Some (trim k, trim (tl r)))"

definition parseLines :: "string list \<Rightarrow> (string \<times> string) list" where
  "parseLines lines =
     fold (\<lambda>line result. case envLine line of
             None \<Rightarrow> result | Some (k, v) \<Rightarrow> AList.update k v result) lines []"

definition parseEnv :: "string option \<Rightarrow> (string \<times> string) list" where
  "parseEnv file = (case file of None \<Rightarrow> [] | Some content \<Rightarrow> parseLines (split_lines content))"

section \<open>\<open>setEnvValue\<close> and \<open>deleteEnvValue\<close>\<close>

definition sets :: "string \<Rightarrow> string \<Rightarrow> bool" where
  "sets key line = startsWith (trim line) (key @ [eqc])"

definition setLines :: "string \<Rightarrow> string \<Rightarrow> string list \<Rightarrow> string list" where
  "setLines key value lines =
     (let newLines = map (\<lambda>line. if sets key line then key @ [eqc] @ value else line) lines in
      if list_ex (sets key) lines then newLines
      else (if newLines \<noteq> [] \<and> last newLines \<noteq> [] then newLines @ [[]] else newLines)
           @ [key @ [eqc] @ value])"

definition setEnvValue :: "string \<Rightarrow> string \<Rightarrow> envState \<Rightarrow> envState" where
  "setEnvValue key value st =
     (let content = (case es_file st of None \<Rightarrow> [] | Some c \<Rightarrow> c) in
      st\<lparr>es_file := Some (join nl (setLines key value (split_lines content))),
         es_process := (es_process st)(key \<mapsto> value)\<rparr>)"

text \<open>The first half of \<open>deleteEnvValue\<close> reads the file, the second filters and writes.\<close>

definition deleteRead :: "envState \<Rightarrow> string option" where
  "deleteRead st = es_file st"

definition deleteWrite :: "string \<Rightarrow> string option \<Rightarrow> envState \<Rightarrow> envState" where
  "deleteWrite key file st =
     (case file of
        None \<Rightarrow> st
      | Some content \<Rightarrow>
          let lines = split_lines content; newLines = filter (\<lambda>line. \<not> sets key line) lines in
          if length newLines \<noteq> length lines
          then st\<lparr>es_file := Some (join nl newLines), es_process := (es_process st)(key := None)\<rparr>
          else st)"

definition deleteEnvValue :: "string \<Rightarrow> envState \<Rightarrow> envState" where
  "deleteEnvValue key st = deleteWrite key (deleteRead st) st"

definition isConfigured :: "envState \<Rightarrow> bool" where
  "isConfigured st =
     (case es_process st ''ADMIN_PASSWORD'' of None \<Rightarrow> False | Some p \<Rightarrow> p \<noteq> [])"

section \<open>Lookup in a parsed file\<close>

text \<open>The last line that assigns a key gives its value.\<close>

definition lineValue :: "string \<Rightarrow> string \<Rightarrow> string option" where
  "lineValue l k =
     (case envLine l of Some (k', v) \<Rightarrow> if k' = k then Some v else None | None \<Rightarrow> None)"

fun lastValue :: "string list \<Rightarrow> string \<Rightarrow> string option" where
  "lastValue [] k = None"
| "lastValue (l # ls) k =
     (case lastValue ls k of Some v \<Rightarrow> Some v | None \<Rightarrow> lineValue l k)"

lemma lineValue_None: "lineValue l k = None \<longleftrightarrow> (\<forall>v. envLine l \<noteq> Some (k, v))"
  by (auto simp: lineValue_def split: option.splits)

lemma lineValue_Some: "lineValue l k = Some v \<longleftrightarrow> envLine l = Some (k, v)"
  by (auto simp: lineValue_def split: option.splits)

lemma parseLines_lastValue: "map_of (parseLines ls) k = lastValue ls k"
proof -
  have "map_of (fold (\<lambda>line result. case envLine line of
          None \<Rightarrow> result | Some (k, v) \<Rightarrow> AList.update k v result) ls r) k =
        (case lastValue ls k of Some v \<Rightarrow> Some v | None \<Rightarrow> map_of r k)" for r
    by (induction ls arbitrary: r) (auto simp: update_conv' lineValue_def split: option.splits prod.splits)
  then show ?thesis unfolding parseLines_def by (simp split: option.splits)
qed

lemma lastValue_append:
  "lastValue (ls @ ls') k = (case lastValue ls' k of Some v \<Rightarrow> Some v | None \<Rightarrow> lastValue ls k)"
  by (induction ls) (auto split: option.splits)

lemma lastValue_map_other:
  assumes "\<And>l. l \<in> set ls \<Longrightarrow> f l \<noteq> l \<Longrightarrow> (\<forall>v. envLine l \<noteq> Some (k, v)) \<and> (\<forall>v. envLine (f l) \<noteq> Some (k, v))"
  shows "lastValue (map f ls) k = lastValue ls k"
  using assms
proof (induction ls)
  case (Cons l ls)
  have "lineValue (f l) k = lineValue l k"
  proof (cases "f l = l")
    case False
    with Cons.prems [of l] have "lineValue (f l) k = None" "lineValue l k = None"
      by (simp_all add: lineValue_None)
    then show ?thesis by simp
  qed simp
  with Cons show ?case by (simp split: option.split)
qed simp

lemma lastValue_filter_other:
  assumes "\<And>l v. l \<in> set ls \<Longrightarrow> \<not> P l \<Longrightarrow> envLine l \<noteq> Some (k, v)"
  shows "lastValue (filter P ls) k = lastValue ls k"
  using assms
proof (induction ls)
  case (Cons l ls)
  have "lineValue l k = None" if "\<not> P l" using Cons.prems [of l] that by (simp add: lineValue_None)
  with Cons show ?case by (simp split: option.splits)
qed simp

lemma lastValue_none:
  "lastValue ls k = None \<longleftrightarrow> (\<forall>l \<in> set ls. \<forall>v. envLine l \<noteq> Some (k, v))"
  by (induction ls) (auto simp: lineValue_None [symmetric] split: option.splits)

lemma lastValue_unique:
  assumes "\<And>l w. l \<in> set ls \<Longrightarrow> envLine l = Some (k, w) \<Longrightarrow> w = x" "l0 \<in> set ls" "envLine l0 = Some (k, x)"
  shows "lastValue ls k = Some x"
proof -
  have "lastValue ls k = Some w \<Longrightarrow> \<exists>l \<in> set ls. envLine l = Some (k, w)" for w
    by (induction ls) (auto simp: lineValue_Some split: option.splits)
  moreover have "lastValue ls k \<noteq> None" using assms(2,3) lastValue_none by blast
  ultimately show ?thesis using assms(1) by (cases "lastValue ls k") auto
qed

section \<open>Writing and re-reading\<close>

lemma nl_eq: "nl = [hd nl]"
  by (simp add: nl_def)

lemma cr_not_nl: "cr \<noteq> hd nl"
  by (simp add: cr_def nl_def)

lemma split_lines_join:
  assumes "ls \<noteq> []" "\<forall>l \<in> set ls. hd nl \<notin> set l \<and> cr \<notin> set l"
  shows "split_lines (join nl ls) = ls"
proof -
  have "split_on (hd nl) (join nl ls) = ls"
    using split_on_join [of ls "hd nl"] assms nl_eq by simp
  moreover have "map strip_cr (butlast ls) = butlast ls"
  proof -
    have "strip_cr l = l" if "l \<in> set (butlast ls)" for l
      using assms(2) in_set_butlastD [OF that] unfolding strip_cr_def by (metis last_in_set)
    then show ?thesis by (simp add: map_idI)
  qed
  ultimately show ?thesis using assms(1) by (simp add: split_lines_def)
qed

text \<open>Keys and values as they are written: one line, no white space around the key.\<close>

definition envKeyOk :: "string \<Rightarrow> bool" where
  "envKeyOk k = (k \<noteq> [] \<and> (\<forall>c \<in> set k. c \<noteq> eqc \<and> \<not> is_ws c))"

definition envValueOk :: "string \<Rightarrow> bool" where
  "envValueOk v = (cr \<notin> set v \<and> hd nl \<notin> set v)"

lemma trim_word: "\<forall>c \<in> set k. \<not> is_ws c \<Longrightarrow> trim k = k"
  by (rule trim_noop) (cases k; auto)

lemma envLine_written:
  assumes "envKeyOk k" "envValueOk v"
  shows "envLine (k @ [eqc] @ v) = Some (k, trim v)"
proof -
  have "takeWhile (\<lambda>c. c \<noteq> eqc) (k @ eqc # v) = k" "dropWhile (\<lambda>c. c \<noteq> eqc) (k @ eqc # v) = eqc # v"
    using assms(1) by (auto simp: envKeyOk_def takeWhile_append dropWhile_append)
  with assms show ?thesis by (simp add: envLine_def envKeyOk_def envValueOk_def trim_word)
qed

lemma takeWhile_trim_key:
  assumes "envKeyOk k" "sets k l"
  shows "trim (takeWhile (\<lambda>c. c \<noteq> eqc) l) = k"
proof -
  define p where "p = takeWhile is_ws l"
  define d where "d = dropWhile is_ws l"
  have l: "l = p @ d" by (simp add: p_def d_def)
  have nws: "\<not> is_ws eqc" by (simp add: eqc_def is_ws_def)
  have p: "\<forall>c \<in> set p. is_ws c" unfolding p_def by (meson set_takeWhileD)
  then have pe: "\<forall>c \<in> set p. c \<noteq> eqc" using nws by auto
  obtain t where t: "trim l = k @ eqc # t" using assms(2) by (auto simp: sets_def startsWith_iff)
  have "trim l = rev (dropWhile is_ws (rev d))" by (simp add: trim_def d_def)
  then obtain q where "d = (k @ eqc # t) @ q"
    using t by (metis rev_append rev_rev_ident takeWhile_dropWhile_id)
  then have "takeWhile (\<lambda>c. c \<noteq> eqc) l = p @ k"
    using pe assms(1) l by (auto simp: envKeyOk_def takeWhile_append)
  moreover have "trim (p @ k) = k"
  proof -
    have "dropWhile is_ws (p @ k) = k"
      using p assms(1) by (cases k) (auto simp: envKeyOk_def dropWhile_append)
    moreover have "dropWhile is_ws (rev k) = rev k"
      using assms(1) by (cases "rev k") (auto simp: envKeyOk_def dropWhile_eq_self_iff hd_rev)
    ultimately show ?thesis by (simp add: trim_def)
  qed
  ultimately show ?thesis by simp
qed

lemma sets_envLine: "envKeyOk k \<Longrightarrow> sets k l \<Longrightarrow> envLine l = Some (k', v) \<Longrightarrow> k' = k"
  using takeWhile_trim_key by (auto simp: envLine_def Let_def split: if_splits)

text \<open>
  A tidy file: no stray carriage returns, and every line that assigns \<open>k\<close> has it directly
  before the equals sign.
\<close>

definition tidy :: "string \<Rightarrow> string list \<Rightarrow> bool" where
  "tidy k ls =
     ((\<forall>l \<in> set ls. cr \<notin> set l) \<and> (\<forall>l \<in> set ls. \<forall>w. envLine l = Some (k, w) \<longrightarrow> sets k l))"

definition fileLines :: "envState \<Rightarrow> string list" where
  "fileLines st = split_lines (case es_file st of None \<Rightarrow> [] | Some c \<Rightarrow> c)"

lemma split_lines_no_nl: "l \<in> set (split_lines s) \<Longrightarrow> hd nl \<notin> set l"
proof -
  have st: "set (strip_cr w) \<subseteq> set w" for w
    by (auto simp: strip_cr_def dest: in_set_butlastD)
  assume "l \<in> set (split_lines s)"
  then obtain w where "w \<in> set (split_on (hd nl) s)" "set l \<subseteq> set w"
    using st by (auto simp: split_lines_def Let_def dest!: in_set_butlastD)
       (use last_in_set split_on_nonempty in blast)
  then show ?thesis using split_on_no_delim by blast
qed

lemma split_lines_nonempty [simp]: "split_lines s \<noteq> []"
  by (simp add: split_lines_def Let_def)

lemma map_of_parseEnv: "map_of (parseEnv (es_file st)) k = lastValue (fileLines st) k"
  by (cases "es_file st")
     (simp_all add: parseEnv_def fileLines_def parseLines_lastValue split_lines_def lineValue_def envLine_def)

lemma written_chars: "envKeyOk k \<Longrightarrow> hd nl \<notin> set (k @ [eqc]) \<and> cr \<notin> set (k @ [eqc])"
proof -
  assume k: "envKeyOk k"
  have "is_ws cr" "hd nl \<noteq> eqc" "cr \<noteq> eqc" by (simp_all add: is_ws_def cr_def nl_def eqc_def)
  with k is_ws_nl show ?thesis unfolding envKeyOk_def by auto
qed

lemma setLines_chars:
  assumes "envKeyOk k" "envValueOk v" "\<forall>l \<in> set ls. hd nl \<notin> set l \<and> cr \<notin> set l"
  shows "\<forall>l \<in> set (setLines k v ls). hd nl \<notin> set l \<and> cr \<notin> set l"
  using assms written_chars [OF assms(1)] by (auto simp: setLines_def Let_def envValueOk_def)

lemma fileLines_set:
  assumes "envKeyOk k" "envValueOk v" "\<forall>l \<in> set (fileLines st). cr \<notin> set l"
  shows "fileLines (setEnvValue k v st) = setLines k v (fileLines st)"
proof -
  have "\<forall>l \<in> set (fileLines st). hd nl \<notin> set l \<and> cr \<notin> set l"
    using assms(3) split_lines_no_nl by (auto simp: fileLines_def)
  then have "\<forall>l \<in> set (setLines k v (fileLines st)). hd nl \<notin> set l \<and> cr \<notin> set l"
    by (rule setLines_chars [OF assms(1,2)])
  moreover have "setLines k v (fileLines st) \<noteq> []"
    by (simp add: setLines_def Let_def fileLines_def)
  ultimately show ?thesis
    using split_lines_join by (simp add: setEnvValue_def Let_def fileLines_def)
qed

text \<open>
  After \<open>setEnvValue(key, value)\<close> reading the file back gives the trimmed value for the key
  and the old value for every other key, and the running process sees the value, for a
  single-line value, a key without blanks, and a tidy file.
\<close>

lemma setEnvValue_map:
  assumes k: "envKeyOk k" and v: "envValueOk v" and t: "tidy k (fileLines st)"
  shows "map_of (parseEnv (es_file (setEnvValue k v st))) =
           (map_of (parseEnv (es_file st)))(k \<mapsto> trim v) \<and>
         es_process (setEnvValue k v st) = (es_process st)(k \<mapsto> v)"
proof -
  let ?ls = "fileLines st" and ?new = "k @ [eqc] @ v"
  let ?f = "\<lambda>line. if sets k line then ?new else line"
  have lines: "fileLines (setEnvValue k v st) = setLines k v ?ls"
    using fileLines_set [OF k v] t by (simp add: tidy_def)
  have new: "envLine ?new = Some (k, trim v)" using envLine_written [OF k v] .
  have empty: "envLine [] = None" by (simp add: envLine_def)
  have other: "lastValue (map ?f ?ls) j = lastValue ?ls j" if "j \<noteq> k" for j
    by (rule lastValue_map_other) (use that new sets_envLine [OF k] in \<open>auto split: if_splits\<close>)
  have same: "lastValue (map ?f ?ls) k = Some (trim v)" if "l \<in> set ?ls" "sets k l" for l
  proof (rule lastValue_unique)
    show "?new \<in> set (map ?f ?ls)" using that by (auto intro!: image_eqI [of _ _ l])
    show "envLine ?new = Some (k, trim v)" by (rule new)
  next
    fix l' w assume "l' \<in> set (map ?f ?ls)" "envLine l' = Some (k, w)"
    then show "w = trim v" using t new by (auto simp: tidy_def split: if_splits)
  qed
  have id: "map ?f ?ls = ?ls" if "\<not> list_ex (sets k) ?ls"
    using that by (simp add: list_ex_iff map_idI)
  have "lastValue (setLines k v ?ls) j = ((lastValue ?ls)(k \<mapsto> trim v)) j" for j
  proof (cases "list_ex (sets k) ?ls")
    case True
    then obtain l where "l \<in> set ?ls" "sets k l" by (auto simp: list_ex_iff)
    with True other same show ?thesis by (simp add: setLines_def)
  next
    case False
    then show ?thesis
      using id new empty by (simp add: setLines_def Let_def lastValue_append lineValue_def split: option.split)
  qed
  then show ?thesis
    by (simp add: map_of_parseEnv lines fun_eq_iff) (simp add: setEnvValue_def Let_def)
qed

section \<open>Deletion\<close>

lemma fileLines_delete:
  assumes "\<forall>l \<in> set (fileLines st). cr \<notin> set l"
  shows "lastValue (fileLines (deleteWrite k (es_file st) st')) j =
    (if es_file st \<noteq> None \<and> list_ex (sets k) (fileLines st)
     then lastValue (filter (\<lambda>l. \<not> sets k l) (fileLines st)) j else lastValue (fileLines st') j)"
proof (cases "es_file st")
  case None
  then show ?thesis by (simp add: deleteWrite_def)
next
  case (Some c)
  let ?ls = "split_lines c" and ?new = "filter (\<lambda>l. \<not> sets k l) (split_lines c)"
  have len: "length ?new \<noteq> length ?ls \<longleftrightarrow> list_ex (sets k) ?ls"
    using length_filter_less [of _ ?ls "\<lambda>l. \<not> sets k l"] filter_True [of ?ls "\<lambda>l. \<not> sets k l"]
    by (auto simp: list_ex_iff) (metis filter_True nat_neq_iff)
  have ok: "\<forall>l \<in> set ?new. hd nl \<notin> set l \<and> cr \<notin> set l"
    using assms split_lines_no_nl Some by (auto simp: fileLines_def)
  have "lastValue (split_lines (join nl ?new)) j = lastValue ?new j"
  proof (cases "?new = []")
    case True
    then show ?thesis by (simp add: split_lines_def lineValue_def envLine_def)
  next
    case False
    with split_lines_join [OF False ok] show ?thesis by simp
  qed
  then show ?thesis
    using Some len by (simp add: deleteWrite_def Let_def fileLines_def)
qed

lemma lastValue_deleted:
  assumes "envKeyOk k" "tidy k ls"
  shows "lastValue (filter (\<lambda>l. \<not> sets k l) ls) j = (if j = k then None else lastValue ls j)"
proof (cases "j = k")
  case True
  then show ?thesis using assms by (auto simp: lastValue_none tidy_def)
next
  case False
  have "lastValue (filter (\<lambda>l. \<not> sets k l) ls) j = lastValue ls j"
    by (rule lastValue_filter_other) (use False sets_envLine [OF assms(1)] in auto)
  with False show ?thesis by simp
qed

text \<open>
  After \<open>deleteEnvValue(key)\<close> the key is gone from the file and every other key has its old
  value there.
\<close>

lemma deleteEnvValue_map:
  assumes k: "envKeyOk k" and t: "tidy k (fileLines st)"
  shows "map_of (parseEnv (es_file (deleteEnvValue k st))) = (map_of (parseEnv (es_file st)))(k := None)"
proof -
  have cl: "\<forall>l \<in> set (fileLines st). cr \<notin> set l" using t by (simp add: tidy_def)
  have un: "lastValue (fileLines st) k = None" if "\<not> list_ex (sets k) (fileLines st)"
    using that t by (auto simp: lastValue_none tidy_def list_ex_iff)
  have nofile: "lastValue (fileLines st) j = None" if "es_file st = None" for j
    using that by (simp add: fileLines_def split_lines_def lineValue_def envLine_def)
  have "lastValue (fileLines (deleteEnvValue k st)) j = ((lastValue (fileLines st))(k := None)) j" for j
    unfolding deleteEnvValue_def deleteRead_def fileLines_delete [OF cl]
    using lastValue_deleted [OF k t] un nofile by auto
  then show ?thesis by (simp add: map_of_parseEnv fun_eq_iff)
qed

text \<open>
  C36. The file is a map from keys to values: with a key without blanks and an environment file
  whose lines for that key are tidy, reading the file back after \<open>setEnvValue(key, value)\<close> gives the
  old map with the key at the trimmed single-line value, the running process sees the value, and
  after \<open>deleteEnvValue(key)\<close> the map is the old one without the key.
\<close>

theorem envFile_map:
  assumes "envKeyOk k" "tidy k (fileLines st)"
  shows "(envValueOk v \<longrightarrow>
            map_of (parseEnv (es_file (setEnvValue k v st))) = (map_of (parseEnv (es_file st)))(k \<mapsto> trim v) \<and>
            es_process (setEnvValue k v st) = (es_process st)(k \<mapsto> v)) \<and>
         map_of (parseEnv (es_file (deleteEnvValue k st))) = (map_of (parseEnv (es_file st)))(k := None)"
  using setEnvValue_map [OF assms(1) _ assms(2)] deleteEnvValue_map [OF assms] by blast

definition sampleEnvFile :: envState where
  "sampleEnvFile = \<lparr>es_file = Some ''A=1'', es_process = Map.empty\<rparr>"

lemma sampleEnvFile_lines: "fileLines sampleEnvFile = [''A=1'']"
  by (simp add: fileLines_def sampleEnvFile_def split_lines_def nl_def Let_def)

lemma sampleEnvFile_line: "envLine ''A=1'' = Some (''A'', ''1'')"
  by code_simp

theorem envFile_map_witness:
  "map_of (parseEnv (es_file (setEnvValue ''A'' ''2'' sampleEnvFile))) ''A'' = Some ''2'' \<and>
   map_of (parseEnv (es_file (deleteEnvValue ''A'' sampleEnvFile))) ''A'' = None"
proof -
  have ok: "envKeyOk ''A''" "envValueOk ''2''" by (simp_all add: envKeyOk_def envValueOk_def eqc_def is_ws_def cr_def nl_def)
  have "sets ''A'' ''A=1''" by code_simp
  then have t: "tidy ''A'' (fileLines sampleEnvFile)" by (simp add: tidy_def sampleEnvFile_lines cr_def)
  have "trim ''2'' = ''2''" by (rule trim_word) (simp add: is_ws_def)
  with envFile_map [OF ok(1) t, of "''2''"] ok(2) show ?thesis by simp
qed

text \<open>
  Two deletions that overlap, as when \<open>reload\<close> starts one per migrated secret without
  awaiting it: both read the file before either writes it, and the first key survives in the
  file with its value although it is gone from the process environment.
\<close>

theorem deleteEnvValue_overlap:
  assumes k: "envKeyOk k2" "k1 \<noteq> k2" and t: "tidy k2 (fileLines st)"
    and f: "es_file st \<noteq> None" "list_ex (sets k1) (fileLines st)" "list_ex (sets k2) (fileLines st)"
  shows "let read1 = deleteRead st; read2 = deleteRead st;
             st' = deleteWrite k2 read2 (deleteWrite k1 read1 st) in
         map_of (parseEnv (es_file st')) k1 = map_of (parseEnv (es_file st)) k1 \<and>
         es_process st' k1 = None"
proof -
  have cl: "\<forall>l \<in> set (fileLines st). cr \<notin> set l" using t by (simp add: tidy_def)
  let ?st = "deleteWrite k2 (es_file st) (deleteWrite k1 (es_file st) st)"
  have "lastValue (fileLines ?st) k1 = lastValue (fileLines st) k1"
    unfolding fileLines_delete [OF cl] using f lastValue_deleted [OF k(1) t] k(2) by simp
  moreover obtain c where c: "es_file st = Some c" using f(1) by blast
  have "length (filter (\<lambda>l. \<not> sets x l) (split_lines c)) \<noteq> length (split_lines c)"
    if "list_ex (sets x) (fileLines st)" for x
    using that length_filter_less [of _ "split_lines c" "\<lambda>l. \<not> sets x l"]
    by (fastforce simp: list_ex_iff fileLines_def c)
  then have "es_process ?st k1 = None"
    using f k(2) c by (simp add: deleteWrite_def Let_def)
  ultimately show ?thesis by (simp add: deleteRead_def map_of_parseEnv)
qed

definition twoSecrets :: envState where
  "twoSecrets = \<lparr>es_file = Some (join nl [''A=1'', ''B=2'']), es_process = [''A'' \<mapsto> ''1'', ''B'' \<mapsto> ''2'']\<rparr>"

theorem deleteEnvValue_overlap_witness:
  "map_of (parseEnv (es_file (deleteWrite ''B'' (deleteRead twoSecrets)
     (deleteWrite ''A'' (deleteRead twoSecrets) twoSecrets)))) ''A'' = Some ''1''"
proof -
  have ls: "fileLines twoSecrets = [''A=1'', ''B=2'']"
    by code_simp
  have el: "envLine ''A=1'' = Some (''A'', ''1'')" "envLine ''B=2'' = Some (''B'', ''2'')" by code_simp+
  have st: "sets ''A'' ''A=1''" "sets ''B'' ''B=2''" "\<not> sets ''B'' ''A=1''" by code_simp+
  have "envKeyOk ''B''" "''A'' \<noteq> ''B''" by (simp_all add: envKeyOk_def eqc_def is_ws_def)
  moreover have "tidy ''B'' (fileLines twoSecrets)" using el st by (simp add: tidy_def ls cr_def)
  moreover have "es_file twoSecrets \<noteq> None" by (simp add: twoSecrets_def)
  moreover have "list_ex (sets ''A'') (fileLines twoSecrets)" "list_ex (sets ''B'') (fileLines twoSecrets)"
    using st by (simp_all add: ls)
  ultimately have "map_of (parseEnv (es_file (deleteWrite ''B'' (deleteRead twoSecrets)
     (deleteWrite ''A'' (deleteRead twoSecrets) twoSecrets)))) ''A'' = map_of (parseEnv (es_file twoSecrets)) ''A''"
    using deleteEnvValue_overlap by (metis (no_types, lifting))
  then show ?thesis by (simp add: map_of_parseEnv ls lineValue_def el)
qed

end
