(* ===== verification/Auth.thy ===== *)
theory Auth
  imports Config_Persist Env_Manager
begin

text \<open>
  \<open>src/src/controllers/authController.js\<close> and \<open>src/src/middleware/auth.js\<close>: setup, login, change of
  the password, logout and the check of a session. The world is the one of the configuration
  service together with the \<open>.env\<close> file; a handler returns the new world and the reply. The
  package jsonwebtoken, the random bytes and the reading of the \<open>.env\<close> file by dotenv are
  parameters. Requests carry the parsed body, as Express passes it.
\<close>

section \<open>World and parameters\<close>

record authWorld =
  aw_cfg :: cfgWorld
  aw_file :: "string option"

record authEnv =
  ax_schemas :: schemas
  ax_fault :: "string option"
  ax_sign :: "json \<Rightarrow> string \<Rightarrow> int \<Rightarrow> string"
  ax_verify :: "string \<Rightarrow> string \<Rightarrow> int \<Rightarrow> json option"
  ax_dotenv :: "string option \<Rightarrow> string \<Rightarrow> string option"
  ax_salt :: string
  ax_secret :: "nat \<Rightarrow> string"

datatype cookieAction = KeepCookie | SetCookie string | ClearCookie

record reply =
  rp_status :: nat
  rp_body :: json
  rp_cookie :: cookieAction

definition respond :: "nat \<Rightarrow> jobj \<Rightarrow> reply" where
  "respond status body = \<lparr>rp_status = status, rp_body = JObj body, rp_cookie = KeepCookie\<rparr>"

definition failWith :: "nat \<Rightarrow> string \<Rightarrow> reply" where
  "failWith status msg = respond status [(''error'', JStr msg)]"

definition processEnv :: "authWorld \<Rightarrow> string \<Rightarrow> string option" where
  "processEnv w k = envVar (cw_env (aw_cfg w)) k"

text \<open>\<open>envManager.setEnvValue\<close> on this world; a later reload reads the new file.\<close>

definition setEnv :: "authEnv \<Rightarrow> string \<Rightarrow> string \<Rightarrow> authWorld \<Rightarrow> authWorld" where
  "setEnv A key value w =
     (let E = cw_env (aw_cfg w);
          st = setEnvValue key value \<lparr>es_file = aw_file w, es_process = ce_env E\<rparr> in
      w\<lparr>aw_cfg := (aw_cfg w)\<lparr>cw_env := E\<lparr>ce_env := es_process st\<rparr>, cw_dotenv := ax_dotenv A (es_file st)\<rparr>,
        aw_file := es_file st\<rparr>)"

text \<open>\<open>configService.get().security.tokenVersion\<close>\<close>

definition currentVersion :: "authWorld \<Rightarrow> json res" where
  "currentVersion w =
     bindR (getConfig (aw_cfg w)) (\<lambda>c. getProp (jget c ''security'') ''tokenVersion'')"

definition claims :: "json \<Rightarrow> json" where
  "claims version = JObj [(''role'', JStr ''admin''), (''tokenVersion'', version)]"

section \<open>Handlers\<close>

definition checkStatus :: "authWorld \<Rightarrow> reply" where
  "checkStatus w =
     respond 200
       [(''configured'', JBool (isConfigured \<lparr>es_file = aw_file w, es_process = ce_env (cw_env (aw_cfg w))\<rparr>)),
        (''requiresSetup'', JBool (processEnv w ''ADMIN_PASSWORD'' = None))]"

text \<open>A secret that is generated and stored when it is missing.\<close>

definition ensureSecret :: "authEnv \<Rightarrow> string \<Rightarrow> nat \<Rightarrow> authWorld \<Rightarrow> authWorld \<times> string" where
  "ensureSecret A var n w =
     (case processEnv w var of
        Some s \<Rightarrow> (w, s)
      | None \<Rightarrow> (setEnv A var (ax_secret A n) w, ax_secret A n))"

text \<open>\<open>!password || password.length < 5\<close>, for any JSON value.\<close>

definition tooShort :: "json \<Rightarrow> bool" where
  "tooShort p =
     (\<not> truthy p \<or>
      (case p of
         JStr s \<Rightarrow> length s < 5
       | JArr xs \<Rightarrow> length xs < 5
       | JObj _ \<Rightarrow> (case to_number (jget p ''length'') of Some q \<Rightarrow> q < 5 | None \<Rightarrow> False)
       | _ \<Rightarrow> False))"

definition setupAdmin :: "authEnv \<Rightarrow> int \<Rightarrow> json \<Rightarrow> authWorld \<Rightarrow> authWorld \<times> reply" where
  "setupAdmin A now body w =
     (if processEnv w ''ADMIN_PASSWORD'' \<noteq> None
      then (w, failWith 403 ''System already configured. Login to change settings.'')
      else if tooShort (jget body ''password'') then (w, failWith 400 ''Password too short'')
      else case jget body ''password'' of
        JStr password \<Rightarrow>
          let w = setEnv A ''ADMIN_PASSWORD'' (hashPassword (ce_crypto (cw_env (aw_cfg w))) (ax_salt A) password) w;
              (w, jwtSecret) = ensureSecret A ''JWT_SECRET'' 64 w;
              (w, encryptionSalt) = ensureSecret A ''ENCRYPTION_SALT'' 32 w in
          (case currentVersion w of
             Inl _ \<Rightarrow> (w, failWith 500 ''Failed to write configuration'')
           | Inr v \<Rightarrow>
               (w, (respond 200 [(''success'', JBool True), (''message'', JStr ''Structure secured and logged in.'')])
                     \<lparr>rp_cookie := SetCookie (ax_sign A (claims v) jwtSecret now)\<rparr>))
      | _ \<Rightarrow> (w, failWith 500 ''Failed to write configuration''))"

text \<open>\<open>(currentConfig.security?.tokenVersion || 0) + 1\<close>, for a numeric token version.\<close>

definition nextVersion :: "json \<Rightarrow> rat" where
  "nextVersion c = (case tokenVersion c of JNum q \<Rightarrow> q + 1 | _ \<Rightarrow> 1)"

definition changePassword :: "authEnv \<Rightarrow> json \<Rightarrow> authWorld \<Rightarrow> authWorld \<times> reply" where
  "changePassword A body w =
     (case jget body ''password'' of
        JStr password \<Rightarrow>
          if password = [] then (w, failWith 400 ''Missing password'')
          else
            let w = setEnv A ''ADMIN_PASSWORD'' (hashPassword (ce_crypto (cw_env (aw_cfg w))) (ax_salt A) password) w in
            (case getConfig (aw_cfg w) of
               Inl _ \<Rightarrow> (w, failWith 500 ''Failed to update password'')
             | Inr c \<Rightarrow>
                 (case update (ax_schemas A) (ax_fault A) (versionUpdate (nextVersion c)) (aw_cfg w) of
                    (cfg, Inl _) \<Rightarrow> (w\<lparr>aw_cfg := cfg\<rparr>, failWith 500 ''Failed to update password'')
                  | (cfg, Inr _) \<Rightarrow>
                      (w\<lparr>aw_cfg := cfg\<rparr>, respond 200 [(''success'', JBool True), (''message'', JStr ''Password updated'')])))
      | p \<Rightarrow> (w, failWith (if truthy p then 500 else 400)
                  (if truthy p then ''Failed to update password'' else ''Missing password'')))"

text \<open>The stored value has a salt and a hash, so that scrypt is called; it accepts strings only.\<close>

definition hashStored :: "string \<Rightarrow> bool" where
  "hashStored h = (case split_on colon h of salt # originalHash # _ \<Rightarrow> salt \<noteq> [] \<and> originalHash \<noteq> [] | _ \<Rightarrow> False)"

definition login :: "authEnv \<Rightarrow> int \<Rightarrow> json \<Rightarrow> authWorld \<Rightarrow> reply res" where
  "login A now body w =
     (case processEnv w ''ADMIN_PASSWORD'' of
        None \<Rightarrow> Inr (respond 500 [(''error'', JStr ''Server authentication not configured''), (''code'', JStr ''SETUP_REQUIRED'')])
      | Some adminPassword \<Rightarrow>
          (case jget body ''password'' of
             JStr password \<Rightarrow>
               if verifyPassword (ce_crypto (cw_env (aw_cfg w))) password (Some adminPassword) then
                 (case processEnv w ''JWT_SECRET'' of
                    None \<Rightarrow> Inr (failWith 500 ''System security not fully configured (Missing JWT Secret)'')
                  | Some secret \<Rightarrow>
                      bindR (currentVersion w) (\<lambda>v.
                      Inr ((respond 200 [(''success'', JBool True)])
                             \<lparr>rp_cookie := SetCookie (ax_sign A (claims v) secret now)\<rparr>)))
               else Inr (failWith 401 ''Invalid password'')
           | _ \<Rightarrow> if hashStored adminPassword then Inl (TypeError ''The password argument must be of type string'')
                  else Inr (failWith 401 ''Invalid password'')))"

definition logout :: reply where
  "logout = (respond 200 [(''success'', JBool True)])\<lparr>rp_cookie := ClearCookie\<rparr>"

definition checkAuth :: reply where
  "checkAuth = respond 200 [(''authenticated'', JBool True)]"

text \<open>The middleware: the user is passed on to the next handler, or a reply ends the request.\<close>

datatype authResult = NextUser json | Refuse reply

definition authenticateToken :: "authEnv \<Rightarrow> int \<Rightarrow> string option \<Rightarrow> authWorld \<Rightarrow> authResult res" where
  "authenticateToken A now token w =
     (case token of
        None \<Rightarrow> Inr (Refuse (failWith 401 ''Unauthorized''))
      | Some t \<Rightarrow>
          if t = [] then Inr (Refuse (failWith 401 ''Unauthorized''))
          else case processEnv w ''JWT_SECRET'' of
            None \<Rightarrow> Inr (Refuse (failWith 500 ''Server configuration error''))
          | Some secret \<Rightarrow>
              (case ax_verify A t secret now of
                 None \<Rightarrow> Inr (Refuse (failWith 403 ''Forbidden''))
               | Some user \<Rightarrow>
                   bindR (currentVersion w) (\<lambda>v.
                   if jget user ''tokenVersion'' \<noteq> v
                   then Inr (Refuse (failWith 401 ''Session expired. Please login again.''))
                   else Inr (NextUser user))))"

section \<open>Sessions\<close>

text \<open>
  What is used of jsonwebtoken: a signed token verifies under the same secret for 24 hours with
  the claims it was signed for, and the payload is part of the token.
\<close>

definition jwt_ok :: "authEnv \<Rightarrow> bool" where
  "jwt_ok A \<longleftrightarrow>
     (\<forall>n s t t'. t \<le> t' \<and> t' < t + 86400000 \<longrightarrow>
        ax_sign A (claims (JNum (of_int n))) s t \<noteq> [] \<and>
        (\<exists>u. ax_verify A (ax_sign A (claims (JNum (of_int n))) s t) s t' = Some u \<and>
           jget u ''tokenVersion'' = JNum (of_int n))) \<and>
     (\<forall>tok s s' t t' u u'. ax_verify A tok s t = Some u \<longrightarrow> ax_verify A tok s' t' = Some u' \<longrightarrow> u = u')"

text \<open>The world of a server that runs: a version 5 file and a numeric token version in force.\<close>

definition runningAuth :: "int \<Rightarrow> authWorld \<Rightarrow> bool" where
  "runningAuth q w \<longleftrightarrow>
     is_object (cw_config (aw_cfg w)) \<and> tokenVersion (cw_config (aw_cfg w)) = JNum (of_int q) \<and>
     mergeTarget (cw_default (aw_cfg w)) \<and>
     (\<exists>l. cw_local (aw_cfg w) = Parsed l \<and> mergeTarget l \<and> jget l ''version'' = JNum 5)"

lemma currentVersion_num:
  "tokenVersion (cw_config (aw_cfg w)) = JNum q \<Longrightarrow> currentVersion w = Inr (JNum q)"
proof -
  assume t: "tokenVersion (cw_config (aw_cfg w)) = JNum q"
  then have s: "jget (cw_config (aw_cfg w)) ''security'' \<notin> {JUndef, JNull}" by (auto simp: tokenVersion_def)
  then have "truthy (cw_config (aw_cfg w))" by (cases "cw_config (aw_cfg w)") auto
  with s t show ?thesis by (simp add: currentVersion_def getConfig_def getProp_def tokenVersion_def)
qed

lemma setEnv_fields [simp]:
  "cw_config (aw_cfg (setEnv A k v w)) = cw_config (aw_cfg w)" "cw_local (aw_cfg (setEnv A k v w)) = cw_local (aw_cfg w)"
  "cw_default (aw_cfg (setEnv A k v w)) = cw_default (aw_cfg w)" "cw_isSaving (aw_cfg (setEnv A k v w)) = cw_isSaving (aw_cfg w)"
  by (simp_all add: setEnv_def Let_def)

lemma processEnv_setEnv: "v \<noteq> [] \<Longrightarrow> processEnv (setEnv A k v w) k = Some v"
  by (simp add: processEnv_def envVar_def setEnv_def setEnvValue_def Let_def)

lemma changePassword_ok:
  assumes "changePassword A body w = (w', rep)" "rp_status rep = 200" "runningAuth q w"
    "keepsTokenVersion (ax_schemas A)"
  shows "tokenVersion (cw_config (aw_cfg w')) = JNum (of_int (q + 1))"
proof -
  obtain p where p: "jget body ''password'' = JStr p" "p \<noteq> []"
    using assms(1,2) by (auto simp: changePassword_def failWith_def respond_def split: json.splits if_splits)
  let ?w = "setEnv A ''ADMIN_PASSWORD'' (hashPassword (ce_crypto (cw_env (aw_cfg w))) (ax_salt A) p) w"
  have run: "is_object (cw_config (aw_cfg w))" "tokenVersion (cw_config (aw_cfg w)) = JNum (of_int q)"
    "mergeTarget (cw_default (aw_cfg w))" using assms(3) by (auto simp: runningAuth_def)
  obtain l where l: "cw_local (aw_cfg w) = Parsed l" "mergeTarget l" "jget l ''version'' = JNum 5"
    using assms(3) by (auto simp: runningAuth_def)
  have g: "getConfig (aw_cfg ?w) = Inr (cw_config (aw_cfg w))"
    using run(1) by (cases "cw_config (aw_cfg w)") (simp_all add: getConfig_def)
  have n: "nextVersion (cw_config (aw_cfg w)) = of_int (q + 1)" using run(2) by (simp add: nextVersion_def)
  obtain cfg where u: "update (ax_schemas A) (ax_fault A) (versionUpdate (of_int (q + 1))) (aw_cfg ?w) = (cfg, Inr ())"
    "aw_cfg w' = cfg"
    using assms(1,2) unfolding changePassword_def p Let_def
    by (auto simp: p g n failWith_def respond_def split: prod.splits sum.splits)
  show ?thesis
    using update_tokenVersion [OF u(1) assms(4), of l] l run(3) u(2) by simp
qed


definition toyAuth :: authEnv where
  "toyAuth =
     \<lparr>ax_schemas = acceptAll, ax_fault = None,
      ax_sign = (\<lambda>c s t. case jget c ''tokenVersion'' of JNum q \<Rightarrow> int_str \<lfloor>q\<rfloor> | _ \<Rightarrow> ''x''),
      ax_verify = (\<lambda>tok s t. map_option (\<lambda>n. claims (JNum (of_int n))) (int_val tok)),
      ax_dotenv = (\<lambda>_. Map.empty), ax_salt = ''5a17'', ax_secret = nat_str\<rparr>"

lemma toyAuth_ok: "jwt_ok toyAuth"
  by (auto simp: jwt_ok_def toyAuth_def claims_def int_val_int_str)

definition versionOne :: json where
  "versionOne = JObj [(''version'', JNum 5), (''security'', JObj [(''tokenVersion'', JNum 1)])]"

definition runningWorld :: authWorld where
  "runningWorld =
     \<lparr>aw_cfg = sampleWorld\<lparr>cw_config := versionOne, cw_local := Parsed versionOne\<rparr>, aw_file = None\<rparr>"

lemma runningWorld_ok: "runningAuth 1 runningWorld"
  by (auto simp: runningAuth_def runningWorld_def versionOne_def sampleWorld_def tokenVersion_def mergeTarget_def keyed_def)

definition newPassword :: json where
  "newPassword = JObj [(''password'', JStr ''hunter2'')]"

lemma toy_update:
  assumes "cw_env c = cw_env sampleWorld\<lparr>ce_env := e\<rparr>" "e ''JWT_SECRET'' = ce_env sampleEnv ''JWT_SECRET''"
    "cw_default c = cw_default sampleWorld" "cw_local c = Parsed versionOne" "cw_dotenv c = Map.empty"
    "cw_migrationKeys c = Some []" "\<not> cw_isSaving c"
  shows "snd (update acceptAll None (versionUpdate n) c) = Inr ()"
  using assms
  by (simp add: update_def updateBody_def currentLocal_def saveLocal_def reload_def bindS_def loadDotenv_def
      loadLocal_def mergeLocal_def returnS_def orZero_def orElse_def versionOne_def versionUpdate_def
      passS_def sampleWorld_def processSensitiveFields_def getEncryptionKey_def envVar_def sampleEnv_def
      processSources_def roles_def mapSource_def jupd_def migrateConfig_def getProp_def migrateEnvStep_def
      migrateEnvSecrets_def applyEnvOverrides_def validateConstraints_def cleanSourceData_def
      validateSources_def parseSchema_def acceptAll_def builtinProviders_eq getRegisteredProviders_def
      sensitive_builtin stripSecrets_def stripProviders_def stripSource_def mergeDeep.simps protoKeys_def Let_def)

lemma newPassword_accepted: "rp_status (snd (changePassword toyAuth newPassword runningWorld)) = 200"
proof -
  let ?c = "aw_cfg (setEnv toyAuth ''ADMIN_PASSWORD'' (hashPassword (ce_crypto (cw_env (aw_cfg runningWorld))) ''5a17'' ''hunter2'') runningWorld)"
  have "snd (update acceptAll None (versionUpdate 2) ?c) = Inr ()"
    by (rule toy_update [of _ "(ce_env sampleEnv)(''ADMIN_PASSWORD'' \<mapsto> hashPassword (ce_crypto sampleEnv) ''5a17'' ''hunter2'')"])
       (simp_all add: setEnv_def setEnvValue_def runningWorld_def sampleWorld_def toyAuth_def Let_def)
  then obtain c' where u: "update acceptAll None (versionUpdate 2) ?c = (c', Inr ())" by (metis prod.collapse)
  have g: "getConfig ?c = Inr versionOne"
    by (simp add: getConfig_def) (simp add: runningWorld_def versionOne_def)
  have t: "ax_schemas toyAuth = acceptAll" "ax_fault toyAuth = None" "ax_salt toyAuth = ''5a17''"
    "jget newPassword ''password'' = JStr ''hunter2''" "nextVersion versionOne = 2"
    by (simp_all add: toyAuth_def newPassword_def nextVersion_def versionOne_def tokenVersion_def)
  show ?thesis by (simp add: changePassword_def t g u Let_def respond_def)
qed

lemma oldToken_accepted: "authenticateToken toyAuth 0 (Some ''1'') runningWorld = Inr (NextUser (claims (JNum 1)))"
proof -
  have "int_val ''1'' = Some 1" by code_simp
  moreover have "currentVersion runningWorld = Inr (JNum 1)"
    by (rule currentVersion_num) (simp add: runningWorld_def versionOne_def tokenVersion_def)
  ultimately show ?thesis
    by (simp add: authenticateToken_def processEnv_def envVar_def toyAuth_def claims_def runningWorld_def
        sampleWorld_def sampleEnv_def)
qed


text \<open>
  The change of the password is not atomic: while another save of the configuration is in
  progress the request fails with status 500, yet the new password is already the one in force,
  and no session is ended: every token is treated as before.
\<close>

theorem changePassword_busy:
  assumes p: "jget body ''password'' = JStr p" "p \<noteq> []" and busy: "cw_isSaving (aw_cfg w)"
    and cfg: "truthy (cw_config (aw_cfg w))"
    and ch: "changePassword A body w = (w', rep)"
  shows "rp_status rep = 500 \<and>
    processEnv w' ''ADMIN_PASSWORD'' = Some (hashPassword (ce_crypto (cw_env (aw_cfg w))) (ax_salt A) p) \<and>
    (\<forall>now tok. authenticateToken A now tok w' = authenticateToken A now tok w)"
proof -
  let ?h = "hashPassword (ce_crypto (cw_env (aw_cfg w))) (ax_salt A) p"
  let ?w = "setEnv A ''ADMIN_PASSWORD'' ?h w"
  have h: "?h \<noteq> []" by (simp add: hashPassword_def)
  have "w' = ?w" "rp_status rep = 500"
    using ch p busy cfg
    by (auto simp: changePassword_def Let_def getConfig_def update_def failWith_def respond_def)
  moreover have "processEnv ?w ''JWT_SECRET'' = processEnv w ''JWT_SECRET''"
    by (simp add: processEnv_def envVar_def setEnv_def setEnvValue_def Let_def)
  moreover have "currentVersion ?w = currentVersion w" by (simp add: currentVersion_def getConfig_def)
  ultimately show ?thesis
    using processEnv_setEnv [OF h, of A "''ADMIN_PASSWORD''" w] by (auto simp: authenticateToken_def split: option.splits)
qed

theorem changePassword_busy_witness:
  "rp_status (snd (changePassword toyAuth newPassword (runningWorld\<lparr>aw_cfg := (aw_cfg runningWorld)\<lparr>cw_isSaving := True\<rparr>\<rparr>))) = 500"
proof -
  let ?w = "runningWorld\<lparr>aw_cfg := (aw_cfg runningWorld)\<lparr>cw_isSaving := True\<rparr>\<rparr>"
  obtain w' rep where ch: "changePassword toyAuth newPassword ?w = (w', rep)" by fastforce
  have "jget newPassword ''password'' = JStr ''hunter2''" "truthy (cw_config (aw_cfg ?w))" "cw_isSaving (aw_cfg ?w)"
    by (simp_all add: newPassword_def runningWorld_def versionOne_def)
  from changePassword_busy [OF this(1) _ this(3,2) ch] ch show ?thesis by simp
qed

end
