(* ===== verification/Prayer_Times.thy ===== *)
theory Prayer_Times
  imports Calculations Async_Lock Config_Secrets Migration
begin

text \<open>
  \<open>src/src/services/core/prayerTimeService.js\<close>: prayer times of a day from the memory cache,
  the disk cache or a bulk fetch with failover, iqamah overrides, the dashboard rows, the next
  prayer across midnight and the calendar window. The provider's \<open>getAnnualTimes\<close>, the clock
  and Luxon are parameters (\<open>ptEnv\<close>); the two caches are the state. The operations are given
  as they run inside the lock; \<open>lockKey\<close> connects them to \<open>Async_Lock\<close>. Configurations are
  the ones the schema accepts: \<open>sources.primary\<close> is an object with a \<open>type\<close>.
\<close>

section \<open>State and parameters\<close>

datatype cacheFile = NoCache | BadCache | Cached json

record ptState =
  pt_mem :: json
  pt_disk :: cacheFile

record 'dt ptEnv =
  pe_luxon :: "'dt luxon"
  pe_providers :: providerRegistry
  pe_annual :: "providerMeta \<Rightarrow> json \<Rightarrow> json \<Rightarrow> int \<Rightarrow> json res"
  pe_now :: 'dt
  pe_writeFails :: bool
  pe_unlinkFails :: bool

definition isoKey :: "'dt luxon \<Rightarrow> 'dt \<Rightarrow> string" where
  "isoKey L d = (case lx_toISODate L d of JStr s \<Rightarrow> s | _ \<Rightarrow> ''null'')"

section \<open>Caches\<close>

definition readCache :: "ptState \<Rightarrow> json \<times> ptState" where
  "readCache st =
     (let c = (case pt_disk st of Cached c \<Rightarrow> c | _ \<Rightarrow> JObj []) in (c, st\<lparr>pt_mem := c\<rparr>))"

definition writeCache :: "bool \<Rightarrow> json \<Rightarrow> ptState \<Rightarrow> ptState" where
  "writeCache fails data st =
     (if fails then st else st\<lparr>pt_disk := Cached (json_copy data), pt_mem := data\<rparr>)"

section \<open>Iqamah overrides and rows\<close>

definition overridePrayers :: "string list" where
  "overridePrayers = [''fajr'', ''dhuhr'', ''asr'', ''maghrib'', ''isha'']"

definition strOr :: "json \<Rightarrow> string" where
  "strOr v = (case v of JStr s \<Rightarrow> s | _ \<Rightarrow> [])"

definition overrideOne :: "'dt luxon \<Rightarrow> json \<Rightarrow> json \<Rightarrow> string \<Rightarrow> json \<Rightarrow> json" where
  "overrideOne L prayers config prayer iqamah =
     (let pConfig = jget (jget config ''prayers'') prayer in
      if truthy pConfig \<and> truthy (jget pConfig ''iqamahOverride'') \<and> truthy (jget prayers prayer)
         \<and> truthy (jget config ''location'')
      then (case calculateIqamah L (jget prayers prayer) pConfig (strOr (jget (jget config ''location'') ''timezone'')) of
              Inl _ \<Rightarrow> iqamah | Inr v \<Rightarrow> jput iqamah prayer v)
      else iqamah)"

definition applyOverrides :: "'dt luxon \<Rightarrow> json \<Rightarrow> json \<Rightarrow> json" where
  "applyOverrides L prayers config =
     (if \<not> truthy prayers \<or> \<not> truthy config \<or> \<not> truthy (jget config ''prayers'') then prayers
      else JObj (AList.update ''iqamah''
             (fold (overrideOne L prayers config) overridePrayers (JObj (spread (jget prayers ''iqamah''))))
             (spread prayers)))"

definition rowIqamah :: "'dt luxon \<Rightarrow> json \<Rightarrow> json \<Rightarrow> string \<Rightarrow> string \<Rightarrow> json res" where
  "rowIqamah L rawPrayers config timezone name =
     (if name = ''sunrise'' then Inr JNull
      else if truthy (jget rawPrayers ''iqamah'') \<and> truthy (jget (jget rawPrayers ''iqamah'') name)
      then Inr (jget (jget rawPrayers ''iqamah'') name)
      else bindR (getProp (jget config ''prayers'') name) (\<lambda>settings.
        if truthy settings then calculateIqamah L (jget rawPrayers name) settings timezone
        else Inr JNull))"

fun buildRows :: "'dt luxon \<Rightarrow> json \<Rightarrow> json \<Rightarrow> string \<Rightarrow> string list \<Rightarrow> json \<Rightarrow> json res" where
  "buildRows L rawPrayers config timezone [] rows = Inr rows"
| "buildRows L rawPrayers config timezone (name # names) rows =
     (let startISO = jget rawPrayers name in
      if \<not> truthy startISO then buildRows L rawPrayers config timezone names rows
      else bindR (rowIqamah L rawPrayers config timezone name) (\<lambda>iqamah.
        buildRows L rawPrayers config timezone names
          (jput rows name (JObj [(''start'', startISO), (''iqamah'', iqamah)]))))"

definition buildPrayerRows :: "'dt luxon \<Rightarrow> json \<Rightarrow> json \<Rightarrow> string \<Rightarrow> json res" where
  "buildPrayerRows L rawData config timezone =
     buildRows L (jget rawData ''prayers'') config timezone prayerNames (JObj [])"

section \<open>\<open>getPrayerTimes\<close>\<close>

definition lockKey :: "'dt luxon \<Rightarrow> json \<Rightarrow> 'dt \<Rightarrow> string" where
  "lockKey L config date =
     ''fetch-'' @ strOr (jget (sourceOf config ''primary'') ''type'') @ ''-'' @ int_str (lx_year L date)"

definition dayResult :: "'dt luxon \<Rightarrow> json \<Rightarrow> string \<Rightarrow> json \<Rightarrow> json \<Rightarrow> bool \<Rightarrow> json \<Rightarrow> json" where
  "dayResult L config dateKey source lastFetched cached prayers =
     JObj [(''meta'', JObj [(''date'', JStr dateKey), (''source'', source),
                          (''lastFetched'', lastFetched), (''cached'', JBool cached)]),
           (''prayers'', applyOverrides L prayers config)]"

definition emptyMap :: "json \<Rightarrow> bool" where
  "emptyMap m = (\<not> truthy m \<or> entries m = [])"

definition tryFetch :: "'dt ptEnv \<Rightarrow> json \<Rightarrow> int \<Rightarrow> json \<Rightarrow> json res" where
  "tryFetch P config year sourceConfig =
     (if \<not> truthy sourceConfig \<or> \<not> truthy (jget sourceConfig ''type'') then Inr JNull
      else bindR (getProviderClass (pe_providers P) (jget sourceConfig ''type'')) (\<lambda>cls.
        pe_annual P cls sourceConfig config year))"

text \<open>The fetch with failover: the data and the source used, or the primary's error.\<close>

definition fetchBackup :: "'dt ptEnv \<Rightarrow> json \<Rightarrow> int \<Rightarrow> (json \<times> json) option" where
  "fetchBackup P config year =
     (let backup = sourceOf config ''backup'' in
      if truthy backup \<and> jget backup ''enabled'' \<noteq> JBool False
      then (case tryFetch P config year backup of
              Inr m \<Rightarrow> if emptyMap m then None else Some (m, jget backup ''type'')
            | Inl _ \<Rightarrow> None)
      else None)"

definition fetchWithFailover :: "'dt ptEnv \<Rightarrow> json \<Rightarrow> int \<Rightarrow> (json \<times> json) res" where
  "fetchWithFailover P config year =
     (let primary = sourceOf config ''primary'';
          attempt = bindR (tryFetch P config year primary) (\<lambda>m.
            if emptyMap m
            then Inl (Error (''Primary source ('' @ strOr (jget primary ''type'') @ '') returned empty data.''))
            else Inr (m, jget primary ''type''))
      in case attempt of
           Inr r \<Rightarrow> Inr r
         | Inl e \<Rightarrow>
             if is_ProviderValidationError e then Inl e
             else (case fetchBackup P config year of Some r \<Rightarrow> Inr r | None \<Rightarrow> Inl e))"

definition spreadMerge :: "json \<Rightarrow> json \<Rightarrow> json" where
  "spreadMerge a b = fold (\<lambda>kv x. jput x (fst kv) (snd kv)) (entries b) (JObj (spread a))"

definition cacheHit :: "'dt ptEnv \<Rightarrow> json \<Rightarrow> string \<Rightarrow> json \<Rightarrow> json res" where
  "cacheHit P config dateKey cache =
     (let meta = jget cache ''meta'' in
      bindR (getProp meta ''source'') (\<lambda>source.
      Inr (dayResult (pe_luxon P) config dateKey source (jget meta ''lastFetched'') True
             (jget (jget cache ''data'') dateKey))))"

definition getPrayerTimes :: "'dt ptEnv \<Rightarrow> json \<Rightarrow> 'dt \<Rightarrow> ptState \<Rightarrow> json res \<times> ptState" where
  "getPrayerTimes P config date st =
     (let L = pe_luxon P; dateKey = isoKey L date; year = lx_year L date in
      if truthy (pt_mem st) \<and> truthy (jget (pt_mem st) ''data'')
         \<and> truthy (jget (jget (pt_mem st) ''data'') dateKey)
      then (cacheHit P config dateKey (pt_mem st), st)
      else let (cache, st) = readCache st in
        if truthy (jget cache ''data'') \<and> truthy (jget (jget cache ''data'') dateKey)
        then (cacheHit P config dateKey cache, st)
        else case fetchWithFailover P config year of
          Inl e \<Rightarrow> (Inl e, st)
        | Inr (newDataMap, sourceUsed) \<Rightarrow>
            let lastFetched = lx_toISO L (pe_now P);
                data = spreadMerge (orElse (jget cache ''data'') (JObj [])) newDataMap;
                updatedCache = JObj [(''meta'', JObj [(''lastFetched'', lastFetched), (''source'', sourceUsed)]),
                                     (''data'', data)];
                st = writeCache (pe_writeFails P) updatedCache st;
                resultForDate = jget data dateKey
            in if \<not> truthy resultForDate
               then (Inl (Error (''Data for '' @ dateKey @ '' not found in bulk response.'')), st)
               else (Inr (dayResult L config dateKey sourceUsed lastFetched False resultForDate), st))"

section \<open>Callers\<close>

definition forceRefresh :: "'dt ptEnv \<Rightarrow> json \<Rightarrow> ptState \<Rightarrow> json res \<times> ptState" where
  "forceRefresh P config st =
     getPrayerTimes P config (pe_now P)
       (st\<lparr>pt_mem := JNull, pt_disk := (if pe_unlinkFails P then pt_disk st else NoCache)\<rparr>)"

definition tomorrowFajr :: "json \<Rightarrow> json" where
  "tomorrowFajr data =
     (if truthy data \<and> truthy (jget data ''prayers'') \<and> truthy (jget (jget data ''prayers'') ''fajr'')
      then JObj [(''name'', JStr ''fajr''), (''time'', jget (jget data ''prayers'') ''fajr''),
                 (''isTomorrow'', JBool True)]
      else JNull)"

definition getPrayersWithNext :: "'dt ptEnv \<Rightarrow> json \<Rightarrow> string \<Rightarrow> 'dt \<Rightarrow> ptState \<Rightarrow> json res \<times> ptState" where
  "getPrayersWithNext P config timezone referenceDate st =
     (let L = pe_luxon P; now = lx_setZone L timezone referenceDate in
      case getPrayerTimes P config now st of
        (Inl e, st) \<Rightarrow> (Inl e, st)
      | (Inr rawData, st) \<Rightarrow>
          (case buildPrayerRows L rawData config timezone of
             Inl e \<Rightarrow> (Inl e, st)
           | Inr prayers \<Rightarrow>
               let meta = jget rawData ''meta'';
                   result = (\<lambda>next. JObj [(''meta'', JObj [(''date'', jget meta ''date''), (''location'', JStr timezone),
                       (''source'', jget meta ''source''), (''cached'', jget meta ''cached'')]),
                     (''prayers'', prayers), (''nextPrayer'', next)]);
                   nextPrayer = calculateNextPrayer L prayers now
               in if truthy nextPrayer then (Inr (result nextPrayer), st)
                  else (case lx_plus L ''days'' (JNum 1) now of
                          Inl _ \<Rightarrow> (Inr (result nextPrayer), st)
                        | Inr tomorrow \<Rightarrow>
                            (case getPrayerTimes P config tomorrow st of
                               (Inl _, st) \<Rightarrow> (Inr (result nextPrayer), st)
                             | (Inr d, st) \<Rightarrow> (Inr (result (tomorrowFajr d)), st)))))"

definition shiftDays :: "'dt luxon \<Rightarrow> bool \<Rightarrow> nat \<Rightarrow> 'dt \<Rightarrow> 'dt res" where
  "shiftDays L past n d =
     (if past then lx_minus L ''days'' (JNum (of_nat n)) d else lx_plus L ''days'' (JNum (of_nat n)) d)"

definition getDirectionalWindowStart :: "'dt luxon \<Rightarrow> json \<Rightarrow> bool \<Rightarrow> string \<Rightarrow> 'dt res" where
  "getDirectionalWindowStart L cursorDate past timezone =
     shiftDays L past 1 (lx_startOfDay L (lx_fromISOZone L timezone cursorDate))"

text \<open>The directional loop with its \<open>break\<close>, for the remaining number of days.\<close>

definition calendarDay :: "'dt ptEnv \<Rightarrow> json \<Rightarrow> string \<Rightarrow> 'dt \<Rightarrow> ptState \<Rightarrow> json res \<times> ptState" where
  "calendarDay P config timezone date st =
     (case getPrayerTimes P config date st of
        (Inl e, st) \<Rightarrow> (Inl e, st)
      | (Inr rawData, st) \<Rightarrow> (buildPrayerRows (pe_luxon P) rawData config timezone, st))"

fun directionalLoop ::
  "'dt ptEnv \<Rightarrow> json \<Rightarrow> string \<Rightarrow> bool \<Rightarrow> nat \<Rightarrow> 'dt \<Rightarrow> ptState \<Rightarrow> (string \<times> json) list \<times> ptState" where
  "directionalLoop P config timezone past 0 date st = ([], st)"
| "directionalLoop P config timezone past (Suc n) date st =
     (case calendarDay P config timezone date st of
        (Inl _, st) \<Rightarrow> ([], st)
      | (Inr rows, st) \<Rightarrow>
          let entry = (isoKey (pe_luxon P) date, rows) in
          (case shiftDays (pe_luxon P) past 1 date of
             Inl _ \<Rightarrow> ([entry], st)
           | Inr date \<Rightarrow>
               let (rest, st) = directionalLoop P config timezone past n date st in (entry # rest, st)))"

fun defaultLoop ::
  "'dt ptEnv \<Rightarrow> json \<Rightarrow> string \<Rightarrow> 'dt \<Rightarrow> nat list \<Rightarrow> json \<Rightarrow> ptState \<Rightarrow> json res \<times> ptState" where
  "defaultLoop P config timezone startDate [] calendar st = (Inr calendar, st)"
| "defaultLoop P config timezone startDate (offset # offsets) calendar st =
     (case lx_plus (pe_luxon P) ''days'' (JNum (of_nat offset)) startDate of
        Inl e \<Rightarrow> (Inl e, st)
      | Inr date \<Rightarrow>
          (case calendarDay P config timezone date st of
             (Inl _, st) \<Rightarrow> defaultLoop P config timezone startDate offsets calendar st
           | (Inr rows, st) \<Rightarrow>
               defaultLoop P config timezone startDate offsets
                 (jput calendar (isoKey (pe_luxon P) date) rows) st))"

definition fromEntries :: "(string \<times> json) list \<Rightarrow> json" where
  "fromEntries kvs = fold (\<lambda>kv x. jput x (fst kv) (snd kv)) kvs (JObj [])"

definition getPrayerCalendarWindow ::
  "'dt ptEnv \<Rightarrow> json \<Rightarrow> string \<Rightarrow> json \<Rightarrow> json \<Rightarrow> 'dt \<Rightarrow> ptState \<Rightarrow> json res \<times> ptState" where
  "getPrayerCalendarWindow P config timezone cursorDate direction referenceDate st =
     (let L = pe_luxon P; past = (direction = JStr ''past'') in
      if truthy cursorDate \<and> truthy direction
      then (case getDirectionalWindowStart L cursorDate past timezone of
              Inl e \<Rightarrow> (Inl e, st)
            | Inr date \<Rightarrow>
                let (es, st) = directionalLoop P config timezone past 7 date st in
                (Inr (fromEntries (if past then rev es else es)), st))
      else (case lx_minus L ''days'' (JNum 7) (lx_startOfDay L (lx_setZone L timezone referenceDate)) of
              Inl e \<Rightarrow> (Inl e, st)
            | Inr startDate \<Rightarrow> defaultLoop P config timezone startDate [0..<15] (JObj []) st))"

section \<open>Sources and failover\<close>

definition inCache :: "json \<Rightarrow> string \<Rightarrow> bool" where
  "inCache c k = (truthy c \<and> truthy (jget c ''data'') \<and> truthy (jget (jget c ''data'') k))"

definition diskCache :: "ptState \<Rightarrow> json" where
  "diskCache st = fst (readCache st)"

lemma truthy_jget: "truthy (jget x k) \<Longrightarrow> truthy x"
  by (cases x) auto

lemma inCache_eq: "inCache c k \<longleftrightarrow> truthy (jget (jget c ''data'') k)"
  using truthy_jget unfolding inCache_def by blast

lemma getPrayerTimes_mem:
  "inCache (pt_mem st) (isoKey (pe_luxon P) date) \<Longrightarrow>
   getPrayerTimes P config date st = (cacheHit P config (isoKey (pe_luxon P) date) (pt_mem st), st)"
  unfolding inCache_def getPrayerTimes_def Let_def by simp

lemma getPrayerTimes_disk:
  assumes "\<not> inCache (pt_mem st) (isoKey (pe_luxon P) date)" "inCache (diskCache st) (isoKey (pe_luxon P) date)"
  shows "getPrayerTimes P config date st =
    (cacheHit P config (isoKey (pe_luxon P) date) (diskCache st), st\<lparr>pt_mem := diskCache st\<rparr>)"
  using assms unfolding inCache_def getPrayerTimes_def diskCache_def readCache_def Let_def by auto

definition fetchedData :: "ptState \<Rightarrow> json \<Rightarrow> json" where
  "fetchedData st newDataMap = spreadMerge (orElse (jget (diskCache st) ''data'') (JObj [])) newDataMap"

definition fetchedCache :: "'dt ptEnv \<Rightarrow> ptState \<Rightarrow> json \<Rightarrow> json \<Rightarrow> json" where
  "fetchedCache P st newDataMap sourceUsed =
     JObj [(''meta'', JObj [(''lastFetched'', lx_toISO (pe_luxon P) (pe_now P)), (''source'', sourceUsed)]),
           (''data'', fetchedData st newDataMap)]"

lemma getPrayerTimes_fetch:
  assumes "\<not> inCache (pt_mem st) (isoKey (pe_luxon P) date)" "\<not> inCache (diskCache st) (isoKey (pe_luxon P) date)"
  shows "getPrayerTimes P config date st =
    (let k = isoKey (pe_luxon P) date; st1 = st\<lparr>pt_mem := diskCache st\<rparr> in
     case fetchWithFailover P config (lx_year (pe_luxon P) date) of
       Inl e \<Rightarrow> (Inl e, st1)
     | Inr (m, src) \<Rightarrow>
         let st2 = writeCache (pe_writeFails P) (fetchedCache P st m src) st1; day = jget (fetchedData st m) k in
         if \<not> truthy day then (Inl (Error (''Data for '' @ k @ '' not found in bulk response.'')), st2)
         else (Inr (dayResult (pe_luxon P) config k src (lx_toISO (pe_luxon P) (pe_now P)) False day), st2))"
proof -
  let ?k = "isoKey (pe_luxon P) date"
  have 1: "\<not> (truthy (pt_mem st) \<and> truthy (jget (pt_mem st) ''data'') \<and> truthy (jget (jget (pt_mem st) ''data'') ?k))"
    using assms(1) by (simp add: inCache_def)
  have 2: "\<not> (truthy (jget (diskCache st) ''data'') \<and> truthy (jget (jget (diskCache st) ''data'') ?k))"
    using assms(2) by (simp add: inCache_eq)
  have rc: "readCache st = (diskCache st, st\<lparr>pt_mem := diskCache st\<rparr>)"
    by (simp add: diskCache_def readCache_def Let_def)
  show ?thesis
    unfolding getPrayerTimes_def Let_def if_not_P [OF 1] rc prod.case if_not_P [OF 2] fetchedCache_def fetchedData_def ..
qed

lemma jget_fold_jput:
  "is_object x \<Longrightarrow> distinct (map fst kvs) \<Longrightarrow>
   is_object (fold (\<lambda>kv x. jput x (fst kv) (snd kv)) kvs x) \<and>
   jget (fold (\<lambda>kv x. jput x (fst kv) (snd kv)) kvs x) k =
     (case map_of kvs k of Some v \<Rightarrow> v | None \<Rightarrow> jget x k)"
proof (induction kvs arbitrary: x)
  case (Cons kv kvs)
  have "map_of kvs (fst kv) = None" using Cons.prems(2) by (simp add: map_of_eq_None_iff)
  with Cons show ?case by (auto simp: jget_jput split: option.splits)
qed simp

lemma jget_spreadMerge:
  assumes "is_object a" "is_object m" "wf_json m"
  shows "jget (spreadMerge a m) k = (if \<exists>v. (k, v) \<in> set (entries m) then jget m k else jget a k)"
proof -
  obtain kvs where m: "m = JObj kvs" using assms(2) by (cases m) auto
  obtain as where a: "a = JObj as" using assms(1) by (cases a) auto
  have d: "distinct (map fst kvs)" using assms(3) m by simp
  have "jget (spreadMerge a m) k = (case map_of kvs k of Some v \<Rightarrow> v | None \<Rightarrow> jget a k)"
    unfolding spreadMerge_def m a entries.simps spread.simps using jget_fold_jput [OF _ d] by simp
  also have "\<dots> = (if \<exists>v. (k, v) \<in> set kvs then jget m k else jget a k)"
    using d by (force simp: m split: option.splits dest: map_of_SomeD)
  finally show ?thesis by (simp add: m)
qed


definition failingEnv :: "utc ptEnv" where
  "failingEnv =
     \<lparr>pe_luxon = utc_luxon, pe_providers = builtinProviders,
      pe_annual = (\<lambda>cls src cfg y. Inl (ProviderValidationError ''bad id'' JNull True)),
      pe_now = Some (0, ''local''), pe_writeFails = False, pe_unlinkFails = False\<rparr>"

definition emptyCaches :: ptState where
  "emptyCaches = \<lparr>pt_mem = JNull, pt_disk = NoCache\<rparr>"


section \<open>The cache\<close>

lemma cacheHit_Inr:
  "cacheHit P config k c = Inr d \<longleftrightarrow> jget c ''meta'' \<notin> {JUndef, JNull} \<and>
   d = dayResult (pe_luxon P) config k (jget (jget c ''meta'') ''source'') (jget (jget c ''meta'') ''lastFetched'')
         True (jget (jget c ''data'') k)"
  by (auto simp: cacheHit_def Let_def getProp_def)

lemma dayResult_get:
  "jget (dayResult L config k src lf b day) ''prayers'' = applyOverrides L day config"
  "jget (jget (dayResult L config k src lf b day) ''meta'') ''date'' = JStr k"
  "jget (jget (dayResult L config k src lf b day) ''meta'') ''source'' = src"
  "jget (jget (dayResult L config k src lf b day) ''meta'') ''cached'' = JBool b"
  by (simp_all add: dayResult_def)

lemma getPrayerTimes_again:
  assumes run: "getPrayerTimes P config date st = (Inr d, st')" and ok: "\<not> pe_writeFails P"
    and P': "pe_luxon P' = pe_luxon P"
  shows "\<exists>d'. getPrayerTimes P' config date st' = (Inr d', st') \<and>
           jget d' ''prayers'' = jget d ''prayers'' \<and>
           jget (jget d' ''meta'') ''date'' = jget (jget d ''meta'') ''date'' \<and>
           jget (jget d' ''meta'') ''source'' = jget (jget d ''meta'') ''source'' \<and>
           jget (jget d' ''meta'') ''cached'' = JBool True"
proof -
  let ?L = "pe_luxon P" and ?k = "isoKey (pe_luxon P) date"
  have again: "getPrayerTimes P' config date st' = (cacheHit P' config ?k (pt_mem st'), st')"
    if "inCache (pt_mem st') ?k" using getPrayerTimes_mem [of st' P' date config] that P' by simp
  have eqP: "cacheHit P' config ?k c = cacheHit P config ?k c" for c by (simp add: cacheHit_def P')
  show ?thesis
  proof (cases "inCache (pt_mem st) ?k")
    case True
    then have "cacheHit P config ?k (pt_mem st) = Inr d" "st' = st"
      using run getPrayerTimes_mem [OF True] by auto
    with True again eqP show ?thesis by (auto simp: cacheHit_Inr dayResult_get)
  next
    case nomem: False
    show ?thesis
    proof (cases "inCache (diskCache st) ?k")
      case True
      then have "cacheHit P config ?k (diskCache st) = Inr d" "pt_mem st' = diskCache st"
        using run getPrayerTimes_disk [OF nomem True] by auto
      with True again eqP show ?thesis by (auto simp: cacheHit_Inr dayResult_get)
    next
      case False
      obtain m src where f: "fetchWithFailover P config (lx_year ?L date) = Inr (m, src)"
        "truthy (jget (fetchedData st m) ?k)"
        "d = dayResult ?L config ?k src (lx_toISO ?L (pe_now P)) False (jget (fetchedData st m) ?k)"
        "st' = writeCache False (fetchedCache P st m src) (st\<lparr>pt_mem := diskCache st\<rparr>)"
        using run ok unfolding getPrayerTimes_fetch [OF nomem False] Let_def
        by (auto split: sum.splits if_splits)
      then have mem: "pt_mem st' = fetchedCache P st m src" by (simp add: writeCache_def)
      then have "inCache (pt_mem st') ?k" using f(2) by (simp add: inCache_eq fetchedCache_def)
      moreover have "cacheHit P config ?k (pt_mem st') =
          Inr (dayResult ?L config ?k src (lx_toISO ?L (pe_now P)) True (jget (fetchedData st m) ?k))"
        by (simp add: mem cacheHit_Inr fetchedCache_def)
      ultimately show ?thesis using again eqP f(3) by (simp add: dayResult_get)
    qed
  qed
qed

text \<open>
  A day that was once delivered is served from memory from then on: when the write of the
  cache succeeds, asking again for the same day, whatever the providers would answer now, gives
  the same prayers, date and source, marked as cached, and changes no state. A bulk fetch keeps
  every day of the old cache that the new data does not have.
\<close>

theorem getPrayerTimes_cached:
  assumes run: "getPrayerTimes P config date st = (Inr d, st')" and ok: "\<not> pe_writeFails P"
    and P': "pe_luxon P' = pe_luxon P"
  shows "(\<exists>d'. getPrayerTimes P' config date st' = (Inr d', st') \<and>
           jget d' ''prayers'' = jget d ''prayers'' \<and>
           jget (jget d' ''meta'') ''date'' = jget (jget d ''meta'') ''date'' \<and>
           jget (jget d' ''meta'') ''source'' = jget (jget d ''meta'') ''source'' \<and>
           jget (jget d' ''meta'') ''cached'' = JBool True) \<and>
    (\<forall>m src k. fetchWithFailover P config (lx_year (pe_luxon P) date) = Inr (m, src) \<and>
       is_object m \<and> wf_json m \<and> is_object (jget (diskCache st) ''data'') \<longrightarrow>
       jget (fetchedData st m) k =
         (if \<exists>v. (k, v) \<in> set (entries m) then jget m k else jget (jget (diskCache st) ''data'') k))"
proof (intro conjI allI impI getPrayerTimes_again [OF assms])
  fix m src k
  assume a: "fetchWithFailover P config (lx_year (pe_luxon P) date) = Inr (m, src) \<and>
       is_object m \<and> wf_json m \<and> is_object (jget (diskCache st) ''data'')"
  then have "orElse (jget (diskCache st) ''data'') (JObj []) = jget (diskCache st) ''data''"
    by (simp add: orElse_def is_object_truthy)
  with a show "jget (fetchedData st m) k =
         (if \<exists>v. (k, v) \<in> set (entries m) then jget m k else jget (jget (diskCache st) ''data'') k)"
    by (simp add: fetchedData_def jget_spreadMerge)
qed

definition oneDayEnv :: "utc ptEnv" where
  "oneDayEnv =
     \<lparr>pe_luxon = utc_luxon, pe_providers = builtinProviders,
      pe_annual = (\<lambda>cls src cfg y. Inr (JObj [(''0'', JObj [(''fajr'', JStr ''18000000'')])])),
      pe_now = Some (0, ''local''), pe_writeFails = False, pe_unlinkFails = False\<rparr>"

theorem getPrayerTimes_cached_witness:
  "\<exists>d st' d'. getPrayerTimes oneDayEnv sampleConfig (Some (0, ''local'')) emptyCaches = (Inr d, st') \<and>
     getPrayerTimes failingEnv sampleConfig (Some (0, ''local'')) st' = (Inr d', st') \<and>
     jget d' ''prayers'' = jget d ''prayers''"
proof -
  let ?d = "Some (0, ''local'') :: utc"
  have k: "isoKey (pe_luxon oneDayEnv) ?d = ''0''"
    by code_simp
  have miss: "\<not> inCache (pt_mem emptyCaches) ''0''" "\<not> inCache (diskCache emptyCaches) ''0''"
    by (simp_all add: inCache_def emptyCaches_def diskCache_def readCache_def Let_def)
  let ?m = "JObj [(''0'', JObj [(''fajr'', JStr ''18000000'')])]"
  have f: "fetchWithFailover oneDayEnv sampleConfig (lx_year (pe_luxon oneDayEnv) ?d) = Inr (?m, JStr ''mymasjid'')"
    by (simp add: fetchWithFailover_def tryFetch_def oneDayEnv_def sampleConfig_def getProviderClass_def
        builtinProviders_eq emptyMap_def)
  have data: "truthy (jget (fetchedData emptyCaches ?m) ''0'')"
    by (simp add: fetchedData_def spreadMerge_def diskCache_def readCache_def emptyCaches_def orElse_def Let_def)
  obtain r st' where run: "getPrayerTimes oneDayEnv sampleConfig ?d emptyCaches = (r, st')" by fastforce
  have "\<exists>d. r = Inr d"
    using run data f unfolding getPrayerTimes_fetch [OF miss [folded k]] k Let_def by auto
  then obtain d where d: "r = Inr d" ..
  have "\<not> pe_writeFails oneDayEnv" "pe_luxon failingEnv = pe_luxon oneDayEnv"
    by (simp_all add: oneDayEnv_def failingEnv_def)
  with getPrayerTimes_cached [OF run [unfolded d]] run d show ?thesis by blast
qed

section \<open>The lock key\<close>

text \<open>
  The lock key names the source type and the year, not the day: when a request for a day is
  in flight, a request for a different day of the same year gets the promise of the first one,
  hence the prayer times of the first day, and its own computation is never started.
\<close>

theorem getPrayerTimes_shares_day:
  assumes year: "lx_year L day2 = lx_year L day1" and free: "pending s (lockKey L config day1) = None"
    and run1: "runLock (lockKey L config day1) fetchDay1 s = (p1, s1)"
    and run2: "runLock (lockKey L config day2) fetchDay2 s1 = (p2, s2)"
  shows "p2 = p1 \<and> s2 = s1 \<and> started s2 ! p2 = (lockKey L config day1, fetchDay1)"
proof -
  have k: "lockKey L config day2 = lockKey L config day1" by (simp add: lockKey_def year)
  have "p1 = length (started s)" "pending s1 (lockKey L config day1) = Some p1"
    "started s1 = started s @ [(lockKey L config day1, fetchDay1)]"
    using run1 free by (auto simp: runLock_def Let_def)
  with run2 show ?thesis by (auto simp: k runLock_def)
qed

theorem getPrayerTimes_shares_day_witness:
  "isoKey utc_luxon (Some (0, ''local'')) \<noteq> isoKey utc_luxon (Some (86400000, ''local'')) \<and>
   (\<exists>s1. runLock (lockKey utc_luxon sampleConfig (Some (0, ''local''))) ''day 0'' (newAsyncLock :: (string, nat) asyncLock) = (0, s1) \<and>
      runLock (lockKey utc_luxon sampleConfig (Some (86400000, ''local''))) ''day 1'' s1 = (0, s1))"
proof -
  let ?d = "Some (0, ''local'') :: utc" and ?e = "Some (86400000, ''local'') :: utc"
  have ne: "isoKey utc_luxon ?d \<noteq> isoKey utc_luxon ?e"
    by (simp add: isoKey_def utc_luxon_def int_str_def nat_str.simps)
  have y: "lx_year utc_luxon ?e = lx_year utc_luxon ?d" by (simp add: utc_luxon_def)
  have f: "pending (newAsyncLock :: (string, nat) asyncLock) (lockKey utc_luxon sampleConfig ?d) = None"
    by (simp add: newAsyncLock_def)
  obtain p1 s1 where r1: "runLock (lockKey utc_luxon sampleConfig ?d) ''day 0'' (newAsyncLock :: (string, nat) asyncLock) = (p1, s1)"
    by fastforce
  obtain p2 s2 where r2: "runLock (lockKey utc_luxon sampleConfig ?e) ''day 1'' s1 = (p2, s2)" by fastforce
  have "p1 = 0" using r1 by (auto simp: runLock_def newAsyncLock_def Let_def)
  with getPrayerTimes_shares_day [OF y f r1 r2] r1 r2 ne show ?thesis by auto
qed

section \<open>The calendar window\<close>

text \<open>The days visited by the directional loop.\<close>

fun walk :: "'dt luxon \<Rightarrow> bool \<Rightarrow> nat \<Rightarrow> 'dt \<Rightarrow> 'dt list" where
  "walk L past 0 d = []"
| "walk L past (Suc n) d =
     d # (case shiftDays L past 1 d of Inl _ \<Rightarrow> [] | Inr d' \<Rightarrow> walk L past n d')"

lemma directionalLoop_prefix:
  "\<exists>n. map fst (fst (directionalLoop P config tz past fuel date st)) =
       map (isoKey (pe_luxon P)) (take n (walk (pe_luxon P) past fuel date))"
proof (induction fuel arbitrary: date st)
  case (Suc fuel)
  obtain r st1 where day: "calendarDay P config tz date st = (r, st1)" by fastforce
  show ?case
  proof (cases r)
    case (Inl e)
    then show ?thesis using day by (auto intro!: exI [of _ 0])
  next
    case (Inr rows)
    show ?thesis
    proof (cases "shiftDays (pe_luxon P) past 1 date")
      case (Inl e)
      then show ?thesis using day Inr by (auto intro!: exI [of _ 1])
    next
      case shift: (Inr date')
      from Suc obtain n where "map fst (fst (directionalLoop P config tz past fuel date' st1)) =
          map (isoKey (pe_luxon P)) (take n (walk (pe_luxon P) past fuel date'))" by blast
      then show ?thesis using day Inr shift
        by (intro exI [of _ "Suc n"]) (simp add: case_prod_beta Let_def)
    qed
  qed
qed simp

lemma walk_length: "length (walk L past n d) \<le> n"
  by (induction n arbitrary: d) (auto split: sum.splits)

lemma keys_fromEntries:
  assumes "distinct (map fst kvs)"
  shows "fromEntries kvs = JObj kvs"
proof -
  have "fold (\<lambda>kv x. jput x (fst kv) (snd kv)) kvs (JObj acc) = JObj (acc @ kvs)"
    if "distinct (map fst kvs)" "fst ` set kvs \<inter> fst ` set acc = {}" for acc
    using that
  proof (induction kvs arbitrary: acc)
    case (Cons kv kvs)
    have "AList.update (fst kv) (snd kv) acc = acc @ [kv]"
      using Cons.prems(2) by (induction acc) auto
    with Cons show ?case by simp
  qed simp
  from this [of "[]"] assms show ?thesis by (simp add: fromEntries_def)
qed

text \<open>
  Paging the calendar from a cursor returns at most seven days; they are the days next to
  the cursor in the requested direction, without a gap, up to the first day that cannot be
  delivered; and they are listed in calendar order, also when paging into the past.
\<close>

theorem calendarWindow_contiguous:
  assumes c: "truthy cursorDate" "truthy direction" and past: "past = (direction = JStr ''past'')"
    and start: "getDirectionalWindowStart (pe_luxon P) cursorDate past tz = Inr date"
    and d: "distinct (map (isoKey (pe_luxon P)) (walk (pe_luxon P) past 7 date))"
  shows "\<exists>cal st' n. getPrayerCalendarWindow P config tz cursorDate direction ref st = (Inr cal, st') \<and> n \<le> 7 \<and>
    jkeys cal = (if past then rev else id) (map (isoKey (pe_luxon P)) (take n (walk (pe_luxon P) past 7 date)))"
proof -
  obtain es st' where es: "directionalLoop P config tz past 7 date st = (es, st')" by fastforce
  from directionalLoop_prefix [of P config tz past 7 date st] obtain m where
    "map fst es = map (isoKey (pe_luxon P)) (take m (walk (pe_luxon P) past 7 date))" by (auto simp: es)
  then have keys: "map fst es = map (isoKey (pe_luxon P)) (take (min m 7) (walk (pe_luxon P) past 7 date))"
    using walk_length [of "pe_luxon P" past 7 date] by (cases "m \<le> 7") (simp_all add: min_def)
  then have dist: "distinct (map fst es)" using d by (simp add: take_map [symmetric])
  then have "fromEntries (if past then rev es else es) = JObj (if past then rev es else es)"
    by (intro keys_fromEntries) (simp add: rev_map [symmetric])
  moreover have "getPrayerCalendarWindow P config tz cursorDate direction ref st =
      (Inr (fromEntries (if past then rev es else es)), st')"
    using c start es by (simp add: getPrayerCalendarWindow_def Let_def past)
  moreover have "map fst (if past then rev es else es) = (if past then rev else id) (map fst es)"
    by (simp add: rev_map)
  ultimately show ?thesis
    unfolding keys
    by (intro exI [of _ "JObj (if past then rev es else es)"] exI [of _ st'] exI [of _ "min m 7"]) simp
qed

theorem calendarWindow_contiguous_witness:
  "\<exists>cal st' n. getPrayerCalendarWindow oneDayEnv sampleConfig ''UTC'' (JStr ''0'') (JStr ''future'')
      (Some (0, ''UTC'')) emptyCaches = (Inr cal, st') \<and> n \<le> (7 :: nat)"
proof -
  have start: "getDirectionalWindowStart (pe_luxon oneDayEnv) (JStr ''0'') False ''UTC'' = Inr (Some (86400000, ''UTC''))"
    by (simp add: getDirectionalWindowStart_def shiftDays_def oneDayEnv_def utc_luxon_def utc_plus_def utc_shift_def
        utc_of_json_def int_val_def digit_val_def)
  have "map (isoKey (pe_luxon oneDayEnv)) (walk (pe_luxon oneDayEnv) False 7 (Some (86400000, ''UTC''))) =
      [''1'', ''2'', ''3'', ''4'', ''5'', ''6'', ''7'']"
    by code_simp
  then have "distinct (map (isoKey (pe_luxon oneDayEnv)) (walk (pe_luxon oneDayEnv) False 7 (Some (86400000, ''UTC''))))"
    by simp
  from calendarWindow_contiguous [OF _ _ _ start this, where direction = "JStr ''future''"] show ?thesis
    by fastforce
qed

end
