(* ===== verification/Providers.thy ===== *)
theory Providers
  imports Prayer_Times
begin

text \<open>
  \<open>src/src/providers\<close>: the Aladhan and MyMasjid providers, from the request to the map of days the
  prayer time service stores, with their response schemas, and \<open>validationService.js\<close>, which tries
  the sources of a new configuration. \<open>fetch\<close>, Luxon, the clock and the issue lists of Zod
  are parameters; a request is its address and the values of its query. The rate limiting queues
  only delay calls and are left out. Objects with numeric keys list them in JavaScript's order.
\<close>

section \<open>HTTP\<close>

record httpResponse =
  hr_status :: int
  hr_statusText :: string
  hr_json :: "json res"

record 'dt provEnv =
  pr_luxon :: "'dt luxon"
  pr_now :: 'dt
  pr_fetch :: "string \<Rightarrow> (string \<times> json) list \<Rightarrow> httpResponse res"
  pr_issues :: "json \<Rightarrow> json"

definition hr_ok :: "httpResponse \<Rightarrow> bool" where
  "hr_ok r = (200 \<le> hr_status r \<and> hr_status r \<le> 299)"

definition statusDetails :: "int \<Rightarrow> json" where
  "statusDetails n = JObj [(''statusCode'', JNum (of_int n))]"

section \<open>Constants\<close>

definition CALCULATION_METHODS :: "(int \<times> string) list" where
  "CALCULATION_METHODS =
     [(0, ''Jafari (Shia Ithna Ashari)''), (1, ''University of Islamic Sciences, Karachi''),
      (2, ''Islamic Society of North America (ISNA)''), (3, ''Muslim World League (MWL)''),
      (4, ''Umm al-Qura University, Makkah''), (5, ''Egyptian General Authority of Survey''),
      (7, ''Institute of Geophysics, University of Tehran''), (8, ''Gulf Region''), (9, ''Kuwait''), (10, ''Qatar''),
      (11, ''Majlis Ugama Islam Singapura, Singapore''), (12, ''Union Organization Islamic de France''),
      (13, ''Diyanet '' @ [CHR 0xC4, CHR 0xB0, CHR 0xC5, CHR 0x9F] @ ''leri Ba'' @ [CHR 0xC5, CHR 0x9F] @ ''kanl'' @
           [CHR 0xC4, CHR 0xB1, CHR 0xC4, CHR 0x9F, CHR 0xC4, CHR 0xB1] @ '', Turkey''),
      (14, ''Spiritual Administration of Muslims of Russia''), (15, ''Moonsighting Committee Worldwide (MWC)''),
      (16, ''Dubai (experimental)''), (17, ''Jabatan Kemajuan Islam Malaysia (JAKIM)''), (18, ''Tunisia''),
      (19, ''Algeria''), (20, ''Kementerian Agama Republik Indonesia (Kemenag)''), (21, ''Morocco''),
      (22, ''Comunidade Islamica de Lisboa, Portugal''),
      (23, ''Ministry of Awqaf, Islamic Affairs and Holy Places, Jordan'')]"

definition ASR_JURISTIC_METHODS :: "(int \<times> string) list" where
  "ASR_JURISTIC_METHODS = [(0, ''Standard/Shafi'' @ [CHR 0x27] @ ''i''), (1, ''Hanafi'')]"

definition LATITUDE_ADJUSTMENT_METHODS :: "(int \<times> string) list" where
  "LATITUDE_ADJUSTMENT_METHODS =
     [(0, ''None''), (1, ''Middle of the Night''), (2, ''One Seventh of the Night''), (3, ''Angle Based'')]"

definition MIDNIGHT_MODES :: "(int \<times> string) list" where
  "MIDNIGHT_MODES = [(0, ''Standard (Mid Sunset to Sunrise)''), (1, ''Jafari (Mid Sunset to Fajr)'')]"

definition API_BASE_URL :: string where
  "API_BASE_URL = ''http://api.aladhan.com/v1''"

section \<open>Aladhan: parameters\<close>

text \<open>The argument of \<open>includes\<close> as a string.\<close>

definition needle :: "json \<Rightarrow> string" where
  "needle v =
     (case v of JStr s \<Rightarrow> s | JNull \<Rightarrow> ''null'' | JBool b \<Rightarrow> (if b then ''true'' else ''false'') | _ \<Rightarrow> ''undefined'')"

definition findId :: "(int \<times> string) list \<Rightarrow> int \<Rightarrow> json \<Rightarrow> int" where
  "findId table fallback name =
     (case List.find (\<lambda>e. str_includes (snd e) (needle name)) table of Some e \<Rightarrow> fst e | None \<Rightarrow> fallback)"

definition getCalculationMethodId :: "json \<Rightarrow> int" where
  "getCalculationMethodId methodName = findId CALCULATION_METHODS 2 methodName"

definition getMadhabId :: "json \<Rightarrow> int" where
  "getMadhabId madhabName = findId ASR_JURISTIC_METHODS 0 madhabName"

definition getLatAdjId :: "json \<Rightarrow> int" where
  "getLatAdjId name = (if \<not> truthy name then 0 else findId LATITUDE_ADJUSTMENT_METHODS 0 name)"

definition getMidnightId :: "json \<Rightarrow> int" where
  "getMidnightId name = (if \<not> truthy name then 0 else findId MIDNIGHT_MODES 0 name)"

definition numberOr :: "(json \<Rightarrow> int) \<Rightarrow> json \<Rightarrow> json" where
  "numberOr f v = (case v of JNum q \<Rightarrow> v | _ \<Rightarrow> JNum (of_int (f v)))"

section \<open>Schemas\<close>

fun isStr :: "json \<Rightarrow> bool" where
  "isStr (JStr _) = True"
| "isStr _ = False"

fun isNum :: "json \<Rightarrow> bool" where
  "isNum (JNum _) = True"
| "isNum _ = False"

definition strOrNull :: "json \<Rightarrow> bool" where
  "strOrNull v = (isStr v \<or> v = JNull)"

definition arrayOf :: "(json \<Rightarrow> bool) \<Rightarrow> json \<Rightarrow> bool" where
  "arrayOf p v = (case v of JArr xs \<Rightarrow> list_all p xs | _ \<Rightarrow> False)"

definition AladhanDaySchema :: "json \<Rightarrow> bool" where
  "AladhanDaySchema d =
     (is_object d \<and> is_object (jget d ''timings'') \<and>
      list_all (\<lambda>k. isStr (jget (jget d ''timings'') k))
        [''Fajr'', ''Sunrise'', ''Dhuhr'', ''Asr'', ''Sunset'', ''Maghrib'', ''Isha'', ''Imsak'', ''Midnight''] \<and>
      is_object (jget d ''date'') \<and>
      (let g = jget (jget d ''date'') ''gregorian'' in
       is_object g \<and> isStr (jget g ''date'') \<and> isStr (jget g ''day'') \<and> is_object (jget g ''month'') \<and>
       isNum (jget (jget g ''month'') ''number'') \<and> isStr (jget g ''year'')) \<and>
      is_object (jget d ''meta'') \<and> isStr (jget (jget d ''meta'') ''timezone''))"

definition AladhanAnnualResponseSchema :: "json \<Rightarrow> bool" where
  "AladhanAnnualResponseSchema r =
     (is_object r \<and> isNum (jget r ''code'') \<and> isStr (jget r ''status'') \<and> is_object (jget r ''data'') \<and>
      list_all (\<lambda>kv. arrayOf AladhanDaySchema (snd kv)) (entries (jget r ''data'')))"

definition mmKeys :: "string list" where
  "mmKeys = [''fajr'', ''zuhr'', ''asr'', ''maghrib'', ''isha'', ''shouruq'']"

definition MyMasjidSalahEntrySchema :: "json \<Rightarrow> bool" where
  "MyMasjidSalahEntrySchema e =
     (is_object e \<and> isStr (jget e ''salahName'') \<and> isStr (jget e ''salahTime'') \<and> strOrNull (jget e ''iqamahTime''))"

definition MyMasjidNestedDaySchema :: "json \<Rightarrow> bool" where
  "MyMasjidNestedDaySchema d =
     (is_object d \<and> isNum (jget d ''day'') \<and> isNum (jget d ''month'') \<and>
      list_all (\<lambda>k. arrayOf MyMasjidSalahEntrySchema (jget d k)) mmKeys)"

definition MyMasjidFlatDaySchema :: "json \<Rightarrow> bool" where
  "MyMasjidFlatDaySchema d =
     (is_object d \<and> isNum (jget d ''day'') \<and> isNum (jget d ''month'') \<and>
      list_all (\<lambda>k. isStr (jget d k)) mmKeys \<and>
      list_all (\<lambda>k. strOrNull (jget d k) \<or> jget d k = JUndef)
        [''iqamah_Fajr'', ''iqamah_Zuhr'', ''iqamah_Asr'', ''iqamah_Maghrib'', ''iqamah_Isha''])"

definition MyMasjidBulkResponseSchema :: "json \<Rightarrow> bool" where
  "MyMasjidBulkResponseSchema r =
     (is_object r \<and> is_object (jget r ''model'') \<and>
      (let t = jget (jget r ''model'') ''salahTimings'' in
       arrayOf MyMasjidNestedDaySchema t \<or> arrayOf MyMasjidFlatDaySchema t))"

section \<open>Times of a day\<close>

text \<open>\<open>dateObj.set({ hour, minute, second: 0 }).toISO()\<close> for \<open>HH:MM\<close>; null for an empty value.\<close>

definition timeOfDay :: "'dt luxon \<Rightarrow> 'dt \<Rightarrow> string \<Rightarrow> json res" where
  "timeOfDay L dateObj t =
     (let parts = map (\<lambda>p. unit_of (js_number p)) (split_on (CHR '':'') t) in
      bindR (lx_set L [(''hour'', nth_unit parts 0), (''minute'', nth_unit parts 1), (''second'', Num 0)] dateObj)
        (\<lambda>d. Inr (lx_toISO L d)))"

definition cleanTime :: "'dt luxon \<Rightarrow> 'dt \<Rightarrow> json \<Rightarrow> json res" where
  "cleanTime L dateObj timeStr =
     (if \<not> truthy timeStr then Inr JNull
      else timeOfDay L dateObj (hd (split_on (CHR '' '') (strOr timeStr))))"

text \<open>An object literal whose values may throw, evaluated in order.\<close>

fun objR :: "(string \<times> json res) list \<Rightarrow> jobj res" where
  "objR [] = Inr []"
| "objR ((k, r) # rs) = bindR r (\<lambda>v. bindR (objR rs) (\<lambda>kvs. Inr ((k, v) # kvs)))"

definition part :: "string list \<Rightarrow> nat \<Rightarrow> json" where
  "part ps i = (if i < length ps then JStr (ps ! i) else JUndef)"

section \<open>Aladhan\<close>

definition aladhanDay :: "'dt luxon \<Rightarrow> string \<Rightarrow> json \<Rightarrow> (string \<times> json) res" where
  "aladhanDay L timezone dayInfo =
     (let parts = split_on (CHR ''-'') (strOr (jget (jget (jget dayInfo ''date'') ''gregorian'') ''date''));
          dateObj = lx_fromYMD L (Some timezone) (part parts 2) (part parts 1) (part parts 0);
          time = (\<lambda>k. cleanTime L dateObj (jget (jget dayInfo ''timings'') k)) in
      bindR (objR [(''fajr'', time ''Fajr''), (''sunrise'', time ''Sunrise''), (''dhuhr'', time ''Dhuhr''), (''asr'', time ''Asr''),
                   (''maghrib'', time ''Maghrib''), (''isha'', time ''Isha''), (''iqamah'', Inr (JObj []))])
        (\<lambda>kvs. Inr (isoKey L dateObj, JObj kvs)))"

fun foldDays :: "(json \<Rightarrow> (string \<times> json) option res) \<Rightarrow> json list \<Rightarrow> json \<Rightarrow> json res" where
  "foldDays f [] resultMap = Inr resultMap"
| "foldDays f (d # ds) resultMap =
     bindR (f d) (\<lambda>e. foldDays f ds (case e of None \<Rightarrow> resultMap | Some (k, v) \<Rightarrow> jput resultMap k v))"

definition aladhanNormalize :: "'dt luxon \<Rightarrow> json \<Rightarrow> string \<Rightarrow> json res" where
  "aladhanNormalize L validData timezone =
     foldDays (\<lambda>d. bindR (aladhanDay L timezone d) (\<lambda>e. Inr (Some e)))
       (concat (map (\<lambda>kv. arr_of (snd kv)) (entries (jget validData ''data'')))) (JObj [])"

definition aladhanUrl :: "int \<Rightarrow> string" where
  "aladhanUrl year = API_BASE_URL @ ''/calendar/'' @ int_str year"

definition aladhanQuery :: "json \<Rightarrow> json \<Rightarrow> (string \<times> json) list" where
  "aladhanQuery sourceConfig coordinates =
     [(''latitude'', jget coordinates ''lat''), (''longitude'', jget coordinates ''long''),
      (''method'', numberOr getCalculationMethodId (jget sourceConfig ''method'')),
      (''school'', numberOr getMadhabId (jget sourceConfig ''madhab'')),
      (''latitudeAdjustmentMethod'', numberOr getLatAdjId (jget sourceConfig ''latitudeAdjustmentMethod'')),
      (''midnightMode'', numberOr getMidnightId (jget sourceConfig ''midnightMode''))]"

definition aladhanFetch :: "'dt provEnv \<Rightarrow> json \<Rightarrow> json \<Rightarrow> int \<Rightarrow> json res" where
  "aladhanFetch V sourceConfig globalConfig year =
     (let location = jget globalConfig ''location''; coordinates = jget location ''coordinates'' in
      case pr_fetch V (aladhanUrl year) (aladhanQuery sourceConfig coordinates) of
        Inl e \<Rightarrow> Inl (ProviderConnectionError (''Failed to connect to Aladhan API: '' @ err_message e) 500 ''Aladhan'')
      | Inr response \<Rightarrow>
          if \<not> hr_ok response then
            (let message = ''Aladhan API Error: '' @ hr_statusText response in
             if hr_status response \<ge> 500 then Inl (ProviderConnectionError message (hr_status response) ''Aladhan'')
             else Inl (ProviderValidationError message (statusDetails (hr_status response)) False))
          else bindR (hr_json response) (\<lambda>j.
            if \<not> AladhanAnnualResponseSchema j
            then Inl (ProviderValidationError ''Aladhan Schema Validation Failed'' (JObj [(''issues'', pr_issues V j)]) False)
            else aladhanNormalize (pr_luxon V) j (strOr (jget location ''timezone''))))"

section \<open>MyMasjid\<close>

definition mmTime :: "string \<Rightarrow> json \<Rightarrow> json" where
  "mmTime key dayObj =
     (case jget dayObj key of
        JArr [] \<Rightarrow> JNull
      | JArr (e # _) \<Rightarrow> jget e ''salahTime''
      | JStr s \<Rightarrow> JStr s
      | _ \<Rightarrow> JNull)"

definition mmIqamah :: "string \<Rightarrow> json \<Rightarrow> json" where
  "mmIqamah key dayObj =
     (case jget dayObj key of
        JArr [] \<Rightarrow> JNull
      | JArr (e # _) \<Rightarrow> jget e ''iqamahTime''
      | _ \<Rightarrow> (case jget dayObj (''iqamah_'' @ capitalise key) of JStr s \<Rightarrow> JStr s | _ \<Rightarrow> JNull))"

definition formatTime :: "'dt luxon \<Rightarrow> 'dt \<Rightarrow> json \<Rightarrow> json res" where
  "formatTime L dateBase t = (if \<not> truthy t then Inr JNull else timeOfDay L dateBase (strOr t))"

definition mmDay :: "'dt luxon \<Rightarrow> string \<Rightarrow> int \<Rightarrow> json \<Rightarrow> (string \<times> json) option res" where
  "mmDay L timezone currentYear day =
     (let dateObj = lx_fromYMD L (Some timezone) (JNum (of_int currentYear)) (jget day ''month'') (jget day ''day'');
          time = (\<lambda>k. formatTime L dateObj (mmTime k day)); iqamah = (\<lambda>k. formatTime L dateObj (mmIqamah k day)) in
      if \<not> lx_isValid L dateObj then Inr None
      else bindR (objR [(''fajr'', time ''fajr''), (''sunrise'', time ''shouruq''), (''dhuhr'', time ''zuhr''),
                        (''asr'', time ''asr''), (''maghrib'', time ''maghrib''), (''isha'', time ''isha'')]) (\<lambda>kvs.
           bindR (objR [(''fajr'', iqamah ''fajr''), (''dhuhr'', iqamah ''zuhr''), (''asr'', iqamah ''asr''),
                        (''maghrib'', iqamah ''maghrib''), (''isha'', iqamah ''isha'')]) (\<lambda>iqs.
           Inr (Some (isoKey L dateObj, JObj (kvs @ [(''iqamah'', JObj iqs)]))))))"

definition mmNormalize :: "'dt provEnv \<Rightarrow> json \<Rightarrow> string \<Rightarrow> json res" where
  "mmNormalize V validData timezone =
     (let L = pr_luxon V; currentYear = lx_year L (lx_setZone L timezone (pr_now V)) in
      foldDays (mmDay L timezone currentYear) (arr_of (jget (jget validData ''model'') ''salahTimings'')) (JObj []))"

definition mmUrl :: string where
  "mmUrl = ''https://time.my-masjid.com/api/TimingsInfoScreen/GetMasjidTimings''"

definition mmFetch :: "'dt provEnv \<Rightarrow> json \<Rightarrow> json \<Rightarrow> json res" where
  "mmFetch V sourceConfig globalConfig =
     (let masjidId = jget sourceConfig ''masjidId'' in
      bindR (getProp (jget globalConfig ''location'') ''timezone'') (\<lambda>timezone.
      if \<not> truthy masjidId
      then Inl (ProviderValidationError ''Masjid ID is required'' (JObj [(''masjidId'', JStr ''missing'')]) False)
      else case pr_fetch V mmUrl [(''GuidId'', masjidId)] of
        Inl e \<Rightarrow> Inl (ProviderConnectionError (''Failed to connect to MyMasjid API: '' @ err_message e) 500 ''MyMasjid'')
      | Inr response \<Rightarrow>
          if \<not> hr_ok response then
            (let message = ''MyMasjid API Error: '' @ hr_statusText response; st = hr_status response in
             if st \<ge> 500 then Inl (ProviderConnectionError message st ''MyMasjid'')
             else if st = 400 then Inl (ProviderValidationError ''Invalid Masjid ID: The ID provided is incorrect.'' (statusDetails 400) True)
             else if st = 404 then Inl (ProviderValidationError ''Masjid ID not found.'' (statusDetails 404) True)
             else Inl (ProviderValidationError message (statusDetails st) False))
          else bindR (hr_json response) (\<lambda>j.
            if \<not> MyMasjidBulkResponseSchema j
            then Inl (ProviderValidationError ''MyMasjid Schema Validation Failed'' (JObj [(''issues'', pr_issues V j)]) False)
            else mmNormalize V j (strOr timezone))))"

section \<open>\<open>getAnnualTimes\<close> and health\<close>

text \<open>The method of the class a source type resolves to; the key of the request is computed first.\<close>

definition annualTimes :: "'dt provEnv \<Rightarrow> providerMeta \<Rightarrow> json \<Rightarrow> json \<Rightarrow> int \<Rightarrow> json res" where
  "annualTimes V cls sourceConfig globalConfig year =
     (if pv_id cls = ''aladhan'' then
        bindR (getProp (jget globalConfig ''location'') ''coordinates'') (\<lambda>c.
        bindR (getProp c ''lat'') (\<lambda>_. aladhanFetch V sourceConfig globalConfig year))
      else if pv_id cls = ''mymasjid'' then mmFetch V sourceConfig globalConfig
      else Inl (Error ''Method getAnnualTimes() must be implemented''))"

definition reachable :: "bool \<Rightarrow> string \<Rightarrow> json" where
  "reachable ok msg = JObj [(''healthy'', JBool ok), (''message'', JStr msg)]"

definition providerHealth :: "'dt provEnv \<Rightarrow> providerMeta \<Rightarrow> json res" where
  "providerHealth V cls =
     (if pv_id cls = ''aladhan'' then
        Inr (case pr_fetch V (API_BASE_URL @ ''/methods'') [] of
               Inl e \<Rightarrow> reachable False (err_message e)
             | Inr r \<Rightarrow> if hr_ok r then reachable True ''Reachable''
                       else reachable False (''API returned '' @ int_str (hr_status r)))
      else if pv_id cls = ''mymasjid'' then
        Inr (case pr_fetch V mmUrl [(''GuidId'', JStr ''00000000-0000-0000-0000-000000000000'')] of
               Inl e \<Rightarrow> reachable False (err_message e)
             | Inr r \<Rightarrow> if hr_status r < 500 then reachable True ''Reachable''
                       else reachable False (''API returned '' @ int_str (hr_status r)))
      else Inl (Error ''Method healthCheck() must be implemented''))"

section \<open>\<open>validationService.js\<close>\<close>

definition validationFailed :: "string \<Rightarrow> providerMeta \<Rightarrow> err \<Rightarrow> err" where
  "validationFailed role cls e =
     Error (toUpperCase role @ '' Source ('' @ pv_label cls @ '') Validation Failed: '' @ err_message e)"

definition validateRole ::
  "'dt provEnv \<Rightarrow> (providerMeta \<Rightarrow> json \<Rightarrow> json res) \<Rightarrow> providerRegistry \<Rightarrow> json \<Rightarrow> string \<Rightarrow> unit res" where
  "validateRole V providerSchema reg newConfig role =
     (let source = sourceOf newConfig role in
      if \<not> truthy source \<or> (role = ''backup'' \<and> jget source ''enabled'' = JBool False) then Inr ()
      else bindR (getProviderClass reg (jget source ''type'')) (\<lambda>cls.
        case providerSchema cls source of
          Inl e \<Rightarrow> Inl (validationFailed role cls e)
        | Inr _ \<Rightarrow>
            let coords = jget (jget newConfig ''location'') ''coordinates'' in
            if pv_requiresCoordinates cls \<and>
               (\<not> truthy coords \<or> jget coords ''lat'' = JUndef \<or> jget coords ''long'' = JUndef)
            then Inl (Error (''Coordinates (Latitude/Longitude) are required for '' @ pv_label cls @ '' ('' @ role @ '') source''))
            else (case annualTimes V cls source newConfig (lx_year (pr_luxon V) (pr_now V)) of
                    Inr _ \<Rightarrow> Inr ()
                  | Inl (ProviderValidationError m d u) \<Rightarrow> Inl (ProviderValidationError m d u)
                  | Inl e \<Rightarrow> Inl (Error (toUpperCase role @ '' Source ('' @ pv_label cls @ '') Connection Failed: '' @ err_message e)))))"

definition validateConfigSource ::
  "'dt provEnv \<Rightarrow> (providerMeta \<Rightarrow> json \<Rightarrow> json res) \<Rightarrow> providerRegistry \<Rightarrow> json \<Rightarrow> unit res" where
  "validateConfigSource V providerSchema reg newConfig =
     (if \<not> truthy (jget newConfig ''sources'') \<or> \<not> truthy (sourceOf newConfig ''primary'') then Inr ()
      else bindR (validateRole V providerSchema reg newConfig ''primary'') (\<lambda>_.
           validateRole V providerSchema reg newConfig ''backup''))"

section \<open>The two formats of MyMasjid\<close>

text \<open>A day in the nested format and the same day in the flat format.\<close>

definition sameDay :: "json \<Rightarrow> json \<Rightarrow> bool" where
  "sameDay n f \<longleftrightarrow>
     jget n ''day'' = jget f ''day'' \<and> jget n ''month'' = jget f ''month'' \<and>
     (\<forall>k \<in> set mmKeys. \<exists>e es. jget n k = JArr (e # es) \<and> jget f k = jget e ''salahTime'' \<and>
        (k \<noteq> ''shouruq'' \<longrightarrow> jget f (''iqamah_'' @ capitalise k) = jget e ''iqamahTime''))"

lemma sameDay_fields:
  assumes "sameDay n f" "MyMasjidFlatDaySchema f" "k \<in> set mmKeys"
  shows "mmTime k n = mmTime k f"
    "k \<noteq> ''shouruq'' \<Longrightarrow> MyMasjidNestedDaySchema n \<Longrightarrow> mmIqamah k n = mmIqamah k f"
proof -
  obtain e es where e: "jget n k = JArr (e # es)" "jget f k = jget e ''salahTime''"
    "k \<noteq> ''shouruq'' \<longrightarrow> jget f (''iqamah_'' @ capitalise k) = jget e ''iqamahTime''"
    using assms(1,3) by (auto simp: sameDay_def)
  obtain t where f: "jget f k = JStr t"
    using assms(2,3) by (auto simp: MyMasjidFlatDaySchema_def list_all_iff elim: isStr.elims)
  then have t: "jget e ''salahTime'' = JStr t" using e(2) by simp
  show "mmTime k n = mmTime k f" by (simp add: mmTime_def e(1) f t)
  assume k: "k \<noteq> ''shouruq''" and n: "MyMasjidNestedDaySchema n"
  have "MyMasjidSalahEntrySchema e"
    using n assms(3) e(1) by (auto simp: MyMasjidNestedDaySchema_def arrayOf_def list_all_iff)
  then have "strOrNull (jget e ''iqamahTime'')" by (simp add: MyMasjidSalahEntrySchema_def)
  then show "mmIqamah k n = mmIqamah k f"
    using e(3) k by (auto simp: mmIqamah_def strOrNull_def e(1) f elim: isStr.elims)
qed

lemma mmDay_same:
  assumes "sameDay n f" "MyMasjidNestedDaySchema n" "MyMasjidFlatDaySchema f"
  shows "mmDay L tz y n = mmDay L tz y f"
proof -
  have d: "jget n ''day'' = jget f ''day''" "jget n ''month'' = jget f ''month''" using assms(1) by (auto simp: sameDay_def)
  have t: "mmTime k n = mmTime k f" if "k \<in> set mmKeys" for k using sameDay_fields(1) [OF assms(1,3) that] .
  have i: "mmIqamah k n = mmIqamah k f" if "k \<in> set mmKeys" "k \<noteq> ''shouruq''" for k
    using sameDay_fields(2) [OF assms(1,3) that assms(2)] .
  have "mmTime ''fajr'' n = mmTime ''fajr'' f" "mmTime ''shouruq'' n = mmTime ''shouruq'' f" "mmTime ''zuhr'' n = mmTime ''zuhr'' f"
    "mmTime ''asr'' n = mmTime ''asr'' f" "mmTime ''maghrib'' n = mmTime ''maghrib'' f" "mmTime ''isha'' n = mmTime ''isha'' f"
    by (simp_all add: t mmKeys_def)
  moreover have "mmIqamah ''fajr'' n = mmIqamah ''fajr'' f" "mmIqamah ''zuhr'' n = mmIqamah ''zuhr'' f" "mmIqamah ''asr'' n = mmIqamah ''asr'' f"
    "mmIqamah ''maghrib'' n = mmIqamah ''maghrib'' f" "mmIqamah ''isha'' n = mmIqamah ''isha'' f"
    by (simp_all add: i mmKeys_def)
  ultimately show ?thesis by (simp only: mmDay_def d Let_def)
qed

lemma foldDays_same:
  assumes "list_all2 (\<lambda>a b. f a = g b) xs ys"
  shows "foldDays f xs m = foldDays g ys m"
  using assms
proof (induction xs ys arbitrary: m rule: list_all2_induct)
  case (Cons x xs y ys)
  then show ?case by (cases "g y") simp_all
qed simp

lemma mmFetch_response:
  assumes "pr_fetch V mmUrl [(''GuidId'', jget src ''masjidId'')] = Inr r" "hr_ok r" "hr_json r = Inr j"
    "MyMasjidBulkResponseSchema j" "truthy (jget src ''masjidId'')"
    "getProp (jget cfg ''location'') ''timezone'' = Inr tz"
  shows "mmFetch V src cfg = mmNormalize V j (strOr tz)"
  using assms by (simp add: mmFetch_def)

text \<open>
  C38. The two response formats of MyMasjid give the same prayer times: when the service answers
  in the nested format with one accepted body, and in the flat format with another whose days
  carry the same date, salah times and iqamah times, in the same order, the provider delivers the
  same map of days, or fails in the same way.
\<close>

theorem mmFetch_formats:
  assumes url: "q = [(''GuidId'', jget src ''masjidId'')]" and "id": "truthy (jget src ''masjidId'')"
    and tz: "getProp (jget cfg ''location'') ''timezone'' = Inr tz"
    and n: "pr_fetch V mmUrl q = Inr r" "hr_ok r" "hr_json r = Inr n" "is_object n" "is_object (jget n ''model'')"
      "jget (jget n ''model'') ''salahTimings'' = JArr ns" "list_all MyMasjidNestedDaySchema ns"
    and f: "pr_fetch W mmUrl q = Inr s" "hr_ok s" "hr_json s = Inr f" "is_object f" "is_object (jget f ''model'')"
      "jget (jget f ''model'') ''salahTimings'' = JArr fs" "list_all MyMasjidFlatDaySchema fs"
    and env: "pr_luxon W = pr_luxon V" "pr_now W = pr_now V"
    and same: "list_all2 sameDay ns fs"
  shows "mmFetch V src cfg = mmFetch W src cfg"
proof -
  have schema: "MyMasjidBulkResponseSchema n" "MyMasjidBulkResponseSchema f"
    using n(4-7) f(4-7) by (simp_all add: MyMasjidBulkResponseSchema_def arrayOf_def)
  have days: "list_all2 (\<lambda>a b. mmDay L z y a = mmDay L z y b) ns fs" for L z and y
    using same n(7) f(7)
    by (auto simp: list_all2_conv_all_nth list_all_length intro!: mmDay_same)
  have "mmNormalize V n z = mmNormalize W f z" for z
    using foldDays_same [OF days] by (simp add: mmNormalize_def n(6) f(6) env Let_def)
  then show ?thesis
    using mmFetch_response [OF n(1) [unfolded url] n(2,3) schema(1) "id" tz]
      mmFetch_response [OF f(1) [unfolded url] f(2,3) schema(2) "id" tz] by simp
qed

definition nestedDay :: json where
  "nestedDay =
     JObj ((''day'', JNum 1) # (''month'', JNum 1) #
       map (\<lambda>k. (k, JArr [JObj [(''salahName'', JStr k), (''salahTime'', JStr ''05:30''), (''iqamahTime'', JStr ''06:00'')]])) mmKeys)"

definition flatDay :: json where
  "flatDay =
     JObj ((''day'', JNum 1) # (''month'', JNum 1) # map (\<lambda>k. (k, JStr ''05:30'')) mmKeys @
       map (\<lambda>k. (''iqamah_'' @ capitalise k, JStr ''06:00'')) mmKeys)"

definition bodyOf :: "json \<Rightarrow> httpResponse" where
  "bodyOf day =
     \<lparr>hr_status = 200, hr_statusText = ''OK'',
      hr_json = Inr (JObj [(''model'', JObj [(''salahTimings'', JArr [day])])])\<rparr>"

definition bodyEnv :: "json \<Rightarrow> utc provEnv" where
  "bodyEnv day =
     \<lparr>pr_luxon = utc_luxon, pr_now = Some (0, ''local''),
      pr_fetch = (\<lambda>_ _. Inr (bodyOf day)), pr_issues = (\<lambda>_. JArr [])\<rparr>"

lemma sampleDays:
  "MyMasjidNestedDaySchema nestedDay" "MyMasjidFlatDaySchema flatDay" "sameDay nestedDay flatDay"
  by (simp_all add: MyMasjidNestedDaySchema_def MyMasjidFlatDaySchema_def sameDay_def mmKeys_def arrayOf_def
      MyMasjidSalahEntrySchema_def strOrNull_def nestedDay_def flatDay_def upper_char_def)

theorem mmFetch_formats_witness:
  "mmFetch (bodyEnv nestedDay) (JObj [(''masjidId'', JStr ''m'')]) (JObj [(''location'', JObj [(''timezone'', JStr ''UTC'')])]) =
   mmFetch (bodyEnv flatDay) (JObj [(''masjidId'', JStr ''m'')]) (JObj [(''location'', JObj [(''timezone'', JStr ''UTC'')])])"
  by (rule mmFetch_formats [where r = "bodyOf nestedDay" and s = "bodyOf flatDay" and ns = "[nestedDay]" and fs = "[flatDay]"
        and tz = "JStr ''UTC''" and n = "JObj [(''model'', JObj [(''salahTimings'', JArr [nestedDay])])]"
        and f = "JObj [(''model'', JObj [(''salahTimings'', JArr [flatDay])])]", OF refl])
     (simp_all add: bodyEnv_def bodyOf_def getProp_def hr_ok_def sampleDays)

section \<open>Errors and failover\<close>

lemma aladhan_primary:
  assumes "pe_providers P = builtinProviders" "pe_annual P = annualTimes V"
    "jget (sourceOf config ''primary'') ''type'' = JStr ''aladhan''"
    "getProp (jget config ''location'') ''coordinates'' = Inr c" "getProp c ''lat'' = Inr l"
    "aladhanFetch V (sourceOf config ''primary'') config year = Inl e"
  shows "fetchWithFailover P config year =
    (if is_ProviderValidationError e then Inl e
     else case fetchBackup P config year of Some r \<Rightarrow> Inr r | None \<Rightarrow> Inl e)"
proof -
  have "truthy (sourceOf config ''primary'')"
    using assms(3) by (cases "sourceOf config ''primary''") auto
  then have "tryFetch P config year (sourceOf config ''primary'') = Inl e"
    using assms by (simp add: tryFetch_def getProviderClass_def builtinProviders_eq annualTimes_def aladhanMeta_def)
  then show ?thesis by (simp add: fetchWithFailover_def)
qed

text \<open>
  Which failures of Aladhan lead to the backup source: when the service cannot be reached or
  answers with a status of 500 and above, the backup's data is used, or the connection error is
  reported if there is none. Any other status that is not a success, and a body that does not have
  the expected shape, is a validation error: it is passed on and the backup is not asked.
\<close>

theorem aladhan_failover:
  assumes env: "pe_providers P = builtinProviders" "pe_annual P = annualTimes V"
    and primary: "jget (sourceOf config ''primary'') ''type'' = JStr ''aladhan''"
    and coords: "getProp (jget config ''location'') ''coordinates'' = Inr c" "getProp c ''lat'' = Inr l"
    and fetch: "pr_fetch V (aladhanUrl year) (aladhanQuery (sourceOf config ''primary'') c) = response"
  shows "(\<forall>e. response = Inl e \<longrightarrow>
        fetchWithFailover P config year =
          (case fetchBackup P config year of Some r \<Rightarrow> Inr r
           | None \<Rightarrow> Inl (ProviderConnectionError (''Failed to connect to Aladhan API: '' @ err_message e) 500 ''Aladhan''))) \<and>
    (\<forall>r. response = Inr r \<and> hr_status r \<ge> 500 \<longrightarrow>
        fetchWithFailover P config year =
          (case fetchBackup P config year of Some b \<Rightarrow> Inr b
           | None \<Rightarrow> Inl (ProviderConnectionError (''Aladhan API Error: '' @ hr_statusText r) (hr_status r) ''Aladhan''))) \<and>
    (\<forall>r. response = Inr r \<and> hr_status r < 500 \<and> \<not> hr_ok r \<longrightarrow>
        fetchWithFailover P config year =
          Inl (ProviderValidationError (''Aladhan API Error: '' @ hr_statusText r) (statusDetails (hr_status r)) False)) \<and>
    (\<forall>r j. response = Inr r \<and> hr_ok r \<and> hr_json r = Inr j \<and> \<not> AladhanAnnualResponseSchema j \<longrightarrow>
        fetchWithFailover P config year =
          Inl (ProviderValidationError ''Aladhan Schema Validation Failed'' (JObj [(''issues'', pr_issues V j)]) False))"
proof -
  have c: "jget (jget config ''location'') ''coordinates'' = c" using coords(1) by (auto simp: getProp_def split: if_splits)
  let ?get = "aladhanFetch V (sourceOf config ''primary'') config year"
  note run = aladhan_primary [OF env primary coords]
  have "?get = Inl (ProviderConnectionError (''Failed to connect to Aladhan API: '' @ err_message e) 500 ''Aladhan'')"
    if "response = Inl e" for e using that by (simp add: aladhanFetch_def c fetch)
  moreover have "?get = Inl (ProviderConnectionError (''Aladhan API Error: '' @ hr_statusText r) (hr_status r) ''Aladhan'')"
    if "response = Inr r \<and> hr_status r \<ge> 500" for r using that by (simp add: aladhanFetch_def c fetch hr_ok_def)
  moreover have "?get = Inl (ProviderValidationError (''Aladhan API Error: '' @ hr_statusText r) (statusDetails (hr_status r)) False)"
    if "response = Inr r \<and> hr_status r < 500 \<and> \<not> hr_ok r" for r using that by (simp add: aladhanFetch_def c fetch)
  moreover have "?get = Inl (ProviderValidationError ''Aladhan Schema Validation Failed'' (JObj [(''issues'', pr_issues V j)]) False)"
    if "response = Inr r \<and> hr_ok r \<and> hr_json r = Inr j \<and> \<not> AladhanAnnualResponseSchema j" for r j
    using that by (simp add: aladhanFetch_def c fetch)
  ultimately show ?thesis
    by (intro conjI allI impI) (simp_all add: run split: option.split)
qed

definition downResponse :: "int \<Rightarrow> httpResponse" where
  "downResponse status = \<lparr>hr_status = status, hr_statusText = ''status'', hr_json = Inl (Error ''no body'')\<rparr>"

definition downProv :: "int \<Rightarrow> utc provEnv" where
  "downProv status = bodyEnv flatDay
     \<lparr>pr_fetch := (\<lambda>u q. Inr (if u = mmUrl then bodyOf flatDay else downResponse status))\<rparr>"

definition downEnv :: "int \<Rightarrow> utc ptEnv" where
  "downEnv status =
     \<lparr>pe_luxon = utc_luxon, pe_providers = builtinProviders, pe_annual = annualTimes (downProv status),
      pe_now = Some (0, ''local''), pe_writeFails = False, pe_unlinkFails = False\<rparr>"

definition twoSources :: json where
  "twoSources =
     JObj [(''location'', JObj [(''timezone'', JStr ''UTC''), (''coordinates'', JObj [(''lat'', JNum 1), (''long'', JNum 2)])]),
           (''sources'', JObj [(''primary'', JObj [(''type'', JStr ''aladhan'')]),
                             (''backup'', JObj [(''type'', JStr ''mymasjid''), (''masjidId'', JStr ''m'')])])]"

theorem aladhan_failover_witness:
  "fetchWithFailover (downEnv 404) twoSources 2025 =
     Inl (ProviderValidationError (''Aladhan API Error: '' @ ''status'') (statusDetails 404) False)"
proof -
  have "getProp (jget twoSources ''location'') ''coordinates'' = Inr (JObj [(''lat'', JNum 1), (''long'', JNum 2)])"
    "getProp (JObj [(''lat'', JNum 1), (''long'', JNum 2)]) ''lat'' = Inr (JNum 1)"
    "jget (sourceOf twoSources ''primary'') ''type'' = JStr ''aladhan''"
    by (simp_all add: twoSources_def getProp_def)
  note w = aladhan_failover [OF _ _ this(3,1,2) refl, where P = "downEnv 404" and V = "downProv 404" and year = 2025]
  show ?thesis
    by (rule w [THEN conjunct2, THEN conjunct2, THEN conjunct1, rule_format, where r = "downResponse 404",
          simplified downResponse_def httpResponse.simps])
       (simp_all add: downEnv_def downProv_def downResponse_def hr_ok_def aladhanUrl_def API_BASE_URL_def mmUrl_def)
qed

end
