(* ===== verification/Automation.thy ===== *)
theory Automation
  imports Audio_Source Config_Fields
begin

text \<open>
  \<open>src/src/services/core/automationService.js\<close>: the audio source of a trigger, the check that it
  is available, the active targets with the master lead time, and \<open>triggerEvent\<close>, which launches
  every active target with a delay that aligns them. The launches and the messages
  broadcast to the clients are the result. TTS generation and the existence of files are
  parameters. As the configuration schema has it, \<open>targets\<close> is an array of strings and
  \<open>leadTimeMs\<close> a number.
\<close>

section \<open>Audio source\<close>

definition getAudioSource :: "json \<Rightarrow> string \<Rightarrow> string \<Rightarrow> json" where
  "getAudioSource settings prayer event =
     (let t = jget settings ''type'' in
      if t = JStr ''tts'' then JObj [(''path'', JStr (''cache/tts_'' @ prayer @ ''_'' @ event @ ''.mp3''))]
      else if t = JStr ''file'' then
        (if nonempty_str (jget settings ''path'') then JObj [(''path'', jget settings ''path'')] else JNull)
      else if t = JStr ''url'' then
        (if nonempty_str (jget settings ''url'') then JObj [(''url'', jget settings ''url'')] else JNull)
      else JNull)"

section \<open>Active targets\<close>

text \<open>\<open>new Set([...configuredTargets, "browser"])\<close>, in insertion order.\<close>

definition first_occurrences :: "'a list \<Rightarrow> 'a list" where
  "first_occurrences xs = rev (remdups (rev xs))"

definition strings :: "json \<Rightarrow> string list" where
  "strings v = List.map_filter str_of (arr_of v)"

definition targetSet :: "json \<Rightarrow> string list" where
  "targetSet settings = first_occurrences (strings (jget settings ''targets'') @ [''browser''])"

definition isEnabled :: "json \<Rightarrow> string \<Rightarrow> bool" where
  "isEnabled config targetId =
     (let oc = outputOf config targetId in
      if targetId = ''browser'' then jget oc ''enabled'' \<noteq> JBool False else truthy (jget oc ''enabled''))"

definition leadTime :: "json \<Rightarrow> string \<Rightarrow> rat" where
  "leadTime config targetId = (case jget (outputOf config targetId) ''leadTimeMs'' of JNum t \<Rightarrow> t | _ \<Rightarrow> 0)"

definition maxLead :: "rat list \<Rightarrow> rat" where
  "maxLead ts = fold (\<lambda>t m. if t > m then t else m) ts 0"

definition getActiveTargets :: "json \<Rightarrow> json \<Rightarrow> (string \<times> rat) list \<times> rat" where
  "getActiveTargets config settings =
     (let active = map (\<lambda>t. (t, leadTime config t)) (filter (isEnabled config) (targetSet settings)) in
      (active, maxLead (map snd active)))"

section \<open>Launching\<close>

text \<open>
  What a trigger does: messages to the clients, and for each target the delay before its
  strategy is executed, the timeout that covers delay and execution, and the payload.
\<close>

datatype autoEvent =
    LogMsg string bool
  | Launch string rat rat json

definition executeTarget :: "outputRegistry \<Rightarrow> rat \<Rightarrow> json \<Rightarrow> string \<times> rat \<Rightarrow> autoEvent list" where
  "executeTarget reg masterLeadTime payload target =
     (case getStrategy reg (fst target) of
        Inl _ \<Rightarrow> []
      | Inr m \<Rightarrow>
          let waitDelay = masterLeadTime - snd target;
              timeoutMs = (if om_timeoutMs m = 0 then 5000 else of_nat (om_timeoutMs m))
          in [Launch (fst target) (max 0 waitDelay) (timeoutMs + waitDelay) payload])"

record autoEnv =
  ae_registry :: outputRegistry
  ae_ensureTTS :: "string \<Rightarrow> string \<Rightarrow> json \<Rightarrow> json \<Rightarrow> bool res"
  ae_fileExists :: "string \<Rightarrow> bool"
  ae_cwd :: string
  ae_root :: string

definition validateAndPrepareAudio ::
  "autoEnv \<Rightarrow> json \<Rightarrow> string \<Rightarrow> string \<Rightarrow> json \<Rightarrow> autoEvent list \<times> json option" where
  "validateAndPrepareAudio A settings prayer event config =
     (let source = getAudioSource settings prayer event; t = jget settings ''type'' in
      if t = JStr ''tts'' then
        (case ae_ensureTTS A prayer event settings config of
           Inr True \<Rightarrow> ([], Some source)
         | Inr False \<Rightarrow> ([LogMsg (''Skipped '' @ prayer @ '' '' @ event @ '': TTS Service Offline'') True], None)
         | Inl _ \<Rightarrow> ([], None))
      else if t = JStr ''file'' then
        (case (if truthy source then normalizeSource (ae_root A) (ae_cwd A) source else Inl (Error [])) of
           Inr (FileSource p u) \<Rightarrow>
             if ae_fileExists A p then ([], Some source)
             else ([LogMsg (''Skipped '' @ prayer @ '' '' @ event @ '': Custom file missing'') True], None)
         | _ \<Rightarrow> ([LogMsg (''Skipped '' @ prayer @ '' '' @ event @ '': Custom file missing'') True], None))
      else ([], Some source))"

definition triggerSettings :: "json \<Rightarrow> string \<Rightarrow> string \<Rightarrow> json" where
  "triggerSettings config prayer event =
     jget (jget (jget (jget config ''automation'') ''triggers'') prayer) event"

definition triggerEvent :: "autoEnv \<Rightarrow> json \<Rightarrow> string \<Rightarrow> string \<Rightarrow> autoEvent list" where
  "triggerEvent A config prayer event =
     (let settings = triggerSettings config prayer event in
      if \<not> truthy settings \<or> \<not> truthy (jget settings ''enabled'') then []
      else case validateAndPrepareAudio A settings prayer event config of
        (logs, None) \<Rightarrow> logs
      | (logs, Some source) \<Rightarrow>
          let (active, master) = getActiveTargets config settings;
              payload = JObj [(''prayer'', JStr prayer), (''event'', JStr event), (''source'', source),
                              (''baseUrl'', jget (jget config ''automation'') ''baseUrl'')]
          in logs @ [LogMsg (''Triggering '' @ prayer @ '' '' @ event) False] @
             concat (map (executeTarget (ae_registry A) master payload) active))"

text \<open>The targets launched, in order.\<close>

definition launched :: "autoEvent list \<Rightarrow> string list" where
  "launched es = concat (map (\<lambda>e. case e of Launch t w to p \<Rightarrow> [t] | LogMsg m err \<Rightarrow> []) es)"

section \<open>Properties\<close>

lemma first_occurrences_set [simp]: "set (first_occurrences xs) = set xs"
  by (simp add: first_occurrences_def)

lemma first_occurrences_distinct [simp]: "distinct (first_occurrences xs)"
  by (simp add: first_occurrences_def)

lemma maxLead_fold:
  "m \<le> fold (\<lambda>t m. if t > m then t else m) ts m \<and>
   (\<forall>t \<in> set ts. t \<le> fold (\<lambda>t m. if t > m then t else m) ts (m :: rat)) \<and>
   fold (\<lambda>t m. if t > m then t else m) ts m \<in> insert m (set ts)"
proof (induction ts arbitrary: m)
  case (Cons t ts)
  let ?m = "if t > m then t else m"
  have "m \<le> ?m" "t \<le> ?m" by auto
  with Cons [of ?m] show ?case
    by (auto simp del: if_split)
qed simp

lemma maxLead_ge: "0 \<le> maxLead ts" "t \<in> set ts \<Longrightarrow> t \<le> maxLead ts"
  using maxLead_fold [of 0 ts] by (auto simp: maxLead_def)

lemma maxLead_in: "maxLead ts = 0 \<or> maxLead ts \<in> set ts"
  using maxLead_fold [of 0 ts] by (auto simp: maxLead_def)

lemma getActiveTargets_mem:
  assumes "getActiveTargets config settings = (active, master)" "(t, l) \<in> set active"
  shows "l = leadTime config t \<and> isEnabled config t \<and> t \<in> set (targetSet settings) \<and> l \<le> master"
proof -
  have a: "active = map (\<lambda>t. (t, leadTime config t)) (filter (isEnabled config) (targetSet settings))"
    "master = maxLead (map snd active)"
    using assms(1) by (auto simp: getActiveTargets_def Let_def)
  have "l \<in> set (map snd active)" using assms(2) by force
  then have "l \<le> master" unfolding a(2) by (rule maxLead_ge(2))
  with assms(2) a(1) show ?thesis by auto
qed

lemma executeTarget_Launch:
  "Launch t w to p \<in> set (executeTarget reg master payload target) \<Longrightarrow>
   t = fst target \<and> w = max 0 (master - snd target) \<and> p = payload \<and> (\<exists>m. getStrategy reg t = Inr m)"
  by (cases "getStrategy reg (fst target)") (auto simp: executeTarget_def Let_def)

lemma validate_no_launch:
  "Launch t w to p \<notin> set (fst (validateAndPrepareAudio A settings prayer event config))"
  by (auto simp: validateAndPrepareAudio_def Let_def split: sum.splits bool.splits execSource.splits if_splits)

lemma triggerEvent_Launch:
  assumes "Launch t w to p \<in> set (triggerEvent A config prayer event)"
  obtains active master source where
    "truthy (jget (triggerSettings config prayer event) ''enabled'')"
    "getActiveTargets config (triggerSettings config prayer event) = (active, master)"
    "(t, leadTime config t) \<in> set active" "w = master - leadTime config t"
    "\<exists>m. getStrategy (ae_registry A) t = Inr m"
    "snd (validateAndPrepareAudio A (triggerSettings config prayer event) prayer event config) = Some source"
    "jget p ''source'' = source"
proof -
  let ?s = "triggerSettings config prayer event"
  obtain logs src where v: "validateAndPrepareAudio A ?s prayer event config = (logs, src)" by fastforce
  have nl: "Launch t w to p \<notin> set logs" using validate_no_launch [of t w to p A ?s prayer event config] v by simp
  obtain active master where a: "getActiveTargets config ?s = (active, master)" by fastforce
  have en: "truthy ?s \<and> truthy (jget ?s ''enabled'')"
    using assms unfolding triggerEvent_def Let_def by (rule contrapos_pp) auto
  obtain source where src: "src = Some source"
  proof (cases src)
    case None
    then have "triggerEvent A config prayer event = logs" using en v by (simp add: triggerEvent_def Let_def)
    with assms nl show ?thesis by simp
  qed
  let ?p = "JObj [(''prayer'', JStr prayer), (''event'', JStr event), (''source'', source),
      (''baseUrl'', jget (jget config ''automation'') ''baseUrl'')]"
  have eq: "triggerEvent A config prayer event = logs @ [LogMsg (''Triggering '' @ prayer @ '' '' @ event) False] @
      concat (map (executeTarget (ae_registry A) master ?p) active)"
    unfolding triggerEvent_def Let_def v src a using en by simp
  obtain x where x: "x \<in> set active" "Launch t w to p \<in> set (executeTarget (ae_registry A) master ?p x)"
    using assms nl unfolding eq by (simp del: append.simps) blast
  note l = executeTarget_Launch [OF x(2)]
  have xl: "x = (t, snd x)" using l by simp
  have m: "(t, snd x) \<in> set active" using x(1) xl by simp
  have ll: "snd x = leadTime config t" "snd x \<le> master" using getActiveTargets_mem [OF a m] by simp_all
  have w: "w = master - leadTime config t" "(t, leadTime config t) \<in> set active"
    using conjunct1 [OF conjunct2 [OF l]] m ll by (simp_all only: max_absorb2 diff_ge_0_iff_ge)
  have p: "jget p ''source'' = source" using conjunct1 [OF conjunct2 [OF conjunct2 [OF l]]] by simp
  have g: "\<exists>m. getStrategy (ae_registry A) t = Inr m" using l by blast
  have vs: "snd (validateAndPrepareAudio A ?s prayer event config) = Some source" unfolding v src by simp
  show thesis by (rule that [OF conjunct2 [OF en] a w(2,1) g vs p])
qed

text \<open>
  Every launch of a trigger is for a registered target that is listed by the trigger (or
  is the browser) and is enabled; its delay is the master lead time minus its own lead time,
  never negative, so that with the trigger fired the master lead time ahead all targets hit the
  event at the same instant; and the source it plays is the one whose availability was checked.
\<close>

lemma triggerEvent_Launch_aligned:
  assumes "Launch t w to p \<in> set (triggerEvent A config prayer event)"
  shows "t \<in> insert ''browser'' (set (strings (jget (triggerSettings config prayer event) ''targets''))) \<and>
    isEnabled config t \<and> (\<exists>m. getStrategy (ae_registry A) t = Inr m) \<and>
    truthy (jget (triggerSettings config prayer event) ''enabled'') \<and>
    0 \<le> w \<and> w + leadTime config t = snd (getActiveTargets config (triggerSettings config prayer event)) \<and>
    snd (validateAndPrepareAudio A (triggerSettings config prayer event) prayer event config) = Some (jget p ''source'')"
proof -
  obtain active master source where l: "truthy (jget (triggerSettings config prayer event) ''enabled'')"
    "getActiveTargets config (triggerSettings config prayer event) = (active, master)"
    "(t, leadTime config t) \<in> set active" "w = master - leadTime config t"
    "\<exists>m. getStrategy (ae_registry A) t = Inr m"
    "snd (validateAndPrepareAudio A (triggerSettings config prayer event) prayer event config) = Some source"
    "jget p ''source'' = source"
    using triggerEvent_Launch [OF assms] by blast
  note m = getActiveTargets_mem [OF l(2,3)]
  show ?thesis using l m by (auto simp: targetSet_def)
qed

lemma launched_append [simp]: "launched (xs @ ys) = launched xs @ launched ys"
  by (simp add: launched_def)

lemma launched_simps [simp]:
  "launched [] = []" "launched (LogMsg m err # es) = launched es" "launched (Launch t w to p # es) = t # launched es"
  by (simp_all add: launched_def)

lemma launched_targets:
  "launched (concat (map (executeTarget reg master payload) ts)) =
     map fst (filter (\<lambda>t. \<not> isl (getStrategy reg (fst t))) ts)"
proof (induction ts)
  case (Cons t ts)
  then show ?case
    by (cases "getStrategy reg (fst t)") (simp_all add: executeTarget_def [of reg master payload t] Let_def)
qed simp

lemma launched_validate:
  "launched (fst (validateAndPrepareAudio A settings prayer event config)) = []"
  by (auto simp: validateAndPrepareAudio_def Let_def split: sum.splits bool.splits execSource.splits if_splits)

text \<open>
  A trigger that is enabled and whose audio is available launches exactly the enabled and
  registered targets among the ones it lists and the browser, in their order and each once;
  a trigger that is missing or disabled, or whose audio could not be prepared, launches none.
\<close>

lemma triggerEvent_launched:
  "launched (triggerEvent A config prayer event) =
     (let settings = triggerSettings config prayer event in
      if truthy (jget settings ''enabled'') \<and>
         snd (validateAndPrepareAudio A settings prayer event config) \<noteq> None
      then filter (\<lambda>t. isEnabled config t \<and> \<not> isl (getStrategy (ae_registry A) t)) (targetSet settings)
      else []) \<and>
   distinct (launched (triggerEvent A config prayer event))"
proof -
  let ?s = "triggerSettings config prayer event"
  obtain logs src where v: "validateAndPrepareAudio A ?s prayer event config = (logs, src)" by fastforce
  have nl: "launched logs = []" using launched_validate [of A ?s prayer event config] v by simp
  have tr: "truthy ?s" if "truthy (jget ?s ''enabled'')"
    using that by (cases ?s) simp_all
  have eq: "launched (triggerEvent A config prayer event) =
      (if truthy (jget ?s ''enabled'') \<and> src \<noteq> None
       then filter (\<lambda>t. isEnabled config t \<and> \<not> isl (getStrategy (ae_registry A) t)) (targetSet ?s) else [])"
  proof (cases "truthy (jget ?s ''enabled'')")
    case True
    note en = True tr [OF True]
    show ?thesis
    proof (cases src)
      case None
      then show ?thesis using en v nl by (simp add: triggerEvent_def Let_def)
    next
      case (Some source)
      obtain active master where a: "getActiveTargets config ?s = (active, master)" by fastforce
      have "active = map (\<lambda>t. (t, leadTime config t)) (filter (isEnabled config) (targetSet ?s))"
        using a by (simp add: getActiveTargets_def Let_def)
      then have "map fst (filter (\<lambda>t. \<not> isl (getStrategy (ae_registry A) (fst t))) active) =
          filter (\<lambda>t. isEnabled config t \<and> \<not> isl (getStrategy (ae_registry A) t)) (targetSet ?s)"
        by (simp add: filter_map o_def conj_commute)
      then show ?thesis
        unfolding triggerEvent_def Let_def v Some a using en nl by (simp add: launched_targets)
    qed
  qed (simp add: triggerEvent_def)
  have "distinct (targetSet ?s)" by (simp add: targetSet_def)
  then show ?thesis unfolding Let_def eq v by simp
qed

text \<open>
  C31. A trigger that is enabled and whose audio is available launches exactly the enabled and
  registered targets among the ones it lists and the browser, in their order and each once, and
  otherwise none; the delay of each launch is the master lead time minus its own lead time, never
  negative, so that with the trigger fired the master lead time ahead all targets hit the event at
  the same instant; and the source it plays is the one whose availability was checked.
\<close>

theorem triggerEvent_launches:
  fixes A config prayer event
  defines "settings \<equiv> triggerSettings config prayer event"
  defines "launches \<equiv> triggerEvent A config prayer event"
  shows "launched launches =
      (if truthy (jget settings ''enabled'') \<and> snd (validateAndPrepareAudio A settings prayer event config) \<noteq> None
       then filter (\<lambda>t. isEnabled config t \<and> \<not> isl (getStrategy (ae_registry A) t)) (targetSet settings)
       else []) \<and>
    distinct (launched launches) \<and>
    (\<forall>t w to p. Launch t w to p \<in> set launches \<longrightarrow>
       0 \<le> w \<and> w + leadTime config t = snd (getActiveTargets config settings) \<and>
       snd (validateAndPrepareAudio A settings prayer event config) = Some (jget p ''source''))"
  using triggerEvent_launched [of A config prayer event] triggerEvent_Launch_aligned [of _ _ _ _ A config prayer event]
  unfolding launches_def settings_def Let_def by blast

definition sampleAuto :: autoEnv where
  "sampleAuto =
     \<lparr>ae_registry = builtinOutputs, ae_ensureTTS = (\<lambda>p e s c. Inr True), ae_fileExists = (\<lambda>p. True),
      ae_cwd = ''/'', ae_root = ''/srv/public/audio''\<rparr>"

definition triggerConfig :: json where
  "triggerConfig =
     JObj [(''automation'', JObj [
        (''outputs'', JObj [(''voicemonkey'', JObj [(''enabled'', JBool True), (''leadTimeMs'', JNum 2000)])]),
        (''triggers'', JObj [(''fajr'', JObj [(''adhan'', JObj [(''enabled'', JBool True), (''type'', JStr ''url''),
            (''url'', JStr ''https://x/a.mp3''), (''targets'', JArr [JStr ''voicemonkey''])])])])])]"

lemma triggerConfig_settings:
  "triggerSettings triggerConfig ''fajr'' ''adhan'' =
     JObj [(''enabled'', JBool True), (''type'', JStr ''url''), (''url'', JStr ''https://x/a.mp3''),
           (''targets'', JArr [JStr ''voicemonkey''])]"
  by (simp add: triggerSettings_def triggerConfig_def)

lemma triggerConfig_active:
  "getActiveTargets triggerConfig (triggerSettings triggerConfig ''fajr'' ''adhan'') =
     ([(''voicemonkey'', 2000), (''browser'', 0)], 2000)"
  unfolding triggerConfig_settings by code_simp

lemma triggerConfig_launches:
  "\<exists>to p. Launch ''browser'' 2000 to p \<in> set (triggerEvent sampleAuto triggerConfig ''fajr'' ''adhan'')"
proof -
  have v: "validateAndPrepareAudio sampleAuto (triggerSettings triggerConfig ''fajr'' ''adhan'') ''fajr'' ''adhan'' triggerConfig =
      ([], Some (JObj [(''url'', JStr ''https://x/a.mp3'')]))"
    by (simp add: validateAndPrepareAudio_def getAudioSource_def triggerConfig_settings Let_def)
  have s: "truthy (triggerSettings triggerConfig ''fajr'' ''adhan'')"
    "truthy (jget (triggerSettings triggerConfig ''fajr'' ''adhan'') ''enabled'')"
    by (simp_all add: triggerConfig_settings)
  show ?thesis
    unfolding triggerEvent_def Let_def v triggerConfig_active using s
    by (simp add: executeTarget_def sampleAuto_def getStrategy_def builtinOutputs_eq Let_def)
qed

theorem triggerEvent_launches_witness:
  "\<exists>w to p. Launch ''browser'' w to p \<in> set (triggerEvent sampleAuto triggerConfig ''fajr'' ''adhan'') \<and>
     0 \<le> w \<and> w + leadTime triggerConfig ''browser'' = 2000"
proof -
  obtain to p where l: "Launch ''browser'' 2000 to p \<in> set (triggerEvent sampleAuto triggerConfig ''fajr'' ''adhan'')"
    using triggerConfig_launches by blast
  have "0 \<le> (2000::int) \<and> 2000 + leadTime triggerConfig ''browser'' =
      snd (getActiveTargets triggerConfig (triggerSettings triggerConfig ''fajr'' ''adhan''))"
    using triggerEvent_launches [of sampleAuto triggerConfig "''fajr''" "''adhan''", THEN conjunct2, THEN conjunct2, rule_format, OF l]
    by (simp only: simp_thms)
  with l show ?thesis by (auto simp: triggerConfig_active)
qed

end
