(* ===== verification/Scheduler.thy ===== *)
theory Scheduler
  imports Prayer_Times Automation
begin

text \<open>
  \<open>src/src/services/core/schedulerService.js\<close>: the jobs of the day. The state is the service's
  own list \<open>jobs\<close>, the jobs node-schedule keeps alive, the maintenance callbacks that are
  registered, the prayer time caches and the triggers fired at once. node-schedule is a
  parameter: which requests it accepts (\<open>scheduleJob\<close> returns null for the others). What the
  health check, the asset synchronisation and the reload of the configuration answer are
  parameters too. \<open>initScheduler\<close> is split at its only \<open>await\<close>, because two calls may
  overlap there. Look-ups in objects see own properties only, as in the rest of the library.
\<close>

section \<open>State\<close>

datatype jobSpec = Cron string | At int | AtInvalid

datatype jobAction = Callback string | Trigger string string

record job =
  jb_id :: nat
  jb_name :: string
  jb_category :: string
  jb_spec :: jobSpec
  jb_action :: jobAction

record schedState =
  sd_jobs :: "job list"
  sd_live :: "job list"
  sd_next :: nat
  sd_callbacks :: "string list"
  sd_fired :: "(string \<times> string) list"
  sd_config :: json
  sd_pt :: ptState

record 'dt schedEnv =
  se_pt :: "'dt ptEnv"
  se_accepts :: "jobSpec \<Rightarrow> bool"
  se_reload :: "json \<Rightarrow> json res"
  se_health :: "unit res"
  se_assets :: "unit res"

type_synonym schedStep = "schedState \<Rightarrow> unit res \<times> schedState"

definition thenD :: "schedStep \<Rightarrow> schedStep \<Rightarrow> schedStep" where
  "thenD a b = (\<lambda>s. case a s of (Inl e, s) \<Rightarrow> (Inl e, s) | (Inr _, s) \<Rightarrow> b s)"

definition whenD :: "bool \<Rightarrow> schedStep \<Rightarrow> schedStep" where
  "whenD c a = (if c then a else (\<lambda>s. (Inr (), s)))"

definition withD :: "'a res \<Rightarrow> ('a \<Rightarrow> schedStep) \<Rightarrow> schedStep" where
  "withD r f = (case r of Inl e \<Rightarrow> (\<lambda>s. (Inl e, s)) | Inr x \<Rightarrow> f x)"

section \<open>Jobs\<close>

text \<open>\<open>schedule.scheduleJob\<close> and the bookkeeping after it: nothing happens when it returns null.\<close>

definition addJob :: "'dt schedEnv \<Rightarrow> string \<Rightarrow> string \<Rightarrow> jobSpec \<Rightarrow> jobAction \<Rightarrow> schedState \<Rightarrow> schedState" where
  "addJob X name category spec action s =
     (if se_accepts X spec then
        let j = \<lparr>jb_id = sd_next s, jb_name = name, jb_category = category, jb_spec = spec, jb_action = action\<rparr>
        in s\<lparr>sd_jobs := sd_jobs s @ [j], sd_live := sd_live s @ [j], sd_next := Suc (sd_next s)\<rparr>
      else s)"

definition clearJobs :: "schedState \<Rightarrow> schedState" where
  "clearJobs s =
     s\<lparr>sd_live := filter (\<lambda>j. jb_id j \<notin> jb_id ` set (sd_jobs s)) (sd_live s), sd_jobs := []\<rparr>"

definition getMaxLeadTime :: "json \<Rightarrow> string \<Rightarrow> string \<Rightarrow> rat" where
  "getMaxLeadTime config prayer event =
     (let ts = triggerSettings config prayer event in
      if \<not> truthy ts \<or> \<not> truthy (jget ts ''enabled'') then 0
      else fold (\<lambda>targetId maxLead.
             if isEnabled config targetId then
               (let lead = leadTime config targetId in if lead > maxLead then lead else maxLead)
             else maxLead) (targetSet ts) 0)"

definition eventTypeMap :: "string \<Rightarrow> string option" where
  "eventTypeMap = map_of [(''preAdhan'', ''preAdhanEnabled''), (''adhan'', ''adhanEnabled''),
     (''preIqamah'', ''preIqamahEnabled''), (''iqamah'', ''iqamahEnabled'')]"

definition globallyOff :: "json \<Rightarrow> string \<Rightarrow> bool" where
  "globallyOff config event =
     (let g = jget (jget config ''automation'') ''global'' in
      truthy g \<and>
      (jget g ''enabled'' = JBool False \<or>
       (case eventTypeMap event of Some k \<Rightarrow> jget g k = JBool False | None \<Rightarrow> False)))"

definition specOf :: "'dt luxon \<Rightarrow> 'dt \<Rightarrow> jobSpec" where
  "specOf L d = (if lx_isValid L d then At (lx_valueOf L d) else AtInvalid)"

definition scheduleEvent :: "'dt schedEnv \<Rightarrow> 'dt \<Rightarrow> string \<Rightarrow> string \<Rightarrow> schedStep" where
  "scheduleEvent X date prayer event s =
     (let config = sd_config s; L = pe_luxon (se_pt X) in
      if globallyOff config event then (Inr (), s)
      else withD (lx_minus L ''milliseconds'' (JNum (getMaxLeadTime config prayer event)) date) (\<lambda>adjustedDate s.
        let now = pe_now (se_pt X) in
        if lx_less L adjustedDate now then
          (if lx_valueOf L now - lx_valueOf L adjustedDate \<le> 60 * 1000
           then (Inr (), s\<lparr>sd_fired := sd_fired s @ [(prayer, event)]\<rparr>)
           else (Inr (), s))
        else (Inr (), addJob X (prayer @ '' - '' @ event) ''automation'' (specOf L adjustedDate)
                        (Trigger prayer event) s)) s)"

section \<open>Maintenance\<close>

definition maintenanceJobs :: "(string \<times> string) list" where
  "maintenanceJobs =
     [(''Maintenance: Stale Check'', ''0 3 * * 0''),
      (''Maintenance: Year Boundary'', ''0 4 * * *''),
      (''Maintenance: Health Check'', ''0 0 * * *''),
      (''Maintenance: Audio Assets'', ''30 3 * * *''),
      (''System: Midnight Refresh'', ''0 0 * * *'')]"

definition scheduleMaintenanceJobs :: "'dt schedEnv \<Rightarrow> schedState \<Rightarrow> schedState" where
  "scheduleMaintenanceJobs X s =
     fold (\<lambda>(name, cron). addJob X name ''maintenance'' (Cron cron) (Callback name)) maintenanceJobs
       (s\<lparr>sd_callbacks := map fst maintenanceJobs\<rparr>)"

text \<open>
  \<open>readCache()\<close> is called without \<open>await\<close>: the value used is a promise, which has neither
  \<open>meta\<close> nor \<open>data\<close>; the cache itself is read before the fetch or after it (\<open>late\<close>).
\<close>

definition promise :: json where
  "promise = JObj []"

definition unawaitedRead :: "bool \<Rightarrow> (ptState \<Rightarrow> 'a \<times> ptState) \<Rightarrow> ptState \<Rightarrow> 'a \<times> ptState" where
  "unawaitedRead late f st =
     (if late then (let (r, st) = f st in (r, snd (readCache st))) else f (snd (readCache st)))"

definition staleAction :: "'dt ptEnv \<Rightarrow> (json \<Rightarrow> rat) \<Rightarrow> bool \<Rightarrow> json \<Rightarrow> ptState \<Rightarrow> json res \<times> ptState" where
  "staleAction P daysSince late config =
     unawaitedRead late (\<lambda>st.
       let cache = promise in
       if truthy cache \<and> truthy (jget cache ''meta'') \<and> truthy (jget (jget cache ''meta'') ''lastFetched'') then
         (let days = daysSince (jget (jget cache ''meta'') ''lastFetched'');
              staleDays = orElse (jget (jget config ''data'') ''staleCheckDays'') (JNum 7) in
          if js_gt (JNum days) staleDays then forceRefresh P config st else (Inr JUndef, st))
       else getPrayerTimes P config (pe_now P) st)"

definition boundaryAction ::
  "'dt ptEnv \<Rightarrow> ('dt \<Rightarrow> 'dt \<Rightarrow> rat) \<Rightarrow> bool \<Rightarrow> json \<Rightarrow> ptState \<Rightarrow> json res \<times> ptState" where
  "boundaryAction P daysBetween late config st =
     (let L = pe_luxon P; now = pe_now P; year = lx_year L now;
          endOfYear = lx_fromYMD L None (JNum (of_int year)) (JNum 12) (JNum 31);
          diff = daysBetween now endOfYear in
      if diff \<ge> 0 \<and> diff \<le> 7 then
        let nextJan1 = lx_fromYMD L None (JNum (of_int (year + 1))) (JNum 1) (JNum 1);
            nextKey = isoKey L nextJan1 in
        unawaitedRead late (\<lambda>st.
          let cache = promise in
          if \<not> truthy (jget cache ''data'') \<or> \<not> truthy (jget (jget cache ''data'') nextKey)
          then getPrayerTimes P config nextJan1 st else (Inr JUndef, st)) st
      else (Inr JUndef, st))"

section \<open>\<open>initScheduler\<close>\<close>

definition prayerIqamah :: "'dt luxon \<Rightarrow> json \<Rightarrow> json \<Rightarrow> string \<Rightarrow> 'dt option res" where
  "prayerIqamah L config prayers prayer =
     (let tz = strOr (jget (jget config ''location'') ''timezone'') in
      if prayer = ''sunrise'' then Inr None
      else bindR (getProp (jget config ''prayers'') prayer) (\<lambda>prayerConfig.
        if jget prayerConfig ''iqamahOverride'' \<noteq> JBool True \<and> truthy (jget prayers ''iqamah'')
           \<and> truthy (jget (jget prayers ''iqamah'') prayer)
        then Inr (Some (lx_setZone L tz (lx_fromISO L (jget (jget prayers ''iqamah'') prayer))))
        else if truthy prayerConfig then
          bindR (calculateIqamah L (jget prayers prayer) prayerConfig tz) (\<lambda>v.
            Inr (Some (lx_setZone L tz (lx_fromISO L v))))
        else Inr None))"

definition triggerOn :: "json \<Rightarrow> string \<Rightarrow> bool" where
  "triggerOn triggersForPrayer event = truthy (jget (jget triggersForPrayer event) ''enabled'')"

definition offsetOf :: "json \<Rightarrow> string \<Rightarrow> json" where
  "offsetOf triggersForPrayer event = orElse (jget (jget triggersForPrayer event) ''offsetMinutes'') (JNum 0)"

definition schedulePair :: "'dt schedEnv \<Rightarrow> json \<Rightarrow> string \<Rightarrow> 'dt \<Rightarrow> string \<Rightarrow> string \<Rightarrow> schedStep" where
  "schedulePair X triggersForPrayer prayer date event preEvent =
     thenD (whenD (triggerOn triggersForPrayer event) (scheduleEvent X date prayer event))
           (whenD (triggerOn triggersForPrayer preEvent)
              (withD (lx_minus (pe_luxon (se_pt X)) ''minutes'' (offsetOf triggersForPrayer preEvent) date) (\<lambda>d.
                 scheduleEvent X d prayer preEvent)))"

definition schedulePrayer :: "'dt schedEnv \<Rightarrow> json \<Rightarrow> json \<Rightarrow> json \<Rightarrow> string \<Rightarrow> schedStep" where
  "schedulePrayer X config triggers prayers prayer =
     (let L = pe_luxon (se_pt X); tp = jget triggers prayer; startISO = jget prayers prayer;
          start = lx_setZone L (strOr (jget (jget config ''location'') ''timezone'')) (lx_fromISO L startISO) in
      if \<not> truthy tp \<or> \<not> truthy startISO then (\<lambda>s. (Inr (), s))
      else withD (prayerIqamah L config prayers prayer) (\<lambda>iqamah.
        thenD (schedulePair X tp prayer start ''adhan'' ''preAdhan'')
              (case iqamah of
                 Some d \<Rightarrow> whenD (prayer \<noteq> ''sunrise'') (schedulePair X tp prayer d ''iqamah'' ''preIqamah'')
               | None \<Rightarrow> (\<lambda>s. (Inr (), s)))))"

fun schedulePrayers :: "'dt schedEnv \<Rightarrow> json \<Rightarrow> json \<Rightarrow> json \<Rightarrow> string list \<Rightarrow> schedStep" where
  "schedulePrayers X config triggers prayers [] = (\<lambda>s. (Inr (), s))"
| "schedulePrayers X config triggers prayers (p # ps) =
     thenD (schedulePrayer X config triggers prayers p) (schedulePrayers X config triggers prayers ps)"

text \<open>The part up to the \<open>await\<close>, and the part after it; errors are caught and logged.\<close>

definition initStart :: "'dt schedEnv \<Rightarrow> schedState \<Rightarrow> schedState" where
  "initStart X s = scheduleMaintenanceJobs X (clearJobs s)"

definition initFinish :: "'dt schedEnv \<Rightarrow> json \<Rightarrow> json \<Rightarrow> schedState \<Rightarrow> schedState" where
  "initFinish X config prayerData s =
     (if \<not> truthy prayerData \<or> \<not> truthy (jget prayerData ''prayers'') then s
      else case getProp (jget config ''automation'') ''triggers'' of
        Inl _ \<Rightarrow> s
      | Inr triggers \<Rightarrow>
          if \<not> truthy triggers then s
          else snd (schedulePrayers X config triggers (jget prayerData ''prayers'') prayerNames s))"

definition initScheduler :: "'dt schedEnv \<Rightarrow> schedState \<Rightarrow> schedState" where
  "initScheduler X s =
     (let config = sd_config s; P = se_pt X; s = initStart X s in
      case getProp (jget config ''location'') ''timezone'' of
        Inl _ \<Rightarrow> s
      | Inr tz \<Rightarrow>
          (case getPrayerTimes P config (lx_setZone (pe_luxon P) (strOr tz) (pe_now P)) (sd_pt s) of
             (Inl _, pt) \<Rightarrow> s\<lparr>sd_pt := pt\<rparr>
           | (Inr prayerData, pt) \<Rightarrow> initFinish X config prayerData (s\<lparr>sd_pt := pt\<rparr>)))"

definition hotReload :: "'dt schedEnv \<Rightarrow> schedState \<Rightarrow> schedState" where
  "hotReload X s = initScheduler X s"

definition midnightAction :: "'dt schedEnv \<Rightarrow> schedStep" where
  "midnightAction X s =
     (case se_reload X (sd_config s) of
        Inl e \<Rightarrow> (Inl e, s)
      | Inr config \<Rightarrow> (Inr (), initScheduler X (s\<lparr>sd_config := config\<rparr>)))"

section \<open>Reporting and manual runs\<close>

definition formatJob :: "(job \<Rightarrow> json) \<Rightarrow> job \<Rightarrow> json" where
  "formatJob nextISO j =
     JObj [(''name'', JStr (if jb_name j = [] then ''Unknown Job'' else jb_name j)),
           (''nextInvocation'', nextISO j),
           (''category'', JStr (if jb_category j = [] then ''unknown'' else jb_category j))]"

definition getJobs :: "(job \<Rightarrow> json) \<Rightarrow> schedState \<Rightarrow> json" where
  "getJobs nextISO s =
     JObj [(''maintenance'', JArr (map (formatJob nextISO) (filter (\<lambda>j. jb_category j = ''maintenance'') (sd_jobs s)))),
           (''automation'', JArr (map (formatJob nextISO) (filter (\<lambda>j. jb_category j = ''automation'') (sd_jobs s))))]"

definition onCaches :: "(json \<Rightarrow> ptState \<Rightarrow> json res \<times> ptState) \<Rightarrow> schedStep" where
  "onCaches f s =
     (let (r, pt) = f (sd_config s) (sd_pt s) in
      (case r of Inl e \<Rightarrow> Inl e | Inr _ \<Rightarrow> Inr (), s\<lparr>sd_pt := pt\<rparr>))"

text \<open>\<open>maintenanceCallbacks\<close>, with the differences of dates Luxon computes.\<close>

definition callback ::
  "'dt schedEnv \<Rightarrow> (json \<Rightarrow> rat) \<Rightarrow> ('dt \<Rightarrow> 'dt \<Rightarrow> rat) \<Rightarrow> bool \<Rightarrow> string \<Rightarrow> schedStep" where
  "callback X daysSince daysBetween late name =
     (if name = ''Maintenance: Stale Check'' then onCaches (staleAction (se_pt X) daysSince late)
      else if name = ''Maintenance: Year Boundary'' then onCaches (boundaryAction (se_pt X) daysBetween late)
      else if name = ''Maintenance: Health Check'' then (\<lambda>s. (se_health X, s))
      else if name = ''Maintenance: Audio Assets'' then (\<lambda>s. (se_assets X, s))
      else midnightAction X)"

definition runJob ::
  "'dt schedEnv \<Rightarrow> (json \<Rightarrow> rat) \<Rightarrow> ('dt \<Rightarrow> 'dt \<Rightarrow> rat) \<Rightarrow> bool \<Rightarrow> string \<Rightarrow> schedState \<Rightarrow> json \<times> schedState" where
  "runJob X daysSince daysBetween late jobName s =
     (let answer = (\<lambda>ok msg. JObj [(''success'', JBool ok), (''message'', JStr msg)]);
          quoted = ''Job '' @ [CHR 0x22] @ jobName @ [CHR 0x22] in
      if jobName \<notin> set (sd_callbacks s) then (answer False (quoted @ '' not found.''), s)
      else case callback X daysSince daysBetween late jobName s of
        (Inr _, s) \<Rightarrow> (answer True (quoted @ '' executed successfully.''), s)
      | (Inl e, s) \<Rightarrow>
          (answer False (if err_message e = [] then ''Job execution failed.'' else err_message e), s))"

section \<open>Alignment of jobs and launches\<close>

lemma getMaxLeadTime_master:
  "getMaxLeadTime config prayer event =
     (if truthy (jget (triggerSettings config prayer event) ''enabled'')
      then snd (getActiveTargets config (triggerSettings config prayer event)) else 0)"
proof -
  let ?s = "triggerSettings config prayer event"
  have f: "fold (\<lambda>targetId maxLead. if isEnabled config targetId then
             (let lead = leadTime config targetId in if lead > maxLead then lead else maxLead)
           else maxLead) ts m =
      fold (\<lambda>t m. if t > m then t else m) (map (leadTime config) (filter (isEnabled config) ts)) m" for ts m
    by (induction ts arbitrary: m) (simp_all add: Let_def)
  show ?thesis
  proof (cases "truthy (jget ?s ''enabled'')")
    case True
    then have "truthy ?s" by (rule truthy_jget)
    with True f show ?thesis
      by (simp add: getMaxLeadTime_def getActiveTargets_def maxLead_def Let_def o_def)
  qed (simp add: getMaxLeadTime_def)
qed

lemma withD_simps [simp]: "withD (Inl e) f s = (Inl e, s)" "withD (Inr x) f = f x"
  by (simp_all add: withD_def)

text \<open>
  C4. With an automation event of instant \<open>d\<close>, and \<open>M\<close> the largest lead time of its targets:
  nothing happens when a global switch is off; at most 60 seconds late (counted from \<open>d - M\<close>) the
  trigger fires at once, exactly once; later than that it is skipped; and in time a job is requested
  for the instant \<open>d - M\<close>. From there every target the trigger then launches waits so that the wait
  and its lead time end at \<open>d\<close>: all outputs hit the event together.
\<close>

theorem scheduleEvent_hits:
  assumes ok: "luxon_ok (pe_luxon (se_pt X)) off z" and v: "lx_isValid (pe_luxon (se_pt X)) date"
    "lx_isValid (pe_luxon (se_pt X)) (pe_now (se_pt X))"
    and M: "getMaxLeadTime (sd_config s) prayer event = of_int M"
    and T: "T = lx_valueOf (pe_luxon (se_pt X)) date - M"
    and now: "now = lx_valueOf (pe_luxon (se_pt X)) (pe_now (se_pt X))"
  shows "scheduleEvent X date prayer event s =
      (Inr (), if globallyOff (sd_config s) event then s
               else if now \<le> T then addJob X (prayer @ '' - '' @ event) ''automation'' (At T) (Trigger prayer event) s
               else if now \<le> T + 60000 then s\<lparr>sd_fired := sd_fired s @ [(prayer, event)]\<rparr>
               else s) \<and>
    (\<forall>A t w to p. Launch t w to p \<in> set (triggerEvent A (sd_config s) prayer event) \<longrightarrow>
       0 \<le> w \<and> of_int T + w + leadTime (sd_config s) t = of_int (lx_valueOf (pe_luxon (se_pt X)) date))"
proof
  obtain d where d: "lx_minus (pe_luxon (se_pt X)) ''milliseconds'' (JNum (of_int M)) date = Inr d"
    "lx_isValid (pe_luxon (se_pt X)) d" "lx_valueOf (pe_luxon (se_pt X)) d = T"
    using luxon_minus_millis [OF ok v(1), of M] T by auto
  show "scheduleEvent X date prayer event s =
      (Inr (), if globallyOff (sd_config s) event then s
               else if now \<le> T then addJob X (prayer @ '' - '' @ event) ''automation'' (At T) (Trigger prayer event) s
               else if now \<le> T + 60000 then s\<lparr>sd_fired := sd_fired s @ [(prayer, event)]\<rparr>
               else s)"
    using d v(2) now unfolding scheduleEvent_def Let_def M by (auto simp: lx_less_def specOf_def)
  show "\<forall>A t w to p. Launch t w to p \<in> set (triggerEvent A (sd_config s) prayer event) \<longrightarrow>
       0 \<le> w \<and> of_int T + w + leadTime (sd_config s) t = of_int (lx_valueOf (pe_luxon (se_pt X)) date)"
  proof (intro allI impI)
    fix A t w to p
    assume l: "Launch t w to p \<in> set (triggerEvent A (sd_config s) prayer event)"
    obtain active master source where a: "truthy (jget (triggerSettings (sd_config s) prayer event) ''enabled'')"
      "getActiveTargets (sd_config s) (triggerSettings (sd_config s) prayer event) = (active, master)"
      "(t, leadTime (sd_config s) t) \<in> set active" "w = master - leadTime (sd_config s) t"
      using triggerEvent_Launch [OF l] by blast
    have "of_int M = master" using M a(1,2) by (simp add: getMaxLeadTime_master)
    then show "0 \<le> w \<and> of_int T + w + leadTime (sd_config s) t = of_int (lx_valueOf (pe_luxon (se_pt X)) date)"
      using a(4) T getActiveTargets_mem [OF a(2,3)] by auto
  qed
qed

definition sampleSched :: "utc schedEnv" where
  "sampleSched =
     \<lparr>se_pt = failingEnv, se_accepts = (\<lambda>_. True), se_reload = Inr, se_health = Inr (), se_assets = Inr ()\<rparr>"

definition freshSched :: "json \<Rightarrow> schedState" where
  "freshSched config =
     \<lparr>sd_jobs = [], sd_live = [], sd_next = 0, sd_callbacks = [], sd_fired = [], sd_config = config,
      sd_pt = emptyCaches\<rparr>"

theorem scheduleEvent_hits_witness:
  "sd_live (snd (scheduleEvent sampleSched (Some (5000, ''local'')) ''fajr'' ''adhan'' (freshSched triggerConfig))) =
     [\<lparr>jb_id = 0, jb_name = ''fajr - adhan'', jb_category = ''automation'', jb_spec = At 3000,
       jb_action = Trigger ''fajr'' ''adhan''\<rparr>]"
proof -
  have v: "lx_isValid (pe_luxon (se_pt sampleSched)) (Some (5000, ''local''))"
    "lx_isValid (pe_luxon (se_pt sampleSched)) (pe_now (se_pt sampleSched))"
    "lx_valueOf (pe_luxon (se_pt sampleSched)) (Some (5000, ''local'')) = 5000"
    "lx_valueOf (pe_luxon (se_pt sampleSched)) (pe_now (se_pt sampleSched)) = 0"
    by (simp_all add: sampleSched_def failingEnv_def utc_luxon_def)
  have ok: "luxon_ok (pe_luxon (se_pt sampleSched)) (\<lambda>_. 0) []"
    by (simp add: sampleSched_def failingEnv_def utc_luxon_ok)
  have M: "getMaxLeadTime (sd_config (freshSched triggerConfig)) ''fajr'' ''adhan'' = of_int 2000"
    unfolding getMaxLeadTime_master
    by (simp add: freshSched_def triggerConfig_active) (simp add: triggerConfig_settings)
  have g: "\<not> globallyOff (sd_config (freshSched triggerConfig)) ''adhan''"
    by (simp add: globallyOff_def freshSched_def triggerConfig_def)
  show ?thesis
    using scheduleEvent_hits [OF ok v(1,2) M refl refl] g
    by (simp add: v) (simp add: addJob_def freshSched_def sampleSched_def Let_def)
qed

section \<open>What a scheduling step adds\<close>

text \<open>
  Every step of the second half of \<open>initScheduler\<close> only adds automation jobs, each tracked and
  alive with a fresh identity, and what it adds depends on the configuration alone.
\<close>

definition jobKey :: "job \<Rightarrow> string \<times> jobSpec" where
  "jobKey j = (jb_name j, jb_spec j)"

definition addsJobs :: "string \<Rightarrow> job list \<Rightarrow> schedState \<Rightarrow> schedState \<Rightarrow> bool" where
  "addsJobs cat js s s' =
     (sd_jobs s' = sd_jobs s @ js \<and> sd_live s' = sd_live s @ js \<and> sd_config s' = sd_config s \<and>
      sd_callbacks s' = sd_callbacks s \<and>
      map jb_id js = [sd_next s..<sd_next s'] \<and> sd_next s \<le> sd_next s' \<and>
      (\<forall>j \<in> set js. jb_category j = cat))"

definition uniform :: "schedStep \<Rightarrow> bool" where
  "uniform a \<longleftrightarrow> (\<exists>f g. \<forall>s. fst (a s) = g (sd_config s) \<and>
     (\<exists>js. addsJobs ''automation'' js s (snd (a s)) \<and> map jobKey js = f (sd_config s)))"

lemma addsJobs_refl: "addsJobs cat [] s s"
  by (simp add: addsJobs_def)

lemma addsJobs_trans:
  assumes "addsJobs cat js s s'" "addsJobs cat ks s' s''"
  shows "addsJobs cat (js @ ks) s s''"
proof -
  have "[sd_next s..<sd_next s''] = [sd_next s..<sd_next s'] @ [sd_next s'..<sd_next s'']"
    using assms unfolding addsJobs_def by (metis le_Suc_ex upt_add_eq_append)
  with assms show ?thesis by (auto simp: addsJobs_def)
qed

lemma addsJobs_addJob:
  "\<exists>js. addsJobs cat js s (addJob X n cat sp a s) \<and>
     map jobKey js = (if se_accepts X sp then [(n, sp)] else [])"
proof (cases "se_accepts X sp")
  case True
  let ?j = "\<lparr>jb_id = sd_next s, jb_name = n, jb_category = cat, jb_spec = sp, jb_action = a\<rparr>"
  have "addsJobs cat [?j] s (addJob X n cat sp a s)"
    using True by (simp add: addsJobs_def addJob_def Let_def)
  with True show ?thesis by (auto simp: jobKey_def)
qed (simp add: addJob_def addsJobs_refl)

lemma uniform_skip: "uniform (\<lambda>s. (r, s))"
  unfolding uniform_def
  by (rule exI [of _ "\<lambda>_. []"], rule exI [of _ "\<lambda>_. r"]) (auto intro!: exI [of _ "[]"] addsJobs_refl)

lemma uniform_cond:
  assumes "\<And>c. uniform (f c)"
  shows "uniform (\<lambda>s. f (sd_config s) s)"
proof -
  have "\<forall>c. \<exists>h g. \<forall>s. fst (f c s) = g (sd_config s) \<and>
      (\<exists>js. addsJobs ''automation'' js s (snd (f c s)) \<and> map jobKey js = h (sd_config s))"
    using assms unfolding uniform_def by blast
  then obtain h g where "\<forall>c s. fst (f c s) = g c (sd_config s) \<and>
      (\<exists>js. addsJobs ''automation'' js s (snd (f c s)) \<and> map jobKey js = h c (sd_config s))"
    by metis
  then show ?thesis
    unfolding uniform_def by (intro exI [of _ "\<lambda>c. h c c"] exI [of _ "\<lambda>c. g c c"]) blast
qed

lemma uniform_thenD:
  assumes "uniform a" "uniform b"
  shows "uniform (thenD a b)"
proof -
  obtain fa ga where a: "\<And>s. fst (a s) = ga (sd_config s)"
    "\<And>s. \<exists>js. addsJobs ''automation'' js s (snd (a s)) \<and> map jobKey js = fa (sd_config s)"
    using assms(1) unfolding uniform_def by blast
  obtain fb gb where b: "\<And>s. fst (b s) = gb (sd_config s)"
    "\<And>s. \<exists>js. addsJobs ''automation'' js s (snd (b s)) \<and> map jobKey js = fb (sd_config s)"
    using assms(2) unfolding uniform_def by blast
  let ?g = "\<lambda>c. case ga c of Inl e \<Rightarrow> Inl e | Inr _ \<Rightarrow> gb c"
  let ?f = "\<lambda>c. case ga c of Inl e \<Rightarrow> fa c | Inr _ \<Rightarrow> fa c @ fb c"
  have "fst (thenD a b s) = ?g (sd_config s) \<and>
      (\<exists>js. addsJobs ''automation'' js s (snd (thenD a b s)) \<and> map jobKey js = ?f (sd_config s))" for s
  proof -
    obtain r s' where as: "a s = (r, s')" by fastforce
    obtain js where js: "addsJobs ''automation'' js s s'" "map jobKey js = fa (sd_config s)" using a(2) [of s] as by auto
    have r: "r = ga (sd_config s)" using a(1) [of s] as by simp
    have c: "sd_config s' = sd_config s" using js(1) by (simp add: addsJobs_def)
    obtain ks where ks: "addsJobs ''automation'' ks s' (snd (b s'))" "map jobKey ks = fb (sd_config s)"
      using b(2) [of s'] c by auto
    show ?thesis
    proof (cases r)
      case (Inl e)
      then show ?thesis using as js r [symmetric] by (auto simp: thenD_def)
    next
      case (Inr u)
      have "addsJobs ''automation'' (js @ ks) s (snd (b s'))" using js(1) ks(1) by (rule addsJobs_trans)
      moreover have "map jobKey (js @ ks) = fa (sd_config s) @ fb (sd_config s)" using js(2) ks(2) by simp
      ultimately show ?thesis using as Inr r [symmetric] b(1) [of s'] c by (auto simp: thenD_def)
    qed
  qed
  then show ?thesis unfolding uniform_def by (intro exI [of _ ?f] exI [of _ ?g]) blast
qed

lemma uniform_whenD: "uniform a \<Longrightarrow> uniform (whenD c a)"
  by (simp add: whenD_def uniform_skip)

lemma uniform_withD: "(\<And>x. uniform (f x)) \<Longrightarrow> uniform (withD r f)"
  by (cases r) (simp_all add: withD_def uniform_skip)

lemma uniform_addJob: "uniform (\<lambda>s. (Inr (), addJob X n ''automation'' sp a s))"
  unfolding uniform_def using addsJobs_addJob [of "''automation''" _ X n sp a]
  by (intro exI [of _ "\<lambda>_. if se_accepts X sp then [(n, sp)] else []"] exI [of _ "\<lambda>_. Inr ()"]) simp

lemma uniform_fire: "uniform (\<lambda>s. (Inr (), s\<lparr>sd_fired := sd_fired s @ [x]\<rparr>))"
  unfolding uniform_def
  by (intro exI [of _ "\<lambda>_. []"] exI [of _ "\<lambda>_. Inr ()"]) (auto intro!: exI [of _ "[]"] simp: addsJobs_def)

lemma uniform_scheduleEvent: "uniform (scheduleEvent X date prayer event)"
proof -
  let ?L = "pe_luxon (se_pt X)" and ?now = "pe_now (se_pt X)"
  let ?f = "\<lambda>config. if globallyOff config event then (\<lambda>s. (Inr (), s))
      else withD (lx_minus ?L ''milliseconds'' (JNum (getMaxLeadTime config prayer event)) date) (\<lambda>d.
        if lx_less ?L d ?now then
          (if lx_valueOf ?L ?now - lx_valueOf ?L d \<le> 60 * 1000
           then (\<lambda>s. (Inr (), s\<lparr>sd_fired := sd_fired s @ [(prayer, event)]\<rparr>)) else (\<lambda>s. (Inr (), s)))
        else (\<lambda>s. (Inr (), addJob X (prayer @ '' - '' @ event) ''automation'' (specOf ?L d) (Trigger prayer event) s)))"
  have "uniform (?f c)" for c
    by (auto intro!: uniform_withD uniform_skip uniform_addJob uniform_fire)
  then have "uniform (\<lambda>s. ?f (sd_config s) s)" by (rule uniform_cond)
  moreover have "scheduleEvent X date prayer event = (\<lambda>s. ?f (sd_config s) s)"
    by (auto simp: scheduleEvent_def Let_def withD_def split: sum.splits)
  ultimately show ?thesis by simp
qed

lemma uniform_schedulePair: "uniform (schedulePair X tp prayer date e pre)"
  unfolding schedulePair_def
  by (intro uniform_thenD uniform_whenD uniform_withD uniform_scheduleEvent)

lemma uniform_schedulePrayer: "uniform (schedulePrayer X config triggers prayers p)"
  unfolding schedulePrayer_def Let_def
  by (auto intro!: uniform_thenD uniform_whenD uniform_withD uniform_schedulePair uniform_skip split: option.splits)

lemma uniform_schedulePrayers: "uniform (schedulePrayers X config triggers prayers ps)"
  by (induction ps) (simp_all add: uniform_skip uniform_thenD uniform_schedulePrayer)


section \<open>The jobs after \<open>initScheduler\<close>\<close>

definition tracked :: "schedState \<Rightarrow> bool" where
  "tracked s = (set (sd_live s) \<subseteq> set (sd_jobs s) \<and> (\<forall>j \<in> set (sd_jobs s). jb_id j < sd_next s))"

definition autoKeys :: "schedState \<Rightarrow> (string \<times> jobSpec) list" where
  "autoKeys s = map jobKey (filter (\<lambda>j. jb_category j = ''automation'') (sd_live s))"

definition maintKeys :: "schedState \<Rightarrow> (string \<times> jobSpec) list" where
  "maintKeys s = map jobKey (filter (\<lambda>j. jb_category j = ''maintenance'') (sd_live s))"

lemma clearJobs_tracked:
  assumes "tracked s"
  shows "sd_jobs (clearJobs s) = []" "sd_live (clearJobs s) = []" "sd_next (clearJobs s) = sd_next s"
    "sd_config (clearJobs s) = sd_config s"
  using assms by (auto simp: clearJobs_def tracked_def filter_empty_conv)

lemma addsJobs_fold:
  "\<exists>js. addsJobs cat js s (fold (\<lambda>(n, c). addJob X n cat (Cron c) (Callback n)) xs s) \<and>
     map jobKey js = map (\<lambda>(n, c). (n, Cron c)) (filter (\<lambda>(n, c). se_accepts X (Cron c)) xs)"
proof (induction xs arbitrary: s)
  case Nil
  then show ?case by (auto intro: addsJobs_refl)
next
  case (Cons x xs)
  obtain n c where x: "x = (n, c)" by fastforce
  let ?s = "addJob X n cat (Cron c) (Callback n) s"
  obtain js where js: "addsJobs cat js s ?s" "map jobKey js = (if se_accepts X (Cron c) then [(n, Cron c)] else [])"
    using addsJobs_addJob [of cat s X n "Cron c" "Callback n"] by blast
  obtain ks where ks: "addsJobs cat ks ?s (fold (\<lambda>(n, c). addJob X n cat (Cron c) (Callback n)) xs ?s)"
    "map jobKey ks = map (\<lambda>(n, c). (n, Cron c)) (filter (\<lambda>(n, c). se_accepts X (Cron c)) xs)"
    using Cons.IH [of ?s] by blast
  show ?case
    using addsJobs_trans [OF js(1) ks(1)] js(2) ks(2) by (intro exI [of _ "js @ ks"]) (simp add: x)
qed

definition acceptedMaintenance :: "'dt schedEnv \<Rightarrow> (string \<times> jobSpec) list" where
  "acceptedMaintenance X =
     map (\<lambda>(n, c). (n, Cron c)) (filter (\<lambda>(n, c). se_accepts X (Cron c)) maintenanceJobs)"

text \<open>The state right after the first half, and what the second half makes of it.\<close>

definition started :: "'dt schedEnv \<Rightarrow> nat \<Rightarrow> schedState \<Rightarrow> bool" where
  "started X n s \<longleftrightarrow>
     sd_live s = sd_jobs s \<and> n \<le> sd_next s \<and> map jb_id (sd_jobs s) = [n..<sd_next s] \<and>
     maintKeys s = acceptedMaintenance X \<and> sd_callbacks s = map fst maintenanceJobs"

lemma initStart_started:
  assumes "tracked s"
  shows "started X (sd_next s) (initStart X s)" "autoKeys (initStart X s) = []"
    "sd_config (initStart X s) = sd_config s"
proof -
  let ?c = "clearJobs s\<lparr>sd_callbacks := map fst maintenanceJobs\<rparr>"
  obtain js where js: "addsJobs ''maintenance'' js ?c (initStart X s)" "map jobKey js = acceptedMaintenance X"
    using addsJobs_fold [of "''maintenance''" ?c X maintenanceJobs]
    unfolding initStart_def scheduleMaintenanceJobs_def acceptedMaintenance_def by blast
  have f: "filter (\<lambda>j. jb_category j = ''maintenance'') js = js" "filter (\<lambda>j. jb_category j = ''automation'') js = []"
    using js(1) by (auto simp: addsJobs_def filter_id_conv filter_empty_conv)
  show "started X (sd_next s) (initStart X s)"
    using js f clearJobs_tracked [OF assms] by (simp add: started_def addsJobs_def maintKeys_def)
  show "autoKeys (initStart X s) = []" "sd_config (initStart X s) = sd_config s"
    using js(1) f clearJobs_tracked [OF assms] by (simp_all add: addsJobs_def autoKeys_def)
qed

lemma addsJobs_started:
  assumes "addsJobs ''automation'' js s s'" "started X n s"
  shows "started X n s'" "autoKeys s' = autoKeys s @ map jobKey js"
proof -
  have f: "filter (\<lambda>j. jb_category j = ''maintenance'') js = []" "filter (\<lambda>j. jb_category j = ''automation'') js = js"
    using assms(1) by (auto simp: addsJobs_def filter_id_conv filter_empty_conv)
  have "n \<le> sd_next s" "sd_next s \<le> sd_next s'"
    using assms by (simp_all add: addsJobs_def started_def)
  then have "[n..<sd_next s'] = [n..<sd_next s] @ [sd_next s..<sd_next s']"
    by (metis le_Suc_ex upt_add_eq_append)
  then show "started X n s'"
    using assms f unfolding started_def addsJobs_def maintKeys_def by auto
  show "autoKeys s' = autoKeys s @ map jobKey js"
    using assms f by (simp add: addsJobs_def autoKeys_def)
qed

lemma started_tracked: "started X n s \<Longrightarrow> tracked s \<and> distinct (map jb_id (sd_jobs s)) \<and> (\<forall>j \<in> set (sd_jobs s). n \<le> jb_id j)"
proof -
  assume st: "started X n s"
  have "jb_id ` set (sd_jobs s) = {n..<sd_next s}"
    using st by (metis list.set_map set_upt started_def)
  with st show ?thesis by (auto simp: started_def tracked_def)
qed

lemma initFinish_adds:
  obtains f where
    "\<And>s. \<exists>js. addsJobs ''automation'' js s (initFinish X config data s) \<and> map jobKey js = f (sd_config s)"
proof -
  have skip: "\<exists>js. addsJobs ''automation'' js s s \<and> map jobKey js = []" for s
    using addsJobs_refl by auto
  obtain f where f: "\<And>s triggers. \<exists>js. addsJobs ''automation'' js s
      (snd (schedulePrayers X config triggers (jget data ''prayers'') prayerNames s)) \<and> map jobKey js = f triggers (sd_config s)"
    using uniform_schedulePrayers unfolding uniform_def by metis
  show thesis
  proof (cases "\<not> truthy data \<or> \<not> truthy (jget data ''prayers'')")
    case True
    with that [of "\<lambda>_. []"] skip show thesis by (auto simp: initFinish_def)
  next
    case False
    show thesis
    proof (cases "getProp (jget config ''automation'') ''triggers''")
      case (Inl e)
      with False that [of "\<lambda>_. []"] skip show thesis by (auto simp: initFinish_def)
    next
      case (Inr triggers)
      show thesis
      proof (cases "truthy triggers")
        case True
        with False Inr that [of "f triggers"] f show thesis by (auto simp: initFinish_def)
      next
        case nt: False
        with False Inr that [of "\<lambda>_. []"] skip show thesis by (auto simp: initFinish_def)
      qed
    qed
  qed
qed

lemma started_pt: "started X n s \<Longrightarrow> started X n (s\<lparr>sd_pt := pt\<rparr>)"
  by (auto simp: started_def maintKeys_def)

lemma initFinish_started: "started X n s \<Longrightarrow> started X n (initFinish X config data s)"
  using initFinish_adds [of X config data] addsJobs_started(1) by metis

lemma initScheduler_started: "tracked s \<Longrightarrow> started X (sd_next s) (initScheduler X s)"
  using initStart_started(1) [of s X] unfolding initScheduler_def Let_def
  by (auto intro!: initFinish_started started_pt split: sum.splits prod.splits)

lemma initScheduler_config:
  assumes "tracked s"
  shows "sd_config (initScheduler X s) = sd_config s"
proof -
  have "sd_config (initFinish X c d t) = sd_config t" for c d t
    using initFinish_adds [of X c d] unfolding addsJobs_def by metis
  then show ?thesis
    using initStart_started(3) [OF assms] by (auto simp: initScheduler_def Let_def split: sum.split prod.split)
qed

lemma initScheduler_fresh:
  assumes "tracked s" "j \<in> set (sd_live (initScheduler X s))"
  shows "sd_next s \<le> jb_id j" "j \<notin> set (sd_live s)"
proof -
  have st: "sd_live (initScheduler X s) = sd_jobs (initScheduler X s)"
    "map jb_id (sd_jobs (initScheduler X s)) = [sd_next s..<sd_next (initScheduler X s)]"
    using initScheduler_started [OF assms(1), of X] by (simp_all add: started_def)
  have "jb_id j \<in> set (map jb_id (sd_jobs (initScheduler X s)))" using assms(2) st(1) by simp
  then show n: "sd_next s \<le> jb_id j" unfolding st(2) by simp
  show "j \<notin> set (sd_live s)" using n assms(1) by (fastforce simp: tracked_def)
qed

text \<open>
  C25. When every job alive is one the service knows, \<open>initScheduler\<close> keeps it so whatever
  happens to the fetch or the configuration: no job of before survives, the jobs alive are exactly
  the ones in the service's list, with distinct identities, and the maintenance jobs among them
  are exactly the ones node-schedule accepts, each once; their callbacks are registered.
\<close>

theorem initScheduler_jobs:
  assumes "tracked s" "s' = initScheduler X s"
  shows "tracked s' \<and> sd_live s' = sd_jobs s' \<and> distinct (map jb_id (sd_jobs s')) \<and>
    (\<forall>j \<in> set (sd_live s'). sd_next s \<le> jb_id j \<and> j \<notin> set (sd_live s)) \<and>
    maintKeys s' = acceptedMaintenance X \<and> sd_callbacks s' = map fst maintenanceJobs"
proof -
  have st: "started X (sd_next s) s'" using initScheduler_started [OF assms(1)] assms(2) by simp
  show ?thesis
    using st started_tracked [OF st] initScheduler_fresh [OF assms(1), of _ X] assms(2) by (simp add: started_def)
qed

theorem initScheduler_jobs_witness:
  "maintKeys (initScheduler sampleSched (initScheduler sampleSched (freshSched triggerConfig))) =
     map (\<lambda>(n, c). (n, Cron c)) maintenanceJobs"
proof -
  have t: "tracked (freshSched triggerConfig)" by (simp add: tracked_def freshSched_def)
  have "tracked (initScheduler sampleSched (freshSched triggerConfig))"
    using initScheduler_jobs [OF t refl] by blast
  from initScheduler_jobs [OF this refl, of sampleSched] show ?thesis
    by (simp add: acceptedMaintenance_def) (simp add: sampleSched_def)
qed

text \<open>
  Two calls of \<open>initScheduler\<close> one after the other, for the same configuration and
  prayer times, leave the automation jobs of one call. Two calls that overlap at the fetch, so that
  both have cleared the jobs before either adds its own, leave every automation job twice, and
  all of them alive: each event of the day is then triggered two times.
\<close>

theorem initScheduler_overlap:
  assumes "tracked s" "K = autoKeys (initFinish X config data (initStart X s))"
  shows "autoKeys (initFinish X config data (initStart X (initFinish X config data (initStart X s)))) = K \<and>
    autoKeys (initFinish X config data (initFinish X config data (initStart X (initStart X s)))) = K @ K"
proof -
  obtain f where f:
    "\<And>s. \<exists>js. addsJobs ''automation'' js s (initFinish X config data s) \<and> map jobKey js = f (sd_config s)"
    using initFinish_adds [of X config data] by blast
  have fin: "autoKeys (initFinish X config data t) = autoKeys t @ f (sd_config t) \<and>
      sd_config (initFinish X config data t) = sd_config t \<and> started X n (initFinish X config data t)"
    if t: "started X n t" for n t
  proof -
    obtain js where js: "addsJobs ''automation'' js t (initFinish X config data t)" "map jobKey js = f (sd_config t)"
      using f by blast
    then show ?thesis using addsJobs_started [OF js(1) t] by (simp add: addsJobs_def)
  qed
  note i1 = initStart_started [OF assms(1), of X]
  note f1 = fin [OF i1(1)]
  have K: "K = f (sd_config s)" using f1 i1 assms(2) by simp
  note t1 = conjunct1 [OF started_tracked [OF conjunct2 [OF conjunct2 [OF f1]]]]
  note i2 = initStart_started [OF t1, of X]
  note t1' = conjunct1 [OF started_tracked [OF i1(1)]]
  note i2' = initStart_started [OF t1', of X]
  note f2' = fin [OF i2'(1)]
  have "autoKeys (initFinish X config data (initStart X (initFinish X config data (initStart X s)))) = K"
    using fin [OF i2(1)] i2 f1 i1 K by simp
  moreover have "autoKeys (initFinish X config data (initFinish X config data (initStart X (initStart X s)))) = K @ K"
    using fin [OF conjunct2 [OF conjunct2 [OF f2']]] f2' i2' i1 K by simp
  ultimately show ?thesis by blast
qed

text \<open>A day of prayer times and a state for which the overlap doubles a job.\<close>

definition fajrDay :: json where
  "fajrDay = JObj [(''prayers'', JObj [(''fajr'', JStr ''5000'')])]"

definition locatedConfig :: json where
  "locatedConfig =
     JObj [(''location'', JObj [(''timezone'', JStr ''UTC'')]), (''prayers'', JObj []),
           (''automation'', jget triggerConfig ''automation'')]"

lemma fajr_keys:
  "autoKeys (initFinish sampleSched locatedConfig fajrDay (initStart sampleSched (freshSched triggerConfig))) =
     [(''fajr - adhan'', At 3000)]"
  by code_simp

theorem initScheduler_overlap_witness:
  "autoKeys (initFinish sampleSched locatedConfig fajrDay (initFinish sampleSched locatedConfig fajrDay
     (initStart sampleSched (initStart sampleSched (freshSched triggerConfig))))) =
     [(''fajr - adhan'', At 3000), (''fajr - adhan'', At 3000)]"
proof -
  have "tracked (freshSched triggerConfig)" by (simp add: tracked_def freshSched_def)
  from initScheduler_overlap [OF this fajr_keys [symmetric]] show ?thesis by simp
qed

section \<open>Maintenance\<close>

lemma unawaited_hit:
  assumes "inCache (diskCache st) (isoKey (pe_luxon P) date)"
  shows "pt_disk (snd (unawaitedRead late (getPrayerTimes P config date) st)) = pt_disk st"
proof -
  let ?k = "isoKey (pe_luxon P) date"
  have disk: "pt_disk (snd (getPrayerTimes P config date t)) = pt_disk t" if "inCache (diskCache t) ?k" for t
    using that getPrayerTimes_mem [of t P date config] getPrayerTimes_disk [of t P date config]
    by (cases "inCache (pt_mem t) ?k") simp_all
  have r: "pt_disk (snd (readCache t)) = pt_disk t" for t by (simp add: readCache_def Let_def)
  have "inCache (diskCache (snd (readCache st))) ?k"
    using assms by (simp add: diskCache_def readCache_def Let_def)
  then show ?thesis
    using disk [OF assms] disk r
    by (cases "getPrayerTimes P config date st") (simp add: unawaitedRead_def)
qed

text \<open>
  The stale check never refreshes: as the promise of the cache has no \<open>meta\<close>, the age of
  the data is not looked at, and the check behaves like an ordinary request for today. With today
  in the disk cache it leaves the disk cache as it is, however old the data are.
\<close>

theorem staleAction_never_refreshes:
  assumes "inCache (diskCache st) (isoKey (pe_luxon P) (pe_now P))"
  shows "pt_disk (snd (staleAction P daysSince late config st)) = pt_disk st \<and>
    staleAction P daysSince late config st = unawaitedRead late (getPrayerTimes P config (pe_now P)) st"
proof -
  have "staleAction P daysSince late config = unawaitedRead late (getPrayerTimes P config (pe_now P))"
    by (simp add: staleAction_def promise_def)
  then show ?thesis using unawaited_hit [OF assms] by simp
qed

theorem staleAction_never_refreshes_witness:
  "pt_disk (snd (staleAction failingEnv (\<lambda>_. 400) False sampleConfig
     (emptyCaches\<lparr>pt_disk := Cached (JObj [(''meta'', JObj [(''lastFetched'', JStr ''0'')]),
        (''data'', JObj [(''0'', fajrDay)])])\<rparr>))) \<noteq> NoCache"
proof -
  let ?st = "emptyCaches\<lparr>pt_disk := Cached (JObj [(''meta'', JObj [(''lastFetched'', JStr ''0'')]),
      (''data'', JObj [(''0'', fajrDay)])])\<rparr>"
  have "isoKey (pe_luxon failingEnv) (pe_now failingEnv) = ''0''" by code_simp
  then have "inCache (diskCache ?st) (isoKey (pe_luxon failingEnv) (pe_now failingEnv))"
    by (simp add: inCache_def diskCache_def readCache_def Let_def fajrDay_def)
  from staleAction_never_refreshes [OF this, of "\<lambda>_. 400" False sampleConfig] show ?thesis by auto
qed

end
