(* ===== verification/Outputs.thy ===== *)
theory Outputs
  imports Automation
begin

text \<open>
  \<open>src/src/outputs\<close>: the template method \<open>BaseOutput.execute\<close> with the check of the sidecar file,
  and the hooks, health checks and asset validation of the browser, local and VoiceMonkey
  strategies. What a strategy does to the world is a list of events: a message broadcast to the
  clients, a player process started, a request to the VoiceMonkey API. Files, the player, the
  API and the host are parameters. Numbers are exact rationals; \<open>format\<close> and \<open>codec\<close> of
  audio metadata are strings or absent and its other fields numbers or absent.
\<close>

section \<open>World\<close>

datatype outEvent =
    Broadcast json
  | Play string "string list" string
  | ApiGet string json

record outEnv =
  oe_cwd :: string
  oe_root :: string
  oe_srcRoot :: string
  oe_fileExists :: "string \<Rightarrow> bool"
  oe_sidecar :: "string \<Rightarrow> json option"
  oe_config :: json
  oe_wsl :: bool
  oe_aborted :: bool
  oe_play :: "string \<Rightarrow> string list \<Rightarrow> string \<Rightarrow> err option"
  oe_api :: "json \<Rightarrow> json res"
  oe_timestamp :: json

type_synonym outRun = "outEvent list \<times> unit res"

datatype strategy = Browser | Local | VoiceMonkey

fun strategyMeta :: "strategy \<Rightarrow> outputMeta" where
  "strategyMeta Browser = browserMeta"
| "strategyMeta Local = localMeta"
| "strategyMeta VoiceMonkey = voiceMonkeyMeta"

text \<open>The class a registered identifier stands for.\<close>

definition strategyOf :: "string \<Rightarrow> strategy option" where
  "strategyOf i = List.find (\<lambda>s. om_id (strategyMeta s) = i) [Local, VoiceMonkey, Browser]"

text \<open>\<open>(payload.params && payload.params[key])\<close>; an absent or primitive \<open>params\<close> has no properties.\<close>

definition payloadParam :: "json \<Rightarrow> string \<Rightarrow> json" where
  "payloadParam payload key = jget (jget payload ''params'') key"

section \<open>Browser\<close>

definition broadcastUrl :: "string \<Rightarrow> json \<Rightarrow> outRun" where
  "broadcastUrl url payload =
     ([Broadcast (JObj [(''type'', JStr ''AUDIO_PLAY''),
         (''payload'', JObj [(''prayer'', jget payload ''prayer''), (''event'', jget payload ''event''),
                           (''url'', JStr url)])])], Inr ())"

section \<open>Local\<close>

definition playAudio :: "outEnv \<Rightarrow> string \<Rightarrow> json \<Rightarrow> outRun" where
  "playAudio E audioSource payload =
     (case orElse (payloadParam payload ''audioPlayer'') (JStr ''mpg123'') of
        JStr audioPlayer \<Rightarrow>
          if audioPlayer \<notin> set ALLOWED_AUDIO_PLAYERS then ([], Inl (Error ''Invalid audio player''))
          else
            let args = (if oe_wsl E \<and> audioPlayer = ''mpg123'' then [''-o'', ''pulse''] else []) in
            ([Play audioPlayer args audioSource],
             if oe_aborted E then Inl (Error ''Playback aborted'')
             else case oe_play E audioPlayer args audioSource of Some e \<Rightarrow> Inl e | None \<Rightarrow> Inr ())
      | _ \<Rightarrow> ([], Inl (Error ''Invalid audio player'')))"

section \<open>VoiceMonkey\<close>

definition apiUrl :: string where
  "apiUrl = ''https://api-v2.voicemonkey.io/announcement''"

definition httpsUrl :: "json \<Rightarrow> bool res" where
  "httpsUrl baseUrl =
     (if \<not> truthy baseUrl then Inr False
      else case baseUrl of
        JStr s \<Rightarrow> Inr (startsWith s ''https://'')
      | _ \<Rightarrow> Inl (TypeError ''baseUrl.startsWith is not a function''))"

definition resolvePublicUrl :: "outEnv \<Rightarrow> string \<Rightarrow> json \<Rightarrow> string option res" where
  "resolvePublicUrl E sourceUrl payload =
     (if startsWith sourceUrl ''https://'' then Inr (Some sourceUrl)
      else if startsWith sourceUrl ''http://'' then Inr None
      else
        let baseUrl = orElse (jget payload ''baseUrl'') (jget (jget (oe_config E) ''automation'') ''baseUrl'') in
        bindR (httpsUrl baseUrl) (\<lambda>ok. Inr (if ok then Some (the_str baseUrl @ sourceUrl) else None)))"

definition sendToApi :: "outEnv \<Rightarrow> string \<Rightarrow> json \<Rightarrow> outRun" where
  "sendToApi E audioUrl payload =
     (let token = orElse (payloadParam payload ''token'') (jget (paramsOf (oe_config E) ''voicemonkey'') ''token'');
          device = orElse (payloadParam payload ''device'') (jget (paramsOf (oe_config E) ''voicemonkey'') ''device'');
          params = JObj [(''token'', token), (''device'', device), (''audio'', JStr audioUrl)] in
      if \<not> truthy token \<or> \<not> truthy device then ([], Inr ())
      else ([ApiGet apiUrl params],
            case oe_api E params of
              Inr _ \<Rightarrow> Inr ()
            | Inl (AbortError _) \<Rightarrow> Inr ()
            | Inl e \<Rightarrow> Inl e))"

section \<open>\<open>BaseOutput.execute\<close>\<close>

fun executeFromFile :: "outEnv \<Rightarrow> strategy \<Rightarrow> string \<Rightarrow> string \<Rightarrow> json \<Rightarrow> outRun" where
  "executeFromFile E Browser filePath url payload = broadcastUrl url payload"
| "executeFromFile E Local filePath url payload = playAudio E filePath payload"
| "executeFromFile E VoiceMonkey filePath url payload =
     (case resolvePublicUrl E url payload of
        Inl e \<Rightarrow> ([], Inl e)
      | Inr None \<Rightarrow> ([], Inr ())
      | Inr (Some audioUrl) \<Rightarrow> sendToApi E audioUrl payload)"

fun executeFromUrl :: "outEnv \<Rightarrow> strategy \<Rightarrow> string \<Rightarrow> json \<Rightarrow> outRun" where
  "executeFromUrl E Browser url payload = broadcastUrl url payload"
| "executeFromUrl E Local url payload = playAudio E url payload"
| "executeFromUrl E VoiceMonkey url payload =
     (if \<not> startsWith url ''https://'' then ([], Inl (Error ''Alexa requires HTTPS audio URLs''))
      else sendToApi E url payload)"

definition sidecarPath :: "outEnv \<Rightarrow> string \<Rightarrow> string" where
  "sidecarPath E filePath =
     path_normalize (oe_srcRoot E @ [slash] @ path_relative (oe_cwd E) (oe_root E) filePath @ ''.json'')"

text \<open>\<open>checkSidecarCompatibility\<close> is true unless the code returns false.\<close>

definition checkSidecarCompatibility :: "outEnv \<Rightarrow> strategy \<Rightarrow> string \<Rightarrow> bool" where
  "checkSidecarCompatibility E s filePath =
     (filePath = [] \<or> \<not> isWithinRoot (oe_root E) filePath \<or>
      \<not> isWithinRoot (oe_srcRoot E) (sidecarPath E filePath) \<or>
      (case oe_sidecar E (sidecarPath E filePath) of
         None \<Rightarrow> True
       | Some sidecar \<Rightarrow>
           jget (jget (jget sidecar ''compatibility'') (om_id (strategyMeta s))) ''valid'' \<noteq> JBool False))"

definition sourceKind :: "execSource \<Rightarrow> string" where
  "sourceKind src = (case src of FileSource _ _ \<Rightarrow> ''file'' | UrlSource _ \<Rightarrow> ''url'')"

definition execute :: "outEnv \<Rightarrow> strategy \<Rightarrow> json \<Rightarrow> outRun" where
  "execute E s payload =
     (if \<not> typeof_object payload then
        ([], Inl (Error ''BaseOutput.execute() requires payload to be a non-null object''))
      else if jget payload ''source'' \<in> {JUndef, JNull} then
        ([], Inl (Error ''BaseOutput.execute() requires payload.source''))
      else case normalizeSource (oe_root E) (oe_cwd E) (jget payload ''source'') of
        Inl e \<Rightarrow> ([], Inl e)
      | Inr normalized \<Rightarrow>
          if sourceKind normalized \<notin> set (om_supportedSourceTypes (strategyMeta s)) then
            ([], Inl (Error (''Source type '' @ [CHR 0x22] @ sourceKind normalized @ [CHR 0x22] @
                             '' is not supported by '' @ om_label (strategyMeta s))))
          else case normalized of
            FileSource filePath url \<Rightarrow>
              if \<not> oe_fileExists E filePath then
                ([], Inl (Error (''Audio file not found: '' @ path_basename filePath)))
              else if \<not> checkSidecarCompatibility E s filePath then ([], Inr ())
              else executeFromFile E s filePath url payload
          | UrlSource url \<Rightarrow> executeFromUrl E s url payload)"

section \<open>Health checks and credentials\<close>

record hostEnv =
  ho_playerRuns :: "string \<Rightarrow> bool"
  ho_linux :: bool
  ho_wsl :: bool
  ho_snd :: bool
  ho_dockerenv :: bool
  ho_cgroup :: "string option"

definition health :: "bool \<Rightarrow> string \<Rightarrow> json" where
  "health ok msg = JObj [(''healthy'', JBool ok), (''message'', JStr msg)]"

definition inDocker :: "hostEnv \<Rightarrow> bool" where
  "inDocker H = (ho_dockerenv H \<or> (case ho_cgroup H of Some c \<Rightarrow> str_includes c ''docker'' | None \<Rightarrow> False))"

definition localHealthCheck :: "hostEnv \<Rightarrow> json \<Rightarrow> json \<Rightarrow> json" where
  "localHealthCheck H config requestedParams =
     (let audioPlayer = orElse (orElse (jget requestedParams ''audioPlayer'') (jget (paramsOf config ''local'') ''audioPlayer''))
                          (JStr ''mpg123'') in
      case audioPlayer of
        JStr p \<Rightarrow>
          if p \<notin> set ALLOWED_AUDIO_PLAYERS then health False ''Invalid Audio Player''
          else if \<not> ho_playerRuns H p then health False (p @ '' Not Found'')
          else if ho_linux H \<and> \<not> ho_wsl H \<and> \<not> ho_snd H then
            health False (if inDocker H then ''Docker: No Audio HW'' else ''No Audio Device'')
          else health True ''Ready''
      | _ \<Rightarrow> health False ''Invalid Audio Player'')"

text \<open>A successful answer, or the error the code throws for the others; the API's \<open>error\<close> is a string.\<close>

definition apiAnswer :: "string \<Rightarrow> json res \<Rightarrow> unit res" where
  "apiAnswer fallback r =
     (case r of
        Inl e \<Rightarrow> Inl e
      | Inr d \<Rightarrow> if jget d ''success'' = JBool True then Inr ()
                else Inl (Error (case orElse (jget d ''error'') (JStr fallback) of JStr m \<Rightarrow> m | _ \<Rightarrow> fallback)))"

definition messageOr :: "string \<Rightarrow> err \<Rightarrow> string" where
  "messageOr fallback e = (if err_message e = [] then fallback else err_message e)"

definition vmHealthCheck :: "outEnv \<Rightarrow> string \<Rightarrow> json \<Rightarrow> outEvent list \<times> json res" where
  "vmHealthCheck E stamp requestedParams =
     (let token = orElse (jget requestedParams ''token'') (jget (paramsOf (oe_config E) ''voicemonkey'') ''token'');
          params = JObj [(''token'', token), (''device'', JStr (''azan_check_'' @ stamp)), (''text'', JStr ''Test'')] in
      case httpsUrl (jget (jget (oe_config E) ''automation'') ''baseUrl'') of
        Inl e \<Rightarrow> ([], Inl e)
      | Inr ok \<Rightarrow>
          if \<not> ok then ([], Inr (health False ''Offline: HTTPS Base URL required''))
          else if \<not> truthy token then ([], Inr (health False ''Token Missing''))
          else ([ApiGet apiUrl params],
                case apiAnswer ''API Failure'' (oe_api E params) of
                  Inr _ \<Rightarrow> Inr (health True ''Online'')
                | Inl e \<Rightarrow> Inr (health False (messageOr ''Error'' e))))"

definition vmVerifyCredentials :: "outEnv \<Rightarrow> json \<Rightarrow> outEvent list \<times> json res" where
  "vmVerifyCredentials E credentials =
     (let params = JObj [(''token'', jget credentials ''token''), (''device'', jget credentials ''device''),
                       (''text'', JStr ''Test'')] in
      if credentials \<in> {JUndef, JNull} then
        ([], Inl (TypeError ''Cannot read properties of undefined''))
      else if \<not> truthy (jget credentials ''token'') \<or> \<not> truthy (jget credentials ''device'') then
        ([], Inl (Error ''Missing token or device''))
      else ([ApiGet apiUrl params],
            case apiAnswer ''Verification Failed'' (oe_api E params) of
              Inr _ \<Rightarrow> Inr (JObj [(''success'', JBool True)])
            | Inl e \<Rightarrow> Inl (Error (messageOr ''Verification Failed'' e))))"

fun healthCheckStrategy :: "outEnv \<Rightarrow> hostEnv \<Rightarrow> string \<Rightarrow> strategy \<Rightarrow> json \<Rightarrow> outEvent list \<times> json res" where
  "healthCheckStrategy E H stamp Browser params = ([], Inr (health True ''Ready''))"
| "healthCheckStrategy E H stamp Local params = ([], Inr (localHealthCheck H (oe_config E) params))"
| "healthCheckStrategy E H stamp VoiceMonkey params = vmHealthCheck E stamp params"

fun verifyCredentials :: "outEnv \<Rightarrow> strategy \<Rightarrow> json \<Rightarrow> outEvent list \<times> json res" where
  "verifyCredentials E VoiceMonkey credentials = vmVerifyCredentials E credentials"
| "verifyCredentials E s credentials = ([], Inr (JObj [(''success'', JBool True)]))"

section \<open>Assets and triggers\<close>

definition template :: "json \<Rightarrow> string" where
  "template v = (case v of JStr s \<Rightarrow> s | JNull \<Rightarrow> ''null'' | _ \<Rightarrow> ''undefined'')"

text \<open>\<open>toFixed(2)\<close> of a non-negative number.\<close>

definition toFixed2 :: "rat \<Rightarrow> string" where
  "toFixed2 q =
     (let n = \<lfloor>q * 100 + 1 / 2\<rfloor>; r = n mod 100 in
      int_str (n div 100) @ ''.'' @ (if r < 10 then ''0'' else []) @ int_str r)"

definition allowedMimeTypes :: "string list" where
  "allowedMimeTypes = [''audio/mpeg'', ''audio/wav'', ''audio/ogg'', ''audio/opus'', ''audio/aac'']"

definition knownFormat :: "string \<Rightarrow> string \<Rightarrow> bool" where
  "knownFormat format codec =
     (let isMP3 = str_includes format ''mp3'' \<or> str_includes codec ''mp3'' \<or> (format = ''mpeg'' \<and> str_includes codec ''3'');
          isWAV = str_includes format ''wav'';
          isOGG = str_includes format ''ogg'' \<or> str_includes codec ''vorbis'' \<or> str_includes codec ''opus'';
          isAAC = str_includes format ''aac'' \<or> str_includes format ''adts'' \<or> str_includes codec ''aac''
      in isMP3 \<or> isWAV \<or> isOGG \<or> isAAC)"

definition formatIssues :: "json \<Rightarrow> string list" where
  "formatIssues metadata =
     (let mime = jget metadata ''mimeType''; format = jget metadata ''format''; codec = jget metadata ''codec'' in
      if truthy mime then
        (if mime \<notin> JStr ` set allowedMimeTypes
         then [''Unsupported format: '' @ template format @ '' / '' @ template codec @ '' ('' @ template mime @
               ''). Alexa requires MP3, AAC, OGG, OPUS or WAV.'']
         else [])
      else if knownFormat (toLowerCase (the_str format)) (toLowerCase (the_str codec)) then []
      else [''Unsupported format: '' @ template format @ '' / '' @ template codec @
            ''. Alexa requires MP3, AAC, OGG, OPUS or WAV.''])"

definition limitIssue :: "json \<Rightarrow> string \<Rightarrow> rat \<Rightarrow> rat \<Rightarrow> (rat \<Rightarrow> string) \<Rightarrow> string list" where
  "limitIssue metadata key scale limit message =
     (case jget metadata key of
        JNum q \<Rightarrow> if q \<noteq> 0 \<and> q / scale > limit then [message (q / scale)] else []
      | _ \<Rightarrow> [])"

definition getValidationIssues :: "json \<Rightarrow> string list" where
  "getValidationIssues metadata =
     formatIssues metadata @
     limitIssue metadata ''bitrate'' 1000 (7056 / 5) (\<lambda>v. ''Bitrate too high: '' @ toFixed2 v @ '' kbps (Max 1411.2 kbps)'') @
     limitIssue metadata ''sampleRate'' 1000 48 (\<lambda>v. ''Sample rate too high: '' @ toFixed2 v @ '' kHz (Max 48 kHz)'') @
     limitIssue metadata ''size'' (1024 * 1024) 10 (\<lambda>v. ''File size too large: '' @ toFixed2 v @ '' MB (Max 10 MB)'') @
     limitIssue metadata ''duration'' 1 240 (\<lambda>v. ''Duration too long: '' @ toFixed2 v @ ''s (Max 240s)'')"

fun validateAsset :: "strategy \<Rightarrow> json \<Rightarrow> json \<Rightarrow> json" where
  "validateAsset VoiceMonkey timestamp metadata =
     (let issues = getValidationIssues metadata in
      JObj [(''valid'', JBool (issues = [])), (''lastChecked'', timestamp), (''issues'', JArr (map JStr issues))])"
| "validateAsset s timestamp metadata =
     JObj [(''valid'', JBool True), (''lastChecked'', timestamp), (''issues'', JArr [])]"

definition triggerFile :: "json \<Rightarrow> string \<Rightarrow> string \<Rightarrow> json \<Rightarrow> bool" where
  "triggerFile trigger prayer triggerType f =
     (jget trigger ''type'' = JStr ''file'' \<and> jget f ''path'' = jget trigger ''path'' \<or>
      jget trigger ''type'' = JStr ''tts'' \<and> jget f ''name'' = JStr (''tts_'' @ prayer @ ''_'' @ triggerType @ ''.mp3''))"

fun validateTrigger :: "strategy \<Rightarrow> json \<Rightarrow> json list \<Rightarrow> string \<Rightarrow> string \<Rightarrow> string \<Rightarrow> string list" where
  "validateTrigger VoiceMonkey trigger audioFiles prayer triggerType niceName =
     (case find (triggerFile trigger prayer triggerType) audioFiles of
        None \<Rightarrow> []
      | Some file \<Rightarrow>
          let c = jget (jget file ''compatibility'') ''voicemonkey'';
              issues = (if truthy (jget c ''issues'') then map the_str (arr_of (jget c ''issues'')) else [''Unknown issues'']) in
          if jget c ''valid'' = JBool False
          then [niceName @ '': Audio incompatible with Alexa ('' @ join '', '' issues @ '')''] else [])"
| "validateTrigger s trigger audioFiles prayer triggerType niceName = []"

section \<open>What a strategy may do\<close>

lemma isHttpUrl_no_dash: "isHttpUrl u \<Longrightarrow> \<not> startsWith u ''-''"
  by (cases u) (auto simp: isHttpUrl_def startsWith_def toLowerCase_def lower_char_def)

lemma contained_no_dash: "contained r p \<Longrightarrow> \<not> startsWith p ''-''"
  by (cases p) (auto simp: contained_def isAbsolute_def startsWith_def slash_def)

lemma startsWith_extend: "startsWith a p \<Longrightarrow> startsWith (a @ b) p"
  by (auto simp: startsWith_iff)

lemma resolvePublicUrl_https:
  "resolvePublicUrl E u payload = Inr (Some a) \<Longrightarrow> startsWith a ''https://''"
  by (auto simp: resolvePublicUrl_def httpsUrl_def Let_def bindR_Inr startsWith_extend split: if_splits json.splits)

definition apiCall :: "outEvent \<Rightarrow> bool" where
  "apiCall ev = (\<exists>params a. ev = ApiGet apiUrl params \<and> jget params ''audio'' = JStr a \<and> startsWith a ''https://'' \<and>
     truthy (jget params ''token'') \<and> truthy (jget params ''device''))"

definition playerCall :: "(string \<Rightarrow> bool) \<Rightarrow> outEvent \<Rightarrow> bool" where
  "playerCall ok ev = (\<exists>p args src. ev = Play p args src \<and> p \<in> set ALLOWED_AUDIO_PLAYERS \<and>
     args \<in> {[], [''-o'', ''pulse'']} \<and> ok src)"

definition clientCall :: "outEvent \<Rightarrow> bool" where
  "clientCall ev = (\<exists>m. ev = Broadcast m \<and> jget m ''type'' = JStr ''AUDIO_PLAY'')"

fun allowedCall :: "strategy \<Rightarrow> (string \<Rightarrow> bool) \<Rightarrow> outEvent \<Rightarrow> bool" where
  "allowedCall Browser ok ev = clientCall ev"
| "allowedCall Local ok ev = playerCall ok ev"
| "allowedCall VoiceMonkey ok ev = apiCall ev"

lemma broadcastUrl_calls: "fst (broadcastUrl u payload) = [ev] \<Longrightarrow> clientCall ev"
  by (auto simp: broadcastUrl_def clientCall_def)

lemma playAudio_calls:
  "fst (playAudio E src payload) = [] \<or> (\<exists>ev. fst (playAudio E src payload) = [ev] \<and> playerCall (\<lambda>x. x = src) ev)"
  by (auto simp: playAudio_def playerCall_def Let_def split: json.splits)

lemma sendToApi_calls:
  assumes "startsWith a ''https://''"
  shows "fst (sendToApi E a payload) = [] \<or> (\<exists>ev. fst (sendToApi E a payload) = [ev] \<and> apiCall ev)"
  using assms by (auto simp: sendToApi_def apiCall_def Let_def)

lemma playerCall_mono: "playerCall ok ev \<Longrightarrow> (\<And>x. ok x \<Longrightarrow> ok' x) \<Longrightarrow> playerCall ok' ev"
  by (auto simp: playerCall_def)

lemma executeFromFile_calls:
  "fst (executeFromFile E s f u payload) = [] \<or>
   (\<exists>ev. fst (executeFromFile E s f u payload) = [ev] \<and> allowedCall s (\<lambda>x. x = f) ev)"
proof (cases s)
  case VoiceMonkey
  show ?thesis
  proof (cases "resolvePublicUrl E u payload")
    case (Inr o')
    then show ?thesis
      using VoiceMonkey sendToApi_calls resolvePublicUrl_https by (cases o') auto
  qed (simp add: VoiceMonkey)
qed (use playAudio_calls in \<open>auto simp: broadcastUrl_def clientCall_def\<close>)

lemma executeFromUrl_calls:
  "fst (executeFromUrl E s u payload) = [] \<or>
   (\<exists>ev. fst (executeFromUrl E s u payload) = [ev] \<and> allowedCall s (\<lambda>x. x = u) ev)"
  by (cases s) (use playAudio_calls sendToApi_calls in \<open>auto simp: broadcastUrl_def clientCall_def\<close>)

text \<open>A place a player may be pointed at: a file inside the audio directory or an http(s) URL, never an option.\<close>

definition playable :: "outEnv \<Rightarrow> string \<Rightarrow> bool" where
  "playable E src =
     ((contained (oe_root E) src \<and> ''..'' \<notin> set (psegs src) \<and> oe_fileExists E src \<or> isHttpUrl src) \<and>
      \<not> startsWith src ''-'')"

lemma allowedCall_mono: "allowedCall s ok ev \<Longrightarrow> (\<And>x. ok x \<Longrightarrow> ok' x) \<Longrightarrow> allowedCall s ok' ev"
  by (cases s) (auto intro: playerCall_mono)

lemma execute_file:
  assumes "normalizeSource (oe_root E) (oe_cwd E) (jget payload ''source'') = Inr (FileSource f u)"
    "ev \<in> set (fst (execute E s payload))"
  shows "oe_fileExists E f" "checkSidecarCompatibility E s f" "execute E s payload = executeFromFile E s f u payload"
  using assms by (auto simp: execute_def split: if_splits)

lemma execute_url:
  assumes "normalizeSource (oe_root E) (oe_cwd E) (jget payload ''source'') = Inr (UrlSource u)"
    "ev \<in> set (fst (execute E s payload))"
  shows "execute E s payload = executeFromUrl E s u payload"
  using assms by (auto simp: execute_def split: if_splits)

text \<open>
  C6. Whatever payload reaches a strategy, from a trigger or from a test request, it does at most one
  thing, and only of its kind. The browser strategy broadcasts an \<open>AUDIO_PLAY\<close> message. The
  local strategy starts one of the five allowed players, with no arguments or the fixed pulse
  arguments, on an existing file inside the audio directory or an http(s) URL, which the player
  cannot take for an option. The VoiceMonkey strategy calls its fixed API address with a token, a
  device and an https audio URL. A file whose sidecar marks it incompatible is never played.
\<close>

theorem execute_safe:
  assumes ev: "ev \<in> set (fst (execute E s payload))"
  shows "fst (execute E s payload) = [ev] \<and> allowedCall s (playable E) ev \<and>
    (\<forall>f u. normalizeSource (oe_root E) (oe_cwd E) (jget payload ''source'') = Inr (FileSource f u) \<longrightarrow>
       checkSidecarCompatibility E s f)"
proof -
  obtain src where src: "normalizeSource (oe_root E) (oe_cwd E) (jget payload ''source'') = Inr src"
    using ev by (auto simp: execute_def split: if_splits sum.splits)
  show ?thesis
  proof (cases src)
    case (FileSource f u)
    note x = execute_file [OF src [unfolded FileSource] ev]
    have ok: "playable E f"
      using normalizeSource_FileSource(1) [OF src [unfolded FileSource]] x(1) contained_no_dash
        isWithinRoot_no_dotdot unfolding playable_def by blast
    obtain ev' where e: "fst (execute E s payload) = [ev']" "allowedCall s (\<lambda>x. x = f) ev'"
      using ev executeFromFile_calls [of E s f u payload] unfolding x(3) by auto
    have "allowedCall s (playable E) ev'" using allowedCall_mono [OF e(2)] ok by simp
    then show ?thesis using e ev src FileSource x(2) by simp
  next
    case (UrlSource u)
    note x = execute_url [OF src [unfolded UrlSource] ev]
    have ok: "playable E u"
      using normalizeSource_UrlSource [OF src [unfolded UrlSource]] isHttpUrl_no_dash
      unfolding playable_def by blast
    obtain ev' where e: "fst (execute E s payload) = [ev']" "allowedCall s (\<lambda>x. x = u) ev'"
      using ev executeFromUrl_calls [of E s u payload] unfolding x by auto
    have "allowedCall s (playable E) ev'" using allowedCall_mono [OF e(2)] ok by simp
    then show ?thesis using e ev src UrlSource by simp
  qed
qed

definition sampleOut :: outEnv where
  "sampleOut =
     \<lparr>oe_cwd = ''/app'', oe_root = ''/app/public/audio'', oe_srcRoot = ''/app/src/public/audio'',
      oe_fileExists = (\<lambda>_. True), oe_sidecar = (\<lambda>_. None), oe_config = JObj [], oe_wsl = False,
      oe_aborted = False, oe_play = (\<lambda>_ _ _. None), oe_api = (\<lambda>_. Inr JNull), oe_timestamp = JNull\<rparr>"

definition samplePayload :: json where
  "samplePayload = JObj [(''source'', JObj [(''path'', JStr ''custom/a.mp3'')])]"

theorem execute_safe_witness:
  "fst (execute sampleOut Local samplePayload) = [Play ''mpg123'' [] ''/app/public/audio/custom/a.mp3''] \<and>
   playable sampleOut ''/app/public/audio/custom/a.mp3''"
proof -
  have r: "fst (execute sampleOut Local samplePayload) = [Play ''mpg123'' [] ''/app/public/audio/custom/a.mp3'']"
    by code_simp
  then have "Play ''mpg123'' [] ''/app/public/audio/custom/a.mp3'' \<in> set (fst (execute sampleOut Local samplePayload))"
    by simp
  from execute_safe [OF this] r show ?thesis by (simp add: playerCall_def)
qed

section \<open>Asset limits\<close>

lemma limitIssue_Nil:
  "limitIssue m k sc mx f = [] \<longleftrightarrow> (\<forall>q. jget m k = JNum q \<longrightarrow> q = 0 \<or> q / sc \<le> mx)"
  by (auto simp: limitIssue_def not_less split: json.splits)

definition supportedFormat :: "json \<Rightarrow> bool" where
  "supportedFormat m =
     (if truthy (jget m ''mimeType'') then jget m ''mimeType'' \<in> JStr ` set allowedMimeTypes
      else knownFormat (toLowerCase (the_str (jget m ''format''))) (toLowerCase (the_str (jget m ''codec''))))"

text \<open>
  An asset is reported valid for VoiceMonkey exactly when its format is supported (by MIME
  type, or by format and codec names without one) and none of the numbers present exceeds its
  limit: 1411.2 kbit/s, 48 kHz, 10 MiB and 240 s. The other strategies accept every asset.
\<close>

theorem validateAsset_valid:
  "jget (validateAsset s t m) ''valid'' = JBool True \<longleftrightarrow>
     s \<noteq> VoiceMonkey \<or>
     (supportedFormat m \<and>
      (\<forall>q. jget m ''bitrate'' = JNum q \<longrightarrow> q \<le> 1411200) \<and>
      (\<forall>q. jget m ''sampleRate'' = JNum q \<longrightarrow> q \<le> 48000) \<and>
      (\<forall>q. jget m ''size'' = JNum q \<longrightarrow> q \<le> 10 * 1024 * 1024) \<and>
      (\<forall>q. jget m ''duration'' = JNum q \<longrightarrow> q \<le> 240))"
proof (cases s)
  case VoiceMonkey
  have f: "formatIssues m = [] \<longleftrightarrow> supportedFormat m"
    by (simp add: formatIssues_def supportedFormat_def Let_def)
  show ?thesis
    using VoiceMonkey by (auto simp: getValidationIssues_def f limitIssue_Nil Let_def)
qed simp_all

definition sampleMeta :: json where
  "sampleMeta = JObj [(''mimeType'', JStr ''audio/mpeg''), (''bitrate'', JNum 128000), (''duration'', JNum 240)]"

theorem validateAsset_valid_witness:
  "jget (validateAsset VoiceMonkey JNull sampleMeta) ''valid'' = JBool True \<and>
   jget (validateAsset VoiceMonkey JNull (jput sampleMeta ''duration'' (JNum 241))) ''valid'' \<noteq> JBool True"
  unfolding validateAsset_valid
  by (simp add: sampleMeta_def supportedFormat_def allowedMimeTypes_def)

end
