(* ===== verification/Live_Log.thy ===== *)
theory Live_Log
  imports JS_Runtime
begin

text \<open>
  \<open>sseService.js\<close>, the stream of server-sent events with its log history, \<open>logger.js\<close>, the log
  files, and \<open>loggerInitializer.js\<close>, which sends every console message to the stream. The state
  of the stream is the list of connected responses, the history and, for every response, the
  frames written to it. Time stamps are arguments; so are the listing of the log directory and the
  file operations that fail.
\<close>

section \<open>The stream\<close>

datatype frame = Head | Retry | Event json | Heartbeat

record sseState =
  ss_clients :: "nat list"
  ss_history :: "json list"
  ss_written :: "nat \<Rightarrow> frame list"

definition MAX_HISTORY :: nat where
  "MAX_HISTORY = 1000"

definition writeFrames :: "nat \<Rightarrow> frame list \<Rightarrow> sseState \<Rightarrow> sseState" where
  "writeFrames c fs s = s\<lparr>ss_written := (ss_written s)(c := ss_written s c @ fs)\<rparr>"

definition broadcast :: "json \<Rightarrow> sseState \<Rightarrow> sseState" where
  "broadcast data s = fold (\<lambda>c. writeFrames c [Event data]) (ss_clients s) s"

definition logEntry :: "json \<Rightarrow> string \<Rightarrow> string \<Rightarrow> json" where
  "logEntry timestamp level message =
     JObj [(''timestamp'', timestamp), (''level'', JStr level), (''message'', JStr message)]"

definition logEvent :: "json \<Rightarrow> json" where
  "logEvent entry = JObj [(''type'', JStr ''LOG''), (''payload'', entry)]"

definition pushHistory :: "json \<Rightarrow> json list \<Rightarrow> json list" where
  "pushHistory entry h = (let h = h @ [entry] in if length h > MAX_HISTORY then tl h else h)"

definition sseLog :: "json \<Rightarrow> sseState \<Rightarrow> sseState" where
  "sseLog entry s = broadcast (logEvent entry) (s\<lparr>ss_history := pushHistory entry (ss_history s)\<rparr>)"

text \<open>The overridden \<open>console.log\<close>: a message reaches \<open>log\<close> with level \<open>info\<close>.\<close>

definition consoleLog :: "json \<Rightarrow> string \<Rightarrow> sseState \<Rightarrow> sseState" where
  "consoleLog timestamp message s = sseLog (logEntry timestamp ''info'' message) s"

definition countMessage :: "string \<Rightarrow> sseState \<Rightarrow> string" where
  "countMessage what s = ''[SSE] Client '' @ what @ ''. Total clients: '' @ nat_str (length (ss_clients s))"

definition addClient :: "json \<Rightarrow> nat \<Rightarrow> sseState \<Rightarrow> sseState" where
  "addClient timestamp res s =
     (let s = writeFrames res [Head, Retry] s;
          s = s\<lparr>ss_clients := ss_clients s @ [res]\<rparr>;
          s = consoleLog timestamp (countMessage ''connected'' s) s
      in writeFrames res (map (\<lambda>e. Event (logEvent e)) (ss_history s)) s)"

definition closeClient :: "json \<Rightarrow> nat \<Rightarrow> sseState \<Rightarrow> sseState" where
  "closeClient timestamp res s =
     (let s = s\<lparr>ss_clients := filter (\<lambda>c. c \<noteq> res) (ss_clients s)\<rparr>
      in consoleLog timestamp (countMessage ''disconnected'' s) s)"

definition heartbeat :: "sseState \<Rightarrow> sseState" where
  "heartbeat s = fold (\<lambda>c. writeFrames c [Heartbeat]) (ss_clients s) s"

definition sseInit :: sseState where
  "sseInit = \<lparr>ss_clients = [], ss_history = [], ss_written = (\<lambda>_. [])\<rparr>"

section \<open>Log files\<close>

definition MAX_FILES :: nat where
  "MAX_FILES = 10"

definition getLogFilePath :: "string \<Rightarrow> string \<Rightarrow> string" where
  "getLogFilePath LOG_DIR date = LOG_DIR @ ''/session-'' @ date @ ''.log''"

definition formatEntry :: "string \<Rightarrow> string \<Rightarrow> string \<Rightarrow> string" where
  "formatEntry timestamp level message =
     ''['' @ timestamp @ ''] ['' @ toUpperCase level @ ''] '' @ message @ nl"

text \<open>\<open>appendFile\<close> creates the file when there is none; a failing write is ignored.\<close>

definition writeToFile ::
  "string \<Rightarrow> string \<Rightarrow> bool \<Rightarrow> string \<Rightarrow> string \<Rightarrow> string \<Rightarrow> (string \<rightharpoonup> string) \<Rightarrow> (string \<rightharpoonup> string)" where
  "writeToFile LOG_DIR date fails timestamp level message files =
     (let p = getLogFilePath LOG_DIR date in
      if fails then files
      else files(p \<mapsto> (case files p of Some c \<Rightarrow> c | None \<Rightarrow> []) @ formatEntry timestamp level message))"

text \<open>A directory entry: its name, its modification time unless \<open>stat\<close> fails, and whether it cannot be deleted.\<close>

record logFile =
  lf_name :: string
  lf_mtime :: "int option"
  lf_locked :: bool

definition isSessionLog :: "logFile \<Rightarrow> bool" where
  "isSessionLog f = (startsWith (lf_name f) ''session-'' \<and> endsWith (lf_name f) ''.log'' \<and> lf_mtime f \<noteq> None)"

definition newestFirst :: "logFile list \<Rightarrow> logFile list" where
  "newestFirst files = sort_key (\<lambda>f. - the (lf_mtime f)) (filter isSessionLog files)"

definition rotateLogs :: "logFile list \<Rightarrow> logFile list" where
  "rotateLogs files =
     (let toDelete = drop MAX_FILES (newestFirst files) in
      filter (\<lambda>f. f \<notin> set toDelete \<or> lf_locked f) files)"

section \<open>Steps\<close>

definition lastN :: "nat \<Rightarrow> 'a list \<Rightarrow> 'a list" where
  "lastN n xs = drop (length xs - n) xs"

text \<open>The log entries among the frames of a response.\<close>

definition loggedFrame :: "frame \<Rightarrow> json list" where
  "loggedFrame f =
     (case f of Event d \<Rightarrow> (if jget d ''type'' = JStr ''LOG'' then [jget d ''payload''] else []) | _ \<Rightarrow> [])"

definition logsOf :: "frame list \<Rightarrow> json list" where
  "logsOf fs = concat (map loggedFrame fs)"

text \<open>
  The reachable states, with the unbounded log of all entries so far and, for every response that
  was ever connected, the length of that log when it was: every request brings a response of its
  own, and the events other services publish have types of their own.
\<close>

inductive sse_trace :: "sseState \<Rightarrow> json list \<Rightarrow> (nat \<rightharpoonup> nat) \<Rightarrow> bool" where
  start: "sse_trace sseInit [] Map.empty"
| log: "sse_trace s l j \<Longrightarrow> sse_trace (sseLog e s) (l @ [e]) j"
| connect: "sse_trace s l j \<Longrightarrow> c \<notin> dom j \<Longrightarrow>
    sse_trace (addClient t c s)
      (l @ [logEntry t ''info'' (countMessage ''connected'' (s\<lparr>ss_clients := ss_clients s @ [c]\<rparr>))]) (j(c \<mapsto> length l + 1))"
| close: "sse_trace s l j \<Longrightarrow>
    sse_trace (closeClient t c s)
      (l @ [logEntry t ''info'' (countMessage ''disconnected'' (s\<lparr>ss_clients := filter (\<lambda>x. x \<noteq> c) (ss_clients s)\<rparr>))]) j"
| publish: "sse_trace s l j \<Longrightarrow> jget d ''type'' \<noteq> JStr ''LOG'' \<Longrightarrow> sse_trace (broadcast d s) l j"
| beat: "sse_trace s l j \<Longrightarrow> sse_trace (heartbeat s) l j"

lemma lastN_length: "length (lastN n xs) \<le> n"
  by (simp add: lastN_def)

lemma pushHistory_lastN: "pushHistory e (lastN MAX_HISTORY l) = lastN MAX_HISTORY (l @ [e])"
proof (cases "length l < MAX_HISTORY")
  case False
  have m: "Suc 0 - MAX_HISTORY = 0" "0 < MAX_HISTORY" by (simp_all add: MAX_HISTORY_def)
  have "drop (length l - MAX_HISTORY) l \<noteq> []" "Suc (length l) - MAX_HISTORY = Suc (length l - MAX_HISTORY)"
    using False m(2) by auto
  with False m show ?thesis by (simp add: pushHistory_def lastN_def Let_def drop_Suc tl_drop)
qed (simp add: pushHistory_def lastN_def)

lemma logsOf_simps [simp]:
  "logsOf [] = []" "logsOf (fs @ gs) = logsOf fs @ logsOf gs" "logsOf (Head # fs) = logsOf fs"
  "logsOf (Retry # fs) = logsOf fs" "logsOf (Heartbeat # fs) = logsOf fs" "logsOf (Event (logEvent e) # fs) = e # logsOf fs"
  by (simp_all add: logsOf_def loggedFrame_def logEvent_def)

lemma logsOf_history: "logsOf (map (\<lambda>e. Event (logEvent e)) es) = es"
  by (induction es) simp_all

lemma writeFrames_fields [simp]:
  "ss_clients (writeFrames c fs s) = ss_clients s" "ss_history (writeFrames c fs s) = ss_history s"
  "ss_written (writeFrames c fs s) x = ss_written s x @ (if x = c then fs else [])"
  by (simp_all add: writeFrames_def)

lemma fold_writeFrames:
  assumes "distinct cs"
  shows "ss_clients (fold (\<lambda>c. writeFrames c fs) cs s) = ss_clients s"
    "ss_history (fold (\<lambda>c. writeFrames c fs) cs s) = ss_history s"
    "ss_written (fold (\<lambda>c. writeFrames c fs) cs s) x = ss_written s x @ (if x \<in> set cs then fs else [])"
  using assms by (induction cs arbitrary: s) auto

text \<open>What a client that joined when the log had \<open>n\<close> entries has seen of it.\<close>

definition seen :: "json list \<Rightarrow> nat \<Rightarrow> json list \<Rightarrow> bool" where
  "seen l n es \<longleftrightarrow> 0 < n \<and> n \<le> length l \<and> es = l ! (n - 1) # lastN MAX_HISTORY (take n l) @ drop n l"

lemma seen_later: "seen l n es \<Longrightarrow> seen (l @ [e]) n (es @ [e])"
  by (auto simp: seen_def nth_append)

lemma seen_joining: "seen (l @ [e]) (Suc (length l)) (e # lastN MAX_HISTORY (l @ [e]))"
  by (simp add: seen_def nth_append)

text \<open>The invariant of a trace.\<close>

definition stream_inv :: "sseState \<Rightarrow> json list \<Rightarrow> (nat \<rightharpoonup> nat) \<Rightarrow> bool" where
  "stream_inv s l j \<longleftrightarrow>
     ss_history s = lastN MAX_HISTORY l \<and> distinct (ss_clients s) \<and>
     (\<forall>c. c \<notin> dom j \<longrightarrow> ss_written s c = []) \<and>
     (\<forall>c \<in> set (ss_clients s). \<exists>n. j c = Some n \<and> seen l n (logsOf (ss_written s c)))"

lemma stream_inv_log:
  assumes "stream_inv s l j"
  shows "stream_inv (sseLog e s) (l @ [e]) j"
proof -
  have w: "ss_written (sseLog e s) c = ss_written s c @ (if c \<in> set (ss_clients s) then [Event (logEvent e)] else [])"
    "ss_clients (sseLog e s) = ss_clients s" "ss_history (sseLog e s) = pushHistory e (ss_history s)" for c
    using assms by (simp_all add: stream_inv_def sseLog_def broadcast_def fold_writeFrames)
  have "\<exists>n. j c = Some n \<and> seen (l @ [e]) n (logsOf (ss_written (sseLog e s) c))" if "c \<in> set (ss_clients s)" for c
    using assms that seen_later unfolding stream_inv_def by (fastforce simp: w)
  with assms w show ?thesis by (auto simp: stream_inv_def pushHistory_lastN)
qed

lemma stream_inv_quiet:
  assumes "stream_inv s l j" "logsOf fs = []"
  shows "stream_inv (fold (\<lambda>c. writeFrames c fs) (ss_clients s) s) l j"
  using assms by (auto simp: stream_inv_def fold_writeFrames)

lemma stream_inv_close:
  "stream_inv s l j \<Longrightarrow> stream_inv (s\<lparr>ss_clients := filter (\<lambda>x. x \<noteq> c) (ss_clients s)\<rparr>) l j"
  by (auto simp: stream_inv_def)

lemma stream_inv_connect:
  assumes "stream_inv s l j" "c \<notin> dom j"
  shows "stream_inv (addClient t c s)
      (l @ [logEntry t ''info'' (countMessage ''connected'' (s\<lparr>ss_clients := ss_clients s @ [c]\<rparr>))]) (j(c \<mapsto> length l + 1))"
proof -
  have c: "c \<notin> set (ss_clients s)" "ss_written s c = []" using assms by (auto simp: stream_inv_def)
  let ?s = "(writeFrames c [Head, Retry] s)\<lparr>ss_clients := ss_clients s @ [c]\<rparr>"
  let ?e = "logEntry t ''info'' (countMessage ''connected'' (s\<lparr>ss_clients := ss_clients s @ [c]\<rparr>))"
  have d: "distinct (ss_clients s @ [c])" using assms(1) c by (simp add: stream_inv_def)
  have m: "countMessage ''connected'' ?s = countMessage ''connected'' (s\<lparr>ss_clients := ss_clients s @ [c]\<rparr>)"
    by (simp add: countMessage_def)
  have h: "ss_history (addClient t c s) = lastN MAX_HISTORY (l @ [?e])" "ss_clients (addClient t c s) = ss_clients s @ [c]"
    "logsOf (ss_written (addClient t c s) c) = ?e # lastN MAX_HISTORY (l @ [?e])"
    "x \<noteq> c \<Longrightarrow> ss_written (addClient t c s) x = ss_written s x @ (if x \<in> set (ss_clients s) then [Event (logEvent ?e)] else [])" for x
    using assms(1) c d
    by (simp_all add: addClient_def consoleLog_def sseLog_def broadcast_def Let_def fold_writeFrames m logsOf_history
        stream_inv_def pushHistory_lastN)
  have old: "\<exists>n. j x = Some n \<and> seen (l @ [?e]) n (logsOf (ss_written (addClient t c s) x))" if "x \<in> set (ss_clients s)" for x
  proof -
    obtain n where n: "j x = Some n" "seen l n (logsOf (ss_written s x))" using assms(1) \<open>x \<in> _\<close> by (auto simp: stream_inv_def)
    have "x \<noteq> c" using that c by auto
    with n that show ?thesis using h(4) seen_later [OF n(2)] by simp
  qed
  have fresh: "ss_written (addClient t c s) x = []" if "x \<notin> dom j" "x \<noteq> c" for x
    using h(4) [of x] that assms(1) by (auto simp: stream_inv_def)
  show ?thesis
    unfolding stream_inv_def h(1,2)
    using d fresh old c(1) h(3) seen_joining [of l ?e] by auto
qed

lemma trace_inv: "sse_trace s l j \<Longrightarrow> stream_inv s l j"
proof (induction rule: sse_trace.induct)
  case start
  then show ?case by (simp add: stream_inv_def sseInit_def lastN_def)
next
  case (log s l j e)
  then show ?case by (simp add: stream_inv_log)
next
  case (connect s l j c t)
  then show ?case by (intro stream_inv_connect)
next
  case (close s l j t c)
  then show ?case unfolding closeClient_def consoleLog_def Let_def by (intro stream_inv_log stream_inv_close)
next
  case (publish s l j d)
  then show ?case unfolding broadcast_def by (intro stream_inv_quiet) (simp_all add: logsOf_def loggedFrame_def)
next
  case (beat s l j)
  then show ?case unfolding heartbeat_def by (intro stream_inv_quiet) simp_all
qed


definition noon :: json where
  "noon = JStr ''12:00''"


section \<open>Rotation\<close>

lemma sorted_take_drop:
  assumes "sorted (map g xs)" "x \<in> set (take n xs)" "y \<in> set (drop n xs)"
  shows "g x \<le> g y"
proof -
  have "sorted (map g (take n xs) @ map g (drop n xs))"
    using assms(1) by (metis append_take_drop_id map_append)
  then show ?thesis using assms(2,3) by (auto simp: sorted_append)
qed

lemma rotateLogs_newest:
  assumes "distinct files" "\<forall>f \<in> set files. \<not> lf_locked f"
  shows "length (filter isSessionLog (rotateLogs files)) = min MAX_FILES (length (filter isSessionLog files))"
    "\<lbrakk>f \<in> set files; isSessionLog f; f \<notin> set (rotateLogs files); g \<in> set (rotateLogs files); isSessionLog g\<rbrakk>
      \<Longrightarrow> the (lf_mtime f) \<le> the (lf_mtime g)"
    "\<lbrakk>f \<in> set files; \<not> isSessionLog f\<rbrakk> \<Longrightarrow> f \<in> set (rotateLogs files)"
proof -
  let ?s = "newestFirst files"
  have mem: "set ?s = {f \<in> set files. isSessionLog f}" and d: "distinct ?s" and len: "length ?s = length (filter isSessionLog files)"
    using assms(1) by (simp_all add: newestFirst_def)
  have kept: "set (rotateLogs files) = set files - set (drop MAX_FILES ?s)"
    using assms(2) by (auto simp: rotateLogs_def Let_def)
  have split: "set (take MAX_FILES ?s) \<inter> set (drop MAX_FILES ?s) = {}" "set (take MAX_FILES ?s) \<union> set (drop MAX_FILES ?s) = set ?s"
    using d set_append [of "take MAX_FILES ?s" "drop MAX_FILES ?s"] by (auto simp: set_take_disj_set_drop_if_distinct)
  have logs: "set (filter isSessionLog (rotateLogs files)) = set (take MAX_FILES ?s)"
    using kept mem split by auto
  have "distinct (filter isSessionLog (rotateLogs files))" using assms(1) by (simp add: rotateLogs_def Let_def)
  then show "length (filter isSessionLog (rotateLogs files)) = min MAX_FILES (length (filter isSessionLog files))"
    using logs d len by (metis distinct_card distinct_take length_take min.commute)
  show "f \<in> set (rotateLogs files)" if "f \<in> set files" "\<not> isSessionLog f"
    using that kept mem set_drop_subset [of MAX_FILES ?s] by blast
  assume f: "f \<in> set files" "isSessionLog f" "f \<notin> set (rotateLogs files)" and g: "g \<in> set (rotateLogs files)" "isSessionLog g"
  then have "f \<in> set (drop MAX_FILES ?s)" "g \<in> set (take MAX_FILES ?s)" using kept logs by auto
  then show "the (lf_mtime f) \<le> the (lf_mtime g)"
    using sorted_take_drop [of "\<lambda>f. - the (lf_mtime f)" ?s g MAX_FILES f] by (simp add: newestFirst_def)
qed

end
