(* ===== verification/Masking.thy ===== *)
theory Masking
  imports Config_Secrets
begin

text \<open>
  Secrets at the HTTP boundary: \<open>_maskSecrets\<close> and \<open>getPublicSettings\<close> of
  \<open>src/src/controllers/settingsController.js\<close>, and \<open>src/src/utils/configUnmasker.js\<close>, which
  restores masked values of an incoming configuration from the current one.
\<close>

section \<open>\<open>_maskSecrets\<close>\<close>

definition maskKeys :: "string list \<Rightarrow> json \<Rightarrow> json" where
  "maskKeys ks x = fold (\<lambda>k p. if truthy (jget p k) then jput p k (JStr mask) else p) ks x"

definition maskOutput :: "outputRegistry \<Rightarrow> string \<Rightarrow> json \<Rightarrow> json" where
  "maskOutput reg i oc =
     (case getStrategy reg i of
        Inl _ \<Rightarrow> oc
      | Inr m \<Rightarrow> jupd ''params'' (\<lambda>p. if truthy p then maskKeys (sensitiveKeys (om_params m)) p else p) oc)"

definition maskSource :: "providerRegistry \<Rightarrow> json \<Rightarrow> json" where
  "maskSource preg source =
     (if truthy source \<and> truthy (jget source ''type'')
      then (case getProviderClass preg (jget source ''type'') of
              Inl _ \<Rightarrow> source
            | Inr m \<Rightarrow> maskKeys (sensitiveKeys (pv_parameters m)) source)
      else source)"

definition maskSecrets :: "outputRegistry \<Rightarrow> providerRegistry \<Rightarrow> json \<Rightarrow> json" where
  "maskSecrets reg preg obj =
     fold (\<lambda>role. mapSource role (maskSource preg)) roles (mapOutputs (maskOutput reg) obj)"

section \<open>\<open>configUnmasker\<close>\<close>

definition unmaskKeys :: "(string \<Rightarrow> json) \<Rightarrow> string list \<Rightarrow> json \<Rightarrow> json" where
  "unmaskKeys cur ks x =
     fold (\<lambda>k p. if isMasked (jget p k)
                 then (if truthy (cur k) then jput p k (cur k) else jdel p k) else p) ks x"

definition unmaskParams :: "outputRegistry \<Rightarrow> string \<Rightarrow> json \<Rightarrow> json \<Rightarrow> json" where
  "unmaskParams reg strategyId currentConfig params =
     (if \<not> typeof_object params then params
      else case getStrategy reg strategyId of
        Inl _ \<Rightarrow> params
      | Inr m \<Rightarrow> unmaskKeys (\<lambda>k. jget (paramsOf currentConfig strategyId) k) (sensitiveKeys (om_params m)) params)"

definition unmaskSource :: "providerRegistry \<Rightarrow> json \<Rightarrow> string \<Rightarrow> json \<Rightarrow> json" where
  "unmaskSource preg currentConfig role source =
     (if truthy source \<and> truthy (jget source ''type'')
      then (case getProviderClass preg (jget source ''type'') of
              Inl _ \<Rightarrow> source
            | Inr m \<Rightarrow> unmaskKeys (\<lambda>k. jget (sourceOf currentConfig role) k) (sensitiveKeys (pv_parameters m)) source)
      else source)"

text \<open>Reading \<open>params\<close> of an output that is null throws.\<close>

definition unmaskSecrets :: "outputRegistry \<Rightarrow> providerRegistry \<Rightarrow> json \<Rightarrow> json \<Rightarrow> json res" where
  "unmaskSecrets reg preg newConfig currentConfig =
     bindR (getProp newConfig ''automation'') (\<lambda>_.
     if truthy (outputsOf newConfig) \<and>
        (\<exists>kv \<in> set (entries (outputsOf newConfig)). snd kv = JUndef \<or> snd kv = JNull)
     then Inl (TypeError ''Cannot read properties (reading params)'')
     else Inr (fold (\<lambda>role. mapSource role (unmaskSource preg currentConfig role)) roles
                 (mapOutputs (\<lambda>i. jupd ''params'' (unmaskParams reg i currentConfig)) newConfig)))"

section \<open>\<open>getPublicSettings\<close>\<close>

definition dropSecret :: "string \<times> string \<Rightarrow> json \<Rightarrow> json" where
  "dropSecret sk automation =
     jupd ''outputs'' (jupd (fst sk) (jupd ''params''
       (\<lambda>p. if truthy (jget p (snd sk)) then jdel p (snd sk) else p))) automation"

definition publicSettings :: "outputRegistry \<Rightarrow> json \<Rightarrow> json" where
  "publicSettings reg fullConfig =
     (let automation = json_copy (orElse (jget fullConfig ''automation'') (JObj []));
          automation = (if truthy (jget automation ''outputs'')
                        then fold dropSecret (getSecretRequirementKeys reg) automation else automation);
          automation = jdel automation ''voiceMonkey''
      in JObj [(''location'', jget fullConfig ''location''), (''prayers'', jget fullConfig ''prayers''),
               (''sources'', jget fullConfig ''sources''), (''automation'', automation),
               (''system'', JObj [(''tours'', jget (jget fullConfig ''system'') ''tours'')])])"

section \<open>Masking and unmasking\<close>

definition maskVal :: "json \<Rightarrow> json" where
  "maskVal v = (if truthy v then JStr mask else v)"

lemma maskVal_undef [simp]: "maskVal JUndef = JUndef"
  by (simp add: maskVal_def)

lemma fold_jupd:
  assumes "distinct ks"
  shows "fold (\<lambda>k. jupd k (h k)) ks x = map_entries (\<lambda>k v. if k \<in> set ks then h k v else v) x"
  using assms
proof (induction ks arbitrary: x)
  case (Cons k ks)
  then show ?case
    unfolding jupd_def by (auto simp: map_entries_comp intro!: map_entries_cong)
qed (simp add: map_entries_id)

lemma fold_cong_inv:
  assumes "P x" "\<And>k y. k \<in> set ks \<Longrightarrow> P y \<Longrightarrow> f k y = g k y \<and> P (g k y)"
  shows "fold f ks x = fold g ks x"
  using assms by (induction ks arbitrary: x) auto

lemma maskKeys_map:
  assumes "is_object x" "wf_json x" "distinct ks"
  shows "maskKeys ks x = map_entries (\<lambda>k v. if k \<in> set ks then maskVal v else v) x"
proof -
  have "maskKeys ks x = fold (\<lambda>k. jupd k maskVal) ks x"
    unfolding maskKeys_def
  proof (rule fold_cong_inv [where P = "\<lambda>y. is_object y \<and> wf_json y"])
    fix k y assume y: "is_object y \<and> wf_json y"
    have "jput y k (JStr mask) = jupd k maskVal y" if "truthy (jget y k)"
    proof -
      have "jget y k \<noteq> JUndef" using that by auto
      then have "jput y k (JStr mask) = jupd k (\<lambda>_. JStr mask) y" using y jput_jupd by blast
      also have "\<dots> = jupd k maskVal y" using y that by (intro jupd_cong) (simp_all add: maskVal_def)
      finally show ?thesis .
    qed
    moreover have "jupd k maskVal y = y" if "\<not> truthy (jget y k)"
      using y that by (intro jupd_fixed) (simp_all add: maskVal_def)
    moreover have "wf_json (jupd k maskVal y)"
      using y by (intro wf_jupd) (simp_all add: maskVal_def)
    ultimately show "(if truthy (jget y k) then jput y k (JStr mask) else y) = jupd k maskVal y \<and>
        is_object (jupd k maskVal y) \<and> wf_json (jupd k maskVal y)" using y by simp
  qed (use assms in simp)
  then show ?thesis using fold_jupd [OF assms(3)] by simp
qed

lemma unmask_maskKeys:
  assumes "is_object x" "wf_json x" "distinct ks"
  shows "unmaskKeys (jget x) ks (maskKeys ks x) = x"
proof -
  let ?u = "\<lambda>k v. if isMasked v then jget x k else v"
  let ?P = "\<lambda>y. is_object y \<and> wf_json y \<and> (\<forall>k. isMasked (jget y k) \<longrightarrow> truthy (jget x k))"
  let ?m = "map_entries (\<lambda>k v. if k \<in> set ks then maskVal v else v) x"
  have u: "?u k JUndef = JUndef" for k by (simp add: isMasked_def)
  have "unmaskKeys (jget x) ks (maskKeys ks x) = fold (\<lambda>k. jupd k (?u k)) ks ?m"
    unfolding unmaskKeys_def maskKeys_map [OF assms]
  proof (rule fold_cong_inv [where P = ?P])
    have "wf_json ?m" using assms(2) by (rule wf_map_entries) (simp add: maskVal_def)
    moreover have "truthy (jget x k)" if "isMasked (jget ?m k)" for k
      using that assms(1) by (auto simp: jget_map_entries maskVal_def isMasked_def mask_def split: if_splits)
    ultimately show "?P ?m" using assms(1) by simp
  next
    fix k y assume y: "?P y"
    have "jput y k (jget x k) = jupd k (?u k) y" if "isMasked (jget y k)"
    proof -
      have "jget y k \<noteq> JUndef" using that by (auto simp: isMasked_def)
      then have "jput y k (jget x k) = jupd k (\<lambda>_. jget x k) y" using y jput_jupd by blast
      also have "\<dots> = jupd k (?u k) y" using y that by (intro jupd_cong) simp_all
      finally show ?thesis .
    qed
    moreover have "jupd k (?u k) y = y" if "\<not> isMasked (jget y k)"
      using y that by (intro jupd_fixed) simp_all
    moreover have "wf_json (jupd k (?u k) y)"
      using y wf_jget [OF assms(2)] by (intro wf_jupd) simp_all
    moreover have "isMasked (jget (jupd k (?u k) y) k') \<longrightarrow> truthy (jget x k')" for k'
      using y u by (auto simp: jget_jupd optObj_is_object split: if_splits)
    ultimately show "(if isMasked (jget y k) then if truthy (jget x k) then jput y k (jget x k) else jdel y k else y) =
        jupd k (?u k) y \<and> ?P (jupd k (?u k) y)" using y by simp
  qed
  also have "\<dots> = x"
    unfolding fold_jupd [OF assms(3)] map_entries_comp
  proof (rule map_entries_fixed)
    fix k v assume "(k, v) \<in> set (entries x)"
    then have "jget x k = v" using assms entries_jget_obj by blast
    then show "(if k \<in> set ks then ?u k (if k \<in> set ks then maskVal v else v)
        else if k \<in> set ks then maskVal v else v) = v" by (simp add: maskVal_def isMasked_def)
  qed
  finally show ?thesis .
qed

definition registriesReady :: "outputRegistry \<Rightarrow> providerRegistry \<Rightarrow> bool" where
  "registriesReady reg preg =
     ((\<forall>(i, m) \<in> set reg. distinct (sensitiveKeys (om_params m))) \<and>
      (\<forall>(t, p) \<in> set preg. distinct (sensitiveKeys (pv_parameters p)) \<and>
         ''type'' \<notin> set (sensitiveKeys (pv_parameters p))))"

lemma registriesReadyD:
  assumes "registriesReady reg preg"
  shows "getStrategy reg i = Inr m \<Longrightarrow> distinct (sensitiveKeys (om_params m))"
    "getProviderClass preg t = Inr p \<Longrightarrow> distinct (sensitiveKeys (pv_parameters p)) \<and>
       ''type'' \<notin> set (sensitiveKeys (pv_parameters p))"
  using assms
  by (auto simp: registriesReady_def getStrategy_Inr getProviderClass_def
      split: json.splits option.splits dest!: map_of_SomeD)

lemma maskKeys_get:
  assumes "optObj x" "wf_json x" "distinct ks"
  shows "jget (maskKeys ks x) k = (if k \<in> set ks then maskVal (jget x k) else jget x k)"
proof (cases "is_object x")
  case True
  then show ?thesis using assms by (simp add: maskKeys_map jget_map_entries)
next
  case False
  then have "x = JUndef" using assms(1) by (simp add: optObj_def)
  moreover have "maskKeys ks JUndef = JUndef" for ks
    unfolding maskKeys_def by (induction ks) auto
  ultimately show ?thesis by simp
qed

lemma maskKeys_undef [simp]: "maskKeys ks JUndef = JUndef"
  unfolding maskKeys_def by (induction ks) auto

lemma maskOutput_undef [simp]: "maskOutput reg i JUndef = JUndef"
  by (simp add: maskOutput_def split: sum.splits)

lemma maskSource_undef [simp]: "maskSource preg JUndef = JUndef"
  by (simp add: maskSource_def)

lemma maskKeys_shape: "is_object (maskKeys ks x) = is_object x \<and> (wf_json x \<longrightarrow> wf_json (maskKeys ks x))"
proof (induction ks arbitrary: x)
  case (Cons k ks)
  have "wf_json x \<Longrightarrow> wf_json (jput x k (JStr mask))" by (rule wf_jput) simp_all
  with Cons [of x] Cons [of "jput x k (JStr mask)"] show ?case by (simp add: maskKeys_def)
qed (simp add: maskKeys_def)

lemma optObj_maskKeys: "optObj x \<Longrightarrow> optObj (maskKeys ks x)"
  using maskKeys_shape [of ks x] by (auto simp: optObj_def)

lemma cfgShape_maskOutputs: "cfgShape c \<Longrightarrow> cfgShape (mapOutputs (maskOutput reg) c)"
proof (rule cfgShape_mapOutputs)
  fix i v
  assume "optObj v" "optObj (jget v ''params'')"
  then show "optObj (maskOutput reg i v) \<and> optObj (jget (maskOutput reg i v) ''params'')"
    by (simp add: maskOutput_def jget_jupd optObj_maskKeys split: sum.splits)
next
  fix i v
  assume "wf_json v"
  then show "wf_json (maskOutput reg i v)"
    using maskKeys_shape by (auto simp: maskOutput_def intro!: wf_jupd split: sum.splits)
qed

lemma cfgShape_maskSource: "cfgShape c \<Longrightarrow> cfgShape (mapSource r (maskSource preg) c)"
  by (rule cfgShape_mapSource)
     (use maskKeys_shape in \<open>auto simp: maskSource_def optObj_maskKeys split: sum.splits\<close>)

lemma maskSecrets_eq:
  "maskSecrets reg preg c = mapSource ''backup'' (maskSource preg)
     (mapSource ''primary'' (maskSource preg) (mapOutputs (maskOutput reg) c))"
  by (simp add: maskSecrets_def roles_def)

lemma masked_outputs_objects:
  assumes c: "cfgShape c" and nn: "\<forall>kv \<in> set (entries (outputsOf c)). snd kv \<noteq> JUndef"
    and kv: "kv \<in> set (entries (map_entries (maskOutput reg) (outputsOf c)))"
  shows "is_object (snd kv)"
proof -
  have m: "is_object v \<Longrightarrow> is_object (maskOutput reg i v)" for i v
    by (simp add: maskOutput_def split: sum.splits)
  have all: "\<forall>kv \<in> set (entries (outputsOf c)). is_object (snd kv)"
    using c nn by (auto simp: cfgShape_def list_all_iff optObj_def)
  show ?thesis
  proof (cases "outputsOf c")
    case (JObj kvs)
    with kv all m show ?thesis by auto
  qed (use kv cfgShapeD(4) [OF c] in \<open>auto simp: optObj_def\<close>)
qed

lemma output_unmask:
  assumes ready: "registriesReady reg preg" and c: "cfgShape c"
  shows "jupd ''params'' (unmaskParams reg i c) (maskOutput reg i (outputOf c i)) = outputOf c i"
proof (cases "getStrategy reg i")
  case (Inl e)
  have "unmaskParams reg i c p = p" for p by (simp add: unmaskParams_def Inl)
  then have "jupd ''params'' (unmaskParams reg i c) x = x" for x
    unfolding jupd_def by (intro map_entries_fixed) simp
  then show ?thesis by (simp add: maskOutput_def Inl)
next
  case (Inr m)
  note sh = cfgShapeD [OF c]
  let ?ks = "sensitiveKeys (om_params m)" and ?p = "paramsOf c i"
  have wf: "wf_json ?p" "wf_json (outputOf c i)" using sh(2) by (simp_all only: wf_jget)
  have d: "distinct ?ks" using registriesReadyD(1) [OF ready Inr] .
  have "unmaskParams reg i c (if truthy ?p then maskKeys ?ks ?p else ?p) = ?p"
  proof (cases "is_object ?p")
    case True
    then have "typeof_object (maskKeys ?ks ?p)"
      using maskKeys_shape [of ?ks ?p] by (cases "maskKeys ?ks ?p") auto
    with True show ?thesis
      using unmask_maskKeys [OF True wf(1) d] Inr by (simp add: unmaskParams_def is_object_truthy)
  next
    case False
    with sh(7) [of i] have "?p = JUndef" by (simp add: optObj_def)
    then show ?thesis by (simp add: unmaskParams_def)
  qed
  then have "jupd ''params'' (\<lambda>p. unmaskParams reg i c (if truthy p then maskKeys ?ks p else p)) (outputOf c i) = outputOf c i"
    using wf(2) sh(6) by (intro jupd_fixed_opt)
  then show ?thesis by (simp add: maskOutput_def Inr jupd_comp)
qed

lemma source_unmask:
  assumes ready: "registriesReady reg preg" and c: "cfgShape c"
  shows "unmaskSource preg c r (maskSource preg (sourceOf c r)) = sourceOf c r"
proof (cases "truthy (sourceOf c r) \<and> truthy (jget (sourceOf c r) ''type'')")
  case True
  note sh = cfgShapeD [OF c]
  show ?thesis
  proof (cases "getProviderClass preg (jget (sourceOf c r) ''type'')")
    case (Inr m)
    let ?ks = "sensitiveKeys (pv_parameters m)" and ?s = "sourceOf c r"
    have d: "distinct ?ks" "''type'' \<notin> set ?ks" using registriesReadyD(2) [OF ready Inr] by auto
    have s: "is_object ?s" "wf_json ?s"
      using True sh(8) [of r] optObj_truthy sh(2) by (auto simp only: wf_jget)
    have "truthy (maskKeys ?ks ?s)" using maskKeys_shape [of ?ks ?s] s(1) by (simp add: is_object_truthy)
    moreover have "jget (maskKeys ?ks ?s) ''type'' = jget ?s ''type''"
      using maskKeys_get [OF sh(8) s(2) d(1)] d(2) by simp
    ultimately show ?thesis
      using True Inr unmask_maskKeys [OF s d(1)] by (simp add: maskSource_def unmaskSource_def)
  qed (use True in \<open>simp add: maskSource_def unmaskSource_def\<close>)
qed (auto simp: maskSource_def unmaskSource_def)


lemma builtin_ready: "registriesReady builtinOutputs builtinProviders"
  by (simp add: registriesReady_def builtinOutputs_eq builtinProviders_eq sensitive_builtin)


section \<open>Public settings\<close>

lemma dropSecret_step:
  assumes "optObj (jget a ''outputs'')" "\<And>i. optObj (jget (jget a ''outputs'') i)"
    "\<And>i. optObj (jget (jget (jget a ''outputs'') i) ''params'')" "is_object a"
  shows "is_object (dropSecret sk a) \<and> optObj (jget (dropSecret sk a) ''outputs'') \<and>
    (\<forall>i. optObj (jget (jget (dropSecret sk a) ''outputs'') i)) \<and>
    (\<forall>i. optObj (jget (jget (jget (dropSecret sk a) ''outputs'') i) ''params'')) \<and>
    (\<forall>i k. jget (jget (jget (jget (dropSecret sk a) ''outputs'') i) ''params'') k =
       (if (i, k) = sk \<and> truthy (jget (jget (jget (jget a ''outputs'') i) ''params'') k) then JUndef
        else jget (jget (jget (jget a ''outputs'') i) ''params'') k))"
proof -
  let ?d = "\<lambda>p. if truthy (jget p (snd sk)) then jdel p (snd sk) else p"
  have d: "?d JUndef = JUndef" by simp
  have out: "jget (jget (dropSecret sk a) ''outputs'') i =
      (if i = fst sk then jupd ''params'' ?d (jget (jget a ''outputs'') i) else jget (jget a ''outputs'') i)" for i
    using assms by (simp add: dropSecret_def jget_jupd optObj_is_object)
  have par: "jget (jget (jget (dropSecret sk a) ''outputs'') i) ''params'' =
      (if i = fst sk then ?d (jget (jget (jget a ''outputs'') i) ''params'')
       else jget (jget (jget a ''outputs'') i) ''params'')" for i
    unfolding out using assms(2) [of i] d by (cases "i = fst sk") (simp_all add: jget_jupd del: if_split)
  have dd: "optObj p \<Longrightarrow> optObj (?d p)" for p by (auto simp: optObj_def)
  have gd: "optObj p \<Longrightarrow> jget (?d p) k = (if k = snd sk \<and> truthy (jget p k) then JUndef else jget p k)" for p k
    by (auto simp: optObj_def jget_jdel)
  have "is_object (dropSecret sk a) \<and> optObj (jget (dropSecret sk a) ''outputs'')"
    using assms by (simp add: dropSecret_def jget_jupd optObj_is_object)
  moreover have "optObj (jget (jget (dropSecret sk a) ''outputs'') i)" for i
    unfolding out using assms(2) by simp
  moreover have "optObj (jget (jget (jget (dropSecret sk a) ''outputs'') i) ''params'')" for i
    unfolding par using assms(3) [of i] dd [of "jget (jget (jget a ''outputs'') i) ''params''"]
    by (cases "i = fst sk") (simp_all del: if_split)
  moreover have "jget (jget (jget (jget (dropSecret sk a) ''outputs'') i) ''params'') k =
       (if (i, k) = sk \<and> truthy (jget (jget (jget (jget a ''outputs'') i) ''params'') k) then JUndef
        else jget (jget (jget (jget a ''outputs'') i) ''params'') k)" for i k
    unfolding par using gd [OF assms(3) [of i], of k]
    by (cases "i = fst sk") (simp_all add: prod_eq_iff del: if_split)
  ultimately show ?thesis by blast
qed

lemma dropSecrets:
  assumes "optObj (jget a ''outputs'')" "\<And>i. optObj (jget (jget a ''outputs'') i)"
    "\<And>i. optObj (jget (jget (jget a ''outputs'') i) ''params'')" "is_object a"
  shows "is_object (fold dropSecret sks a) \<and>
    (\<forall>i k. jget (jget (jget (jget (fold dropSecret sks a) ''outputs'') i) ''params'') k =
       (if (i, k) \<in> set sks \<and> truthy (jget (jget (jget (jget a ''outputs'') i) ''params'') k) then JUndef
        else jget (jget (jget (jget a ''outputs'') i) ''params'') k))"
  using assms
proof (induction sks arbitrary: a)
  case (Cons sk sks)
  note st = dropSecret_step [OF Cons.prems, of sk]
  have "is_object (fold dropSecret sks (dropSecret sk a)) \<and>
    (\<forall>i k. jget (jget (jget (jget (fold dropSecret sks (dropSecret sk a)) ''outputs'') i) ''params'') k =
       (if (i, k) \<in> set sks \<and> truthy (jget (jget (jget (jget (dropSecret sk a) ''outputs'') i) ''params'') k) then JUndef
        else jget (jget (jget (jget (dropSecret sk a) ''outputs'') i) ''params'') k))"
    by (rule Cons.IH) (use st in blast)+
  with st show ?case by auto
qed simp

text \<open>
  C35. Settings sent without authentication: whatever the configuration, no non-empty sensitive
  output parameter of a registered strategy is in the response, every other output parameter is
  the configured one, and the response has only the five public sections.
\<close>

theorem publicSettings_no_secrets:
  assumes reg: "distinct (map fst reg)" and c: "cfgShape c" and d: "defined (orElse (jget c ''automation'') (JObj []))"
  shows "jkeys (publicSettings reg c) = [''location'', ''prayers'', ''sources'', ''automation'', ''system''] \<and>
    (\<forall>i k m. getStrategy reg i = Inr m \<and> k \<in> set (sensitiveKeys (om_params m)) \<longrightarrow>
       \<not> truthy (jget (paramsOf (publicSettings reg c) i) k)) \<and>
    (\<forall>i k. (\<nexists>m. getStrategy reg i = Inr m \<and> k \<in> set (sensitiveKeys (om_params m))) \<longrightarrow>
       jget (paramsOf (publicSettings reg c) i) k = jget (paramsOf c i) k)"
proof -
  note sh = cfgShapeD [OF c]
  let ?a = "orElse (jget c ''automation'') (JObj [])"
  have a: "json_copy ?a = ?a" using d by (rule json_copy_defined)
  have oa: "is_object ?a" "jget ?a k = jget (jget c ''automation'') k" for k using sh(3) by simp_all
  define b where "b = (if truthy (jget ?a ''outputs'') then fold dropSecret (getSecretRequirementKeys reg) ?a else ?a)"
  have drop: "is_object b \<and> (\<forall>i k. jget (jget (jget (jget b ''outputs'') i) ''params'') k =
       (if (i, k) \<in> set (getSecretRequirementKeys reg) \<and> truthy (jget (paramsOf c i) k) then JUndef
        else jget (paramsOf c i) k))"
  proof (cases "truthy (jget ?a ''outputs'')")
    case True
    with dropSecrets [of ?a "getSecretRequirementKeys reg"] oa sh show ?thesis by (simp add: b_def)
  next
    case False
    then have "outputsOf c = JUndef" using sh(4) oa(2) by (auto simp: optObj_def is_object_truthy)
    with False oa show ?thesis by (simp add: b_def)
  qed
  then have "jget (paramsOf (publicSettings reg c) i) k =
      (if (i, k) \<in> set (getSecretRequirementKeys reg) \<and> truthy (jget (paramsOf c i) k) then JUndef
       else jget (paramsOf c i) k)" for i k
    by (simp add: publicSettings_def Let_def a b_def [symmetric])
  then show ?thesis
    unfolding secretKeys_iff [OF reg] by (auto simp: publicSettings_def Let_def)
qed

theorem publicSettings_no_secrets_witness:
  "\<not> truthy (jget (paramsOf (publicSettings builtinOutputs sampleConfig) ''voicemonkey'') ''token'')"
proof -
  have r: "distinct (map fst builtinOutputs)" by (simp add: builtinOutputs_eq)
  have d: "defined (orElse (jget sampleConfig ''automation'') (JObj []))"
    by (simp add: sampleConfig_def orElse_def)
  have "getStrategy builtinOutputs ''voicemonkey'' = Inr voiceMonkeyMeta"
    by (simp add: getStrategy_def builtinOutputs_eq)
  moreover have "''token'' \<in> set (sensitiveKeys (om_params voiceMonkeyMeta))"
    by (simp add: sensitive_builtin)
  ultimately show ?thesis using publicSettings_no_secrets [OF r sampleConfig_shape d] by blast
qed

end
