(* ===== verification/Storage.thy ===== *)
theory Storage
  imports Node_Paths Config_Fields
begin

text \<open>
  \<open>storageService.js\<close>, the size of the audio directories, the storage quota and the recommended
  limit, and \<open>storageCheck.js\<close>, the middleware that refuses uploads over the quota. A directory is
  the tree of its entries; symbolic links are leaves, because \<open>lstat\<close> does not follow them, and an
  entry or directory that cannot be read is one too. Sizes are exact, and so are the fractions of the
  recommended limit.
\<close>

section \<open>Directory sizes\<close>

datatype fsNode =
    File nat
  | Link
  | Dir "(string \<times> fsNode) list"
  | StatError
  | Unreadable

fun getDirSize :: "string \<Rightarrow> string \<Rightarrow> fsNode \<Rightarrow> string set \<Rightarrow> nat \<times> string set"
  and sizeFiles :: "string \<Rightarrow> string \<Rightarrow> (string \<times> fsNode) list \<Rightarrow> string set \<Rightarrow> nat \<times> string set" where
  "getDirSize cwd dirPath node visitedPaths =
     (let realPath = path_resolve cwd dirPath in
      if realPath \<in> visitedPaths then (0, visitedPaths)
      else case node of
        Dir files \<Rightarrow> sizeFiles cwd dirPath files (insert realPath visitedPaths)
      | _ \<Rightarrow> (0, insert realPath visitedPaths))"
| "sizeFiles cwd dirPath [] visitedPaths = (0, visitedPaths)"
| "sizeFiles cwd dirPath ((file, node) # files) visitedPaths =
     (let (n, visited) =
        (case node of
           StatError \<Rightarrow> (0, visitedPaths)
         | Link \<Rightarrow> (0, visitedPaths)
         | File n \<Rightarrow> (n, visitedPaths)
         | _ \<Rightarrow> getDirSize cwd (path_join dirPath file) node visitedPaths);
          (m, visited) = sizeFiles cwd dirPath files visited
      in (n + m, visited))"

section \<open>Quota\<close>

record storageEnv =
  se_cwd :: string
  se_audioDir :: string
  se_custom :: fsNode
  se_cache :: fsNode
  se_config :: "json res"

definition CUSTOM_DIR :: "storageEnv \<Rightarrow> string" where
  "CUSTOM_DIR E = path_join (se_audioDir E) ''custom''"

definition CACHE_DIR :: "storageEnv \<Rightarrow> string" where
  "CACHE_DIR E = path_join (se_audioDir E) ''cache''"

record usage =
  us_total :: nat
  us_custom :: nat
  us_cache :: nat

definition getUsage :: "storageEnv \<Rightarrow> usage" where
  "getUsage E =
     (let customSize = fst (getDirSize (se_cwd E) (CUSTOM_DIR E) (se_custom E) {});
          cacheSize = fst (getDirSize (se_cwd E) (CACHE_DIR E) (se_cache E) {})
      in \<lparr>us_total = customSize + cacheSize, us_custom = customSize, us_cache = cacheSize\<rparr>)"

text \<open>The free disk space a package reports, or null when it fails.\<close>

definition getSystemStats :: "json res \<Rightarrow> json" where
  "getSystemStats diskSpace = (case diskSpace of Inr d \<Rightarrow> jget d ''free'' | Inl _ \<Rightarrow> JNull)"

text \<open>\<open>None\<close> is \<open>NaN\<close>, which is larger than nothing.\<close>

definition limitBytes :: "json \<Rightarrow> rat option" where
  "limitBytes config =
     map_option (\<lambda>q. q * 1024 * 1024 * 1024) (to_number (orElse (jget (jget config ''data'') ''storageLimit'') (JNum 1)))"

definition quotaResult :: "bool \<Rightarrow> string \<Rightarrow> json" where
  "quotaResult success message = JObj [(''success'', JBool success), (''message'', JStr message)]"

definition checkQuota :: "storageEnv \<Rightarrow> int \<Rightarrow> json res" where
  "checkQuota E bytesToAdd =
     bindR (se_config E) (\<lambda>config.
       let totalAfter = of_nat (us_total (getUsage E)) + of_int bytesToAdd in
       Inr (case limitBytes config of
              Some l \<Rightarrow> if totalAfter > l then quotaResult False ''Storage Limit Exceeded''
                       else quotaResult True ''Quota check passed''
            | None \<Rightarrow> quotaResult True ''Quota check passed''))"

datatype gate = Next | TooLarge json

text \<open>\<open>None\<close> is a missing or unreadable \<open>content-length\<close>.\<close>

definition storageCheck :: "storageEnv \<Rightarrow> int option \<Rightarrow> gate" where
  "storageCheck E contentLength =
     (case contentLength of
        None \<Rightarrow> Next
      | Some n \<Rightarrow>
          (case checkQuota E n of
             Inl _ \<Rightarrow> Next
           | Inr quotaCheck \<Rightarrow>
               if \<not> truthy (jget quotaCheck ''success'')
               then TooLarge (JObj [(''error'', JStr ''Storage Limit Exceeded''),
                      (''message'', orElse (jget quotaCheck ''message'') (JStr ''The uploaded file would exceed the storage quota.''))])
               else Next))"

section \<open>Recommended limit\<close>

definition objectValues :: "json \<Rightarrow> json list res" where
  "objectValues v =
     (if v \<in> {JUndef, JNull} then Inl (TypeError ''Cannot convert undefined or null to object'')
      else Inr (map snd (entries v)))"

definition countEvent :: "json \<Rightarrow> nat \<times> nat \<Rightarrow> (nat \<times> nat) res" where
  "countEvent event counts =
     bindR (getProp event ''enabled'') (\<lambda>enabled.
       Inr (if \<not> truthy enabled then counts
            else if jget event ''type'' = JStr ''file'' then (fst counts + 1, snd counts)
            else if jget event ''type'' = JStr ''tts'' then (fst counts, snd counts + 1)
            else counts))"

definition recommendedBytes :: "nat \<times> nat \<Rightarrow> rat" where
  "recommendedBytes counts =
     (let estimatedBytes = (of_nat (fst counts) / 2 + of_nat (snd counts) / 10) * 1024 * 1024
      in estimatedBytes * 2 + 100 * 1024 * 1024)"

definition recommendedGB :: "rat \<Rightarrow> rat" where
  "recommendedGB bytes = max (1 / 2) (of_int \<lceil>bytes / (1024 * 1024 * 1024) * 10\<rceil> / 10)"

definition calculateRecommendedLimit :: "json \<Rightarrow> rat res" where
  "calculateRecommendedLimit config =
     (let triggers = jget (jget config ''automation'') ''triggers'' in
      if \<not> truthy triggers then Inr (1 / 2)
      else bindR (objectValues triggers) (\<lambda>prayers.
           bindR (foldR (\<lambda>p counts. bindR (objectValues p) (\<lambda>events. foldR countEvent events counts)) prayers (0, 0)) (\<lambda>counts.
           Inr (recommendedGB (recommendedBytes counts)))))"

section \<open>Sizes are the sums over the tree\<close>

text \<open>The sum of the sizes of the files, the specification of \<open>getDirSize\<close>.\<close>

fun treeSize :: "fsNode \<Rightarrow> nat" where
  "treeSize (File n) = n"
| "treeSize (Dir files) = sum_list (map (\<lambda>e. treeSize (snd e)) files)"
| "treeSize _ = 0"

fun wf_tree :: "fsNode \<Rightarrow> bool" where
  "wf_tree (Dir files) = (distinct (map fst files) \<and> (\<forall>e \<in> set files. ordinary (fst e) \<and> wf_tree (snd e)))"
| "wf_tree _ = True"

lemma norm_segs_snoc: "ordinary f \<Longrightarrow> norm_segs b acc (ss @ [f]) = norm_segs b acc ss @ [f]"
  by (induction b acc ss rule: norm_segs.induct) (auto simp: ordinary_def split: list.splits)

lemma split_on_snoc: "slash \<notin> set f \<Longrightarrow> split_on slash (p @ slash # f) = split_on slash p @ [f]"
  by (induction p) (auto simp: split_on_word split: list.splits)

lemma path_join_ordinary:
  assumes "isAbsolute p" "ordinary f"
  shows "isAbsolute (path_join p f)" "psegs (path_join p f) = psegs p @ [f]"
proof -
  have a: "isAbsolute (p @ slash # f)" using assms(1) by (auto simp: isAbsolute_def)
  then show "isAbsolute (path_join p f)" by (simp add: path_join_def isAbsolute_normalize)
  have "psegs (p @ slash # f) = psegs p @ [f]"
    using assms(2) by (simp add: psegs_def split_on_snoc norm_segs_snoc ordinary_def)
  then show "psegs (path_join p f) = psegs p @ [f]" using a by (simp add: path_join_def psegs_normalize)
qed

text \<open>No visited path lies at or below a list of segments.\<close>

definition freshBelow :: "string list \<Rightarrow> string set \<Rightarrow> bool" where
  "freshBelow segs visited \<longleftrightarrow> (\<forall>v \<in> visited. \<not> prefix segs (psegs v))"

lemma freshBelow_simps:
  "freshBelow segs {}"
  "freshBelow segs (insert v visited) \<longleftrightarrow> \<not> prefix segs (psegs v) \<and> freshBelow segs visited"
  by (auto simp: freshBelow_def)

lemma freshBelow_mono: "freshBelow segs visited \<Longrightarrow> prefix segs segs' \<Longrightarrow> freshBelow segs' visited"
  by (auto simp: freshBelow_def dest: prefix_order.trans)

lemma prefix_siblings: "prefix (xs @ [a]) zs \<Longrightarrow> prefix (xs @ [b]) zs \<Longrightarrow> a = b"
  by (auto simp: prefix_def)

lemma getDirSize_tree:
  "\<lbrakk>isAbsolute p; wf_tree node; freshBelow (psegs p) visited; \<forall>n. node \<noteq> File n\<rbrakk> \<Longrightarrow>
    fst (getDirSize cwd p node visited) = treeSize node \<and>
    (\<forall>v \<in> snd (getDirSize cwd p node visited). v \<in> visited \<or> prefix (psegs p) (psegs v))"
  "\<lbrakk>isAbsolute p; wf_tree (Dir files); \<forall>e \<in> set files. freshBelow (psegs p @ [fst e]) visited\<rbrakk> \<Longrightarrow>
    fst (sizeFiles cwd p files visited) = treeSize (Dir files) \<and>
    (\<forall>v \<in> snd (sizeFiles cwd p files visited). v \<in> visited \<or> (\<exists>e \<in> set files. prefix (psegs p @ [fst e]) (psegs v)))"
proof (induction cwd p node visited and cwd p files visited rule: getDirSize_sizeFiles.induct)
  case (1 cwd p node visited)
  have real: "path_resolve cwd p \<notin> visited" "psegs (path_resolve cwd p) = psegs p"
    using 1 by (auto simp: freshBelow_def psegs_resolve)
  show ?case
  proof (cases node)
    case (Dir files)
    then have "\<forall>e \<in> set files. freshBelow (psegs p @ [fst e]) (insert (path_resolve cwd p) visited)"
      using "1.prems"(3) real(2) by (auto simp: freshBelow_simps intro: freshBelow_mono)
    from 1(1) [OF refl real(1) Dir \<open>isAbsolute p\<close> _ this] show ?thesis
      using "1.prems"(2) Dir real by (fastforce simp: prefix_def)
  qed (use 1 real in auto)
next
  case (2 cwd p visited)
  then show ?case by simp
next
  case (3 cwd p f node files visited)
  have f: "ordinary f" "wf_tree node" "f \<notin> fst ` set files" "wf_tree (Dir files)" using "3.prems"(2) by auto
  note j = path_join_ordinary [OF \<open>isAbsolute p\<close> f(1)]
  have fresh: "freshBelow (psegs (path_join p f)) visited" using "3.prems"(3) j(2) by simp
  obtain n V where r: "(case node of StatError \<Rightarrow> (0, visited) | Link \<Rightarrow> (0, visited) | File n \<Rightarrow> (n, visited)
         | _ \<Rightarrow> getDirSize cwd (path_join p f) node visited) = (n, V)" by fastforce
  have n: "n = treeSize node \<and> (\<forall>v \<in> V. v \<in> visited \<or> prefix (psegs p @ [f]) (psegs v))"
  proof (cases node)
    case (Dir ds)
    with r have "getDirSize cwd (path_join p f) node visited = (n, V)" by (simp del: getDirSize.simps)
    with 3(1) [OF Dir j(1) f(2) fresh] Dir j(2) show ?thesis by (simp del: getDirSize.simps treeSize.simps)
  next
    case Unreadable
    with r have "getDirSize cwd (path_join p f) node visited = (n, V)" by (simp del: getDirSize.simps)
    with 3(2) [OF Unreadable j(1) f(2) fresh] Unreadable j(2) show ?thesis by (simp del: getDirSize.simps)
  qed (use r in auto)
  have "\<forall>e \<in> set files. freshBelow (psegs p @ [fst e]) V"
    using "3.prems"(3) n f(3) by (force simp: freshBelow_def dest: prefix_siblings)
  from 3(3) [OF r [symmetric] refl \<open>isAbsolute p\<close> f(4) this] show ?case
    using n r by (fastforce simp: case_prod_beta Let_def)
qed

lemma getDirSize_total:
  assumes "isAbsolute p" "wf_tree node" "\<forall>n. node \<noteq> File n"
  shows "fst (getDirSize cwd p node {}) = treeSize node"
  using getDirSize_tree(1) [OF assms(1,2) freshBelow_simps(1) assms(3)] by blast

text \<open>
  C40. The storage gate is exact: the usage is the sum of the sizes of the files below the two
  audio directories, each file counted once and links not followed; an upload whose length is known
  passes if and only if that sum and the upload together stay within the configured limit.
\<close>

theorem storageCheck_exact:
  assumes "isAbsolute (se_audioDir E)" "wf_tree (Dir cs)" "wf_tree (Dir ts)"
    and "se_custom E = Dir cs" "se_cache E = Dir ts"
    and "se_config E = Inr config" "jget (jget config ''data'') ''storageLimit'' = JNum gb" "gb \<noteq> 0"
  shows "us_total (getUsage E) = treeSize (Dir cs) + treeSize (Dir ts) \<and>
    (storageCheck E (Some n) = Next \<longleftrightarrow>
       of_nat (treeSize (Dir cs) + treeSize (Dir ts)) + of_int n \<le> gb * 2 ^ 30)"
proof -
  have "isAbsolute (CUSTOM_DIR E)" "isAbsolute (CACHE_DIR E)"
    using path_join_ordinary(1) [OF assms(1)] by (simp_all add: CUSTOM_DIR_def CACHE_DIR_def ordinary_def slash_def)
  then have u: "us_total (getUsage E) = treeSize (Dir cs) + treeSize (Dir ts)"
    using assms(2-5) by (simp add: getUsage_def getDirSize_total Let_def del: getDirSize.simps treeSize.simps wf_tree.simps)
  have "limitBytes config = Some (gb * 2 ^ 30)" using assms(7,8) by (simp add: limitBytes_def orElse_def)
  with u assms(6) show ?thesis
    by (auto simp: storageCheck_def checkQuota_def quotaResult_def not_less)
qed

definition sampleStore :: storageEnv where
  "sampleStore =
     \<lparr>se_cwd = ''/'', se_audioDir = ''/srv/audio'',
      se_custom = Dir [(''a.mp3'', File 100), (''loop'', Link), (''sub'', Dir [(''b.mp3'', File 50)])], se_cache = Dir [],
      se_config = Inr (JObj [(''data'', JObj [(''storageLimit'', JNum 1)])])\<rparr>"

theorem storageCheck_exact_witness:
  "us_total (getUsage sampleStore) = 150 \<and> storageCheck sampleStore (Some (2 ^ 30)) \<noteq> Next"
proof -
  have "us_total (getUsage sampleStore) = treeSize (se_custom sampleStore) + treeSize (Dir []) \<and>
    (storageCheck sampleStore (Some (2 ^ 30)) = Next \<longleftrightarrow>
       of_nat (treeSize (se_custom sampleStore) + treeSize (Dir [])) + of_int (2 ^ 30) \<le> (1 :: rat) * 2 ^ 30)"
    unfolding sampleStore_def storageEnv.simps
    by (rule storageCheck_exact [where config = "JObj [(''data'', JObj [(''storageLimit'', JNum 1)])]"])
       (simp_all add: isAbsolute_def slash_def ordinary_def)
  then show ?thesis by (simp add: sampleStore_def)
qed

section \<open>The recommended limit\<close>

lemma recommendedGB_covers: "1 / 2 \<le> recommendedGB b" "b \<le> recommendedGB b * 2 ^ 30"
proof -
  let ?x = "b / (1024 * 1024 * 1024) * 10"
  show "1 / 2 \<le> recommendedGB b" by (simp add: recommendedGB_def)
  have "b = ?x / 10 * 2 ^ 30" by simp
  also have "\<dots> \<le> of_int \<lceil>?x\<rceil> / 10 * 2 ^ 30"
    using le_of_int_ceiling [of ?x] by (intro mult_right_mono divide_right_mono) simp_all
  also have "\<dots> \<le> recommendedGB b * 2 ^ 30" by (simp add: recommendedGB_def)
  finally show "b \<le> recommendedGB b * 2 ^ 30" .
qed

end
