(* ===== verification/Health.thy ===== *)
theory Health
  imports Providers Outputs Masking Config_Service
begin

text \<open>
  \<open>healthCheck.js\<close>: the cached health report of the services, its refresh, and the switch of the
  monitoring. The checks of the providers and of the output strategies are those of their
  components; the reachability of the speech service, the ports and the clock are parameters.
  The deduplication of concurrent refreshes is \<open>AsyncLock\<close>, and the checks of one refresh, which
  run side by side, do not depend on each other.
\<close>

record 'dt healthEnv =
  he_outputs :: outputRegistry
  he_providers :: providerRegistry
  he_prov :: "'dt provEnv"
  he_out :: outEnv
  he_host :: hostEnv
  he_stamp :: string
  he_config :: "json res"
  he_ttsUp :: bool
  he_port :: json
  he_ttsPort :: "string option"
  he_now :: json

definition status :: "bool \<Rightarrow> string \<Rightarrow> json" where
  "status ok msg = JObj [(''healthy'', JBool ok), (''message'', JStr msg), (''lastChecked'', JNull)]"

definition apiPort :: "'dt healthEnv \<Rightarrow> json" where
  "apiPort H = orElse (he_port H) (JNum 3000)"

text \<open>A cache that is null is initialised, one that exists is kept.\<close>

definition initHealth :: "'dt healthEnv \<Rightarrow> json \<Rightarrow> json" where
  "initHealth H healthCache =
     (if truthy healthCache then healthCache
      else fold (\<lambda>m c. if om_hidden m then c else jput c (om_id m) (status False ''Initialising...''))
             (getAllStrategies (he_outputs H))
             (JObj [(''api'', status True ''Ready''), (''local'', status True ''Online''),
                    (''tts'', status False ''Initialising...''), (''primarySource'', status False ''Initialising...''),
                    (''backupSource'', status False ''Initialising...''),
                    (''ports'', JObj [(''api'', apiPort H), (''tts'', JNum 8000)])]))"

definition checkSource :: "'dt healthEnv \<Rightarrow> string \<Rightarrow> json res" where
  "checkSource H target =
     bindR (he_config H) (\<lambda>config.
     bindR (getProp (jget config ''sources'') target) (\<lambda>source.
     if \<not> truthy source then Inr (health False ''Not Configured'')
     else if target = ''backup'' \<and> jget source ''enabled'' = JBool False then Inr (health False ''Disabled'')
     else Inr (case bindR (getProviderClass (he_providers H) (jget source ''type'')) (providerHealth (he_prov H)) of
                 Inr r \<Rightarrow> r
               | Inl e \<Rightarrow> health False (messageOr ''Offline'' e))))"

definition checkPythonService :: "'dt healthEnv \<Rightarrow> json" where
  "checkPythonService H = (if he_ttsUp H then health True ''Online'' else health False ''Service Unreachable'')"

text \<open>The parameters a check may use: those the strategy requires for it, unmasked; none is null.\<close>

definition strategyParams :: "outputRegistry \<Rightarrow> outputMeta \<Rightarrow> json \<Rightarrow> json \<Rightarrow> json" where
  "strategyParams reg m config params =
     (if \<not> truthy params then JNull
      else
        let picked = fold (\<lambda>p acc. if pm_requiredForHealth p \<and> jget params (pm_key p) \<noteq> JUndef
                                   then jput acc (pm_key p) (jget params (pm_key p)) else acc) (om_params m) (JObj []);
            unmasked = unmaskParams reg (om_id m) config picked
        in if entries unmasked = [] then JNull else unmasked)"

definition checkOutput :: "'dt healthEnv \<Rightarrow> json \<Rightarrow> string \<Rightarrow> json \<Rightarrow> json" where
  "checkOutput H config target params =
     (case getStrategy (he_outputs H) target of
        Inl e \<Rightarrow> health False (err_message e)
      | Inr m \<Rightarrow>
          (case strategyOf target of
             None \<Rightarrow> health False ''Not implemented''
           | Some s \<Rightarrow>
               (case snd (healthCheckStrategy (he_out H) (he_host H) (he_stamp H) s (strategyParams (he_outputs H) m config params)) of
                  Inr r \<Rightarrow> r
                | Inl e \<Rightarrow> health False (err_message e))))"

definition refreshTarget :: "'dt healthEnv \<Rightarrow> string \<Rightarrow> json \<Rightarrow> bool \<Rightarrow> json res" where
  "refreshTarget H target params force =
     bindR (he_config H) (\<lambda>config.
     let healthChecks = orElse (jget (jget config ''system'') ''healthChecks'') (JObj []) in
     if target = ''api'' then Inr (health True ''Ready'')
     else if \<not> force \<and> jget healthChecks target = JBool False then Inr (health False ''Monitoring Disabled'')
     else if target = ''tts'' then Inr (checkPythonService H)
     else if target = ''primarySource'' then checkSource H ''primary''
     else if target = ''backupSource'' then checkSource H ''backup''
     else Inr (checkOutput H config target params))"

definition stamped :: "'dt healthEnv \<Rightarrow> json \<Rightarrow> string \<Rightarrow> json \<Rightarrow> json" where
  "stamped H healthCache t res =
     jput res ''lastChecked''
       (if jget res ''message'' = JStr ''Monitoring Disabled''
        then orElse (jget (jget healthCache t) ''lastChecked'') JNull else he_now H)"

definition refreshTargets :: "'dt healthEnv \<Rightarrow> string \<Rightarrow> string list" where
  "refreshTargets H target =
     (if target = ''all''
      then [''api'', ''tts'', ''primarySource'', ''backupSource''] @
           map om_id (filter (\<lambda>m. \<not> om_hidden m) (getAllStrategies (he_outputs H)))
      else [target])"

definition refreshPorts :: "'dt healthEnv \<Rightarrow> json \<Rightarrow> json" where
  "refreshPorts H healthCache =
     jupd ''ports'' (\<lambda>ports.
       let ports = (case he_ttsPort H of Some p \<Rightarrow> if p = [] then ports else jput ports ''tts'' (JStr p) | None \<Rightarrow> ports)
       in jput ports ''api'' (apiPort H)) healthCache"

text \<open>A rejected check rejects the refresh and leaves the cache.\<close>

definition refresh :: "'dt healthEnv \<Rightarrow> string \<Rightarrow> json \<Rightarrow> bool \<Rightarrow> json \<Rightarrow> json \<times> json res" where
  "refresh H target params force cache =
     (let healthCache = initHealth H cache in
      case foldR (\<lambda>t updates. bindR (refreshTarget H t params force) (\<lambda>res. Inr (updates @ [(t, stamped H healthCache t res)])))
             (refreshTargets H target) [] of
        Inl e \<Rightarrow> (healthCache, Inl e)
      | Inr updates \<Rightarrow>
          let healthCache = refreshPorts H (fold (\<lambda>u c. jput c (fst u) (snd u)) updates healthCache)
          in (healthCache, Inr (json_copy healthCache)))"

definition getHealth :: "'dt healthEnv \<Rightarrow> json \<Rightarrow> json \<times> json" where
  "getHealth H cache = (let healthCache = initHealth H cache in (healthCache, json_copy healthCache))"

definition toggle :: "schemas \<Rightarrow> string option \<Rightarrow> string \<Rightarrow> bool \<Rightarrow> unit step" where
  "toggle S fault serviceId enabled w =
     (case getConfig w of
        Inl e \<Rightarrow> (w, Inl e)
      | Inr config \<Rightarrow>
          let healthChecks = jput (JObj (spread (orElse (jget (jget config ''system'') ''healthChecks'') (JObj [])))) serviceId (JBool enabled)
          in update S fault (JObj [(''system'', JObj [(''healthChecks'', healthChecks)])]) w)"

definition runDailyMaintenance :: "'dt healthEnv \<Rightarrow> json \<Rightarrow> json \<times> json res" where
  "runDailyMaintenance H = refresh H ''all'' JNull False"

definition runStartupChecks :: "'dt healthEnv \<Rightarrow> json \<Rightarrow> json \<times> json res" where
  "runStartupChecks H = refresh H ''all'' JNull True"

section \<open>One target\<close>

lemma jget_refreshPorts: "is_object c \<Longrightarrow> k \<noteq> ''ports'' \<Longrightarrow> jget (refreshPorts H c) k = jget c k"
  by (simp add: refreshPorts_def jget_jupd_other)

lemma refresh_one:
  assumes "target \<noteq> ''all''" "is_object cache" "refreshTarget H target params force = Inr res"
  shows "k \<noteq> ''ports'' \<Longrightarrow> jget (fst (refresh H target params force cache)) k =
      (if k = target then stamped H cache target res else jget cache k)"
    "snd (refresh H target params force cache) = Inr (json_copy (fst (refresh H target params force cache)))"
  using assms is_object_truthy [OF assms(2)]
  by (auto simp: refresh_def refreshTargets_def initHealth_def Let_def jget_refreshPorts)

text \<open>
  Monitoring that is switched off: an unforced refresh of a service other than the server itself asks
  nobody, whatever the providers and strategies would answer; it reports the service as not healthy and
  keeps the time of its last check. Every other entry but the ports is untouched.
\<close>

theorem refresh_disabled:
  assumes "he_config H = Inr config" "jget (jget (jget config ''system'') ''healthChecks'') target = JBool False"
    and "target \<notin> {''all'', ''api'', ''ports''}" "is_object cache"
    and "cache' = fst (refresh H target params False cache)"
  shows "jget (jget cache' target) ''healthy'' = JBool False \<and>
    jget (jget cache' target) ''message'' = JStr ''Monitoring Disabled'' \<and>
    jget (jget cache' target) ''lastChecked'' = orElse (jget (jget cache target) ''lastChecked'') JNull \<and>
    (\<forall>k. k \<notin> {target, ''ports''} \<longrightarrow> jget cache' k = jget cache k)"
proof -
  let ?hc = "jget (jget config ''system'') ''healthChecks''"
  have "truthy ?hc" using assms(2) by (cases ?hc) auto
  then have "refreshTarget H target params False = Inr (health False ''Monitoring Disabled'')"
    using assms(1-3) by (simp add: refreshTarget_def orElse_def)
  from refresh_one(1) [OF _ assms(4) this] assms(3,5) show ?thesis
    by (simp add: stamped_def health_def)
qed

end
