(* ===== verification/Asset_Store.thy ===== *)
theory Asset_Store
  imports Storage Health Prayer_Times
begin

text \<open>
  The files of the audio assets: the directories of \<open>audioAssetService.js\<close> and the calls of
  \<open>fs.promises\<close> it makes, \<open>audioValidator.js\<close>, the metadata written beside an audio file, the
  clean-up of the cache and of the previews, and message templates. The directories hold plain files; a file
  has a size, a modification time and, when its text is JSON, the value. Failures of the file system,
  the package \<open>music-metadata\<close>, the speech service, number words and the clock are parameters.
\<close>

section \<open>Files\<close>

datatype area = AudioCache | AudioTemp | AudioCustom | MetaCache | MetaCustom

type_synonym path = "area \<times> string"

record assetFile =
  af_size :: nat
  af_mtime :: int
  af_json :: "json option"

record assets =
  at_dirs :: "area list"
  at_files :: "(path \<times> assetFile) list"
  at_health :: json

datatype fsOp = Access | Mkdir | Readdir | ReadFile | WriteFile | Unlink | Stat | Utimes | CopyFile | Rename

text \<open>
  \<open>av_fault\<close> makes a call fail, \<open>av_parse\<close> is the \<open>format\<close> that \<open>parseFile\<close> reads,
  \<open>av_speech\<close> answers a request to the speech service and says which file it leaves in the directory of the
  endpoint, \<open>av_jsonSize\<close> is the length of a JSON text. \<open>av_later\<close> is the clock when the tasks of a
  synchronisation have settled.
\<close>

record 'dt assetEnv =
  av_health :: "'dt healthEnv"
  av_cwd :: string
  av_audioDir :: string
  av_fault :: "fsOp \<Rightarrow> path \<Rightarrow> err option"
  av_parse :: "path \<Rightarrow> assetFile \<Rightarrow> json res"
  av_speech :: "string \<Rightarrow> json \<Rightarrow> assetFile option \<times> json res"
  av_words :: "json \<Rightarrow> string res"
  av_md5 :: "string \<Rightarrow> string"
  av_jsonSize :: "json \<Rightarrow> nat"
  av_now :: int
  av_later :: int
  av_stamp :: json

abbreviation fileOf :: "assets \<Rightarrow> path \<Rightarrow> assetFile option" where
  "fileOf w p \<equiv> map_of (at_files w) p"

definition putFile :: "path \<Rightarrow> assetFile \<Rightarrow> assets \<Rightarrow> assets" where
  "putFile p f w = w\<lparr>at_files := AList.update p f (at_files w)\<rparr>"

definition dropFile :: "path \<Rightarrow> assets \<Rightarrow> assets" where
  "dropFile p w = w\<lparr>at_files := AList.delete p (at_files w)\<rparr>"

lemma fileOf_put [simp]: "fileOf (putFile p f w) q = (if q = p then Some f else fileOf w q)"
  by (simp add: putFile_def update_conv')

lemma fileOf_drop [simp]: "fileOf (dropFile p w) q = (if q = p then None else fileOf w q)"
  by (simp add: dropFile_def delete_conv')

lemma put_drop_fields [simp]:
  "at_dirs (putFile p f w) = at_dirs w" "at_health (putFile p f w) = at_health w"
  "at_dirs (dropFile p w) = at_dirs w" "at_health (dropFile p w) = at_health w"
  by (simp_all add: putFile_def dropFile_def)

section \<open>Effects\<close>

text \<open>A thrown error keeps what was done before it.\<close>

type_synonym 'a io = "assets \<Rightarrow> assets \<times> 'a res"

definition bindA :: "'a io \<Rightarrow> ('a \<Rightarrow> 'b io) \<Rightarrow> 'b io" where
  "bindA m f w = (case m w of (w', Inl e) \<Rightarrow> (w', Inl e) | (w', Inr x) \<Rightarrow> f x w')"

definition catchA :: "'a io \<Rightarrow> (err \<Rightarrow> 'a io) \<Rightarrow> 'a io" where
  "catchA m h w = (case m w of (w', Inl e) \<Rightarrow> h e w' | (w', Inr x) \<Rightarrow> (w', Inr x))"

definition pureA :: "'a res \<Rightarrow> 'a io" where
  "pureA r w = (w, r)"

definition getsA :: "(assets \<Rightarrow> 'a res) \<Rightarrow> 'a io" where
  "getsA f w = (w, f w)"

definition ignoreErrors :: "unit io \<Rightarrow> unit io" where
  "ignoreErrors m = catchA m (\<lambda>_. pureA (Inr ()))"

fun eachA :: "('x \<Rightarrow> unit io) \<Rightarrow> 'x list \<Rightarrow> unit io" where
  "eachA f [] = pureA (Inr ())"
| "eachA f (x # xs) = bindA (f x) (\<lambda>_. eachA f xs)"

text \<open>\<open>Promise.all\<close> of calls: every one is made, and the error is one of theirs.\<close>

fun allA :: "('x \<Rightarrow> unit io) \<Rightarrow> 'x list \<Rightarrow> unit io" where
  "allA f [] w = (w, Inr ())"
| "allA f (x # xs) w = (case f x w of
     (w, Inr _) \<Rightarrow> allA f xs w
   | (w, Inl e) \<Rightarrow> (fst (allA f xs w), Inl e))"

lemma bindA_Inr: "bindA m f w = (w', Inr y) \<longleftrightarrow> (\<exists>w1 x. m w = (w1, Inr x) \<and> f x w1 = (w', Inr y))"
  by (auto simp: bindA_def split: prod.splits sum.splits)

lemma catchA_Inr:
  "catchA m h w = (w', Inr y) \<longleftrightarrow> m w = (w', Inr y) \<or> (\<exists>w1 e. m w = (w1, Inl e) \<and> h e w1 = (w', Inr y))"
  by (auto simp: catchA_def split: prod.splits sum.splits)

subsection \<open>What an effect may touch\<close>

named_theorems frame \<open>the files an effect may change\<close>

definition touches :: "path set \<Rightarrow> 'a io \<Rightarrow> bool" where
  "touches S m \<longleftrightarrow> (\<forall>w p. p \<notin> S \<longrightarrow> fileOf (fst (m w)) p = fileOf w p)"

lemma touches_fst: "touches S m \<Longrightarrow> p \<notin> S \<Longrightarrow> fileOf (fst (m w)) p = fileOf w p"
  unfolding touches_def by blast

lemma touchesD: "touches S m \<Longrightarrow> m w = (w', r) \<Longrightarrow> p \<notin> S \<Longrightarrow> fileOf w' p = fileOf w p"
  unfolding touches_def by (metis fst_conv)

lemma touches_mono: "touches S m \<Longrightarrow> S \<subseteq> T \<Longrightarrow> touches T m"
  unfolding touches_def by blast

lemma touches_pure [frame]: "touches S (pureA r)" "touches S (getsA f)"
  by (simp_all add: touches_def pureA_def getsA_def)

lemma touches_bind [frame]:
  assumes "touches S m" "\<And>x. touches S (f x)"
  shows "touches S (bindA m f)"
  unfolding touches_def
proof (intro allI impI)
  fix w p assume p: "p \<notin> S"
  obtain w1 r where m: "m w = (w1, r)" by fastforce
  show "fileOf (fst (bindA m f w)) p = fileOf w p"
    using touchesD [OF assms(1) m p] touches_fst [OF assms(2) p] m
    by (cases r) (auto simp: bindA_def)
qed

lemma touches_catch [frame]:
  assumes "touches S m" "\<And>e. touches S (h e)"
  shows "touches S (catchA m h)"
  unfolding touches_def
proof (intro allI impI)
  fix w p assume p: "p \<notin> S"
  obtain w1 r where m: "m w = (w1, r)" by fastforce
  show "fileOf (fst (catchA m h w)) p = fileOf w p"
    using touchesD [OF assms(1) m p] touches_fst [OF assms(2) p] m
    by (cases r) (auto simp: catchA_def)
qed

lemma touches_if [frame]: "(b \<Longrightarrow> touches S m) \<Longrightarrow> (\<not> b \<Longrightarrow> touches S n) \<Longrightarrow> touches S (if b then m else n)"
  by simp

lemma touches_each [frame]: "(\<And>x. touches S (f x)) \<Longrightarrow> touches S (eachA f xs)"
  by (induction xs) (auto intro!: frame)

lemma touches_all [frame]:
  assumes "\<And>x. touches S (f x)"
  shows "touches S (allA f xs)"
proof (induction xs)
  case (Cons x xs)
  show ?case unfolding touches_def
  proof (intro allI impI)
    fix w p assume p: "p \<notin> S"
    obtain w1 r where r: "f x w = (w1, r)" by fastforce
    have "fileOf (fst (allA f xs w1)) p = fileOf w1 p" by (rule touches_fst [OF Cons p])
    with touchesD [OF assms r p] r show "fileOf (fst (allA f (x # xs) w)) p = fileOf w p"
      by (cases r) simp_all
  qed
qed (simp add: touches_def)

subsection \<open>The calls\<close>

definition ENOENT :: err where
  "ENOENT = Error ''ENOENT''"

definition guarded :: "'dt assetEnv \<Rightarrow> fsOp \<Rightarrow> path \<Rightarrow> 'a io \<Rightarrow> 'a io" where
  "guarded E op p m w = (case av_fault E op p of Some e \<Rightarrow> (w, Inl e) | None \<Rightarrow> m w)"

definition withFile :: "'dt assetEnv \<Rightarrow> fsOp \<Rightarrow> path \<Rightarrow> (assetFile \<Rightarrow> 'a io) \<Rightarrow> 'a io" where
  "withFile E op p f w =
     (case av_fault E op p of
        Some e \<Rightarrow> (w, Inl e)
      | None \<Rightarrow> (case fileOf w p of None \<Rightarrow> (w, Inl ENOENT) | Some x \<Rightarrow> f x w))"

definition access :: "'dt assetEnv \<Rightarrow> path \<Rightarrow> unit io" where
  "access E p = withFile E Access p (\<lambda>_. pureA (Inr ()))"

definition stat :: "'dt assetEnv \<Rightarrow> path \<Rightarrow> assetFile io" where
  "stat E p = withFile E Stat p (\<lambda>f. pureA (Inr f))"

text \<open>\<open>readFile\<close> and \<open>JSON.parse\<close>\<close>

definition readJson :: "'dt assetEnv \<Rightarrow> path \<Rightarrow> json io" where
  "readJson E p = withFile E ReadFile p (\<lambda>f. pureA (case af_json f of Some v \<Rightarrow> Inr v | None \<Rightarrow> Inl (Error ''Unexpected token'')))"

definition unlink :: "'dt assetEnv \<Rightarrow> path \<Rightarrow> unit io" where
  "unlink E p = withFile E Unlink p (\<lambda>_ w. (dropFile p w, Inr ()))"

definition utimes :: "'dt assetEnv \<Rightarrow> path \<Rightarrow> unit io" where
  "utimes E p = withFile E Utimes p (\<lambda>f w. (putFile p (f\<lparr>af_mtime := av_now E\<rparr>) w, Inr ()))"

text \<open>\<open>writeFile(p, JSON.stringify(v))\<close>\<close>

definition writeJson :: "'dt assetEnv \<Rightarrow> path \<Rightarrow> json \<Rightarrow> unit io" where
  "writeJson E p v = guarded E WriteFile p (\<lambda>w.
     if fst p \<notin> set (at_dirs w) then (w, Inl ENOENT)
     else (putFile p \<lparr>af_size = av_jsonSize E v, af_mtime = av_now E, af_json = Some (json_copy v)\<rparr> w, Inr ()))"

definition copyFile :: "'dt assetEnv \<Rightarrow> path \<Rightarrow> path \<Rightarrow> unit io" where
  "copyFile E p q = withFile E CopyFile p (\<lambda>f w.
     if fst q \<notin> set (at_dirs w) then (w, Inl ENOENT) else (putFile q (f\<lparr>af_mtime := av_now E\<rparr>) w, Inr ()))"

definition rename :: "'dt assetEnv \<Rightarrow> path \<Rightarrow> path \<Rightarrow> unit io" where
  "rename E p q = withFile E Rename p (\<lambda>f w.
     if fst q \<notin> set (at_dirs w) then (w, Inl ENOENT) else (putFile q f (dropFile p w), Inr ()))"

definition accessDir :: "'dt assetEnv \<Rightarrow> area \<Rightarrow> unit io" where
  "accessDir E d = guarded E Access (d, []) (\<lambda>w. (w, if d \<in> set (at_dirs w) then Inr () else Inl ENOENT))"

definition namesIn :: "assets \<Rightarrow> area \<Rightarrow> string list" where
  "namesIn w d = map (\<lambda>e. snd (fst e)) (filter (\<lambda>e. fst (fst e) = d) (at_files w))"

definition readdir :: "'dt assetEnv \<Rightarrow> area \<Rightarrow> string list io" where
  "readdir E d = guarded E Readdir (d, []) (\<lambda>w. (w, if d \<in> set (at_dirs w) then Inr (namesIn w d) else Inl ENOENT))"

definition mkdir :: "'dt assetEnv \<Rightarrow> area \<Rightarrow> unit io" where
  "mkdir E d = guarded E Mkdir (d, []) (\<lambda>w. (w\<lparr>at_dirs := List.insert d (at_dirs w)\<rparr>, Inr ()))"

definition ensureDir :: "'dt assetEnv \<Rightarrow> area \<Rightarrow> unit io" where
  "ensureDir E d = catchA (accessDir E d) (\<lambda>_. mkdir E d)"

definition ensureDirs :: "'dt assetEnv \<Rightarrow> unit io" where
  "ensureDirs E = allA (ensureDir E) [AudioCache, AudioTemp, AudioCustom, MetaCache, MetaCustom]"

lemma touches_guarded [frame]: "touches S m \<Longrightarrow> touches S (guarded E op p m)"
  by (auto simp: touches_def guarded_def split: option.split)

lemma touches_withFile [frame]: "(\<And>f. touches S (g f)) \<Longrightarrow> touches S (withFile E op p g)"
  by (auto simp: touches_def withFile_def split: option.split)

lemma touches_calls [frame]:
  "touches S (access E p)" "touches S (stat E p)" "touches S (readJson E p)"
  by (simp_all add: access_def stat_def readJson_def frame)

lemma touches_dirs [frame]:
  "touches S (accessDir E d)" "touches S (readdir E d)" "touches S (ensureDir E d)" "touches S (ensureDirs E)" "touches S (mkdir E d)"
proof -
  show a: "touches S (accessDir E d)" "touches S (readdir E d)" for d
    unfolding accessDir_def readdir_def by (rule touches_guarded, simp add: touches_def)+
  show "touches S (mkdir E d)" for d
    unfolding mkdir_def by (rule touches_guarded) (simp add: touches_def)
  then show "touches S (ensureDir E d)" for d unfolding ensureDir_def by (intro touches_catch a)
  then show "touches S (ensureDirs E)" unfolding ensureDirs_def by (rule touches_all)
qed

lemma touches_writes [frame]:
  "p \<in> S \<Longrightarrow> touches S (unlink E p)" "p \<in> S \<Longrightarrow> touches S (utimes E p)" "p \<in> S \<Longrightarrow> touches S (writeJson E p v)"
  "q \<in> S \<Longrightarrow> touches S (copyFile E p q)" "p \<in> S \<Longrightarrow> q \<in> S \<Longrightarrow> touches S (rename E p q)"
  unfolding unlink_def utimes_def writeJson_def copyFile_def rename_def
  by (rule touches_withFile touches_guarded, force simp: touches_def)+

section \<open>Metadata\<close>

definition getMimeType :: "json \<Rightarrow> string \<Rightarrow> string" where
  "getMimeType format filePath =
     (let container = toLowerCase (the_str (jget format ''container''));
          codec = toLowerCase (the_str (jget format ''codec''));
          ext = toLowerCase (path_extname filePath) in
      if codec = ''opus'' then ''audio/opus''
      else if str_includes codec ''aac'' then ''audio/aac''
      else if container = ''wav'' \<or> container = ''wave'' then ''audio/wav''
      else if container = ''ogg'' then ''audio/ogg''
      else if container = ''adts'' then ''audio/aac''
      else if container = ''flac'' then ''audio/flac''
      else if container = ''mpeg'' \<and> str_includes codec ''3'' then ''audio/mpeg''
      else if ext = ''.mp3'' then ''audio/mpeg''
      else if ext = ''.wav'' then ''audio/wav''
      else if ext = ''.aac'' then ''audio/aac''
      else if ext = ''.ogg'' then ''audio/ogg''
      else if ext = ''.opus'' then ''audio/opus''
      else if ext = ''.flac'' then ''audio/flac''
      else if truthy (jget format ''lossless'') then ''audio/wav'' else ''audio/mpeg'')"

definition areaName :: "area \<Rightarrow> string" where
  "areaName d = (case d of AudioCache \<Rightarrow> ''cache'' | AudioTemp \<Rightarrow> ''temp'' | AudioCustom \<Rightarrow> ''custom''
                         | MetaCache \<Rightarrow> ''cache'' | MetaCustom \<Rightarrow> ''custom'')"

text \<open>The absolute path of an audio file, as the code passes it around.\<close>

definition audioPath :: "'dt assetEnv \<Rightarrow> path \<Rightarrow> string" where
  "audioPath E p = path_join (path_join (av_audioDir E) (areaName (fst p))) (snd p)"

definition analyseAudioFile :: "'dt assetEnv \<Rightarrow> path \<Rightarrow> json io" where
  "analyseAudioFile E p =
     bindA (getsA (\<lambda>w. case fileOf w p of None \<Rightarrow> Inl ENOENT | Some f \<Rightarrow> av_parse E p f)) (\<lambda>format.
     bindA (stat E p) (\<lambda>stats.
     pureA (Inr (JObj [(''format'', jget format ''container''), (''codec'', jget format ''codec''),
       (''bitrate'', jget format ''bitrate''), (''sampleRate'', jget format ''sampleRate''),
       (''duration'', jget format ''duration''), (''size'', JNum (of_nat (af_size stats))),
       (''mimeType'', JStr (getMimeType format (audioPath E p)))]))))"

text \<open>The instances of the registered classes.\<close>

definition strategyInstances :: "outputRegistry \<Rightarrow> strategy list" where
  "strategyInstances reg = List.map_filter (\<lambda>m. strategyOf (om_id m)) (getAllStrategies reg)"

definition enrichMetadata :: "'dt assetEnv \<Rightarrow> json \<Rightarrow> json" where
  "enrichMetadata E basicMetadata =
     (let compatibility = fold (\<lambda>s c. jput c (om_id (strategyMeta s)) (validateAsset s (av_stamp E) basicMetadata))
            (strategyInstances (he_outputs (av_health E))) (JObj [])
      in jput (jput (JObj (spread basicMetadata)) ''compatibility'' compatibility) ''updatedAt'' (av_stamp E))"

definition sidecarName :: "string \<Rightarrow> string" where
  "sidecarName file = file @ ''.json''"

definition analyzeFile :: "'dt assetEnv \<Rightarrow> path \<Rightarrow> json io" where
  "analyzeFile E p =
     bindA (analyseAudioFile E p) (\<lambda>basicMetadata.
     let isCache = str_includes (audioPath E p) ''cache'';
         metaPath = (if isCache then MetaCache else MetaCustom, sidecarName (path_basename (audioPath E p))) in
     bindA (catchA (readJson E metaPath) (\<lambda>_. pureA (Inr (JObj [])))) (\<lambda>existingData.
     let finalMetadata = spreadMerge existingData (enrichMetadata E basicMetadata) in
     bindA (writeJson E metaPath finalMetadata) (\<lambda>_. pureA (Inr finalMetadata))))"

lemma touches_analyse [frame]: "touches S (analyseAudioFile E p)"
  by (simp add: analyseAudioFile_def frame)

section \<open>Clean-up\<close>

definition removeOld :: "'dt assetEnv \<Rightarrow> int \<Rightarrow> string \<Rightarrow> unit io" where
  "removeOld E now file =
     bindA (stat E (AudioCache, file)) (\<lambda>stats.
     if now - af_mtime stats > 30 * 24 * 60 * 60 * 1000
     then bindA (unlink E (AudioCache, file)) (\<lambda>_.
          catchA (bindA (access E (MetaCache, sidecarName file)) (\<lambda>_. unlink E (MetaCache, sidecarName file)))
            (\<lambda>_. pureA (Inr ())))
     else pureA (Inr ()))"

definition cleanupCache :: "'dt assetEnv \<Rightarrow> int \<Rightarrow> unit io" where
  "cleanupCache E now =
     bindA (ensureDirs E) (\<lambda>_.
     catchA (bindA (readdir E AudioCache) (eachA (removeOld E now))) (\<lambda>_. pureA (Inr ())))"

definition assetExtensions :: "string list" where
  "assetExtensions = [''.mp3'', ''.wav'', ''.aac'', ''.ogg'', ''.opus'', ''.flac'', ''.m4a'']"

definition isAudioName :: "string \<Rightarrow> bool" where
  "isAudioName file = (toLowerCase (path_extname file) \<in> set assetExtensions)"

definition removeTemp :: "'dt assetEnv \<Rightarrow> int \<Rightarrow> bool \<Rightarrow> string \<Rightarrow> unit io" where
  "removeTemp E now force file =
     (if \<not> isAudioName file then pureA (Inr ())
      else bindA (stat E (AudioTemp, file)) (\<lambda>stats.
        if force \<or> now - af_mtime stats > 60 * 60 * 1000 then unlink E (AudioTemp, file) else pureA (Inr ())))"

definition cleanupTempAudio :: "'dt assetEnv \<Rightarrow> int \<Rightarrow> bool \<Rightarrow> unit io" where
  "cleanupTempAudio E now force =
     catchA (bindA (accessDir E AudioTemp) (\<lambda>_. bindA (readdir E AudioTemp) (eachA (removeTemp E now force))))
       (\<lambda>_. pureA (Inr ()))"

section \<open>Message templates\<close>

text \<open>
  \<open>String.prototype.replace\<close> with a string: \<open>$$\<close>, \<open>$&\<close> and the text before and after the match are
  expanded in the replacement.
\<close>

fun getSubstitution :: "string \<Rightarrow> string \<Rightarrow> string \<Rightarrow> string \<Rightarrow> string" where
  "getSubstitution pre pat post (c # d # r) =
     (if c \<noteq> CHR ''$'' then c # getSubstitution pre pat post (d # r)
      else if d = CHR ''$'' then CHR ''$'' # getSubstitution pre pat post r
      else if d = CHR ''&'' then pat @ getSubstitution pre pat post r
      else if d = CHR 0x60 then pre @ getSubstitution pre pat post r
      else if d = CHR 0x27 then post @ getSubstitution pre pat post r
      else c # getSubstitution pre pat post (d # r))"
| "getSubstitution pre pat post r = r"

text \<open>The text before the current position is accumulated in the first argument.\<close>

fun replaceGlobal :: "string \<Rightarrow> string \<Rightarrow> string \<Rightarrow> string \<Rightarrow> string" where
  "replaceGlobal prior pat repl [] = []"
| "replaceGlobal prior pat repl (c # s) =
     (if pat \<noteq> [] \<and> startsWith (c # s) pat
      then let rest = drop (length pat - 1) s in
           getSubstitution prior pat rest repl @ replaceGlobal (prior @ pat) pat repl rest
      else c # replaceGlobal (prior @ [c]) pat repl s)"

fun replaceFirst :: "string \<Rightarrow> string \<Rightarrow> string \<Rightarrow> string \<Rightarrow> string" where
  "replaceFirst prior pat repl [] = []"
| "replaceFirst prior pat repl (c # s) =
     (if pat \<noteq> [] \<and> startsWith (c # s) pat
      then let rest = drop (length pat - 1) s in getSubstitution prior pat rest repl @ rest
      else c # replaceFirst (prior @ [c]) pat repl s)"

text \<open>The UTF-8 bytes of the names.\<close>

definition ARABIC_NAMES :: "(string \<times> string) list" where
  "ARABIC_NAMES =
     [(''fajr'', [CHR 0xD9, CHR 0x81, CHR 0xD8, CHR 0xAC, CHR 0xD8, CHR 0xB1]),
      (''sunrise'', [CHR 0xD8, CHR 0xB4, CHR 0xD9, CHR 0x8F, CHR 0xD8, CHR 0xB1, CHR 0xD9, CHR 0x88, CHR 0xD9, CHR 0x82]),
      (''dhuhr'', [CHR 0xD8, CHR 0xB8, CHR 0xD9, CHR 0x8F, CHR 0xD9, CHR 0x87, CHR 0xD9, CHR 0x92, CHR 0xD8, CHR 0xB1]),
      (''asr'', [CHR 0xD8, CHR 0xB9, CHR 0xD8, CHR 0xB5, CHR 0xD8, CHR 0xB1]),
      (''maghrib'', [CHR 0xD9, CHR 0x85, CHR 0xD8, CHR 0xBA, CHR 0xD8, CHR 0xB1, CHR 0xD8, CHR 0xA8]),
      (''isha'', [CHR 0xD8, CHR 0xB9, CHR 0xD9, CHR 0x90, CHR 0xD8, CHR 0xB4, CHR 0xD9, CHR 0x8E, CHR 0xD8, CHR 0xA7])]"

definition resolveTemplate :: "'dt assetEnv \<Rightarrow> json \<Rightarrow> string \<Rightarrow> json \<Rightarrow> string res" where
  "resolveTemplate E tpl prayerKey offsetMinutes =
     (case tpl of
        JStr t \<Rightarrow>
          let result = replaceGlobal [] ''{prayerEnglish}'' (capitalise prayerKey) t;
              result = replaceGlobal [] ''{prayerArabic}''
                (case map_of ARABIC_NAMES prayerKey of Some n \<Rightarrow> n | None \<Rightarrow> prayerKey) result in
          if offsetMinutes \<noteq> JUndef
          then bindR (av_words E offsetMinutes) (\<lambda>words. Inr (replaceGlobal [] ''{minutes}'' words result))
          else Inr result
      | _ \<Rightarrow> Inl (TypeError ''result.replace is not a function''))"

text \<open>\<open>text.length\<close>: the UTF-16 code units of a text given by its UTF-8 bytes.\<close>

definition utf16_length :: "string \<Rightarrow> nat" where
  "utf16_length s =
     sum_list (map (\<lambda>c. let n = (of_char c :: nat) in if 128 \<le> n \<and> n < 192 then 0 else if 240 \<le> n then 2 else 1) s)"

lemma getSubstitution_plain: "CHR ''$'' \<notin> set r \<Longrightarrow> getSubstitution pre pat post r = r"
  by (induction pre pat post r rule: getSubstitution.induct) auto

lemma replaceGlobal_absent: "\<not> str_includes s pat \<Longrightarrow> replaceGlobal prior pat repl s = s"
  by (induction s arbitrary: prior) auto

section \<open>Keys of the metadata\<close>

lemma jget_spread_other:
  assumes "k \<notin> set (jkeys b)" "is_object a"
  shows "jget (spreadMerge a b) k = jget a k"
proof -
  have "jget (fold (\<lambda>kv x. jput x (fst kv) (snd kv)) kvs x) k = jget x k" if "k \<notin> fst ` set kvs" "is_object x" for kvs x
    using that by (induction kvs arbitrary: x) auto
  moreover obtain kvs where "a = JObj kvs" using assms(2) by (cases a) auto
  ultimately show ?thesis using assms by (simp add: spreadMerge_def)
qed

lemma is_object_spreadMerge [simp]: "is_object (spreadMerge a b)"
proof -
  have "is_object (fold (\<lambda>kv x. jput x (fst kv) (snd kv)) kvs x)" if "is_object x" for kvs x
    using that by (induction kvs arbitrary: x) auto
  then show ?thesis by (simp add: spreadMerge_def)
qed

definition metadataKeys :: "string set" where
  "metadataKeys = {''format'', ''codec'', ''bitrate'', ''sampleRate'', ''duration'', ''size'', ''mimeType'', ''compatibility'', ''updatedAt''}"

lemma set_jkeys_jput: "is_object x \<Longrightarrow> set (jkeys (jput x k v)) = insert k (set (jkeys x))"
  by (cases x) (simp_all add: dom_update)

lemma enriched_keys:
  assumes "analyseAudioFile E p w = (w', Inr basic)"
  shows "set (jkeys (enrichMetadata E basic)) = metadataKeys"
  using assms
  by (auto simp: analyseAudioFile_def bindA_Inr pureA_def enrichMetadata_def metadataKeys_def Let_def set_jkeys_jput)

section \<open>What the clean-up leaves\<close>

definition keeps :: "(assets \<Rightarrow> bool) \<Rightarrow> 'a io \<Rightarrow> bool" where
  "keeps P m \<longleftrightarrow> (\<forall>w. P w \<longrightarrow> P (fst (m w)))"

lemma keepsD: "keeps P m \<Longrightarrow> P w \<Longrightarrow> m w = (w', r) \<Longrightarrow> P w'"
  unfolding keeps_def by (metis fst_conv)

lemma keeps_bind: "keeps P m \<Longrightarrow> (\<And>x. keeps P (f x)) \<Longrightarrow> keeps P (bindA m f)"
  unfolding keeps_def bindA_def by (auto split: prod.split sum.split)

lemma keeps_catch: "keeps P m \<Longrightarrow> (\<And>e. keeps P (h e)) \<Longrightarrow> keeps P (catchA m h)"
  unfolding keeps_def catchA_def by (auto split: prod.split sum.split)

lemma keeps_pure: "keeps P (pureA r)" "keeps P (getsA f)"
  by (simp_all add: keeps_def pureA_def getsA_def)

lemma keeps_each: "(\<And>x. x \<in> set xs \<Longrightarrow> keeps P (f x)) \<Longrightarrow> keeps P (eachA f xs)"
  by (induction xs) (auto intro!: keeps_bind keeps_pure)

text \<open>The file of a name and its sidecar are these.\<close>

definition cached :: "string \<Rightarrow> assetFile \<Rightarrow> assetFile option \<Rightarrow> assets \<Rightarrow> bool" where
  "cached n f m w \<longleftrightarrow> fileOf w (AudioCache, n) = Some f \<and> fileOf w (MetaCache, sidecarName n) = m"

lemma touches_cached:
  "touches S m \<Longrightarrow> (AudioCache, n) \<notin> S \<Longrightarrow> (MetaCache, sidecarName n) \<notin> S \<Longrightarrow> keeps (cached n f x) m"
  by (simp add: keeps_def cached_def touches_fst)

lemma touches_removeOld: "touches {(AudioCache, file), (MetaCache, sidecarName file)} (removeOld E now file)"
  unfolding removeOld_def by (intro frame) simp_all

lemma removeOld_young:
  assumes "now - af_mtime f \<le> 30 * 24 * 60 * 60 * 1000"
  shows "keeps (cached n f m) (removeOld E now file)"
proof (cases "file = n")
  case True
  with assms show ?thesis
    by (auto simp: keeps_def cached_def removeOld_def bindA_def stat_def withFile_def guarded_def pureA_def
        split: option.split)
next
  case False
  then show ?thesis by (intro touches_cached [OF touches_removeOld]) (simp_all add: sidecarName_def)
qed

lemma cleanupCache_young:
  assumes "now - af_mtime f \<le> 30 * 24 * 60 * 60 * 1000"
  shows "keeps (cached n f m) (cleanupCache E now)"
  unfolding cleanupCache_def
  by (intro keeps_bind keeps_catch keeps_each keeps_pure removeOld_young assms touches_cached [OF touches_dirs(2) [of "{}"]]
      touches_cached [OF touches_dirs(4) [of "{}"]]) simp_all

lemma touches_cleanupTemp: "touches (Pair AudioTemp ` UNIV) (cleanupTempAudio E now force)"
  unfolding cleanupTempAudio_def removeTemp_def by (intro frame) simp_all

end
