(* ===== verification/Audio_Assets.thy ===== *)
theory Audio_Assets
  imports Asset_Store Automation
begin

text \<open>
  \<open>audioAssetService.js\<close>: the speech files of the triggers, their synchronisation with the
  configuration, the test sound and previews. A synchronisation runs its tasks through a limiter of three;
  a task has three steps (look for a valid file, check service and quota, generate), and the order of the
  steps of different tasks is an argument. A step is atomic: no other task touches the
  files it reads and writes, and what it reads of the others is the storage they use, once.
\<close>

section \<open>Names\<close>

definition isUpper :: "char \<Rightarrow> bool" where
  "isUpper c = (65 \<le> (of_char c :: nat) \<and> (of_char c :: nat) \<le> 90)"

definition typeName :: "string \<Rightarrow> string" where
  "typeName t = capitalise (concat (map (\<lambda>c. if isUpper c then [CHR '' '', c] else [c]) t))"

definition niceName :: "string \<Rightarrow> string \<Rightarrow> string" where
  "niceName prayer t = capitalise prayer @ '' '' @ typeName t"

definition PRAYER_NAMES :: "string list" where
  "PRAYER_NAMES = [''fajr'', ''sunrise'', ''dhuhr'', ''asr'', ''maghrib'', ''isha'']"

definition TTS_FILENAME_PATTERN :: string where
  "TTS_FILENAME_PATTERN = ''tts_{prayer}_{event}.mp3''"

definition ttsFilename :: "string \<Rightarrow> string \<Rightarrow> string" where
  "ttsFilename prayer event =
     replaceFirst [] ''{event}'' event (replaceFirst [] ''{prayer}'' prayer TTS_FILENAME_PATTERN)"

definition pythonServiceUrl :: "json \<Rightarrow> string" where
  "pythonServiceUrl config =
     template (orElse (jget (jget config ''automation'') ''pythonServiceUrl'') (JStr ''http://localhost:8000''))"

definition effectiveVoice :: "json \<Rightarrow> json \<Rightarrow> json" where
  "effectiveVoice settings config =
     orElse (jget settings ''voice'') (orElse (jget (jget config ''automation'') ''defaultVoice'') (JStr ''ar-SA-HamedNeural''))"

section \<open>The speech service\<close>

text \<open>
  A request names a file; the service writes it to the cache or, for a preview, to the temporary
  directory, under the last component of the name.
\<close>

definition speak :: "'dt assetEnv \<Rightarrow> area \<Rightarrow> string \<Rightarrow> json \<Rightarrow> json io" where
  "speak E d url body w =
     (case av_speech E url body of
        (left, answer) \<Rightarrow>
          (case left of Some f \<Rightarrow> putFile (d, path_basename (the_str (jget body ''filename''))) f w | None \<Rightarrow> w, answer))"

definition generateTTS :: "'dt assetEnv \<Rightarrow> string \<Rightarrow> string \<Rightarrow> string \<Rightarrow> json \<Rightarrow> unit io" where
  "generateTTS E filename text serviceUrl voice =
     bindA (speak E AudioCache (serviceUrl @ ''/generate-tts'')
              (JObj [(''text'', JStr text), (''filename'', JStr filename), (''voice'', voice)]))
       (\<lambda>_. pureA (Inr ()))"

section \<open>One speech file\<close>

definition ttsResult :: "bool \<Rightarrow> string \<Rightarrow> bool \<Rightarrow> json" where
  "ttsResult success message generated =
     JObj [(''success'', JBool success), (''message'', JStr message), (''generated'', JBool generated)]"

record ttsTask =
  tk_prayer :: string
  tk_event :: string
  tk_settings :: json

abbreviation tk_name :: "ttsTask \<Rightarrow> string" where
  "tk_name t \<equiv> ttsFilename (tk_prayer t) (tk_event t)"

abbreviation tk_audio :: "ttsTask \<Rightarrow> path" where
  "tk_audio t \<equiv> (AudioCache, tk_name t)"

abbreviation tk_meta :: "ttsTask \<Rightarrow> path" where
  "tk_meta t \<equiv> (MetaCache, sidecarName (tk_name t))"

definition tk_text :: "'dt assetEnv \<Rightarrow> ttsTask \<Rightarrow> string res" where
  "tk_text E t = resolveTemplate E (jget (tk_settings t) ''template'') (tk_prayer t) (jget (tk_settings t) ''offsetMinutes'')"

text \<open>Whether the file and its sidecar are there and match, with their times renewed.\<close>

definition validFile :: "'dt assetEnv \<Rightarrow> ttsTask \<Rightarrow> string \<Rightarrow> json \<Rightarrow> bool io" where
  "validFile E t text voice =
     catchA
       (bindA (access E (tk_audio t)) (\<lambda>_.
        bindA (access E (tk_meta t)) (\<lambda>_.
        bindA (readJson E (tk_meta t)) (\<lambda>meta.
        if jget meta ''text'' = JStr text \<and> jget meta ''voice'' = voice
        then bindA (utimes E (tk_audio t)) (\<lambda>_. bindA (utimes E (tk_meta t)) (\<lambda>_. pureA (Inr True)))
        else pureA (Inr False)))))
       (\<lambda>_. pureA (Inr False))"

definition ttsOnline :: "'dt assetEnv \<Rightarrow> bool io" where
  "ttsOnline E w =
     (let (cache, r) = refresh (av_health E) ''tts'' JNull False (at_health w)
      in (w\<lparr>at_health := cache\<rparr>, bindR r (\<lambda>report. Inr (truthy (jget (jget report ''tts'') ''healthy'')))))"

text \<open>The storage the quota is about: the files of the moment.\<close>

definition areaTree :: "assets \<Rightarrow> area \<Rightarrow> fsNode" where
  "areaTree w d =
     (if d \<in> set (at_dirs w)
      then Dir (map (\<lambda>e. (snd (fst e), File (af_size (snd e)))) (filter (\<lambda>e. fst (fst e) = d) (at_files w)))
      else fsNode.Unreadable)"

definition storageOf :: "'dt assetEnv \<Rightarrow> assets \<Rightarrow> storageEnv" where
  "storageOf E w = \<lparr>se_cwd = av_cwd E, se_audioDir = av_audioDir E, se_custom = areaTree w AudioCustom,
     se_cache = areaTree w AudioCache, se_config = he_config (av_health E)\<rparr>"

definition storageAllows :: "'dt assetEnv \<Rightarrow> nat \<Rightarrow> unit io" where
  "storageAllows E bytes =
     bindA (getsA (\<lambda>w. checkQuota (storageOf E w) (int bytes))) (\<lambda>quotaCheck.
     pureA (if truthy (jget quotaCheck ''success'') then Inr ()
            else Inl (Error (''Storage Limit Exceeded: '' @ template (jget quotaCheck ''message'')))))"

text \<open>The outcome of a task so far: settled, or the next thing to do.\<close>

datatype taskState = Waiting | Checking | Generating | Settled "json res"

definition settledBy :: "taskState io \<Rightarrow> assets \<Rightarrow> assets \<times> taskState" where
  "settledBy m w = (case m w of (w', Inr s) \<Rightarrow> (w', s) | (w', Inl e) \<Rightarrow> (w', Settled (Inl e)))"

definition startTask :: "'dt assetEnv \<Rightarrow> json \<Rightarrow> ttsTask \<Rightarrow> taskState io" where
  "startTask E config t =
     bindA (pureA (tk_text E t)) (\<lambda>text.
     bindA (validFile E t text (effectiveVoice (tk_settings t) config)) (\<lambda>valid.
     pureA (Inr (if valid then Settled (Inr (ttsResult True ''Valid file exists'' False)) else Checking))))"

definition checkTask :: "'dt assetEnv \<Rightarrow> json \<Rightarrow> ttsTask \<Rightarrow> taskState io" where
  "checkTask E config t =
     bindA (ttsOnline E) (\<lambda>online.
     if \<not> online
     then pureA (Inr (Settled (Inr (ttsResult False
            ''TTS Service Offline. Generation will be attempted again at trigger time.'' False))))
     else bindA (pureA (tk_text E t)) (\<lambda>text.
          bindA (storageAllows E (utf16_length text * 1024)) (\<lambda>_. pureA (Inr Generating))))"

definition ttsSidecar :: "'dt assetEnv \<Rightarrow> string \<Rightarrow> json \<Rightarrow> json \<Rightarrow> json" where
  "ttsSidecar E text voice enriched =
     spreadMerge (JObj [(''text'', JStr text), (''voice'', voice), (''generatedAt'', av_stamp E)]) enriched"

definition generateTask :: "'dt assetEnv \<Rightarrow> json \<Rightarrow> ttsTask \<Rightarrow> taskState io" where
  "generateTask E config t =
     bindA (pureA (tk_text E t)) (\<lambda>text.
     let voice = effectiveVoice (tk_settings t) config in
     catchA
       (bindA (generateTTS E (tk_name t) text (pythonServiceUrl config) voice) (\<lambda>_.
        bindA (analyseAudioFile E (tk_audio t)) (\<lambda>basicMetadata.
        bindA (writeJson E (tk_meta t) (ttsSidecar E text voice (enrichMetadata E basicMetadata))) (\<lambda>_.
        pureA (Inr (Settled (Inr (ttsResult True ''Successfully generated'' True))))))))
       (\<lambda>e. pureA (Inr (Settled (Inr (ttsResult False (err_message e) False))))))"

fun taskStep :: "'dt assetEnv \<Rightarrow> json \<Rightarrow> ttsTask \<Rightarrow> taskState \<Rightarrow> assets \<Rightarrow> assets \<times> taskState" where
  "taskStep E config t Waiting = settledBy (startTask E config t)"
| "taskStep E config t Checking = settledBy (checkTask E config t)"
| "taskStep E config t Generating = settledBy (generateTask E config t)"
| "taskStep E config t (Settled r) = (\<lambda>w. (w, Settled r))"

text \<open>A task on its own: three steps settle it.\<close>

definition ensureTTSFile :: "'dt assetEnv \<Rightarrow> string \<Rightarrow> string \<Rightarrow> json \<Rightarrow> json \<Rightarrow> json io" where
  "ensureTTSFile E prayer event settings config w =
     (let t = \<lparr>tk_prayer = prayer, tk_event = event, tk_settings = settings\<rparr>;
          (w, s) = taskStep E config t Waiting w;
          (w, s) = taskStep E config t s w;
          (w, s) = taskStep E config t s w
      in (w, case s of Settled r \<Rightarrow> r | _ \<Rightarrow> Inl (Error [])))"

section \<open>Synchronisation\<close>

definition triggerTasks :: "string \<Rightarrow> string \<times> json \<Rightarrow> ttsTask list \<Rightarrow> ttsTask list res" where
  "triggerTasks prayer = (\<lambda>(event, settings) tasks.
     bindR (getProp settings ''enabled'') (\<lambda>enabled.
     Inr (if \<not> truthy enabled \<or> jget settings ''type'' \<noteq> JStr ''tts'' \<or> \<not> truthy (jget settings ''template'') then tasks
          else tasks @ [\<lparr>tk_prayer = prayer, tk_event = event, tk_settings = settings\<rparr>])))"

definition collectTasks :: "json \<Rightarrow> ttsTask list res" where
  "collectTasks triggers =
     foldR (\<lambda>prayer tasks.
       let prayerTriggers = jget triggers prayer in
       if \<not> truthy prayerTriggers then Inr tasks
       else foldR (triggerTasks prayer) (entries prayerTriggers) tasks) PRAYER_NAMES []"

text \<open>The limiter: three tasks at a time, started in the order they were queued.\<close>

definition running :: "taskState list \<Rightarrow> nat" where
  "running ss = length (filter (\<lambda>s. s = Checking \<or> s = Generating) ss)"

definition mayStep :: "taskState list \<Rightarrow> nat \<Rightarrow> bool" where
  "mayStep ss i =
     (i < length ss \<and> (ss ! i = Waiting \<longrightarrow> running ss < 3 \<and> Waiting \<notin> set (take i ss)))"

definition poolStep ::
  "('t \<Rightarrow> taskState \<Rightarrow> assets \<Rightarrow> assets \<times> taskState) \<Rightarrow> 't list \<Rightarrow> nat \<Rightarrow> assets \<times> taskState list \<Rightarrow> assets \<times> taskState list" where
  "poolStep step tasks i = (\<lambda>(w, ss).
     if \<not> mayStep ss i then (w, ss)
     else case step (tasks ! i) (ss ! i) w of (w', s) \<Rightarrow> (w', ss[i := s]))"

text \<open>Any order of steps, and then whatever is left, one task after the other.\<close>

definition runTasks :: "'dt assetEnv \<Rightarrow> json \<Rightarrow> ttsTask list \<Rightarrow> nat list \<Rightarrow> assets \<Rightarrow> assets \<times> taskState list" where
  "runTasks E config tasks order w =
     fold (poolStep (taskStep E config) tasks) (order @ concat (map (replicate 3) [0..<length tasks])) (w, map (\<lambda>_. Waiting) tasks)"

definition taskWarning :: "ttsTask \<Rightarrow> taskState \<Rightarrow> string list" where
  "taskWarning t s =
     (case s of
        Settled (Inl e) \<Rightarrow> [niceName (tk_prayer t) (tk_event t) @ '': '' @ err_message e]
      | Settled (Inr v) \<Rightarrow> if truthy (jget v ''success'') then []
                          else [niceName (tk_prayer t) (tk_event t) @ '': '' @ template (jget v ''message'')]
      | _ \<Rightarrow> [])"

definition cleanArea :: "'dt assetEnv \<Rightarrow> area \<Rightarrow> unit io" where
  "cleanArea E d =
     catchA (bindA (accessDir E d) (\<lambda>_. bindA (readdir E d) (allA (\<lambda>f. unlink E (d, f))))) (\<lambda>_. pureA (Inr ()))"

definition runAndReport :: "'dt assetEnv \<Rightarrow> json \<Rightarrow> nat list \<Rightarrow> ttsTask list \<Rightarrow> string list io" where
  "runAndReport E config order tasks =
     bindA (\<lambda>w. let (w, ss) = runTasks E config tasks order w in (w, Inr (concat (map2 taskWarning tasks ss)))) (\<lambda>warnings.
     bindA (cleanupCache E (av_later E)) (\<lambda>_.
     bindA (cleanupTempAudio E (av_later E) False) (\<lambda>_. pureA (Inr warnings))))"

definition syncAudioAssets :: "'dt assetEnv \<Rightarrow> nat list \<Rightarrow> bool \<Rightarrow> string list io" where
  "syncAudioAssets E order forceClean =
     bindA (ensureDirs E) (\<lambda>_.
     bindA (pureA (he_config (av_health E))) (\<lambda>config.
     let triggers = jget (jget config ''automation'') ''triggers'' in
     bindA (if forceClean then eachA (cleanArea E) [AudioCache, MetaCache] else pureA (Inr ())) (\<lambda>_.
     if \<not> truthy triggers then pureA (Inr [])
     else bindA (pureA (collectTasks triggers)) (runAndReport E config order))))"

section \<open>The test sound and previews\<close>

definition testExists :: "'dt assetEnv \<Rightarrow> bool io" where
  "testExists E =
     catchA (bindA (access E (AudioCustom, ''test.mp3'')) (\<lambda>_.
             bindA (access E (MetaCustom, ''test.mp3.json'')) (\<lambda>_. pureA (Inr True))))
       (\<lambda>_. pureA (Inr False))"

definition moveTestAudio :: "'dt assetEnv \<Rightarrow> unit io" where
  "moveTestAudio E =
     catchA (bindA (copyFile E (AudioCache, ''test.mp3'') (AudioCustom, ''test.mp3'')) (\<lambda>_. unlink E (AudioCache, ''test.mp3'')))
       (\<lambda>_. rename E (AudioCache, ''test.mp3'') (AudioCustom, ''test.mp3''))"

definition testVoice :: json where
  "testVoice = JStr ''en-GB-RyanNeural''"

definition testText :: string where
  "testText = ''This is a test of the notification system!''"

definition finishTestAudio :: "'dt assetEnv \<Rightarrow> unit io" where
  "finishTestAudio E =
     bindA (access E (AudioCache, ''test.mp3'')) (\<lambda>_.
     bindA (moveTestAudio E) (\<lambda>_.
     bindA (analyseAudioFile E (AudioCustom, ''test.mp3'')) (\<lambda>basicMetadata.
     writeJson E (MetaCustom, ''test.mp3.json'')
       (spreadMerge (JObj [(''text'', JStr testText), (''voice'', testVoice), (''generatedAt'', av_stamp E), (''hidden'', JBool True)])
          (enrichMetadata E basicMetadata)))))"

definition ensureTestAudio :: "'dt assetEnv \<Rightarrow> unit io" where
  "ensureTestAudio E =
     bindA (ensureDirs E) (\<lambda>_.
     bindA (testExists E) (\<lambda>there.
     if there then pureA (Inr ())
     else bindA (pureA (he_config (av_health E))) (\<lambda>config.
       catchA (bindA (generateTTS E ''test.mp3'' testText (pythonServiceUrl config) testVoice) (\<lambda>_.
               catchA (finishTestAudio E) (\<lambda>_. pureA (Inr ()))))
         (\<lambda>_. pureA (Inr ())))))"

definition previewName :: "'dt assetEnv \<Rightarrow> string \<Rightarrow> json \<Rightarrow> string" where
  "previewName E text voice = ''preview_'' @ take 12 (av_md5 E (text @ ''|'' @ template voice)) @ ''.mp3''"

definition recentPreview :: "'dt assetEnv \<Rightarrow> string \<Rightarrow> bool io" where
  "recentPreview E filename =
     catchA (bindA (access E (AudioTemp, filename)) (\<lambda>_.
             bindA (stat E (AudioTemp, filename)) (\<lambda>stats.
             if av_now E - af_mtime stats < 1 * 60 * 60 * 1000
             then bindA (utimes E (AudioTemp, filename)) (\<lambda>_. pureA (Inr True))
             else pureA (Inr False))))
       (\<lambda>_. pureA (Inr False))"

definition previewTTS :: "'dt assetEnv \<Rightarrow> json \<Rightarrow> string \<Rightarrow> json \<Rightarrow> json \<Rightarrow> json io" where
  "previewTTS E tpl prayerKey offsetMinutes voice =
     bindA (pureA (resolveTemplate E tpl (toLowerCase prayerKey) offsetMinutes)) (\<lambda>text.
     bindA (pureA (he_config (av_health E))) (\<lambda>config.
     let filename = previewName E text voice in
     bindA (recentPreview E filename) (\<lambda>recent.
     if recent then pureA (Inr (JObj [(''url'', JStr (''/public/audio/temp/'' @ filename))]))
     else speak E AudioTemp (pythonServiceUrl config @ ''/preview-tts'')
            (JObj [(''text'', JStr text), (''voice'', voice), (''filename'', JStr filename)]))))"

section \<open>A concrete instance\<close>

text \<open>No provider is asked, so any dates will do.\<close>

definition noProviders :: "unit provEnv" where
  "noProviders =
     \<lparr>pr_luxon = \<lparr>lx_fromISO = (\<lambda>_. ()), lx_fromISOZone = (\<lambda>_ _. ()), lx_fromYMD = (\<lambda>_ _ _ _. ()), lx_setZone = (\<lambda>_ _. ()),
        lx_isValid = (\<lambda>_. False), lx_valueOf = (\<lambda>_. 0), lx_zone = (\<lambda>_. []), lx_minute = (\<lambda>_. 0), lx_year = (\<lambda>_. 0),
        lx_plus = (\<lambda>_ _ _. Inr ()), lx_minus = (\<lambda>_ _ _. Inr ()), lx_set = (\<lambda>_ _. Inr ()), lx_startOfDay = (\<lambda>_. ()),
        lx_toISO = (\<lambda>_. JNull), lx_toISODate = (\<lambda>_. JNull)\<rparr>,
      pr_now = (), pr_fetch = (\<lambda>_ _. Inl (Error ''offline'')), pr_issues = (\<lambda>_. JNull)\<rparr>"

definition sampleHealth :: "'dt provEnv \<Rightarrow> json \<Rightarrow> 'dt healthEnv" where
  "sampleHealth P config =
     \<lparr>he_outputs = builtinOutputs, he_providers = builtinProviders, he_prov = P, he_out = sampleOut,
      he_host = \<lparr>ho_playerRuns = (\<lambda>_. True), ho_linux = True, ho_wsl = False, ho_snd = True, ho_dockerenv = False,
                 ho_cgroup = None\<rparr>,
      he_stamp = ''0'', he_config = Inr config, he_ttsUp = True, he_port = JNull, he_ttsPort = None, he_now = JStr ''now''\<rparr>"

definition sampleAssetEnvOf :: "'dt provEnv \<Rightarrow> json \<Rightarrow> 'dt assetEnv" where
  "sampleAssetEnvOf P config =
     \<lparr>av_health = sampleHealth P config, av_cwd = ''/app'', av_audioDir = ''/app/public/audio'',
      av_fault = (\<lambda>_ _. None), av_parse = (\<lambda>_ _. Inr (JObj [(''container'', JStr ''MPEG'')])),
      av_speech = (\<lambda>_ _. (Some \<lparr>af_size = 4096, af_mtime = 1000, af_json = None\<rparr>, Inr (JObj []))),
      av_words = (\<lambda>_. Inr ''ten''), av_md5 = (\<lambda>_. ''0123456789abcdef''), av_jsonSize = (\<lambda>_. 100),
      av_now = 1000, av_later = 2000, av_stamp = JStr ''now''\<rparr>"

abbreviation sampleAssetEnv :: "json \<Rightarrow> unit assetEnv" where
  "sampleAssetEnv \<equiv> sampleAssetEnvOf noProviders"

lemma sample_simps [simp]:
  "av_health (sampleAssetEnvOf P c) = sampleHealth P c" "av_fault (sampleAssetEnvOf P c) op p = None"
  "av_now (sampleAssetEnvOf P c) = 1000" "av_later (sampleAssetEnvOf P c) = 2000" "he_config (sampleHealth P c) = Inr c"
  by (simp_all add: sampleAssetEnvOf_def sampleHealth_def)

lemmas io_run = bindA_def catchA_def pureA_def getsA_def guarded_def withFile_def access_def stat_def readJson_def unlink_def
  utimes_def writeJson_def accessDir_def readdir_def mkdir_def ensureDir_def ensureDirs_def

end
