(* ===== verification/Workflow.thy ===== *)
theory Workflow
  imports Providers Scheduler Outputs Live_Log Masking Config_Persist Audio_Assets
begin

text \<open>
  \<open>configurationWorkflowService.js\<close>: the transaction behind \<open>POST /settings\<close>, composed from the
  components: unmasking, the validation of the sources, the update of the configuration, the
  refresh of the prayer times, the synchronisation of the audio assets, the restart of the scheduler, the
  cached health report and the progress messages on the event stream.
\<close>

section \<open>State\<close>

record flow =
  fl_cfg :: cfgWorld
  fl_sched :: schedState
  fl_sse :: sseState
  fl_assets :: assets

record 'dt flowEnv =
  fe_schemas :: schemas
  fe_fault :: "string option"
  fe_outputs :: outputRegistry
  fe_providers :: providerRegistry
  fe_prov :: "'dt provEnv"
  fe_sourceSchema :: "providerMeta \<Rightarrow> json \<Rightarrow> json res"
  fe_sched :: "'dt schedEnv"
  fe_assets :: "'dt assetEnv"
  fe_order :: "nat list"

definition progress :: "string \<Rightarrow> flow \<Rightarrow> flow" where
  "progress label f =
     f\<lparr>fl_sse := broadcast (JObj [(''type'', JStr ''PROCESS_UPDATE''), (''payload'', JObj [(''label'', JStr label)])]) (fl_sse f)\<rparr>"

text \<open>\<open>JSON.stringify(a) !== JSON.stringify(b)\<close>: the texts agree when the serialised values do.\<close>

definition changed :: "json \<Rightarrow> json \<Rightarrow> string \<Rightarrow> bool" where
  "changed a b key = (json_copy (jget a key) \<noteq> json_copy (jget b key))"

definition requiresRefresh :: "json \<Rightarrow> json \<Rightarrow> bool" where
  "requiresRefresh previousConfig newConfig =
     (changed previousConfig newConfig ''sources'' \<or> changed previousConfig newConfig ''location'')"

section \<open>Warnings\<close>

definition textOr :: "json \<Rightarrow> string \<Rightarrow> string" where
  "textOr v d = (if truthy v then template v else d)"

definition targetWarnings ::
  "outputRegistry \<Rightarrow> json \<Rightarrow> json \<Rightarrow> json \<Rightarrow> string \<Rightarrow> string \<Rightarrow> json \<Rightarrow> string list" where
  "targetWarnings reg report finalConfig trigger prayer t target =
     (case target of
        JStr targetId \<Rightarrow>
          (case List.find (\<lambda>s. om_id s = targetId) (getAllStrategies reg) of
             None \<Rightarrow> []
           | Some s \<Rightarrow>
               if targetId = ''browser'' then []
               else
                 let outputConfig = outputOf finalConfig targetId; st = jget report targetId in
                 (if \<not> truthy outputConfig \<or> \<not> truthy (jget outputConfig ''enabled'')
                  then [niceName prayer t @ '': '' @ om_label s @ '' output is disabled in settings'']
                  else if truthy st \<and> \<not> truthy (jget st ''healthy'')
                  then [niceName prayer t @ '': '' @ om_label s @ '' output is offline ('' @ textOr (jget st ''message'') ''unreachable'' @ '')'']
                  else []) @
                 (case strategyOf targetId of
                    Some i \<Rightarrow> validateTrigger i trigger [] prayer t (niceName prayer t)
                  | None \<Rightarrow> []))
      | _ \<Rightarrow> [])"

definition triggerTargets :: "json \<Rightarrow> json list res" where
  "triggerTargets trigger =
     (case orElse (jget trigger ''targets'') (JArr []) of
        JArr ts \<Rightarrow> Inr ts
      | _ \<Rightarrow> Inl (TypeError ''forEach is not a function''))"

definition triggerWarnings ::
  "outputRegistry \<Rightarrow> json \<Rightarrow> json \<Rightarrow> string \<Rightarrow> string \<times> json \<Rightarrow> string list \<Rightarrow> string list res" where
  "triggerWarnings reg report finalConfig prayer = (\<lambda>(t, trigger) warnings.
     bindR (getProp trigger ''enabled'') (\<lambda>enabled.
     if \<not> truthy enabled then Inr warnings
     else bindR (triggerTargets trigger) (\<lambda>targets.
       Inr (warnings @
         (if jget trigger ''type'' = JStr ''tts'' \<and> \<not> truthy (jget (jget report ''tts'') ''healthy'')
          then [niceName prayer t @ '': TTS Service is offline''] else []) @
         concat (map (targetWarnings reg report finalConfig trigger prayer t) targets)))))"

definition prayerWarnings ::
  "outputRegistry \<Rightarrow> json \<Rightarrow> json \<Rightarrow> string \<times> json \<Rightarrow> string list \<Rightarrow> string list res" where
  "prayerWarnings reg report finalConfig = (\<lambda>(prayer, triggers) warnings.
     if triggers \<in> {JUndef, JNull} then Inl (TypeError ''Cannot convert undefined or null to object'')
     else foldR (triggerWarnings reg report finalConfig prayer) (entries triggers) warnings)"

definition integrationWarning :: "json \<Rightarrow> json \<Rightarrow> outputMeta \<Rightarrow> string list \<Rightarrow> string list" where
  "integrationWarning report finalConfig s warnings =
     (let st = jget report (om_id s);
          msg = om_label s @ '' Integration: '' @ textOr (jget st ''message'') ''Offline'' in
      if om_hidden s \<or> om_id s = ''browser'' then warnings
      else if truthy (jget (outputOf finalConfig (om_id s)) ''enabled'') \<and> truthy st \<and> \<not> truthy (jget st ''healthy'') \<and>
              \<not> list_ex (\<lambda>w. str_includes w msg) warnings
      then warnings @ [msg] else warnings)"

definition collectWarnings :: "outputRegistry \<Rightarrow> string list \<Rightarrow> json \<Rightarrow> json \<Rightarrow> string list res" where
  "collectWarnings reg syncWarnings report finalConfig =
     (let triggers = jget (jget finalConfig ''automation'') ''triggers'' in
      bindR (if truthy triggers then foldR (prayerWarnings reg report finalConfig) (entries triggers) syncWarnings
             else Inr syncWarnings) (\<lambda>warnings.
      Inr (fold (integrationWarning report finalConfig) (getAllStrategies reg) warnings)))"

text \<open>The services the triggers of a configuration use, in the order of their first use.\<close>

definition usedBy :: "json \<Rightarrow> string list \<Rightarrow> string list res" where
  "usedBy trigger used =
     bindR (getProp trigger ''enabled'') (\<lambda>enabled.
     if \<not> truthy enabled then Inr used
     else bindR (triggerTargets trigger) (\<lambda>targets.
       Inr (first_occurrences (used @ (if jget trigger ''type'' = JStr ''tts'' then [''tts''] else []) @
              concat (map (\<lambda>t. case t of JStr i \<Rightarrow> (if i = ''browser'' then [] else [i]) | _ \<Rightarrow> []) targets)))))"

definition getUsedServices :: "json \<Rightarrow> string list res" where
  "getUsedServices config =
     (let triggers = jget (jget config ''automation'') ''triggers'' in
      if \<not> truthy triggers then Inr []
      else foldR (\<lambda>e used. if snd e \<in> {JUndef, JNull} then Inl (TypeError ''Cannot convert undefined or null to object'')
                            else foldR (\<lambda>t. usedBy (snd t)) (entries (snd e)) used) (entries triggers) [])"

section \<open>\<open>executeUpdate\<close>\<close>

text \<open>The services share the configuration service's object.\<close>

definition withConfig :: "cfgWorld \<Rightarrow> flow \<Rightarrow> flow" where
  "withConfig w f = f\<lparr>fl_cfg := w, fl_sched := (fl_sched f)\<lparr>sd_config := cw_config w\<rparr>\<rparr>"

definition syncWarnings :: "string list res \<Rightarrow> string list" where
  "syncWarnings r = (case r of Inr ws \<Rightarrow> ws | Inl e \<Rightarrow> [''Audio Synchronisation Warning: '' @ err_message e])"

text \<open>The services read the configuration in force; \<open>fe_order\<close> is the order of the steps of the tasks.\<close>

definition assetsEnv :: "'dt flowEnv \<Rightarrow> cfgWorld \<Rightarrow> 'dt assetEnv" where
  "assetsEnv X w = (fe_assets X)\<lparr>av_health := (av_health (fe_assets X))\<lparr>he_config := getConfig w\<rparr>\<rparr>"

definition syncRun :: "'dt flowEnv \<Rightarrow> cfgWorld \<Rightarrow> assets \<Rightarrow> assets \<times> string list res" where
  "syncRun X w = syncAudioAssets (assetsEnv X w) (fe_order X) False"

definition checkSources :: "'dt flowEnv \<Rightarrow> bool \<Rightarrow> json \<Rightarrow> flow \<Rightarrow> flow \<times> unit res" where
  "checkSources X mustRefresh newConfig f =
     (if mustRefresh then (progress ''Validating Configuration...'' f,
        validateConfigSource (fe_prov X) (fe_sourceSchema X) (fe_providers X) newConfig)
      else (f, Inr ()))"

definition refreshPrayers :: "'dt flowEnv \<Rightarrow> bool \<Rightarrow> flow \<Rightarrow> flow \<times> json res" where
  "refreshPrayers X mustRefresh f =
     (if mustRefresh then
        let f = progress ''Refreshing Prayer Data...'' f;
            (r, pt) = forceRefresh (se_pt (fe_sched X)) (cw_config (fl_cfg f)) (sd_pt (fl_sched f))
        in (f\<lparr>fl_sched := (fl_sched f)\<lparr>sd_pt := pt\<rparr>\<rparr>, bindR r (\<lambda>d. Inr (jget d ''meta'')))
      else (f, Inr (JObj [(''skip'', JBool True)])))"

definition finishUpdate :: "'dt flowEnv \<Rightarrow> json \<Rightarrow> flow \<Rightarrow> flow \<times> json res" where
  "finishUpdate X meta f =
     (let f = progress ''Generating Audio Assets...'' f;
          (w, syncResult) = syncRun X (fl_cfg f) (fl_assets f);
          f = progress ''Restarting Scheduler...'' (f\<lparr>fl_assets := w\<rparr>);
          f = f\<lparr>fl_sched := initScheduler (fe_sched X) (fl_sched f)\<rparr>;
          (cache, report) = getHealth (av_health (assetsEnv X (fl_cfg f))) (at_health (fl_assets f));
          f = f\<lparr>fl_assets := (fl_assets f)\<lparr>at_health := cache\<rparr>\<rparr>
      in case collectWarnings (fe_outputs X) (syncWarnings syncResult) report (cw_config (fl_cfg f)) of
           Inl e \<Rightarrow> (f, Inl e)
         | Inr warnings \<Rightarrow>
             (progress ''Configuration Saved'' f,
              Inr (JObj [(''message'', JStr ''Settings updated successfully.''), (''meta'', meta),
                         (''warnings'', JArr (map JStr warnings))])))"

definition executeUpdate :: "'dt flowEnv \<Rightarrow> json \<Rightarrow> flow \<Rightarrow> flow \<times> json res" where
  "executeUpdate X requested f =
     (case getConfig (fl_cfg f) of
        Inl e \<Rightarrow> (f, Inl e)
      | Inr previousConfig \<Rightarrow>
          (case unmaskSecrets (fe_outputs X) (fe_providers X) requested previousConfig of
             Inl e \<Rightarrow> (f, Inl e)
           | Inr newConfig \<Rightarrow>
               let mustRefresh = requiresRefresh previousConfig newConfig in
               case checkSources X mustRefresh newConfig f of
                 (f, Inl e) \<Rightarrow> (f, Inl e)
               | (f, Inr _) \<Rightarrow>
                   let f = progress ''Saving to Disk...'' f in
                   (case update (fe_schemas X) (fe_fault X) newConfig (fl_cfg f) of
                      (w, Inl e) \<Rightarrow> (withConfig w f, Inl e)
                    | (w, Inr _) \<Rightarrow>
                        (case refreshPrayers X mustRefresh (withConfig w f) of
                           (f, Inl e) \<Rightarrow> (f, Inl e)
                         | (f, Inr meta) \<Rightarrow> finishUpdate X meta f))))"

section \<open>What a run leaves behind\<close>

text \<open>The three outcomes: nothing happened, a configuration the schema accepted, a new schedule.\<close>

definition unchanged :: "flow \<Rightarrow> flow \<Rightarrow> bool" where
  "unchanged f f' \<longleftrightarrow> cw_config (fl_cfg f') = cw_config (fl_cfg f) \<and>
     sd_live (fl_sched f') = sd_live (fl_sched f) \<and> sd_jobs (fl_sched f') = sd_jobs (fl_sched f) \<and> sd_pt (fl_sched f') = sd_pt (fl_sched f) \<and>
     fl_assets f' = fl_assets f"

definition accepted :: "'dt flowEnv \<Rightarrow> flow \<Rightarrow> bool" where
  "accepted X f \<longleftrightarrow> (\<exists>raw. sc_config (fe_schemas X) raw = Inr (cw_config (fl_cfg f))) \<and>
     sd_config (fl_sched f) = cw_config (fl_cfg f)"

definition restarted :: "flow \<Rightarrow> flow \<Rightarrow> bool" where
  "restarted f f' \<longleftrightarrow> tracked (fl_sched f') \<and> sd_live (fl_sched f') = sd_jobs (fl_sched f') \<and>
     set (sd_live (fl_sched f')) \<inter> set (sd_live (fl_sched f)) = {}"

text \<open>The synchronisation of the new configuration: its files are there, its warnings are in the reply.\<close>

definition synced :: "'dt flowEnv \<Rightarrow> flow \<Rightarrow> flow \<Rightarrow> json \<Rightarrow> bool" where
  "synced X f f' reply \<longleftrightarrow>
     JStr ` set (syncWarnings (snd (syncRun X (fl_cfg f') (fl_assets f)))) \<subseteq> set (arr_of (jget reply ''warnings'')) \<and>
     at_files (fl_assets f') = at_files (fst (syncRun X (fl_cfg f') (fl_assets f)))"

lemma progress_fields [simp]:
  "fl_cfg (progress l f) = fl_cfg f" "fl_sched (progress l f) = fl_sched f" "fl_assets (progress l f) = fl_assets f"
  by (simp_all add: progress_def)

lemma foldR_grows:
  assumes "foldR f xs ws = Inr out" "\<And>x ws ws'. f x ws = Inr ws' \<Longrightarrow> set ws \<subseteq> set ws'"
  shows "set ws \<subseteq> set out"
  using assms(1)
proof (induction xs arbitrary: ws)
  case (Cons x xs)
  then obtain ws' where "f x ws = Inr ws'" "foldR f xs ws' = Inr out" by (auto simp: bindR_Inr)
  then show ?case using Cons.IH [of ws'] assms(2) by blast
qed simp

lemma triggerWarnings_grows: "triggerWarnings reg h c p e ws = Inr ws' \<Longrightarrow> set ws \<subseteq> set ws'"
  by (auto simp: triggerWarnings_def bindR_Inr split: prod.splits if_splits)

lemma prayerWarnings_grows: "prayerWarnings reg h c e ws = Inr ws' \<Longrightarrow> set ws \<subseteq> set ws'"
  by (auto simp: prayerWarnings_def split: prod.splits if_splits dest: foldR_grows [OF _ triggerWarnings_grows])

lemma integrationWarning_grows: "set ws \<subseteq> set (fold (integrationWarning h c) ss ws)"
proof (induction ss arbitrary: ws)
  case (Cons s ss)
  have "set ws \<subseteq> set (integrationWarning h c s ws)" by (auto simp: integrationWarning_def Let_def)
  with Cons.IH [of "integrationWarning h c s ws"] show ?case by simp
qed simp

lemma collectWarnings_keeps:
  assumes "collectWarnings reg ws h c = Inr out"
  shows "set ws \<subseteq> set out"
proof -
  obtain ws' where ws': "(if truthy (jget (jget c ''automation'') ''triggers'')
      then foldR (prayerWarnings reg h c) (entries (jget (jget c ''automation'') ''triggers'')) ws else Inr ws) = Inr ws'"
    "out = fold (integrationWarning h c) (getAllStrategies reg) ws'"
    using assms by (auto simp: collectWarnings_def Let_def bindR_Inr)
  then have "set ws \<subseteq> set ws'"
    using foldR_grows [of "prayerWarnings reg h c" _ ws ws', OF _ prayerWarnings_grows] by (auto split: if_splits)
  then show ?thesis using integrationWarning_grows ws'(2) by blast
qed

lemma finishUpdate_result:
  assumes "finishUpdate X meta f = (f', r)"
  shows "fl_cfg f' = fl_cfg f" "fl_sched f' = initScheduler (fe_sched X) (fl_sched f)"
    "r = Inr reply \<Longrightarrow> jget reply ''meta'' = meta"
    "r = Inr reply \<Longrightarrow> fl_assets g = fl_assets f \<Longrightarrow> synced X g f' reply"
  using assms collectWarnings_keeps
  by (fastforce simp: finishUpdate_def synced_def Let_def split: sum.splits prod.splits)+

lemma update_accepts:
  assumes "update S fault p w = (w', Inr x)"
  shows "\<exists>raw. sc_config S raw = Inr (cw_config w')"
proof -
  obtain w0 where w0: "updateBody S fault p (w\<lparr>cw_isSaving := True\<rparr>) = (w0, Inr ())" "cw_config w' = cw_config w0"
    using assms by (auto simp: update_def split: if_splits prod.splits)
  then obtain w2 where "reload S fault w2 = (w0, Inr ())"
    by (auto simp: updateBody_eq bindS_Inr)
  from reload_result(5) [OF this refl] w0(2) show ?thesis by simp
qed

lemma restart_flow:
  assumes "tracked (fl_sched f)" "fl_sched f' = initScheduler X s" "sd_jobs s = sd_jobs (fl_sched f)"
    "sd_live s = sd_live (fl_sched f)" "sd_next s = sd_next (fl_sched f)"
  shows "restarted f f'" "sd_config (fl_sched f') = sd_config s"
proof -
  have t: "tracked s" using assms by (simp add: tracked_def)
  have "sd_live (initScheduler X s) = sd_jobs (initScheduler X s)" "tracked (initScheduler X s)"
    using initScheduler_started [OF t, of X] started_tracked by (auto simp: started_def)
  then show "restarted f f'"
    using initScheduler_fresh(2) [OF t, of _ X] assms(2,4) by (auto simp: restarted_def)
  show "sd_config (fl_sched f') = sd_config s" using initScheduler_config [OF t] assms(2) by simp
qed

text \<open>The run after a successful save.\<close>

lemma saved_flow:
  assumes t: "tracked (fl_sched f)" and up: "update (fe_schemas X) (fe_fault X) newConfig w0 = (w, Inr x)"
    and g: "fl_sched g = fl_sched f" "fl_assets g = fl_assets f"
    and run: "(f', r) = (case refreshPrayers X rf (withConfig w g) of (f, Inl e) \<Rightarrow> (f, Inl e) | (f, Inr meta) \<Rightarrow> finishUpdate X meta f)"
  shows "accepted X f' \<and> fl_cfg f' = w \<and>
    (case r of
       Inr reply \<Rightarrow> restarted f f' \<and> synced X f f' reply \<and>
         (\<not> rf \<longrightarrow> jget reply ''meta'' = JObj [(''skip'', JBool True)])
     | Inl e \<Rightarrow> restarted f f' \<or>
         (rf \<and> fst (forceRefresh (se_pt (fe_sched X)) (cw_config w) (sd_pt (fl_sched f))) = Inl e \<and>
          sd_live (fl_sched f') = sd_live (fl_sched f) \<and> sd_jobs (fl_sched f') = sd_jobs (fl_sched f)))"
proof -
  note acc = update_accepts [OF up]
  obtain h m where p: "refreshPrayers X rf (withConfig w g) = (h, m)" by fastforce
  have h: "fl_cfg h = w" "sd_config (fl_sched h) = cw_config w" "sd_jobs (fl_sched h) = sd_jobs (fl_sched f)"
    "sd_live (fl_sched h) = sd_live (fl_sched f)" "sd_next (fl_sched h) = sd_next (fl_sched f)"
    "fl_assets h = fl_assets f"
    and m: "\<not> rf \<Longrightarrow> m = Inr (JObj [(''skip'', JBool True)])"
    "m = Inl e \<Longrightarrow> rf \<and> fst (forceRefresh (se_pt (fe_sched X)) (cw_config w) (sd_pt (fl_sched f))) = Inl e" for e
    using p g by (auto simp: refreshPrayers_def withConfig_def Let_def bindR_def split: if_splits prod.splits sum.splits)
  show ?thesis
  proof (cases m)
    case (Inl e)
    then have "f' = h" "r = Inl e" using run p by auto
    with h m(2) [OF Inl] acc show ?thesis by (simp add: accepted_def)
  next
    case (Inr meta)
    then have fin: "finishUpdate X meta h = (f', r)" using run p by simp
    note fr = finishUpdate_result [OF fin]
    note rs = restart_flow [OF t fr(2) h(3-5)]
    have "r = Inr reply \<Longrightarrow> synced X f f' reply" for reply using fr(4) h(6) by metis
    moreover have "accepted X f'" using acc fr(1) h(1,2) rs(2) by (simp add: accepted_def)
    ultimately show ?thesis using rs(1) fr h(1) m(1) Inr by (auto split: sum.split)
  qed
qed

lemma executeUpdate_outcome:
  assumes run: "executeUpdate X requested f = (f', r)" and t: "tracked (fl_sched f)"
  shows "(\<exists>e. r = Inl e \<and> unchanged f f') \<or>
    accepted X f' \<and>
    (case r of
       Inr reply \<Rightarrow> restarted f f' \<and> synced X f f' reply
     | Inl e \<Rightarrow> restarted f f' \<or>
         fst (forceRefresh (se_pt (fe_sched X)) (cw_config (fl_cfg f')) (sd_pt (fl_sched f))) = Inl e \<and>
         sd_live (fl_sched f') = sd_live (fl_sched f) \<and> sd_jobs (fl_sched f') = sd_jobs (fl_sched f))"
proof -
  show ?thesis
  proof (cases "\<exists>previous newConfig. getConfig (fl_cfg f) = Inr previous \<and>
      unmaskSecrets (fe_outputs X) (fe_providers X) requested previous = Inr newConfig")
    case False
    then consider e where "getConfig (fl_cfg f) = Inl e"
      | previous e where "getConfig (fl_cfg f) = Inr previous"
          "unmaskSecrets (fe_outputs X) (fe_providers X) requested previous = Inl e"
      by (metis sum.exhaust)
    then have "\<exists>e. executeUpdate X requested f = (f, Inl e)" by cases (simp_all add: executeUpdate_def)
    with run show ?thesis by (auto simp: unchanged_def)
  next
    case True
    then obtain previous newConfig where c: "getConfig (fl_cfg f) = Inr previous"
      "unmaskSecrets (fe_outputs X) (fe_providers X) requested previous = Inr newConfig" by blast
    let ?refresh = "requiresRefresh previous newConfig"
    obtain g v where g: "checkSources X ?refresh newConfig f = (g, v)" by fastforce
    have keep: "fl_cfg g = fl_cfg f" "fl_sched g = fl_sched f" "fl_assets g = fl_assets f" using g by (auto simp: checkSources_def split: if_splits)
    show ?thesis
    proof (cases v)
      case (Inl e)
      then have "r = Inl e" "f' = g" using run c g by (simp_all add: executeUpdate_def)
      with keep show ?thesis by (simp add: unchanged_def)
    next
      case (Inr u)
      obtain w x where up: "update (fe_schemas X) (fe_fault X) newConfig (fl_cfg f) = (w, x)" by fastforce
      show ?thesis
      proof (cases x)
        case (Inl e)
        then have "r = Inl e" "f' = withConfig w (progress ''Saving to Disk...'' g)"
          using run c g up \<open>v = Inr u\<close> keep by (simp_all add: executeUpdate_def)
        with update_error_keeps [OF up [unfolded Inl]] keep show ?thesis by (simp add: unchanged_def withConfig_def)
      next
        case (Inr y)
        have "(f', r) = (case refreshPrayers X ?refresh (withConfig w (progress ''Saving to Disk...'' g)) of
            (f, Inl e) \<Rightarrow> (f, Inl e) | (f, Inr meta) \<Rightarrow> finishUpdate X meta f)"
          using run c g up Inr \<open>v = Inr u\<close> keep by (simp add: executeUpdate_def)
        from saved_flow [OF t up [unfolded Inr] _ _ this] keep show ?thesis by (auto split: sum.splits)
      qed
    qed
  qed
qed

end
