(* ===== verification/Network.thy ===== *)
theory Network
  imports JS_Runtime "HOL-Library.Word"
begin

text \<open>
  \<open>networkUtils.js\<close>, the DNS lookup that refuses private addresses, and the handler
  \<open>validateUrl\<close> of \<open>systemController.js\<close>, which fetches a URL a user typed through it.
  \<open>dns.lookup\<close>, the URL parser and the requests are parameters. With the option \<open>all\<close> the
  lookup answers with an array of objects, as Node documents it.
\<close>

section \<open>The lookup\<close>

datatype dnsAnswer = OneAddress string nat | AllAddresses "(string \<times> nat) list"

definition ipv4Private :: "string list" where
  "ipv4Private =
     [''127.'', ''10.'', ''192.168.''] @ map (\<lambda>n. ''172.'' @ nat_str n @ ''.'') [16..<32] @ [''169.254.'']"

definition ipv6Private :: "string \<Rightarrow> bool" where
  "ipv6Private addr =
     (let a = toLowerCase addr in
      a = ''::1'' \<or> startsWith a ''fe80:'' \<or> startsWith a ''fc00:'' \<or> startsWith a ''fd00:'')"

definition isPrivate :: "string \<Rightarrow> bool" where
  "isPrivate addr = (list_ex (startsWith addr) ipv4Private \<or> ipv6Private addr)"

text \<open>The text a regular expression tests: an array of objects is rendered without their contents.\<close>

definition addressText :: "dnsAnswer \<Rightarrow> string" where
  "addressText r =
     (case r of OneAddress a _ \<Rightarrow> a | AllAddresses xs \<Rightarrow> join '','' (map (\<lambda>_. ''[object Object]'') xs))"

definition ssrfSafeLookup :: "(string \<Rightarrow> json \<Rightarrow> dnsAnswer res) \<Rightarrow> string \<Rightarrow> json \<Rightarrow> dnsAnswer res" where
  "ssrfSafeLookup dns hostname options =
     bindR (dns hostname options) (\<lambda>answer.
       if isPrivate (addressText answer)
       then Inl (Error ''Invalid URL: Private IP ranges are not allowed.'')
       else Inr answer)"

text \<open>
  The agent of a protocol and its options; the lookup is named by its function. Options of the caller
  come last and win.
\<close>

datatype agentKind = HttpsAgent | HttpAgent

definition getSafeAgent :: "string \<Rightarrow> json \<Rightarrow> agentKind \<times> json" where
  "getSafeAgent protocol options =
     (if protocol = ''https:'' then HttpsAgent else HttpAgent,
      fold (\<lambda>kv acc. jput acc (fst kv) (snd kv)) (entries options)
        (JObj [(''lookup'', JStr ''ssrfSafeLookup''), (''keepAlive'', JBool False)]))"

section \<open>\<open>validateUrl\<close>\<close>

record urlEnv =
  ue_protocol :: "string \<Rightarrow> string res"
  ue_head :: "string \<Rightarrow> unit res"
  ue_get :: "string \<Rightarrow> (int + string) option"

text \<open>The GET request fails with the status of a response or with a message. The \<open>url\<close> of the request is a string.\<close>

definition invalidUrl :: "string \<Rightarrow> nat \<times> json" where
  "invalidUrl msg = (200, JObj [(''valid'', JBool False), (''error'', JStr msg)])"

definition validateUrl :: "urlEnv \<Rightarrow> json \<Rightarrow> nat \<times> json" where
  "validateUrl U body =
     (case jget body ''url'' of
        JStr urlString \<Rightarrow>
          if urlString = [] then (400, JObj [(''valid'', JBool False), (''error'', JStr ''URL is required'')])
          else (case ue_protocol U urlString of
            Inl e \<Rightarrow> invalidUrl (err_message e)
          | Inr protocol \<Rightarrow>
              if protocol \<noteq> ''http:'' \<and> protocol \<noteq> ''https:''
              then invalidUrl ''Invalid protocol. Only http and https are allowed.''
              else (case ue_head U urlString of
                Inr _ \<Rightarrow> (200, JObj [(''valid'', JBool True)])
              | Inl _ \<Rightarrow>
                  (case ue_get U urlString of
                     None \<Rightarrow> (200, JObj [(''valid'', JBool True)])
                   | Some (Inl status) \<Rightarrow> invalidUrl (''Status '' @ int_str status)
                   | Some (Inr msg) \<Rightarrow> invalidUrl msg)))
      | v \<Rightarrow> if truthy v then invalidUrl ''Invalid URL''
            else (400, JObj [(''valid'', JBool False), (''error'', JStr ''URL is required'')]))"

section \<open>Address blocks\<close>

text \<open>An address as a 32 bit number, its dotted notation and membership in a CIDR block.\<close>

definition ipv4Word :: "8 word \<Rightarrow> 8 word \<Rightarrow> 8 word \<Rightarrow> 8 word \<Rightarrow> 32 word" where
  "ipv4Word a b c d = of_nat (((unat a * 256 + unat b) * 256 + unat c) * 256 + unat d)"

definition dotted :: "8 word \<Rightarrow> 8 word \<Rightarrow> 8 word \<Rightarrow> 8 word \<Rightarrow> string" where
  "dotted a b c d =
     nat_str (unat a) @ ''.'' @ nat_str (unat b) @ ''.'' @ nat_str (unat c) @ ''.'' @ nat_str (unat d)"

definition inBlock :: "32 word \<Rightarrow> 32 word \<times> nat \<Rightarrow> bool" where
  "inBlock w blk = (drop_bit (32 - snd blk) w = drop_bit (32 - snd blk) (fst blk))"

text \<open>127.0.0.0/8, 10.0.0.0/8, 192.168.0.0/16, 172.16.0.0/12 and 169.254.0.0/16.\<close>

definition privateBlocks :: "(32 word \<times> nat) list" where
  "privateBlocks =
     [(ipv4Word 127 0 0 0, 8), (ipv4Word 10 0 0 0, 8), (ipv4Word 192 168 0 0, 16),
      (ipv4Word 172 16 0 0, 12), (ipv4Word 169 254 0 0, 16)]"

lemma nat_str_plain: "CHR ''.'' \<notin> set (nat_str n)" "CHR '':'' \<notin> set (nat_str n)"
  using nat_str_digits [of "CHR ''.''" n] nat_str_digits [of "CHR '':''" n] by auto

lemma startsWith_dot:
  assumes "CHR ''.'' \<notin> set x" "CHR ''.'' \<notin> set y"
  shows "startsWith (x @ CHR ''.'' # xs) (y @ CHR ''.'' # ys) \<longleftrightarrow> x = y \<and> startsWith xs ys"
proof
  assume "startsWith (x @ CHR ''.'' # xs) (y @ CHR ''.'' # ys)"
  then obtain r where r: "x @ CHR ''.'' # xs = y @ CHR ''.'' # ys @ r" by (auto simp: startsWith_iff)
  have "takeWhile (\<lambda>c. c \<noteq> CHR ''.'') (x @ CHR ''.'' # xs) = x" "takeWhile (\<lambda>c. c \<noteq> CHR ''.'') (y @ CHR ''.'' # ys @ r) = y"
    using assms by (auto simp: takeWhile_append)
  then have "x = y" using r by simp
  with r show "x = y \<and> startsWith xs ys" by (auto simp: startsWith_iff)
qed (auto simp: startsWith_iff)

lemma dotted_first: "startsWith (dotted a b c d) (nat_str k @ ''.'') \<longleftrightarrow> unat a = k"
  unfolding dotted_def by (auto simp: startsWith_dot nat_str_plain dest: nat_str_inj)

lemma dotted_second:
  "startsWith (dotted a b c d) (nat_str k @ ''.'' @ nat_str m @ ''.'') \<longleftrightarrow> unat a = k \<and> unat b = m"
  unfolding dotted_def by (auto simp: startsWith_dot nat_str_plain dest: nat_str_inj)

lemma dotted_no_colon: "CHR '':'' \<notin> set (toLowerCase (dotted a b c d))"
proof -
  have "lower_char x = x" if "x \<in> set (dotted a b c d)" for x
  proof -
    have "(of_char x :: nat) \<le> 57" using that nat_str_digits by (fastforce simp: dotted_def)
    then show ?thesis by (simp add: lower_char_def)
  qed
  then have "toLowerCase (dotted a b c d) = dotted a b c d" by (simp add: toLowerCase_def map_idI)
  then show ?thesis by (simp add: dotted_def nat_str_plain)
qed

lemma startsWith_member: "startsWith s p \<Longrightarrow> x \<in> set p \<Longrightarrow> x \<in> set s"
  by (auto simp: startsWith_iff)

lemma dotted_not_ipv6: "\<not> ipv6Private (dotted a b c d)"
  using dotted_no_colon [of a b c d] startsWith_member [of "toLowerCase (dotted a b c d)" _ "CHR '':''"]
  by (force simp: ipv6Private_def Let_def)

lemma isPrivate_octets:
  "isPrivate (dotted a b c d) \<longleftrightarrow>
     unat a = 127 \<or> unat a = 10 \<or> unat a = 192 \<and> unat b = 168 \<or>
     unat a = 172 \<and> 16 \<le> unat b \<and> unat b < 32 \<or> unat a = 169 \<and> unat b = 254"
proof -
  have n: "nat_str 127 = ''127''" "nat_str 10 = ''10''" "nat_str 192 = ''192''" "nat_str 168 = ''168''"
    "nat_str 172 = ''172''" "nat_str 169 = ''169''" "nat_str 254 = ''254''" by code_simp+
  let ?s = "dotted a b c d"
  have p: "startsWith ?s ''127.'' \<longleftrightarrow> unat a = 127" "startsWith ?s ''10.'' \<longleftrightarrow> unat a = 10"
    "startsWith ?s ''192.168.'' \<longleftrightarrow> unat a = 192 \<and> unat b = 168" "startsWith ?s ''169.254.'' \<longleftrightarrow> unat a = 169 \<and> unat b = 254"
    using dotted_first [of a b c d 127] dotted_first [of a b c d 10] dotted_second [of a b c d 192 168]
      dotted_second [of a b c d 169 254] by (simp_all add: n)
  have q: "startsWith ?s (''172.'' @ nat_str k @ ''.'') \<longleftrightarrow> unat a = 172 \<and> unat b = k" for k
    using dotted_second [of a b c d 172 k] by (simp add: n)
  define M where "M = map (\<lambda>n. ''172.'' @ nat_str n @ ''.'') [16..<32]"
  have "list_ex (startsWith ?s) M \<longleftrightarrow> (\<exists>k \<in> {16..<32}. startsWith ?s (''172.'' @ nat_str k @ ''.''))"
    unfolding M_def list_ex_iff set_map set_upt by blast
  also have "\<dots> \<longleftrightarrow> unat a = 172 \<and> 16 \<le> unat b \<and> unat b < 32" unfolding q by auto
  finally show ?thesis
    unfolding isPrivate_def ipv4Private_def M_def [symmetric] using dotted_not_ipv6 [of a b c d] p by simp
qed

lemma unat_ipv4Word: "unat (ipv4Word a b c d) = ((unat a * 256 + unat b) * 256 + unat c) * 256 + unat d"
proof -
  have "unat x < 2 ^ LENGTH(8)" for x :: "8 word" by (rule unsigned_less)
  from this [of a] this [of b] this [of c] this [of d] have "((unat a * 256 + unat b) * 256 + unat c) * 256 + unat d < 2 ^ 32" by simp
  moreover have "unat (of_nat n :: 32 word) = n" if "n < 2 ^ 32" for n
    using that by (simp add: unsigned_of_nat take_bit_nat_eq_self)
  ultimately show ?thesis unfolding ipv4Word_def by blast
qed

lemma inBlock_unat: "inBlock w (net, len) \<longleftrightarrow> unat w div 2 ^ (32 - len) = unat net div 2 ^ (32 - len)"
  by (simp add: inBlock_def word_unat_eq_iff unat_drop_bit_eq flip: drop_bit_eq_div)

lemma octet_less: "unat x < 256" for x :: "8 word"
  using unsigned_less [of x] by simp

lemma div_octets:
  assumes "b < 256" "c < 256" "d < 256"
  shows "(((a * 256 + b) * 256 + c) * 256 + d) div 16777216 = (a :: nat)"
    "(((a * 256 + b) * 256 + c) * 256 + d) div 65536 = a * 256 + b"
    "(((a * 256 + b) * 256 + c) * 256 + d) div 1048576 = a * 16 + b div 16"
  using assms by simp_all

lemma radix_eq:
  assumes "b < 256" "m < (256 :: nat)"
  shows "a * 256 + b = k * 256 + m \<longleftrightarrow> a = k \<and> b = m"
    "a * 16 + b div 16 = k * 16 + m div 16 \<longleftrightarrow> a = k \<and> b div 16 = m div 16"
proof -
  have radix: "a * r + x = k * r + y \<longleftrightarrow> a = k \<and> x = y" if "x < r" "y < r" for r x y :: nat
    using that by (metis add_left_cancel div_mult_self3 div_less add_0_right not_less_zero)
  show "a * 256 + b = k * 256 + m \<longleftrightarrow> a = k \<and> b = m" using radix assms by blast
  have "b div 16 < 16" "m div 16 < 16" using assms by auto
  then show "a * 16 + b div 16 = k * 16 + m div 16 \<longleftrightarrow> a = k \<and> b div 16 = m div 16" using radix by blast
qed

lemma blocks_octets:
  "inBlock (ipv4Word a b c d) (ipv4Word k 0 0 0, 8) \<longleftrightarrow> unat a = unat k"
  "inBlock (ipv4Word a b c d) (ipv4Word k m 0 0, 16) \<longleftrightarrow> unat a = unat k \<and> unat b = unat m"
  "inBlock (ipv4Word a b c d) (ipv4Word k m 0 0, 12) \<longleftrightarrow> unat a = unat k \<and> unat b div 16 = unat m div 16"
proof -
  note v = div_octets [OF octet_less octet_less octet_less] and e = radix_eq [OF octet_less octet_less]
  have z: "unat (0 :: 8 word) = 0" by simp
  show "inBlock (ipv4Word a b c d) (ipv4Word k 0 0 0, 8) \<longleftrightarrow> unat a = unat k"
    using v(1) [of _ b c d] v(1) [of _ 0 0 0] by (simp add: inBlock_unat unat_ipv4Word)
  have "32 - 16 = (16 :: nat)" "32 - 12 = (20 :: nat)" "2 ^ 16 = (65536 :: nat)" "2 ^ 20 = (1048576 :: nat)" by simp_all
  note i = inBlock_unat unat_ipv4Word this v e
  show "inBlock (ipv4Word a b c d) (ipv4Word k m 0 0, 16) \<longleftrightarrow> unat a = unat k \<and> unat b = unat m"
    by (simp only: i)
  show "inBlock (ipv4Word a b c d) (ipv4Word k m 0 0, 12) \<longleftrightarrow> unat a = unat k \<and> unat b div 16 = unat m div 16"
    by (simp only: i)
qed

lemma privateBlocks_octets:
  "list_ex (inBlock (ipv4Word a b c d)) privateBlocks \<longleftrightarrow> isPrivate (dotted a b c d)"
proof -
  have "unat b div 16 = 1 \<longleftrightarrow> 16 \<le> unat b \<and> unat b < 32" by auto
  then show ?thesis by (auto simp: privateBlocks_def blocks_octets isPrivate_octets)
qed

lemma bracket_public:
  assumes "s = [] \<or> hd s = CHR ''[''"
  shows "\<not> isPrivate s"
proof -
  have no: "\<not> startsWith t p" if "t = [] \<or> hd t = CHR ''[''" "p \<noteq> []" "hd p \<noteq> CHR ''[''" for t p
    using that by (auto simp: startsWith_iff hd_append)
  have "\<forall>p \<in> set ipv4Private. p \<noteq> [] \<and> hd p \<noteq> CHR ''[''" by code_simp
  moreover have "toLowerCase s = [] \<or> hd (toLowerCase s) = CHR ''[''"
    using assms by (cases s) (auto simp: toLowerCase_def lower_char_def)
  ultimately show ?thesis
    using no [OF assms] no [of "toLowerCase s"] by (auto simp: isPrivate_def ipv6Private_def list_ex_iff Let_def)
qed

lemma objectText_public: "\<not> isPrivate (join '','' (map (\<lambda>_. ''[object Object]'') xs))"
  by (rule bracket_public) (cases xs rule: remdups_adj.cases; simp)

text \<open>
  C39. On every dotted IPv4 address the textual test of the lookup decides membership in the five
  private blocks exactly, as a test of the leading bits of the 32 bit address does: a lookup
  that answers with one address is refused if the address lies in such a block and passed on
  otherwise. A lookup that answers with the list of all addresses is never refused.
\<close>

theorem ssrfSafeLookup_blocks:
  "isPrivate (dotted a b c d) = list_ex (inBlock (ipv4Word a b c d)) privateBlocks \<and>
   ssrfSafeLookup (\<lambda>_ _. Inr (OneAddress (dotted a b c d) 4)) host options =
     (if list_ex (inBlock (ipv4Word a b c d)) privateBlocks
      then Inl (Error ''Invalid URL: Private IP ranges are not allowed.'')
      else Inr (OneAddress (dotted a b c d) 4)) \<and>
   ssrfSafeLookup (\<lambda>_ _. Inr (AllAddresses xs)) host options = Inr (AllAddresses xs)"
  by (simp add: privateBlocks_octets ssrfSafeLookup_def addressText_def objectText_public)

end
