(* ===== verification/Audio_Library.thy ===== *)
theory Audio_Library
  imports Audio_Assets Audio_Source Auth
begin

text \<open>
  The library of audio files as the administrator sees it: the listing of \<open>systemController.js\<close> with its
  cache and pages, and the handlers of \<open>settingsController.js\<close> that upload, delete and revalidate a
  file. A handler returns the new state and the reply; an error that leaves a handler goes to the error middleware. The
  upload middleware has already stored the file in the temporary directory.
\<close>

section \<open>State\<close>

record fileListCache =
  fc_data :: "json list option"
  fc_timestamp :: int

record library =
  lb_assets :: assets
  lb_cache :: fileListCache

definition noCache :: fileListCache where
  "noCache = \<lparr>fc_data = None, fc_timestamp = 0\<rparr>"

definition invalidateFileCache :: "library \<Rightarrow> library" where
  "invalidateFileCache L = L\<lparr>lb_cache := noCache\<rparr>"

definition respondWith :: "json \<Rightarrow> reply" where
  "respondWith body = \<lparr>rp_status = 200, rp_body = body, rp_cookie = KeepCookie\<rparr>"

text \<open>The error middleware: the modelled errors have neither a \<open>status\<close> nor a \<open>response\<close>.\<close>

definition errorHandler :: "err \<Rightarrow> reply" where
  "errorHandler e =
     respond 500 [(''success'', JBool False),
       (''error'', JStr (if err_message e = [] then ''Internal Server Error'' else err_message e))]"

section \<open>The listing\<close>

text \<open>\<open>Array.prototype.slice\<close>\<close>

definition sliceIndex :: "nat \<Rightarrow> int \<Rightarrow> nat" where
  "sliceIndex n i = nat (if i < 0 then max (int n + i) 0 else min i (int n))"

definition js_slice :: "int \<Rightarrow> int \<Rightarrow> 'a list \<Rightarrow> 'a list" where
  "js_slice a b xs =
     (let k = sliceIndex (length xs) a; final = sliceIndex (length xs) b in take (final - k) (drop k xs))"

definition pageFiles :: "json list \<Rightarrow> int \<Rightarrow> int \<Rightarrow> json list" where
  "pageFiles allFiles page limit =
     (let startIndex = (page - 1) * limit in js_slice startIndex (startIndex + limit) allFiles)"

definition paginate :: "json list \<Rightarrow> int \<Rightarrow> int \<Rightarrow> json" where
  "paginate allFiles page limit =
     JObj [(''files'', JArr (pageFiles allFiles page limit)), (''total'', JNum (of_nat (length allFiles))),
       (''page'', JNum (of_int page)), (''limit'', JNum (of_int limit)),
       (''totalPages'', JNum (of_int \<lceil>(of_nat (length allFiles) :: rat) / of_int limit\<rceil>))]"

definition getFileEntries :: "'dt assetEnv \<Rightarrow> area \<Rightarrow> string list io" where
  "getFileEntries E d =
     catchA (bindA (readdir E d) (\<lambda>files. pureA (Inr (filter isAudioName files)))) (\<lambda>_. pureA (Inr []))"

definition fileInfo :: "'dt assetEnv \<Rightarrow> area \<Rightarrow> area \<Rightarrow> assets \<Rightarrow> string \<Rightarrow> json" where
  "fileInfo E d meta w f =
     JObj [(''name'', JStr f), (''type'', JStr (areaName d)), (''path'', JStr (areaName d @ ''/'' @ f)),
       (''url'', JStr (''/public/audio/'' @ areaName d @ ''/'' @ f)),
       (''metadata'', case snd (readJson E (meta, sidecarName f) w) of Inr v \<Rightarrow> v | Inl _ \<Rightarrow> JObj [])]"

definition visibleFiles :: "json list \<Rightarrow> json list res" where
  "visibleFiles files =
     foldR (\<lambda>f shown. bindR (getProp (jget f ''metadata'') ''hidden'') (\<lambda>h. Inr (if truthy h then shown else shown @ [f]))) files []"

definition scanFiles :: "'dt assetEnv \<Rightarrow> json list io" where
  "scanFiles E =
     bindA (allA (mkdir E) [AudioCustom, AudioCache, MetaCustom, MetaCache]) (\<lambda>_.
     bindA (getFileEntries E AudioCustom) (\<lambda>customEntries.
     bindA (getFileEntries E AudioCache) (\<lambda>cacheEntries.
     getsA (\<lambda>w. visibleFiles (map (fileInfo E AudioCustom MetaCustom w) customEntries @ map (fileInfo E AudioCache MetaCache w) cacheEntries)))))"

definition CACHE_TTL :: int where
  "CACHE_TTL = 60000"

definition cachedList :: "int \<Rightarrow> fileListCache \<Rightarrow> json list option" where
  "cachedList now c =
     (case fc_data c of Some files \<Rightarrow> if now - fc_timestamp c < CACHE_TTL then Some files else None | None \<Rightarrow> None)"

definition getAudioFilesWithMetadata :: "'dt assetEnv \<Rightarrow> int \<Rightarrow> int \<Rightarrow> library \<Rightarrow> library \<times> json res" where
  "getAudioFilesWithMetadata E page limit L =
     (case cachedList (av_now E) (lb_cache L) of
        Some allFiles \<Rightarrow> (L, Inr (paginate allFiles page limit))
      | None \<Rightarrow>
          (case scanFiles E (lb_assets L) of
             (w, Inl e) \<Rightarrow> (L\<lparr>lb_assets := w\<rparr>, Inl e)
           | (w, Inr files) \<Rightarrow>
               (\<lparr>lb_assets = w, lb_cache = \<lparr>fc_data = Some files, fc_timestamp = av_now E\<rparr>\<rparr>, Inr (paginate files page limit))))"

text \<open>\<open>parseInt\<close> of a query parameter, which is a string, or an array of strings when it is repeated.\<close>

definition hexDigit :: "char \<Rightarrow> nat option" where
  "hexDigit c =
     (let n = of_char (lower_char c) :: nat in
      case digit_val c of Some d \<Rightarrow> Some d | None \<Rightarrow> if 97 \<le> n \<and> n \<le> 102 then Some (n - 87) else None)"

definition radixVal :: "nat \<Rightarrow> nat list \<Rightarrow> int" where
  "radixVal radix = foldl (\<lambda>acc d. acc * int radix + int d) 0"

definition parseInt :: "string \<Rightarrow> int option" where
  "parseInt s =
     (let t = dropWhile is_ws s;
          sign = (case t of CHR ''-'' # _ \<Rightarrow> - 1 | _ \<Rightarrow> 1);
          t = (case t of c # cs \<Rightarrow> if c = CHR ''-'' \<or> c = CHR ''+'' then cs else t | [] \<Rightarrow> []);
          hex = (take 2 t = ''0x'' \<or> take 2 t = ''0X'');
          digit = (if hex then hexDigit else digit_val);
          ds = takeWhile (\<lambda>c. digit c \<noteq> None) (if hex then drop 2 t else t) in
      if ds = [] then None else Some (sign * radixVal (if hex then 16 else 10) (map (\<lambda>c. the (digit c)) ds)))"

definition queryInt :: "json \<Rightarrow> int \<Rightarrow> int" where
  "queryInt v dflt =
     (case (case v of JStr s \<Rightarrow> parseInt s | JArr (JStr s # _) \<Rightarrow> parseInt s | _ \<Rightarrow> None) of
        Some i \<Rightarrow> if i = 0 then dflt else i
      | None \<Rightarrow> dflt)"

definition getAudioFiles :: "'dt assetEnv \<Rightarrow> json \<Rightarrow> library \<Rightarrow> library \<times> reply" where
  "getAudioFiles E query L =
     (case getAudioFilesWithMetadata E (queryInt (jget query ''page'') 1) (queryInt (jget query ''limit'') 50) L of
        (L', Inl e) \<Rightarrow> (L', errorHandler e)
      | (L', Inr result) \<Rightarrow> (L', respondWith result))"

section \<open>Uploading\<close>

definition tempFile :: "string \<Rightarrow> path" where "tempFile n = (AudioTemp, n)"

definition customFile :: "string \<Rightarrow> path" where "customFile n = (AudioCustom, n)"

definition customMeta :: "string \<Rightarrow> path" where "customMeta n = (MetaCustom, sidecarName n)"

text \<open>The outcome of a step as a value: the code decides on it.\<close>

definition attemptA :: "'a io \<Rightarrow> 'a res io" where
  "attemptA m w = (case m w of (w', r) \<Rightarrow> (w', Inr r))"

definition checkUpload :: "'dt assetEnv \<Rightarrow> string \<Rightarrow> json io" where
  "checkUpload E n =
     bindA (analyseAudioFile E (tempFile n)) (\<lambda>basicMetadata.
     pureA (if truthy (jget basicMetadata ''mimeType'') \<and> startsWith (the_str (jget basicMetadata ''mimeType'')) ''audio/''
            then Inr basicMetadata else Inl (Error ''Invalid file format: Not a valid audio file'')))"

definition refuseUpload :: "'dt assetEnv \<Rightarrow> string \<Rightarrow> nat \<Rightarrow> string \<Rightarrow> string \<Rightarrow> (bool \<times> reply) io" where
  "refuseUpload E n code problem message =
     bindA (ignoreErrors (unlink E (tempFile n))) (\<lambda>_.
     pureA (Inr (False, respond code [(''error'', JStr problem), (''message'', JStr message)])))"

definition storeUpload :: "'dt assetEnv \<Rightarrow> string \<Rightarrow> json \<Rightarrow> (bool \<times> reply) io" where
  "storeUpload E n basicMetadata =
     bindA (copyFile E (tempFile n) (customFile n)) (\<lambda>_.
     bindA (unlink E (tempFile n)) (\<lambda>_.
     let enriched = enrichMetadata E basicMetadata in
     bindA (writeJson E (customMeta n) enriched) (\<lambda>_.
     pureA (Inr (True, respondWith (spreadMerge (JObj [(''message'', JStr ''File uploaded and analysed successfully''),
       (''filename'', JStr n), (''path'', JStr (''custom/'' @ n))]) enriched))))))"

definition processUpload :: "'dt assetEnv \<Rightarrow> string \<Rightarrow> (bool \<times> reply) io" where
  "processUpload E n =
     bindA (mkdir E AudioCustom) (\<lambda>_.
     bindA (mkdir E MetaCustom) (\<lambda>_.
     bindA (catchA (readdir E AudioCustom) (\<lambda>_. pureA (Inr []))) (\<lambda>existingFiles.
     if length existingFiles \<ge> 500
     then refuseUpload E n 400 ''Limit Reached''
            ''Maximum of 500 custom audio files allowed. Please delete some files before uploading more.''
     else bindA (attemptA (checkUpload E n)) (\<lambda>checked.
       case checked of
         Inl e \<Rightarrow> refuseUpload E n 400 ''Invalid File'' (err_message e)
       | Inr basicMetadata \<Rightarrow> storeUpload E n basicMetadata))))"

text \<open>The result says whether the cached listing is dropped.\<close>

definition settle :: "(bool \<times> reply) io \<Rightarrow> library \<Rightarrow> library \<times> reply" where
  "settle m L =
     (case m (lb_assets L) of
        (w, Inr (stale, r)) \<Rightarrow> (if stale then invalidateFileCache (L\<lparr>lb_assets := w\<rparr>) else L\<lparr>lb_assets := w\<rparr>, r)
      | (w, Inl e) \<Rightarrow> (L\<lparr>lb_assets := w\<rparr>, errorHandler e))"

definition uploadFile :: "'dt assetEnv \<Rightarrow> string option \<Rightarrow> library \<Rightarrow> library \<times> reply" where
  "uploadFile E file L =
     (case file of
        None \<Rightarrow> (L, failWith 400 ''No file uploaded'')
      | Some n \<Rightarrow> settle (catchA (processUpload E n) (\<lambda>e. refuseUpload E n 500 ''Upload Failed'' (err_message e))) L)"

section \<open>Deleting and revalidating\<close>

text \<open>The containment check of a resolved path; \<open>dir\<close> is absolute.\<close>

definition isContained :: "string \<Rightarrow> string \<Rightarrow> bool" where
  "isContained dir name =
     (let relative = path_relative [slash] dir (path_resolve dir name) in
      relative = [] \<or> (\<not> startsWith relative ''..'' \<and> \<not> isAbsolute relative))"

definition isProtected :: "'dt assetEnv \<Rightarrow> string \<Rightarrow> bool io" where
  "isProtected E n =
     catchA (bindA (access E (customMeta n)) (\<lambda>_.
             bindA (readJson E (customMeta n)) (\<lambda>metadata.
             bindA (pureA (getProp metadata ''protected'')) (\<lambda>p. pureA (Inr (truthy p))))))
       (\<lambda>_. pureA (Inr False))"

definition removeIfThere :: "'dt assetEnv \<Rightarrow> path \<Rightarrow> bool io" where
  "removeIfThere E p =
     bindA (attemptA (access E p)) (\<lambda>there.
     case there of
       Inr _ \<Rightarrow> bindA (unlink E p) (\<lambda>_. pureA (Inr True))
     | Inl _ \<Rightarrow> pureA (Inr False))"

definition removeFile :: "'dt assetEnv \<Rightarrow> string \<Rightarrow> (bool \<times> reply) io" where
  "removeFile E n =
     bindA (isProtected E n) (\<lambda>prot.
     if prot then pureA (Inr (False, failWith 403 ''Forbidden: File is protected and cannot be deleted''))
     else catchA
       (bindA (removeIfThere E (customFile n)) (\<lambda>a.
        bindA (removeIfThere E (customMeta n)) (\<lambda>m.
        pureA (Inr (if a \<or> m
          then (True, respond 200 [(''success'', JBool True), (''message'', JStr ''File and metadata deleted'')])
          else (False, failWith 404 ''File not found''))))))
       (\<lambda>_. pureA (Inr (False, failWith 500 ''Internal Server Error: Failed to delete file''))))"

text \<open>\<open>metaRoot\<close> is the directory of the sidecars, \<open>src/public/audio\<close>.\<close>

definition deleteFile :: "'dt assetEnv \<Rightarrow> string \<Rightarrow> json \<Rightarrow> library \<Rightarrow> library \<times> reply" where
  "deleteFile E metaRoot body L =
     (if \<not> truthy (jget body ''filename'') then (L, failWith 400 ''Missing filename'')
      else case sanitizeFilename (jget body ''filename'') of
        Inl _ \<Rightarrow> (L, failWith 400 ''Invalid filename'')
      | Inr n \<Rightarrow>
          if \<not> isContained (path_join (av_audioDir E) ''custom'') n \<or> \<not> isContained (path_join metaRoot ''custom'') (sidecarName n)
          then (L, failWith 400 ''Invalid filename'')
          else settle (removeFile E n) L)"

definition revalidated :: "'dt assetEnv \<Rightarrow> path \<Rightarrow> (bool \<times> reply) io" where
  "revalidated E p =
     catchA (bindA (access E p) (\<lambda>_. bindA (analyzeFile E p) (\<lambda>metadata. pureA (Inr (True, respondWith metadata)))))
       (\<lambda>e. pureA (Inr (False, respond (if e = ENOENT then 404 else 500)
              [(''error'', JStr ''Revalidation Failed''), (''message'', JStr (err_message e))])))"

definition revalidateFile :: "'dt assetEnv \<Rightarrow> json \<Rightarrow> library \<Rightarrow> library \<times> reply" where
  "revalidateFile E body L =
     (if \<not> truthy (jget body ''filename'') \<or> \<not> truthy (jget body ''type'')
      then (L, failWith 400 ''Filename and type are required'')
      else case sanitizeFilename (jget body ''filename'') of
        Inl _ \<Rightarrow> (L, failWith 400 ''Invalid filename'')
      | Inr n \<Rightarrow>
          let d = (if jget body ''type'' = JStr ''cache'' then AudioCache else AudioCustom) in
          if \<not> isContained (path_join (av_audioDir E) (areaName d)) n then (L, failWith 400 ''Invalid filename'')
          else settle (revalidated E (d, n)) L)"

section \<open>What the listing shows\<close>

text \<open>The listing of the files as they are, when no call fails.\<close>

definition faultless :: "'dt assetEnv \<Rightarrow> bool" where
  "faultless E \<longleftrightarrow> (\<forall>op p. av_fault E op p = None)"

lemma faultlessD [simp]: "faultless E \<Longrightarrow> av_fault E op p = None"
  unfolding faultless_def by blast

definition described :: "area \<Rightarrow> area \<Rightarrow> assets \<Rightarrow> string \<Rightarrow> json" where
  "described d meta w f =
     JObj [(''name'', JStr f), (''type'', JStr (areaName d)), (''path'', JStr (areaName d @ ''/'' @ f)),
       (''url'', JStr (''/public/audio/'' @ areaName d @ ''/'' @ f)),
       (''metadata'', case Option.bind (fileOf w (meta, sidecarName f)) af_json of Some v \<Rightarrow> v | None \<Rightarrow> JObj [])]"

definition contents :: "assets \<Rightarrow> json list res" where
  "contents w =
     visibleFiles (map (described AudioCustom MetaCustom w) (filter isAudioName (namesIn w AudioCustom)) @
                   map (described AudioCache MetaCache w) (filter isAudioName (namesIn w AudioCache)))"

lemma described_cong: "(\<And>n. fileOf w' (meta, n) = fileOf w (meta, n)) \<Longrightarrow> described d meta w' = described d meta w"
  by (simp add: described_def fun_eq_iff)

lemma fileInfo_described: "faultless E \<Longrightarrow> fileInfo E d meta w = described d meta w"
  by (auto simp: fileInfo_def described_def readJson_def withFile_def pureA_def fun_eq_iff split: option.splits)

lemma mkdir_faultless: "faultless E \<Longrightarrow> mkdir E d w = (w\<lparr>at_dirs := List.insert d (at_dirs w)\<rparr>, Inr ())"
  by (simp add: mkdir_def guarded_def)

lemma readdir_faultless: "faultless E \<Longrightarrow> d \<in> set (at_dirs w) \<Longrightarrow> readdir E d w = (w, Inr (namesIn w d))"
  by (simp add: readdir_def guarded_def)

lemma contents_dirs [simp]: "contents (w\<lparr>at_dirs := ds\<rparr>) = contents w"
  by (simp add: contents_def namesIn_def described_cong [of "w\<lparr>at_dirs := ds\<rparr>" _ w])

lemma scanFiles_contents:
  assumes "faultless E"
  shows "\<exists>ds. scanFiles E w = (w\<lparr>at_dirs := ds\<rparr>, contents w)"
proof -
  define ds where "ds = List.insert MetaCache (List.insert MetaCustom (List.insert AudioCache (List.insert AudioCustom (at_dirs w))))"
  have "scanFiles E w = (w\<lparr>at_dirs := ds\<rparr>, contents (w\<lparr>at_dirs := ds\<rparr>))"
    using assms unfolding contents_def
    by (simp add: scanFiles_def bindA_def catchA_def pureA_def getsA_def getFileEntries_def mkdir_faultless readdir_faultless ds_def
        fileInfo_described)
  then show ?thesis by auto
qed

text \<open>Everything but the temporary files.\<close>

definition kept :: "assets \<Rightarrow> (path \<times> assetFile) list" where
  "kept w = filter (\<lambda>e. fst (fst e) \<noteq> AudioTemp) (at_files w)"

lemma kept_contents:
  assumes "kept w' = kept w"
  shows "contents w' = contents w"
proof -
  have "namesIn w' d = namesIn w d" if "d \<noteq> AudioTemp" for d
  proof -
    have "namesIn v d = map (\<lambda>e. snd (fst e)) (filter (\<lambda>e. fst (fst e) = d) (kept v))" for v
      using that by (auto simp: namesIn_def kept_def intro!: arg_cong [of _ _ "map _"] filter_cong)
    then show ?thesis using assms by simp
  qed
  moreover have "fileOf w' (d, n) = fileOf w (d, n)" if "d \<noteq> AudioTemp" for d n
  proof -
    have "map_of (filter (\<lambda>e. fst (fst e) \<noteq> AudioTemp) es) (d, n) = map_of es (d, n)" for es :: "(path \<times> assetFile) list"
      using that by (induction es) auto
    then show ?thesis using assms by (metis kept_def)
  qed
  ultimately show ?thesis by (simp add: contents_def described_cong [of w' _ w])
qed

lemma kept_update: "kept (putFile (AudioTemp, n) f w) = kept w"
proof -
  have "filter (\<lambda>e. fst (fst e) \<noteq> AudioTemp) (AList.update (AudioTemp, n) f es) = filter (\<lambda>e. fst (fst e) \<noteq> AudioTemp) es"
    for es :: "(path \<times> assetFile) list"
    by (induction es) auto
  then show ?thesis by (simp add: kept_def putFile_def)
qed

lemma kept_delete: "kept (dropFile (AudioTemp, n) w) = kept w"
  by (auto simp: kept_def dropFile_def AList.delete_eq intro: filter_cong)

lemma kept_dirs [simp]: "kept (w\<lparr>at_dirs := ds\<rparr>) = kept w"
  by (simp add: kept_def)

text \<open>The cached listing is the listing of the files.\<close>

definition coherent :: "library \<Rightarrow> bool" where
  "coherent L \<longleftrightarrow> (\<forall>files. fc_data (lb_cache L) = Some files \<longrightarrow> contents (lb_assets L) = Inr files)"

text \<open>A handler that changes files drops the cached listing.\<close>

definition invalidates :: "(bool \<times> reply) io \<Rightarrow> bool" where
  "invalidates m \<longleftrightarrow> (\<forall>w. (\<exists>x. snd (m w) = Inr (True, x)) \<or> kept (fst (m w)) = kept w)"

lemma settle_coherent:
  assumes "coherent L" "invalidates m"
  shows "coherent (fst (settle m L))"
proof -
  obtain w r where m: "m (lb_assets L) = (w, r)" by fastforce
  have "(\<exists>x. r = Inr (True, x)) \<or> kept w = kept (lb_assets L)" using assms(2) m by (metis fst_conv snd_conv invalidates_def)
  then show ?thesis
    using assms(1) m kept_contents [of w "lb_assets L"]
    by (auto simp: coherent_def settle_def invalidateFileCache_def noCache_def split: sum.splits)
qed

lemma unlink_faultless:
  "faultless E \<Longrightarrow> unlink E p w = (case fileOf w p of None \<Rightarrow> (w, Inl ENOENT) | Some _ \<Rightarrow> (dropFile p w, Inr ()))"
  by (simp add: unlink_def withFile_def split: option.split)

lemma access_faultless: "faultless E \<Longrightarrow> access E p w = (w, case fileOf w p of None \<Rightarrow> Inl ENOENT | Some _ \<Rightarrow> Inr ())"
  by (simp add: access_def withFile_def pureA_def split: option.split)

lemma analyse_same: "fst (analyseAudioFile E p w) = w"
  by (auto simp: analyseAudioFile_def bindA_def getsA_def stat_def withFile_def pureA_def split: option.split sum.split)

lemma refuseUpload_kept:
  "\<exists>w' x. refuseUpload E n code problem message w = (w', Inr x) \<and> kept w' = kept w"
  by (auto simp: refuseUpload_def ignoreErrors_def bindA_def catchA_def pureA_def unlink_def withFile_def tempFile_def kept_delete
      split: option.split)

lemma refuseUpload_status:
  "refuseUpload E n code problem message w = (w', Inr (b, r)) \<Longrightarrow> \<not> b \<and> rp_status r = code"
  by (auto simp: refuseUpload_def bindA_Inr pureA_def respond_def)

lemma checkUpload_same: "fst (checkUpload E n w) = w"
  using analyse_same [of E "tempFile n" w]
  by (auto simp: checkUpload_def bindA_def pureA_def split: prod.split sum.split)

lemma checkUpload_there: "checkUpload E n w = (w', Inr m) \<Longrightarrow> fileOf w (tempFile n) \<noteq> None"
  by (auto simp: checkUpload_def analyseAudioFile_def bindA_Inr getsA_def split: option.splits)

lemma storeUpload_done:
  assumes "faultless E" "fileOf w (tempFile n) \<noteq> None" "AudioCustom \<in> set (at_dirs w)" "MetaCustom \<in> set (at_dirs w)"
  shows "\<exists>w' x. storeUpload E n m w = (w', Inr (True, x))"
  using assms
  by (auto simp: storeUpload_def bindA_def pureA_def copyFile_def withFile_def unlink_def writeJson_def guarded_def
      tempFile_def customFile_def customMeta_def Let_def)

definition uploadDirs :: "assets \<Rightarrow> assets" where
  "uploadDirs w = w\<lparr>at_dirs := List.insert MetaCustom (List.insert AudioCustom (at_dirs w))\<rparr>"

lemma uploadDirs_fields [simp]:
  "kept (uploadDirs w) = kept w" "at_files (uploadDirs w) = at_files w" "namesIn (uploadDirs w) d = namesIn w d"
  "AudioCustom \<in> set (at_dirs (uploadDirs w))" "MetaCustom \<in> set (at_dirs (uploadDirs w))"
  by (simp_all add: uploadDirs_def namesIn_def)

lemma processUpload_faultless:
  assumes "faultless E"
  shows "processUpload E n w =
    (if length (namesIn w AudioCustom) \<ge> 500
     then refuseUpload E n 400 ''Limit Reached''
            ''Maximum of 500 custom audio files allowed. Please delete some files before uploading more.'' (uploadDirs w)
     else case checkUpload E n (uploadDirs w) of
        (_, Inl e) \<Rightarrow> refuseUpload E n 400 ''Invalid File'' (err_message e) (uploadDirs w)
      | (_, Inr m) \<Rightarrow> storeUpload E n m (uploadDirs w))"
proof -
  have "mkdir E MetaCustom (w\<lparr>at_dirs := List.insert AudioCustom (at_dirs w)\<rparr>) = (uploadDirs w, Inr ())"
    using assms by (simp add: mkdir_faultless uploadDirs_def)
  then show ?thesis
    using assms checkUpload_same [of E n "uploadDirs w"]
    by (auto simp: processUpload_def bindA_def catchA_def attemptA_def pureA_def mkdir_faultless [of E AudioCustom] readdir_faultless
        split: prod.split sum.split)
qed

lemma processUpload_invalidates:
  assumes "faultless E"
  shows "invalidates (processUpload E n)"
  unfolding invalidates_def
proof
  fix w :: assets
  note run = processUpload_faultless [OF assms, of n w]
  show "(\<exists>x. snd (processUpload E n w) = Inr (True, x)) \<or> kept (fst (processUpload E n w)) = kept w"
  proof (cases "500 \<le> length (namesIn w AudioCustom) \<or> (\<exists>e. snd (checkUpload E n (uploadDirs w)) = Inl e)")
    case True
    then obtain p m where "processUpload E n w = refuseUpload E n 400 p m (uploadDirs w)" using run
      by (cases "checkUpload E n (uploadDirs w)"; cases "500 \<le> length (namesIn w AudioCustom)") auto
    with refuseUpload_kept [of E n 400 p m "uploadDirs w"] show ?thesis by auto
  next
    case False
    then obtain m where m: "checkUpload E n (uploadDirs w) = ((uploadDirs w), Inr m)"
      using checkUpload_same [of E n "uploadDirs w"] by (metis prod.collapse sum.exhaust)
    with False run have "processUpload E n w = storeUpload E n m (uploadDirs w)" by simp
    with storeUpload_done [OF assms checkUpload_there [OF m] uploadDirs_fields(4,5), of m] show ?thesis by auto
  qed
qed

lemma invalidates_catch:
  assumes "invalidates m" "\<And>e w. \<exists>w' x. h e w = (w', Inr x) \<and> kept w' = kept w"
  shows "invalidates (catchA m h)"
  unfolding invalidates_def
proof
  fix w
  obtain w1 r where m: "m w = (w1, r)" by fastforce
  show "(\<exists>x. snd (catchA m h w) = Inr (True, x)) \<or> kept (fst (catchA m h w)) = kept w"
  proof (cases r)
    case (Inl e)
    then have "kept w1 = kept w" using assms(1) m by (metis Inl_Inr_False fst_conv snd_conv invalidates_def)
    with assms(2) [of e w1] m Inl show ?thesis by (auto simp: catchA_def)
  next
    case (Inr x)
    then have "catchA m h w = m w" using m by (simp add: catchA_def)
    with assms(1) show ?thesis unfolding invalidates_def by metis
  qed
qed

lemma uploadFile_coherent: "faultless E \<Longrightarrow> coherent L \<Longrightarrow> coherent (fst (uploadFile E upload L))"
  using settle_coherent [OF _ invalidates_catch [OF processUpload_invalidates refuseUpload_kept]]
  by (cases upload) (simp_all add: uploadFile_def)

lemma isProtected_same: "fst (isProtected E n w) = w"
  by (auto simp: isProtected_def catchA_def bindA_def pureA_def access_def readJson_def withFile_def split: option.split sum.split)

lemma isProtected_value: "\<exists>b. isProtected E n w = (w, Inr b)"
  using isProtected_same [of E n w]
  by (auto simp: isProtected_def catchA_def pureA_def split: prod.split sum.split)

lemma removeIfThere_faultless:
  "faultless E \<Longrightarrow> removeIfThere E p w = (case fileOf w p of None \<Rightarrow> (w, Inr False) | Some _ \<Rightarrow> (dropFile p w, Inr True))"
  by (simp add: removeIfThere_def bindA_def attemptA_def access_faultless unlink_faultless pureA_def split: option.split)

lemma removeFile_faultless:
  assumes "faultless E"
  shows "removeFile E n w =
    (if snd (isProtected E n w) = Inr True then (w, Inr (False, failWith 403 ''Forbidden: File is protected and cannot be deleted''))
     else if fileOf w (customFile n) = None \<and> fileOf w (customMeta n) = None then (w, Inr (False, failWith 404 ''File not found''))
     else (fst (removeIfThere E (customMeta n) (fst (removeIfThere E (customFile n) w))),
           Inr (True, respond 200 [(''success'', JBool True), (''message'', JStr ''File and metadata deleted'')])))"
proof -
  obtain b where b: "isProtected E n w = (w, Inr b)" using isProtected_value by blast
  show ?thesis
    using assms by (cases b) (auto simp: removeFile_def bindA_def catchA_def pureA_def b removeIfThere_faultless customFile_def customMeta_def
        split: option.split)
qed

lemma deleteFile_coherent:
  assumes "faultless E" "coherent L"
  shows "coherent (fst (deleteFile E M body L))"
proof -
  have "invalidates (removeFile E n)" for n by (simp add: invalidates_def removeFile_faultless [OF assms(1)])
  from settle_coherent [OF assms(2) this] assms(2) show ?thesis by (auto simp: deleteFile_def split: sum.split)
qed

lemma analyzeFile_error: "analyzeFile E p w = (w', Inl e) \<Longrightarrow> w' = w"
  using analyse_same [of E p w]
  by (auto simp: analyzeFile_def bindA_def catchA_def pureA_def readJson_def withFile_def writeJson_def guarded_def Let_def
      split: prod.splits sum.splits option.splits if_splits)

lemma revalidated_invalidates: "invalidates (revalidated E p)"
  unfolding invalidates_def
proof
  fix w
  obtain w1 r where a: "analyzeFile E p w = (w1, r)" by fastforce
  show "(\<exists>x. snd (revalidated E p w) = Inr (True, x)) \<or> kept (fst (revalidated E p w)) = kept w"
    using a analyzeFile_error [of E p w w1]
    by (cases r; cases "av_fault E Access p"; cases "fileOf w p")
       (auto simp: revalidated_def catchA_def bindA_def pureA_def access_def withFile_def)
qed

lemma revalidateFile_coherent: "coherent L \<Longrightarrow> coherent (fst (revalidateFile E body L))"
  using settle_coherent [OF _ revalidated_invalidates] by (auto simp: revalidateFile_def Let_def split: sum.split)

lemma getAudioFiles_coherent:
  assumes "faultless E" "coherent L"
  shows "coherent (fst (getAudioFilesWithMetadata E page limit L))"
    "snd (getAudioFilesWithMetadata E page limit L) = bindR (contents (lb_assets L)) (\<lambda>files. Inr (paginate files page limit))"
  using assms scanFiles_contents [OF assms(1), of "lb_assets L"]
  by (auto simp: getAudioFilesWithMetadata_def coherent_def cachedList_def split: option.splits sum.splits if_splits)

section \<open>Sequences of requests\<close>

text \<open>The requests to the library; the upload middleware stores a file before the handler of the upload runs.\<close>

datatype 'dt libraryRequest =
    Arrive string assetFile
  | Browse "'dt assetEnv" json
  | Upload "'dt assetEnv" "string option"
  | Delete "'dt assetEnv" string json
  | Revalidate "'dt assetEnv" json

fun serve :: "'dt libraryRequest \<Rightarrow> library \<Rightarrow> library" where
  "serve (Arrive n f) L = L\<lparr>lb_assets := putFile (tempFile n) f (lb_assets L)\<rparr>"
| "serve (Browse E query) L = fst (getAudioFiles E query L)"
| "serve (Upload E upload) L = fst (uploadFile E upload L)"
| "serve (Delete E metaRoot body) L = fst (deleteFile E metaRoot body L)"
| "serve (Revalidate E body) L = fst (revalidateFile E body L)"

fun faultlessRequest :: "'dt libraryRequest \<Rightarrow> bool" where
  "faultlessRequest (Arrive n f) = True"
| "faultlessRequest (Browse E query) = faultless E"
| "faultlessRequest (Upload E upload) = faultless E"
| "faultlessRequest (Delete E metaRoot body) = faultless E"
| "faultlessRequest (Revalidate E body) = True"

lemma serve_coherent: "faultlessRequest r \<Longrightarrow> coherent L \<Longrightarrow> coherent (serve r L)"
proof (cases r)
  case (Arrive n f)
  assume "coherent L"
  with Arrive kept_contents [OF kept_update] show ?thesis by (simp add: coherent_def tempFile_def)
next
  case (Browse E query)
  assume "faultlessRequest r" "coherent L"
  with Browse getAudioFiles_coherent(1) [of E L] show ?thesis by (auto simp: getAudioFiles_def split: prod.split sum.split) (metis fst_conv)+
qed (simp_all add: uploadFile_coherent deleteFile_coherent revalidateFile_coherent)

lemma serve_all_coherent: "list_all faultlessRequest rs \<Longrightarrow> coherent L \<Longrightarrow> coherent (fold serve rs L)"
  by (induction rs arbitrary: L) (simp_all add: serve_coherent)

text \<open>
  C11. The listing of the audio files is always current: after any sequence of uploads, deletions, revalidations and
  listings, whenever they come and whatever they answer, a listing is the page of the files that are there at that
  moment with the metadata of their sidecars, although it may be served from the cache. The calls of the file system
  succeed; a failing call can leave the cache behind.
\<close>

theorem library_current:
  assumes "list_all faultlessRequest requests" "faultless E" "lb_cache L = noCache"
  shows "snd (getAudioFilesWithMetadata E page limit (fold serve requests L)) =
    bindR (contents (lb_assets (fold serve requests L))) (\<lambda>files. Inr (paginate files page limit))"
proof -
  have "coherent L" using assms(3) by (simp add: coherent_def noCache_def)
  from getAudioFiles_coherent(2) [OF assms(2) serve_all_coherent [OF assms(1) this]] show ?thesis .
qed

section \<open>Pages\<close>

lemma js_slice_nat: "js_slice (int a) (int (a + n)) xs = take n (drop a xs)"
proof -
  have "sliceIndex m (int i) = min i m" for m i by (simp add: sliceIndex_def min_def)
  then show ?thesis
    by (simp only: js_slice_def Let_def) (cases "a \<le> length xs"; auto simp: min_def)
qed

lemma pageFiles_drop: "pageFiles files (int k + 1) (int n) = take n (drop (k * n) files)"
  using js_slice_nat [of "k * n" n files] by (simp add: pageFiles_def)

lemma pages_take: "concat (map (\<lambda>k. take n (drop (k * n) xs)) [0..<m]) = take (m * n) xs"
  by (induction m) (simp_all add: take_add [symmetric] add.commute [of n])

text \<open>
  The pages of the listing are a partition of it: for every positive page size the pages from the first to the last,
  put together, are the whole list in its order, and no page is longer than its size.
\<close>

theorem paginate_partition:
  assumes "0 < limit" "jget (paginate files 1 limit) ''totalPages'' = JNum (of_nat n)"
  shows "concat (map (\<lambda>k. arr_of (jget (paginate files (int k + 1) limit) ''files'')) [0..<n]) = files \<and>
    length (arr_of (jget (paginate files (int p + 1) limit) ''files'')) \<le> nat limit"
proof -
  obtain l where l: "limit = int l" "0 < l" using assms(1) by (metis pos_int_cases)
  have "\<lceil>(of_nat (length files) :: rat) / of_int limit\<rceil> = int n" using assms(2) by (simp add: paginate_def)
  then have "(of_nat (length files) :: rat) / of_int limit \<le> of_nat n" by (simp add: ceiling_eq_iff)
  then have "(of_nat (length files) :: rat) \<le> of_nat (n * l)" using l by (simp add: field_simps)
  then have "length files \<le> n * l" using of_nat_le_iff by blast
  with pages_take [of l files n] show ?thesis by (simp add: paginate_def l(1) pageFiles_drop)
qed

theorem paginate_partition_witness:
  "concat (map (\<lambda>k. arr_of (jget (paginate [JStr ''a'', JStr ''b'', JStr ''c''] (int k + 1) 2) ''files'')) [0..<2]) =
     [JStr ''a'', JStr ''b'', JStr ''c'']"
proof -
  have "jget (paginate [JStr ''a'', JStr ''b'', JStr ''c''] 1 2) ''totalPages'' = JNum (of_nat 2)"
    by (simp add: paginate_def ceiling_eq_iff)
  from paginate_partition [OF _ this] show ?thesis by simp
qed

section \<open>Deleting\<close>

lemma isContained_ordinary:
  assumes "isAbsolute dir" "ordinary n"
  shows "isContained dir n \<longleftrightarrow> \<not> startsWith n ''..''"
proof -
  have segs: "psegs (dir @ slash # n) = psegs dir @ [n]" using norm_root_segs [of dir "[n]"] assms by simp
  have "\<not> isAbsolute n" using assms(2) by (cases n) (auto simp: isAbsolute_def ordinary_def)
  then have "path_resolve dir n = slash # join [slash] (psegs dir @ [n])" by (simp add: path_resolve_def segs)
  then have "psegs (path_resolve [slash] (path_resolve dir n)) = psegs dir @ [n]"
    using psegs_resolve [of "path_resolve dir n"] psegs_ordinary [of dir] assms(2) by (simp add: psegs_join isAbsolute_def)
  then have "path_relative [slash] dir (path_resolve dir n) = n"
    using assms(1) by (simp add: path_relative_def psegs_resolve strip_common_prefix [THEN iffD2])
  with \<open>\<not> isAbsolute n\<close> assms(2) show ?thesis by (simp add: isContained_def ordinary_def)
qed

lemma touches_attempt [frame]: "touches S m \<Longrightarrow> touches S (attemptA m)"
  by (auto simp: touches_def attemptA_def split: prod.split) (metis fst_conv)

lemma touches_removeIfThere [frame]: "p \<in> S \<Longrightarrow> touches S (removeIfThere E p)"
  unfolding removeIfThere_def by (intro touches_bind frame) (auto intro: frame split: sum.split)

lemma touches_removeFile: "touches {customFile n, customMeta n} (removeFile E n)"
  unfolding removeFile_def isProtected_def by (intro frame) auto

lemma settle_assets: "lb_assets (fst (settle m L)) = fst (m (lb_assets L))"
  by (auto simp: settle_def invalidateFileCache_def split: prod.split sum.split)

definition markedProtected :: "assets \<Rightarrow> string \<Rightarrow> bool" where
  "markedProtected w n \<longleftrightarrow>
     (case Option.bind (fileOf w (customMeta n)) af_json of Some v \<Rightarrow> truthy (jget v ''protected'') | None \<Rightarrow> False)"

lemma isProtected_marked:
  "faultless E \<Longrightarrow> isProtected E n w = (w, Inr (markedProtected w n))"
  by (auto simp: isProtected_def markedProtected_def catchA_def bindA_def pureA_def access_faultless readJson_def withFile_def getProp_def
      split: option.split)


section \<open>Uploading\<close>

lemma getMimeType_audio: "startsWith (getMimeType format p) ''audio/'' \<and> getMimeType format p \<noteq> []"
  by (simp add: getMimeType_def Let_def startsWith_def)

lemma checkUpload_faultless:
  assumes "faultless E" "fileOf w (tempFile n) = Some f"
  shows "checkUpload E n w = (case av_parse E (tempFile n) f of Inl e \<Rightarrow> (w, Inl e)
    | Inr format \<Rightarrow> analyseAudioFile E (tempFile n) w)"
  using assms getMimeType_audio
  by (auto simp: checkUpload_def analyseAudioFile_def bindA_def getsA_def stat_def withFile_def pureA_def split: sum.split)

lemma namesIn_put: "length (namesIn (putFile p f w) d) \<le> length (namesIn w d) + (if fst p = d then 1 else 0)"
proof -
  have "length (filter (\<lambda>e. fst (fst e) = d) (AList.update p f es)) \<le> length (filter (\<lambda>e. fst (fst e) = d) es) + (if fst p = d then 1 else 0)"
    for es :: "(path \<times> assetFile) list"
    by (induction es) auto
  then show ?thesis by (simp add: namesIn_def putFile_def)
qed

lemma namesIn_drop: "length (namesIn (dropFile p w) d) \<le> length (namesIn w d)"
proof -
  have "length (filter P (filter Q xs)) \<le> length (filter P xs)" for P Q and xs :: "(path \<times> assetFile) list"
    by (induction xs) auto
  then show ?thesis by (simp add: namesIn_def dropFile_def AList.delete_eq)
qed

text \<open>The metadata of the file under its temporary name.\<close>

definition uploadMetadata :: "'dt assetEnv \<Rightarrow> string \<Rightarrow> assets \<Rightarrow> json" where
  "uploadMetadata E n w = (case analyseAudioFile E (tempFile n) w of (_, Inr m) \<Rightarrow> enrichMetadata E m | _ \<Rightarrow> JUndef)"

lemma storeUpload_files:
  assumes "faultless E" "fileOf w (tempFile n) = Some f" "AudioCustom \<in> set (at_dirs w)" "MetaCustom \<in> set (at_dirs w)"
    and "storeUpload E n m w = (w', Inr (b, r))"
  shows "b \<and> rp_status r = 200 \<and> fileOf w' (tempFile n) = None \<and> fileOf w' (customFile n) = Some (f\<lparr>af_mtime := av_now E\<rparr>) \<and>
    map_option af_json (fileOf w' (customMeta n)) = Some (Some (json_copy (enrichMetadata E m))) \<and>
    length (namesIn w' AudioCustom) \<le> length (namesIn w AudioCustom) + 1"
proof -
  have w': "w' = putFile (customMeta n) \<lparr>af_size = av_jsonSize E (enrichMetadata E m), af_mtime = av_now E, af_json = Some (json_copy (enrichMetadata E m))\<rparr>
      (dropFile (tempFile n) (putFile (customFile n) (f\<lparr>af_mtime := av_now E\<rparr>) w))" and b: "b" "rp_status r = 200"
    using assms
    by (auto simp: storeUpload_def bindA_def pureA_def copyFile_def withFile_def unlink_def writeJson_def guarded_def
      tempFile_def customFile_def customMeta_def respondWith_def Let_def)
  have "length (namesIn w' AudioCustom) \<le> length (namesIn (dropFile (tempFile n) (putFile (customFile n) (f\<lparr>af_mtime := av_now E\<rparr>) w)) AudioCustom)"
    unfolding w' by (rule order_trans [OF namesIn_put]) (simp add: customMeta_def)
  also have "\<dots> \<le> length (namesIn (putFile (customFile n) (f\<lparr>af_mtime := av_now E\<rparr>) w) AudioCustom)" by (rule namesIn_drop)
  also have "\<dots> \<le> length (namesIn w AudioCustom) + 1" by (rule order_trans [OF namesIn_put]) (simp add: customFile_def)
  finally show ?thesis using w' b by (simp add: tempFile_def customFile_def customMeta_def)
qed

lemma uploadFile_done:
  assumes "faultless E" "uploadFile E (Some n) L = (L', r)" "fileOf (lb_assets L) (tempFile n) = Some f"
  shows "if length (namesIn (lb_assets L) AudioCustom) \<ge> 500 \<or> isl (av_parse E (tempFile n) f)
    then rp_status r = 400 \<and> kept (lb_assets L') = kept (lb_assets L) \<and> lb_cache L' = lb_cache L
    else rp_status r = 200 \<and> fileOf (lb_assets L') (tempFile n) = None \<and>
      fileOf (lb_assets L') (customFile n) = Some (f\<lparr>af_mtime := av_now E\<rparr>) \<and>
      map_option af_json (fileOf (lb_assets L') (customMeta n)) = Some (Some (json_copy (uploadMetadata E n (lb_assets L)))) \<and>
      lb_cache L' = noCache \<and> length (namesIn (lb_assets L') AudioCustom) \<le> 500"
proof (cases "length (namesIn (lb_assets L) AudioCustom) \<ge> 500 \<or> isl (av_parse E (tempFile n) f)")
  case True
  then obtain p m where "processUpload E n (lb_assets L) = refuseUpload E n 400 p m (uploadDirs (lb_assets L))"
    using assms(1,3) by (cases "500 \<le> length (namesIn (lb_assets L) AudioCustom)")
      (auto simp: processUpload_faultless checkUpload_faultless isl_def)
  with assms(2) True show ?thesis
    using refuseUpload_kept [of E n 400 p m "uploadDirs (lb_assets L)"] refuseUpload_status [of E n 400 p m "uploadDirs (lb_assets L)"]
    by (auto simp: uploadFile_def catchA_def settle_def invalidateFileCache_def)
next
  case False
  then obtain fmt where "av_parse E (tempFile n) f = Inr fmt" by (cases "av_parse E (tempFile n) f") auto
  then obtain m where m: "checkUpload E n (uploadDirs (lb_assets L)) = (uploadDirs (lb_assets L), Inr m)"
    "analyseAudioFile E (tempFile n) (lb_assets L) = (lb_assets L, Inr m)"
    using assms(1,3)
    by (auto simp: checkUpload_faultless analyseAudioFile_def bindA_def getsA_def stat_def withFile_def pureA_def)
  then have run: "processUpload E n (lb_assets L) = storeUpload E n m (uploadDirs (lb_assets L))"
    using False by (simp add: processUpload_faultless [OF assms(1)])
  obtain w x where st: "storeUpload E n m (uploadDirs (lb_assets L)) = (w, Inr (True, x))"
    using storeUpload_done [OF assms(1), of "uploadDirs (lb_assets L)" n m] assms(3) by auto
  have L': "lb_assets L' = w" "lb_cache L' = noCache" "r = x"
    using assms(2) run st by (auto simp: uploadFile_def catchA_def settle_def invalidateFileCache_def)
  have "uploadMetadata E n (lb_assets L) = enrichMetadata E m" by (simp add: uploadMetadata_def m)
  with storeUpload_files [OF assms(1) _ _ _ st, of f] assms(3) L' False show ?thesis by auto
qed

text \<open>
  What an upload does on every branch, when no call fails: with five hundred files, or with a file that is not
  audio, the reply is 400 and nothing but the temporary file changes. Otherwise the file is stored with its metadata under
  its name, the temporary file is gone, the cached listing is dropped, and there are still at most five hundred files.
\<close>

theorem uploadFile_exact:
  assumes "faultless E" "uploadFile E (Some n) L = (L', r)" "fileOf (lb_assets L) (tempFile n) = Some f"
  shows "if length (namesIn (lb_assets L) AudioCustom) \<ge> 500 \<or> isl (av_parse E (tempFile n) f)
    then rp_status r = 400 \<and> kept (lb_assets L') = kept (lb_assets L) \<and> lb_cache L' = lb_cache L
    else rp_status r = 200 \<and> fileOf (lb_assets L') (tempFile n) = None \<and>
      fileOf (lb_assets L') (customFile n) = Some (f\<lparr>af_mtime := av_now E\<rparr>) \<and>
      map_option af_json (fileOf (lb_assets L') (customMeta n)) = Some (Some (json_copy (uploadMetadata E n (lb_assets L)))) \<and>
      lb_cache L' = noCache \<and> length (namesIn (lb_assets L') AudioCustom) \<le> 500"
  using assms by (rule uploadFile_done)

lemma is_object_enriched: "is_object (enrichMetadata E m)"
  by (simp add: enrichMetadata_def Let_def)

lemma jget_copy_absent: "is_object x \<Longrightarrow> k \<notin> set (jkeys x) \<Longrightarrow> jget (json_copy x) k = JUndef"
proof (cases x)
  case (JObj kvs)
  moreover assume "k \<notin> set (jkeys x)"
  ultimately have "map_of (map (\<lambda>kv. (fst kv, json_copy (snd kv))) (filter (\<lambda>kv. snd kv \<noteq> JUndef) kvs)) k = None"
    by (force simp: map_of_eq_None_iff)
  with JObj show ?thesis by simp
qed simp_all

text \<open>
  An upload under the name of a protected file replaces it: the new sidecar is not marked, so that the next deletion of
  the name succeeds.
\<close>

theorem uploadFile_unprotects:
  assumes "faultless E" "uploadFile E (Some n) L = (L', r)" "fileOf (lb_assets L) (tempFile n) = Some f"
    and "av_parse E (tempFile n) f = Inr format" "length (namesIn (lb_assets L) AudioCustom) < 500"
  shows "rp_status r = 200 \<and> \<not> markedProtected (lb_assets L') n"
proof -
  obtain m where m: "analyseAudioFile E (tempFile n) (lb_assets L) = (lb_assets L, Inr m)"
    using assms(1,3,4) by (auto simp: analyseAudioFile_def bindA_def getsA_def stat_def withFile_def pureA_def)
  have "''protected'' \<notin> set (jkeys (enrichMetadata E m))" using enriched_keys [OF m] by (simp add: metadataKeys_def)
  then have "jget (json_copy (uploadMetadata E n (lb_assets L))) ''protected'' = JUndef"
    using jget_copy_absent [OF is_object_enriched] by (simp add: uploadMetadata_def m)
  moreover have "rp_status r = 200"
    "map_option af_json (fileOf (lb_assets L') (customMeta n)) = Some (Some (json_copy (uploadMetadata E n (lb_assets L))))"
    using uploadFile_done [OF assms(1-3)] assms(4,5) by auto
  ultimately show ?thesis by (auto simp: markedProtected_def)
qed

section \<open>Concrete instances\<close>

definition azanLibrary :: library where
  "azanLibrary =
     \<lparr>lb_assets = \<lparr>at_dirs = [AudioCache, AudioTemp, AudioCustom, MetaCache, MetaCustom],
        at_files = [((AudioCustom, ''azan.mp3''), \<lparr>af_size = 10, af_mtime = 0, af_json = None\<rparr>),
          ((MetaCustom, ''azan.mp3.json''), \<lparr>af_size = 10, af_mtime = 0, af_json = Some (JObj [(''protected'', JBool True)])\<rparr>)],
        at_health = JNull\<rparr>, lb_cache = noCache\<rparr>"

abbreviation plainEnv :: "unit assetEnv" where
  "plainEnv \<equiv> sampleAssetEnv JNull"

definition named :: "string \<Rightarrow> json" where
  "named n = JObj [(''filename'', JStr n)]"

lemma sample_faultless: "faultless (sampleAssetEnvOf P c)"
  by (simp add: faultless_def)

theorem library_current_witness:
  "snd (getAudioFilesWithMetadata plainEnv 1 50
      (fold serve [Browse plainEnv (JObj []), Delete plainEnv ''/app/src/public/audio'' (named ''azan.mp3'')] azanLibrary)) =
   bindR (contents (lb_assets
      (fold serve [Browse plainEnv (JObj []), Delete plainEnv ''/app/src/public/audio'' (named ''azan.mp3'')] azanLibrary)))
     (\<lambda>files. Inr (paginate files 1 50))"
  by (rule library_current) (simp_all add: sample_faultless azanLibrary_def)


definition uploadedLibrary :: library where
  "uploadedLibrary = serve (Arrive ''azan.mp3'' \<lparr>af_size = 20, af_mtime = 900, af_json = None\<rparr> :: unit libraryRequest) azanLibrary"

theorem uploadFile_exact_witness:
  "rp_status (snd (uploadFile plainEnv (Some ''azan.mp3'') uploadedLibrary)) = 200 \<and>
   fileOf (lb_assets (fst (uploadFile plainEnv (Some ''azan.mp3'') uploadedLibrary))) (customFile ''azan.mp3'') =
     Some \<lparr>af_size = 20, af_mtime = 1000, af_json = None\<rparr>"
proof -
  have f: "fileOf (lb_assets uploadedLibrary) (tempFile ''azan.mp3'') = Some \<lparr>af_size = 20, af_mtime = 900, af_json = None\<rparr>"
    by (simp add: uploadedLibrary_def)
  moreover have "length (namesIn (lb_assets uploadedLibrary) AudioCustom) < 500" "\<not> isl (av_parse plainEnv p g)" for p g
    by (simp_all add: uploadedLibrary_def azanLibrary_def namesIn_def putFile_def tempFile_def sampleAssetEnvOf_def)
  ultimately show ?thesis
    using uploadFile_exact [OF sample_faultless [of noProviders JNull] prod.collapse [symmetric] f] by simp
qed

end
