(* ===== verification/Audio_Sync.thy ===== *)
theory Audio_Sync
  imports Audio_Assets
begin

text \<open>
  What a synchronisation of the speech files guarantees (\<open>audioAssetService.js\<close>). The pool of tasks behind
  the limiter is studied once, in the locale \<open>task_pool\<close>: every order of steps settles all tasks, and tasks that own
  disjoint files do not undo each other's work. It is interpreted for the steps of \<open>ensureTTSFile\<close>.
\<close>

section \<open>A pool of tasks\<close>

fun rank :: "taskState \<Rightarrow> nat" where
  "rank Waiting = 3"
| "rank Checking = 2"
| "rank Generating = 1"
| "rank (Settled r) = 0"

definition succeeded :: "taskState \<Rightarrow> bool" where
  "succeeded s \<longleftrightarrow> (\<exists>v. s = Settled (Inr v) \<and> truthy (jget v ''success''))"

lemma rank_0: "rank s = 0 \<longleftrightarrow> (\<exists>r. s = Settled r)"
  by (cases s) auto

lemma all_settled: "(\<forall>s \<in> set ss. rank s = 0) \<longleftrightarrow> (\<exists>rs. ss = map Settled rs)"
  by (auto simp: rank_0 ex_map_conv)

text \<open>The limiter: tasks start in the order they were queued, and at most three have started and not settled.\<close>

definition limited :: "'t list \<Rightarrow> taskState list \<Rightarrow> bool" where
  "limited tasks ss \<longleftrightarrow> length ss = length tasks \<and> running ss \<le> 3 \<and>
     (\<forall>i j. i < j \<longrightarrow> j < length ss \<longrightarrow> ss ! i = Waiting \<longrightarrow> ss ! j = Waiting)"

lemma limited_start: "limited tasks (map (\<lambda>_. Waiting) tasks)"
  by (simp add: limited_def running_def filter_empty_conv)

lemma running_update:
  assumes "i < length ss"
  shows "running (ss[i := s]) + (if 0 < rank (ss ! i) \<and> ss ! i \<noteq> Waiting then 1 else 0) =
    running ss + (if 0 < rank s \<and> s \<noteq> Waiting then 1 else 0)"
proof -
  have active: "(s = Checking \<or> s = Generating) \<longleftrightarrow> (0 < rank s \<and> s \<noteq> Waiting)" for s by (cases s) auto
  have "running (ss[i := s]) = running (take i ss) + running [s] + running (drop (Suc i) ss)"
    using assms by (simp add: running_def upd_conv_take_nth_drop)
  moreover have "running ss = running (take i ss) + running [ss ! i] + running (drop (Suc i) ss)"
    using assms by (subst id_take_nth_drop [OF assms]) (simp add: running_def)
  ultimately show ?thesis by (simp add: active running_def)
qed

lemma first_unsettled_steps:
  assumes "limited tasks ss" "\<forall>j < i. rank (ss ! j) = 0" "i < length tasks"
  shows "mayStep ss i"
proof (cases "ss ! i = Waiting")
  case True
  have len: "length ss = length tasks" using assms(1) by (simp add: limited_def)
  have later: "ss ! j = Waiting" if "i \<le> j" "j < length ss" for j
    using assms(1) True that by (cases "j = i") (auto simp: limited_def le_less)
  have "s \<noteq> Checking \<and> s \<noteq> Generating" if "s \<in> set ss" for s
    using that assms(2) later by (auto simp: in_set_conv_nth) (metis not_le rank.simps taskState.distinct zero_neq_numeral zero_neq_one)+
  then have "running ss = 0" by (auto simp: running_def filter_empty_conv)
  moreover have "Waiting \<notin> set (take i ss)" using assms(2) by (auto simp: in_set_conv_nth)
  ultimately show ?thesis using assms(3) len by (simp add: mayStep_def)
qed (use assms(1,3) in \<open>simp add: mayStep_def limited_def\<close>)

lemma limited_not_stuck:
  assumes "limited tasks ss"
  shows "(\<forall>s \<in> set ss. rank s = 0) \<or> (\<exists>i. mayStep ss i \<and> 0 < rank (ss ! i))"
proof (cases "\<exists>i. i < length ss \<and> 0 < rank (ss ! i)")
  case True
  define i where "i = (LEAST i. i < length ss \<and> 0 < rank (ss ! i))"
  have i: "i < length ss" "0 < rank (ss ! i)" using LeastI_ex [OF True] by (simp_all add: i_def)
  have "rank (ss ! j) = 0" if "j < i" for j using not_less_Least [of j] that i(1) unfolding i_def by fastforce
  then have "mayStep ss i" using assms i(1) by (intro first_unsettled_steps) (auto simp: limited_def)
  with i(2) show ?thesis by blast
qed (auto simp: in_set_conv_nth)

text \<open>What makes a pool settle: every step of a task makes progress.\<close>

locale task_steps =
  fixes step :: "'t \<Rightarrow> taskState \<Rightarrow> assets \<Rightarrow> assets \<times> taskState"
  assumes step_rank: "step t s w = (w', s') \<Longrightarrow> rank s' \<le> rank s - 1"
begin

lemma poolStep_limited:
  assumes lim: "limited tasks ss" and st: "poolStep step tasks i (w, ss) = (w', ss')"
  shows "limited tasks ss'"
proof (cases "mayStep ss i")
  case False
  with lim st show ?thesis by (simp add: poolStep_def)
next
  case True
  obtain s where s: "step (tasks ! i) (ss ! i) w = (w', s)" "ss' = ss[i := s]"
    using st True by (auto simp: poolStep_def split: prod.splits)
  have i: "i < length ss" using True by (simp add: mayStep_def)
  have r: "rank s \<le> rank (ss ! i) - 1" by (rule step_rank [OF s(1)])
  then have started: "s \<noteq> Waiting" by (cases "ss ! i") auto
  have "ss' ! b = Waiting" if ab: "a < b" "b < length ss'" and a: "ss' ! a = Waiting" for a b
  proof -
    have "a \<noteq> i" using a s(2) i started by auto
    then have old: "ss ! a = Waiting" "ss ! b = Waiting" using a ab s(2) lim by (auto simp: limited_def)
    moreover have "b \<noteq> i"
    proof
      assume "b = i"
      with old True have "Waiting \<notin> set (take i ss)" by (simp add: mayStep_def)
      moreover have "Waiting \<in> set (take i ss)"
        using old(1) ab \<open>b = i\<close> i by (auto simp: in_set_conv_nth intro!: exI [of _ a])
      ultimately show False by simp
    qed
    ultimately show ?thesis using s(2) by simp
  qed
  moreover have "running ss' \<le> 3"
    using running_update [OF i, of s] r started True lim s(2) by (auto simp: mayStep_def limited_def split: if_splits)
  ultimately show ?thesis using lim s(2) unfolding limited_def by auto
qed

lemma order_limited:
  "limited tasks ss \<Longrightarrow> fold (poolStep step tasks) order (w, ss) = (w', ss') \<Longrightarrow> limited tasks ss'"
proof (induction order arbitrary: w ss)
  case (Cons i order)
  obtain w1 s1 where st: "poolStep step tasks i (w, ss) = (w1, s1)" by fastforce
  from Cons.IH [OF poolStep_limited [OF Cons.prems(1) st]] Cons.prems(2) st show ?case by simp
qed simp

lemma poolStep_settled:
  "poolStep step tasks i (w, ss) = (w', ss') \<Longrightarrow> rank (ss ! j) = 0 \<Longrightarrow> rank (ss' ! j) = 0"
  using step_rank [of "tasks ! i" "ss ! i" w]
  by (cases "i = j"; cases "j < length ss") (auto simp: poolStep_def mayStep_def split: if_splits prod.splits)

lemma poolStep_rank:
  assumes "mayStep ss i" "poolStep step tasks i (w, ss) = (w', ss')"
  shows "rank (ss' ! i) \<le> rank (ss ! i) - 1"
  using assms step_rank by (auto simp: poolStep_def mayStep_def split: prod.splits)

lemma drain_step:
  assumes "limited tasks ss" "\<forall>j < i. rank (ss ! j) = 0" "i < length tasks"
    and st: "poolStep step tasks i (w, ss) = (w', ss')"
  shows "limited tasks ss'" "\<forall>j < i. rank (ss' ! j) = 0" "rank (ss' ! i) \<le> rank (ss ! i) - 1"
proof -
  have "mayStep ss i" by (rule first_unsettled_steps [OF assms(1-3)])
  then show "rank (ss' ! i) \<le> rank (ss ! i) - 1" using st by (rule poolStep_rank)
  show "limited tasks ss'" using assms(1) st by (rule poolStep_limited)
  show "\<forall>j < i. rank (ss' ! j) = 0" using assms(2) poolStep_settled [OF st] by blast
qed

lemma drain_task:
  assumes "limited tasks ss" "\<forall>j < i. rank (ss ! j) = 0" "i < length tasks"
    and "fold (poolStep step tasks) (replicate 3 i) (w, ss) = (w', ss')"
  shows "limited tasks ss'" "\<forall>j < Suc i. rank (ss' ! j) = 0"
proof -
  obtain w1 s1 w2 s2 where steps: "poolStep step tasks i (w, ss) = (w1, s1)" "poolStep step tasks i (w1, s1) = (w2, s2)"
    "poolStep step tasks i (w2, s2) = (w', ss')"
    using assms(4) by (simp add: numeral_3_eq_3) (metis surj_pair)
  note a = drain_step [OF assms(1-3) steps(1)]
  note b = drain_step [OF a(1,2) assms(3) steps(2)]
  note c = drain_step [OF b(1,2) assms(3) steps(3)]
  show "limited tasks ss'" by (rule c(1))
  have "rank (ss ! i) \<le> 3" by (cases "ss ! i") auto
  with a(3) b(3) c(3) have "rank (ss' ! i) = 0" by linarith
  with c(2) show "\<forall>j < Suc i. rank (ss' ! j) = 0" by (simp add: less_Suc_eq)
qed

lemma drain_all:
  assumes "limited tasks ss" "n \<le> length tasks"
    and "fold (poolStep step tasks) (concat (map (replicate 3) [0..<n])) (w, ss) = (w', ss')"
  shows "limited tasks ss' \<and> (\<forall>j < n. rank (ss' ! j) = 0)"
  using assms(2,3)
proof (induction n arbitrary: w' ss')
  case (Suc n)
  obtain w1 s1 where m: "fold (poolStep step tasks) (concat (map (replicate 3) [0..<n])) (w, ss) = (w1, s1)" by fastforce
  with Suc.prems(2) have r: "fold (poolStep step tasks) (replicate 3 n) (w1, s1) = (w', ss')" by simp
  have "limited tasks s1" "\<forall>j < n. rank (s1 ! j) = 0" using Suc.IH [OF _ m] Suc.prems(1) by auto
  from drain_task [OF this _ r] Suc.prems(1) show ?case by simp
qed (use assms(1) in simp)

theorem pool_settles:
  assumes "fold (poolStep step tasks) (order @ concat (map (replicate 3) [0..<length tasks])) (w, map (\<lambda>_. Waiting) tasks) = (w', ss)"
  shows "length ss = length tasks" "i < length tasks \<Longrightarrow> \<exists>r. ss ! i = Settled r"
proof -
  obtain w1 s1 where m: "fold (poolStep step tasks) order (w, map (\<lambda>_. Waiting) tasks) = (w1, s1)" by fastforce
  from drain_all [OF order_limited [OF limited_start m] order_refl] assms m
  have "limited tasks ss" "\<forall>j < length tasks. rank (ss ! j) = 0" by auto
  then show "length ss = length tasks" "i < length tasks \<Longrightarrow> \<exists>r. ss ! i = Settled r"
    by (auto simp: limited_def rank_0)
qed

end

text \<open>
  What a pool needs so that its tasks succeed together: a step stays within the files its task owns, and a task that
  succeeds has established its postcondition, which speaks of those files only.
\<close>

definition achieved :: "('t \<Rightarrow> assets \<Rightarrow> bool) \<Rightarrow> 't list \<Rightarrow> assets \<times> taskState list \<Rightarrow> bool" where
  "achieved good tasks = (\<lambda>(w, ss). length ss = length tasks \<and>
     (\<forall>i < length tasks. succeeded (ss ! i) \<longrightarrow> good (tasks ! i) w))"

definition independent :: "('t \<Rightarrow> bool) \<Rightarrow> ('t \<Rightarrow> path set) \<Rightarrow> 't list \<Rightarrow> bool" where
  "independent sound owns tasks \<longleftrightarrow> (\<forall>t \<in> set tasks. sound t) \<and>
     (\<forall>i < length tasks. \<forall>j < length tasks. i \<noteq> j \<longrightarrow> owns (tasks ! i) \<inter> owns (tasks ! j) = {})"

locale task_pool = task_steps step
  for step :: "'t \<Rightarrow> taskState \<Rightarrow> assets \<Rightarrow> assets \<times> taskState" +
  fixes owns :: "'t \<Rightarrow> path set"
    and good :: "'t \<Rightarrow> assets \<Rightarrow> bool"
    and sound :: "'t \<Rightarrow> bool"
  assumes step_owns: "sound t \<Longrightarrow> step t s w = (w', s') \<Longrightarrow> p \<notin> owns t \<Longrightarrow> fileOf w' p = fileOf w p"
    and step_good: "sound t \<Longrightarrow> step t s w = (w', s') \<Longrightarrow> succeeded s' \<Longrightarrow> (succeeded s \<Longrightarrow> good t w) \<Longrightarrow> good t w'"
    and good_local: "good t w \<Longrightarrow> (\<And>p. p \<in> owns t \<Longrightarrow> fileOf w' p = fileOf w p) \<Longrightarrow> good t w'"
begin

lemma poolStep_achieved:
  assumes ind: "independent sound owns tasks" and inv: "achieved good tasks (w, ss)" and st: "poolStep step tasks i (w, ss) = (w', ss')"
  shows "achieved good tasks (w', ss')"
proof (cases "mayStep ss i")
  case False
  with inv st show ?thesis by (simp add: poolStep_def)
next
  case True
  obtain s where s: "step (tasks ! i) (ss ! i) w = (w', s)" "ss' = ss[i := s]"
    using st True by (auto simp: poolStep_def split: prod.splits)
  have i: "i < length ss" "length ss = length tasks" "sound (tasks ! i)"
    using True inv ind by (auto simp: mayStep_def achieved_def independent_def)
  have "good (tasks ! k) w'" if k: "k < length tasks" "succeeded (ss' ! k)" for k
  proof (cases "k = i")
    case True
    with k s i inv show ?thesis using step_good [OF i(3) s(1)] by (auto simp: achieved_def)
  next
    case False
    then have g: "good (tasks ! k) w" using k s inv by (auto simp: achieved_def)
    have "fileOf w' p = fileOf w p" if "p \<in> owns (tasks ! k)" for p
      using ind that False k(1) i by (intro step_owns [OF i(3) s(1)]) (auto simp: independent_def)
    with g show ?thesis by (rule good_local)
  qed
  with i(2) s(2) show ?thesis unfolding achieved_def by auto
qed

lemma order_achieved:
  assumes "independent sound owns tasks"
  shows "achieved good tasks (w, ss) \<Longrightarrow> achieved good tasks (fold (poolStep step tasks) order (w, ss))"
proof (induction order arbitrary: w ss)
  case (Cons i order)
  obtain w1 s1 where st: "poolStep step tasks i (w, ss) = (w1, s1)" by fastforce
  with Cons.IH [OF poolStep_achieved [OF assms Cons.prems st]] show ?case by simp
qed simp

theorem pool_run:
  assumes "independent sound owns tasks"
    and "fold (poolStep step tasks) (order @ concat (map (replicate 3) [0..<length tasks])) (w, map (\<lambda>_. Waiting) tasks) = (w', ss)"
  shows "i < length tasks \<Longrightarrow> succeeded (ss ! i) \<Longrightarrow> good (tasks ! i) w'"
proof -
  have "achieved good tasks (w, map (\<lambda>_. Waiting) tasks)" by (auto simp: achieved_def succeeded_def)
  from order_achieved [OF assms(1) this] assms(2) show "i < length tasks \<Longrightarrow> succeeded (ss ! i) \<Longrightarrow> good (tasks ! i) w'"
    by (metis (mono_tags, lifting) achieved_def case_prod_conv)
qed

end

section \<open>The tasks form a pool\<close>

text \<open>The events of a validated configuration have plain names.\<close>

definition plainTask :: "ttsTask \<Rightarrow> bool" where
  "plainTask t \<longleftrightarrow> tk_prayer t \<in> set PRAYER_NAMES \<and> CHR ''$'' \<notin> set (tk_event t) \<and> slash \<notin> set (tk_event t)"

lemma ttsFilename_plain:
  assumes "p \<in> set PRAYER_NAMES" "CHR ''$'' \<notin> set e"
  shows "ttsFilename p e = ''tts_'' @ p @ ''_'' @ e @ ''.mp3''"
  using assms by (auto simp: PRAYER_NAMES_def ttsFilename_def TTS_FILENAME_PATTERN_def startsWith_def getSubstitution_plain)

lemma prayer_no_underscore: "p \<in> set PRAYER_NAMES \<Longrightarrow> CHR ''_'' \<notin> set p \<and> slash \<notin> set p"
  by (auto simp: PRAYER_NAMES_def slash_def)

lemma append_at_first:
  assumes "p @ c # e = p' @ c # e'" "c \<notin> set p" "c \<notin> set p'"
  shows "p = p'" "e = e'"
proof -
  have "takeWhile (\<lambda>x. x \<noteq> c) (q @ c # r) = q" if "c \<notin> set q" for q r using that by (induction q) auto
  with assms show "p = p'" by metis
  with assms(1) show "e = e'" by simp
qed

lemma tk_name_inj:
  assumes "plainTask t" "plainTask u" "tk_name t = tk_name u"
  shows "tk_prayer t = tk_prayer u" "tk_event t = tk_event u"
proof -
  have eq: "tk_prayer t @ CHR ''_'' # (tk_event t @ ''.mp3'') = tk_prayer u @ CHR ''_'' # (tk_event u @ ''.mp3'')"
    using assms by (simp add: plainTask_def ttsFilename_plain)
  note u = append_at_first [OF eq] prayer_no_underscore
  from u assms show "tk_prayer t = tk_prayer u" "tk_event t = tk_event u" by (auto simp: plainTask_def)
qed

lemma tk_name_basename: "plainTask t \<Longrightarrow> path_basename (tk_name t) = tk_name t"
proof -
  assume t: "plainTask t"
  then have n: "slash \<notin> set (tk_name t)" "tk_name t \<noteq> []" "last (tk_name t) \<noteq> slash"
    using prayer_no_underscore by (auto simp: plainTask_def ttsFilename_plain slash_def)
  then have "strip_slashes (tk_name t) = tk_name t"
    by (cases "rev (tk_name t)") (auto simp: strip_slashes_def hd_rev)
  with n show ?thesis by (simp add: path_basename_def split_on_word)
qed

definition tk_owns :: "ttsTask \<Rightarrow> path set" where
  "tk_owns t = {tk_audio t, tk_meta t}"

text \<open>
  A task has done its work: the cache holds a file that is not older than the synchronisation and whose
  sidecar says that it speaks the text of the trigger with its voice.
\<close>

definition ready :: "'dt assetEnv \<Rightarrow> json \<Rightarrow> ttsTask \<Rightarrow> assets \<Rightarrow> bool" where
  "ready E config t w \<longleftrightarrow> (\<exists>text f m meta.
     tk_text E t = Inr text \<and> fileOf w (tk_audio t) = Some f \<and> av_now E \<le> af_mtime f \<and>
     fileOf w (tk_meta t) = Some m \<and> af_json m = Some meta \<and>
     jget meta ''text'' = JStr text \<and> jget meta ''voice'' = effectiveVoice (tk_settings t) config)"

lemma ready_local: "ready E config t w \<Longrightarrow> (\<And>p. p \<in> tk_owns t \<Longrightarrow> fileOf w' p = fileOf w p) \<Longrightarrow> ready E config t w'"
  by (simp add: ready_def tk_owns_def)

lemma touches_speak: "(d, path_basename n) \<in> S \<Longrightarrow> jget body ''filename'' = JStr n \<Longrightarrow> touches S (speak E d url body)"
  by (auto simp: touches_def speak_def split: prod.split option.split)

lemma touches_generateTTS: "(AudioCache, path_basename n) \<in> S \<Longrightarrow> touches S (generateTTS E n text url voice)"
  unfolding generateTTS_def by (rule touches_bind [OF touches_speak touches_pure(1)]) simp_all

lemma touches_validFile: "touches (tk_owns t) (validFile E t text voice)"
  unfolding validFile_def tk_owns_def by (auto intro!: frame)

lemma touches_start: "touches (tk_owns t) (startTask E config t)"
  unfolding startTask_def by (intro frame touches_validFile)

lemma touches_online: "touches S (ttsOnline E)"
  by (auto simp: touches_def ttsOnline_def Let_def split: prod.split)

lemma touches_check: "touches (tk_owns t) (checkTask E config t)"
  unfolding checkTask_def storageAllows_def by (intro frame touches_online)

lemma touches_generate: "plainTask t \<Longrightarrow> touches (tk_owns t) (generateTask E config t)"
  unfolding generateTask_def Let_def
  by (intro frame touches_generateTTS) (simp_all add: tk_owns_def tk_name_basename)

lemma settledBy_touches: "touches S m \<Longrightarrow> settledBy m w = (w', s) \<Longrightarrow> p \<notin> S \<Longrightarrow> fileOf w' p = fileOf w p"
  by (auto simp: settledBy_def split: prod.splits sum.splits dest: touchesD)

lemma taskStep_owns:
  "plainTask t \<Longrightarrow> taskStep E config t s w = (w', s') \<Longrightarrow> p \<notin> tk_owns t \<Longrightarrow> fileOf w' p = fileOf w p"
  by (cases s) (auto dest: settledBy_touches [OF touches_start] settledBy_touches [OF touches_check]
      settledBy_touches [OF touches_generate])

text \<open>Every step settles the task or moves it on.\<close>

lemma startTask_states: "startTask E config t w = (w', Inr s) \<Longrightarrow> s = Checking \<or> (\<exists>r. s = Settled r)"
  by (auto simp: startTask_def bindA_Inr pureA_def split: if_splits)

lemma checkTask_states: "checkTask E config t w = (w', Inr s) \<Longrightarrow> s = Generating \<or> (\<exists>v. s = Settled (Inr v) \<and> \<not> truthy (jget v ''success''))"
  by (auto simp: checkTask_def bindA_Inr pureA_def ttsResult_def split: if_splits)

lemma generateTask_states: "generateTask E config t w = (w', Inr s) \<Longrightarrow> \<exists>r. s = Settled r"
  by (auto simp: generateTask_def bindA_Inr pureA_def catchA_Inr Let_def)

lemma taskStep_rank: "taskStep E config t s w = (w', s') \<Longrightarrow> rank s' \<le> rank s - 1"
  by (cases s) (auto simp: settledBy_def split: prod.splits sum.splits
      dest: startTask_states checkTask_states generateTask_states)

lemma validFile_ready:
  assumes "validFile E t text voice w = (w', Inr True)" "tk_text E t = Inr text" "voice = effectiveVoice (tk_settings t) config"
  shows "ready E config t w'"
  using assms
  by (auto simp: validFile_def ready_def catchA_Inr bindA_Inr access_def readJson_def utimes_def withFile_def guarded_def pureA_def
      split: prod.splits sum.splits option.splits if_splits)

lemma startTask_ready:
  assumes "startTask E config t w = (w', Inr s)" "succeeded s"
  shows "ready E config t w'"
  using assms validFile_ready
  by (fastforce simp: startTask_def bindA_Inr pureA_def succeeded_def split: if_splits)

text \<open>The speech service: a request that succeeds leaves the file, newly written.\<close>

definition speech_ok :: "'dt assetEnv \<Rightarrow> bool" where
  "speech_ok E \<longleftrightarrow> (\<forall>url body left v. av_speech E url body = (left, Inr v) \<longrightarrow> (\<exists>f. left = Some f \<and> av_now E \<le> af_mtime f))"

definition soundTask :: "'dt assetEnv \<Rightarrow> json \<Rightarrow> ttsTask \<Rightarrow> bool" where
  "soundTask E config t \<longleftrightarrow> plainTask t \<and> speech_ok E \<and> (\<exists>v. effectiveVoice (tk_settings t) config = JStr v)"

lemma generateTTS_file:
  assumes "generateTTS E n text url voice w = (w', Inr u)" "speech_ok E"
  shows "\<exists>f. fileOf w' (AudioCache, path_basename n) = Some f \<and> av_now E \<le> af_mtime f"
  using assms
  by (fastforce simp: generateTTS_def bindA_Inr speak_def speech_ok_def pureA_def split: prod.splits option.splits)

lemma ttsSidecar_fields:
  assumes "set (jkeys enriched) = metadataKeys"
  shows "jget (json_copy (ttsSidecar E text (JStr v) enriched)) ''text'' = JStr text"
    "jget (json_copy (ttsSidecar E text (JStr v) enriched)) ''voice'' = JStr v"
  using assms by (simp_all add: ttsSidecar_def jget_json_copy_defined jget_spread_other metadataKeys_def)

lemma generateTask_ready:
  assumes "generateTask E config t w = (w', Inr s)" "succeeded s" "soundTask E config t"
  shows "ready E config t w'"
proof -
  obtain v where v: "effectiveVoice (tk_settings t) config = JStr v" and t: "plainTask t" "speech_ok E"
    using assms(3) by (auto simp: soundTask_def)
  obtain tx w1 w2 basic u where run: "tk_text E t = Inr tx"
    "generateTTS E (tk_name t) tx (pythonServiceUrl config) (JStr v) w = (w1, Inr u)"
    "analyseAudioFile E (tk_audio t) w1 = (w2, Inr basic)"
    "writeJson E (tk_meta t) (ttsSidecar E tx (JStr v) (enrichMetadata E basic)) w2 = (w', Inr ())"
    using assms(1,2) v by (auto simp: generateTask_def bindA_Inr catchA_Inr pureA_def Let_def succeeded_def ttsResult_def)
  obtain f where f: "fileOf w1 (tk_audio t) = Some f" "av_now E \<le> af_mtime f"
    using generateTTS_file [OF run(2) t(2)] tk_name_basename [OF t(1)] by auto
  have "fileOf w2 (tk_audio t) = Some f" using touchesD [OF touches_analyse [of "{}"] run(3)] f(1) by simp
  then have f': "fileOf w' (tk_audio t) = Some f"
    using touchesD [OF touches_writes(3) [of _ "{tk_meta t}"] run(4)] by simp
  have "\<exists>m. fileOf w' (tk_meta t) = Some m \<and> af_json m = Some (json_copy (ttsSidecar E tx (JStr v) (enrichMetadata E basic)))"
    using run(4) by (auto simp: writeJson_def guarded_def pureA_def split: option.splits if_splits)
  with run(1) f' f(2) v show ?thesis
    unfolding ready_def using ttsSidecar_fields [OF enriched_keys [OF run(3)]] by fastforce
qed

lemma taskStep_ready:
  assumes "soundTask E config t" "taskStep E config t s w = (w', s')" "succeeded s'" "succeeded s \<Longrightarrow> ready E config t w"
  shows "ready E config t w'"
  using assms
proof (cases s)
  case Waiting
  then show ?thesis using assms startTask_ready
    by (fastforce simp: settledBy_def succeeded_def split: prod.splits sum.splits)
next
  case Checking
  then show ?thesis using assms checkTask_states
    by (fastforce simp: settledBy_def succeeded_def split: prod.splits sum.splits)
next
  case Generating
  then show ?thesis using assms generateTask_ready
    by (fastforce simp: settledBy_def succeeded_def split: prod.splits sum.splits)
qed auto

interpretation tts: task_pool "taskStep E config" tk_owns "ready E config" "soundTask E config"
  for E :: "'dt assetEnv" and config
proof
  show "fileOf w' p = fileOf w p"
    if "soundTask E config t" "taskStep E config t s w = (w', s')" "p \<notin> tk_owns t" for t s w w' s' p
    using that taskStep_owns unfolding soundTask_def by blast
  show "rank s' \<le> rank s - 1" if "taskStep E config t s w = (w', s')" for t s w w' s'
    using that by (rule taskStep_rank)
  show "ready E config t w'"
    if "soundTask E config t" "taskStep E config t s w = (w', s')" "succeeded s'" "succeeded s \<Longrightarrow> ready E config t w" for t s w w' s'
    using that by (rule taskStep_ready)
  show "ready E config t w'" if "ready E config t w" "\<And>p. p \<in> tk_owns t \<Longrightarrow> fileOf w' p = fileOf w p" for t w w'
    using that by (rule ready_local)
qed

section \<open>Which triggers become tasks\<close>

definition wanted :: "json \<Rightarrow> bool" where
  "wanted settings \<longleftrightarrow> truthy (jget settings ''enabled'') \<and> jget settings ''type'' = JStr ''tts'' \<and> truthy (jget settings ''template'')"

definition taskOf :: "string \<Rightarrow> string \<times> json \<Rightarrow> ttsTask" where
  "taskOf prayer e = \<lparr>tk_prayer = prayer, tk_event = fst e, tk_settings = snd e\<rparr>"

definition tasksOf :: "json \<Rightarrow> string \<Rightarrow> ttsTask list" where
  "tasksOf triggers prayer = map (taskOf prayer) (filter (\<lambda>e. wanted (snd e)) (entries (jget triggers prayer)))"

lemma foldR_append:
  assumes "\<And>x ts r. x \<in> set xs \<Longrightarrow> f x ts = Inr r \<Longrightarrow> r = ts @ g x" "foldR f xs ts = Inr r"
  shows "r = ts @ concat (map g xs)"
  using assms
proof (induction xs arbitrary: ts)
  case (Cons x xs)
  then obtain ts' where s: "f x ts = Inr ts'" "foldR f xs ts' = Inr r" by (auto simp: bindR_Inr)
  with Cons.prems(1) [of x ts ts'] have "ts' = ts @ g x" by simp
  with Cons.IH [OF _ s(2)] Cons.prems(1) show ?case by simp
qed simp

lemma triggerTasks_tasks:
  "triggerTasks p e ts = Inr r \<Longrightarrow> r = ts @ (if wanted (snd e) then [taskOf p e] else [])"
  by (auto simp: triggerTasks_def bindR_Inr getProp_def wanted_def taskOf_def split: prod.splits if_splits)

lemma concat_map_if: "concat (map (\<lambda>e. if Q e then [h e] else []) es) = map h (filter Q es)"
  by (induction es) auto

lemma collectTasks_tasks:
  assumes "collectTasks triggers = Inr tasks"
  shows "tasks = concat (map (tasksOf triggers) PRAYER_NAMES)"
proof -
  have none: "\<not> truthy x \<Longrightarrow> entries x = []" for x by (cases x) auto
  have "r = ts @ tasksOf triggers p"
    if "(let prayerTriggers = jget triggers p in
       if \<not> truthy prayerTriggers then Inr ts else foldR (triggerTasks p) (entries prayerTriggers) ts) = Inr r" for p ts r
    using that none [of "jget triggers p"]
      foldR_append [where f = "triggerTasks p" and g = "\<lambda>e. if wanted (snd e) then [taskOf p e] else []", OF triggerTasks_tasks]
    by (fastforce simp: Let_def tasksOf_def concat_map_if split: if_splits)
  then have "tasks = [] @ concat (map (tasksOf triggers) PRAYER_NAMES)"
    using assms unfolding collectTasks_def by (rule foldR_append)
  then show ?thesis by simp
qed

lemma distinct_tasks:
  assumes "distinct ps" "\<And>p. p \<in> set ps \<Longrightarrow> distinct (jkeys (jget triggers p))"
  shows "distinct (map (\<lambda>t. (tk_prayer t, tk_event t)) (concat (map (tasksOf triggers) ps)))"
  using assms
proof (induction ps)
  case (Cons p ps)
  have "distinct (map (\<lambda>t. (tk_prayer t, tk_event t)) (tasksOf triggers p))"
    using distinct_map_filter [OF Cons.prems(2) [of p], of "\<lambda>e. wanted (snd e)"]
    by (auto simp: tasksOf_def taskOf_def distinct_map inj_on_def comp_def)
  with Cons show ?case by (auto simp: tasksOf_def taskOf_def)
qed simp

lemma independent_tasks:
  assumes "\<And>t. t \<in> set tasks \<Longrightarrow> soundTask E config t" "distinct (map (\<lambda>t. (tk_prayer t, tk_event t)) tasks)"
  shows "independent (soundTask E config) tk_owns tasks"
  unfolding independent_def
proof (intro conjI ballI allI impI)
  show "soundTask E config t" if "t \<in> set tasks" for t using that by (rule assms(1))
  fix i j assume ij: "i < length tasks" "j < length tasks" "i \<noteq> j"
  then have "tk_name (tasks ! i) \<noteq> tk_name (tasks ! j)"
    using assms tk_name_inj [of "tasks ! i" "tasks ! j"] nth_eq_iff_index_eq [OF assms(2), of i j]
    by (auto simp: soundTask_def)
  then show "tk_owns (tasks ! i) \<inter> tk_owns (tasks ! j) = {}" by (auto simp: tk_owns_def sidecarName_def)
qed

section \<open>A synchronisation\<close>

lemma runTasks_outcome:
  assumes "independent (soundTask E config) tk_owns tasks" "runTasks E config tasks order w = (w', ss)" "t \<in> set tasks"
  shows "ready E config t w' \<or> (\<exists>m. niceName (tk_prayer t) (tk_event t) @ '': '' @ m \<in> set (concat (map2 taskWarning tasks ss)))"
proof -
  note run = tts.pool_settles [OF assms(2) [unfolded runTasks_def]]
  obtain i where i: "i < length tasks" "tasks ! i = t" using assms(3) by (auto simp: in_set_conv_nth)
  obtain r where r: "ss ! i = Settled r" using run(2) [OF i(1)] by blast
  show ?thesis
  proof (cases "succeeded (ss ! i)")
    case True
    then show ?thesis using tts.pool_run [OF assms(1) assms(2) [unfolded runTasks_def] i(1)] i(2) by blast
  next
    case False
    then obtain m where m: "niceName (tk_prayer t) (tk_event t) @ '': '' @ m \<in> set (taskWarning t (ss ! i))"
      using r by (cases r) (auto simp: taskWarning_def succeeded_def)
    have "(t, ss ! i) \<in> set (zip tasks ss)" using i run(1) by (auto simp: in_set_zip)
    with m show ?thesis by (auto intro!: exI [of _ m] bexI [of _ "(t, ss ! i)"])
  qed
qed

text \<open>The states of the tasks after some steps.\<close>

definition tasksAfter :: "'dt assetEnv \<Rightarrow> json \<Rightarrow> ttsTask list \<Rightarrow> nat list \<Rightarrow> assets \<Rightarrow> taskState list" where
  "tasksAfter E config tasks order w = snd (fold (poolStep (taskStep E config) tasks) order (w, map (\<lambda>_. Waiting) tasks))"


lemma ready_cached:
  assumes "ready E config t w" "av_later E - av_now E \<le> 30 * 24 * 60 * 60 * 1000"
  obtains f m where "cached (tk_name t) f m w" "av_later E - af_mtime f \<le> 30 * 24 * 60 * 60 * 1000"
    "\<And>w'. cached (tk_name t) f m w' \<Longrightarrow> ready E config t w'"
proof -
  obtain tx f m meta where r: "tk_text E t = Inr tx" "fileOf w (tk_audio t) = Some f" "av_now E \<le> af_mtime f"
    "fileOf w (tk_meta t) = Some m" "af_json m = Some meta" "jget meta ''text'' = JStr tx"
    "jget meta ''voice'' = effectiveVoice (tk_settings t) config" using assms(1) unfolding ready_def by blast
  show thesis
    by (rule that [of f "Some m"]) (use r assms(2) in \<open>auto simp: cached_def ready_def\<close>)
qed

lemma runAndReport_outcome:
  assumes "runAndReport E config order tasks w = (w', Inr warnings)" "independent (soundTask E config) tk_owns tasks"
    and "t \<in> set tasks" "av_later E - av_now E \<le> 30 * 24 * 60 * 60 * 1000"
  shows "ready E config t w' \<or> (\<exists>m. niceName (tk_prayer t) (tk_event t) @ '': '' @ m \<in> set warnings)"
proof -
  obtain w1 ss w2 u v where run: "runTasks E config tasks order w = (w1, ss)" "warnings = concat (map2 taskWarning tasks ss)"
    "cleanupCache E (av_later E) w1 = (w2, Inr u)" "cleanupTempAudio E (av_later E) False w2 = (w', Inr v)"
    using assms(1) by (auto simp: runAndReport_def bindA_Inr pureA_def Let_def split: prod.splits)
  consider "ready E config t w1" | m where "niceName (tk_prayer t) (tk_event t) @ '': '' @ m \<in> set warnings"
    using runTasks_outcome [OF assms(2) run(1) assms(3)] run(2) by blast
  then show ?thesis
  proof cases
    case 1
    obtain f m where c: "cached (tk_name t) f m w1" "av_later E - af_mtime f \<le> 30 * 24 * 60 * 60 * 1000"
      "\<And>w'. cached (tk_name t) f m w' \<Longrightarrow> ready E config t w'" using ready_cached [OF 1 assms(4)] by metis
    have "cached (tk_name t) f m w2" using cleanupCache_young [OF c(2)] c(1) run(3) by (rule keepsD)
    moreover have "keeps (cached (tk_name t) f m) (cleanupTempAudio E (av_later E) False)"
      by (rule touches_cached [OF touches_cleanupTemp]) auto
    ultimately have "cached (tk_name t) f m w'" using run(4) by (blast intro: keepsD)
    then show ?thesis using c(3) by blast
  qed blast
qed

text \<open>What the schema guarantees of the triggers: unique event names, which are plain, and voices that are strings.\<close>

definition triggersOf :: "json \<Rightarrow> json" where
  "triggersOf config = jget (jget config ''automation'') ''triggers''"

definition plainTriggers :: "json \<Rightarrow> bool" where
  "plainTriggers config \<longleftrightarrow> (\<forall>p \<in> set PRAYER_NAMES. distinct (jkeys (jget (triggersOf config) p)) \<and>
     (\<forall>e \<in> set (entries (jget (triggersOf config) p)).
        CHR ''$'' \<notin> set (fst e) \<and> slash \<notin> set (fst e) \<and> (\<exists>v. effectiveVoice (snd e) config = JStr v)))"

lemma plainTriggers_independent:
  assumes "plainTriggers config" "speech_ok E" "tasks = concat (map (tasksOf (triggersOf config)) PRAYER_NAMES)"
  shows "independent (soundTask E config) tk_owns tasks"
proof (rule independent_tasks)
  show "soundTask E config t" if "t \<in> set tasks" for t
    using that assms by (force simp: soundTask_def plainTask_def tasksOf_def taskOf_def plainTriggers_def)
  show "distinct (map (\<lambda>t. (tk_prayer t, tk_event t)) tasks)"
    unfolding assms(3) using assms(1) by (intro distinct_tasks) (auto simp: plainTriggers_def PRAYER_NAMES_def)
qed

lemma syncAudioAssets_runs:
  assumes "syncAudioAssets E order force w = (w', Inr warnings)" "he_config (av_health E) = Inr config"
    and "truthy (triggersOf config)"
  obtains w1 where "runAndReport E config order (concat (map (tasksOf (triggersOf config)) PRAYER_NAMES)) w1 = (w', Inr warnings)"
  using assms collectTasks_tasks by (auto simp: syncAudioAssets_def bindA_Inr pureA_def Let_def triggersOf_def)

lemma syncAudioAssets_covers:
  assumes "syncAudioAssets E order force w = (w', Inr warnings)" "he_config (av_health E) = Inr config"
    and "plainTriggers config" "speech_ok E" "av_later E - av_now E \<le> 30 * 24 * 60 * 60 * 1000"
    and "prayer \<in> set PRAYER_NAMES" "(event, settings) \<in> set (entries (jget (triggersOf config) prayer))" "wanted settings"
  shows "(\<exists>m. niceName prayer event @ '': '' @ m \<in> set warnings) \<or>
    ready E config \<lparr>tk_prayer = prayer, tk_event = event, tk_settings = settings\<rparr> w' \<and>
    jget (getAudioSource settings prayer event) ''path'' = JStr (''cache/'' @ ttsFilename prayer event)"
proof -
  let ?t = "\<lparr>tk_prayer = prayer, tk_event = event, tk_settings = settings\<rparr>"
  let ?tasks = "concat (map (tasksOf (triggersOf config)) PRAYER_NAMES)"
  have "typeof_object (triggersOf config)" using assms(7) jget_not_obj by fastforce
  then have "truthy (triggersOf config)" by (cases "triggersOf config") auto
  then obtain w1 where run: "runAndReport E config order ?tasks w1 = (w', Inr warnings)"
    by (rule syncAudioAssets_runs [OF assms(1,2)])
  have mem: "?t \<in> set ?tasks" using assms(6-8) by (force simp: tasksOf_def taskOf_def)
  have "ttsFilename prayer event = ''tts_'' @ prayer @ ''_'' @ event @ ''.mp3''"
    using assms(3,6,7) by (intro ttsFilename_plain) (force simp: plainTriggers_def)+
  then have "jget (getAudioSource settings prayer event) ''path'' = JStr (''cache/'' @ ttsFilename prayer event)"
    using assms(8) by (simp add: getAudioSource_def wanted_def)
  with runAndReport_outcome [OF run plainTriggers_independent [OF assms(3,4) refl] mem assms(5)] show ?thesis by auto
qed

text \<open>
  C3. After a synchronisation every trigger that speaks is ready or reported: for each enabled
  trigger with a template, either the warnings name it, or the cache holds a file for it, no older than the
  synchronisation and under the name the automation plays, whose sidecar says that it speaks the current
  text with the current voice. This holds for every order in which the tasks of the limiter take their
  steps, whatever calls of the file system fail, and although the clean-up runs afterwards.
\<close>

theorem syncAudioAssets_ready:
  assumes "syncAudioAssets E order force w = (w', Inr warnings)" "he_config (av_health E) = Inr config"
    and "plainTriggers config" "speech_ok E" "av_later E - av_now E \<le> 30 * 24 * 60 * 60 * 1000"
    and "prayer \<in> set PRAYER_NAMES" "(event, settings) \<in> set (entries (jget (triggersOf config) prayer))" "wanted settings"
  shows "(\<exists>m. niceName prayer event @ '': '' @ m \<in> set warnings) \<or>
    ready E config \<lparr>tk_prayer = prayer, tk_event = event, tk_settings = settings\<rparr> w' \<and>
    jget (getAudioSource settings prayer event) ''path'' = JStr (''cache/'' @ ttsFilename prayer event)"
  by (rule syncAudioAssets_covers [OF assms])

definition speakingSettings :: json where
  "speakingSettings = JObj [(''enabled'', JBool True), (''type'', JStr ''tts''), (''template'', JStr ''soon'')]"

definition speakingConfig :: json where
  "speakingConfig = JObj [(''version'', JNum 5), (''automation'', JObj [(''triggers'', JObj [(''fajr'', JObj [(''preAdhan'', speakingSettings)])])])]"

definition oldAssets :: "json \<Rightarrow> assets" where
  "oldAssets h =
     \<lparr>at_dirs = [AudioCache, AudioTemp, AudioCustom, MetaCache, MetaCustom],
      at_files = [((AudioCache, ''tts_fajr_preAdhan.mp3''), \<lparr>af_size = 4096, af_mtime = 500, af_json = None\<rparr>),
        ((MetaCache, ''tts_fajr_preAdhan.mp3.json''), \<lparr>af_size = 100, af_mtime = 500,
          af_json = Some (JObj [(''text'', JStr ''soon''), (''voice'', JStr ''ar-SA-HamedNeural'')])\<rparr>)],
      at_health = h\<rparr>"

abbreviation speakingTask :: ttsTask where
  "speakingTask \<equiv> \<lparr>tk_prayer = ''fajr'', tk_event = ''preAdhan'', tk_settings = speakingSettings\<rparr>"

lemma speaking_simps:
  "ttsFilename ''fajr'' ''preAdhan'' = ''tts_fajr_preAdhan.mp3''"
  "effectiveVoice speakingSettings speakingConfig = JStr ''ar-SA-HamedNeural''"
  "tk_text (sampleAssetEnvOf P speakingConfig) speakingTask = Inr ''soon''"
  "triggersOf speakingConfig = JObj [(''fajr'', JObj [(''preAdhan'', speakingSettings)])]"
  "wanted speakingSettings"
     apply code_simp
  by (simp_all add: effectiveVoice_def orElse_def speakingConfig_def speakingSettings_def tk_text_def resolveTemplate_def
      startsWith_def triggersOf_def wanted_def)

lemma speaking_start:
  "startTask (sampleAssetEnvOf P speakingConfig) speakingConfig speakingTask (oldAssets h) =
     (putFile (MetaCache, ''tts_fajr_preAdhan.mp3.json'') \<lparr>af_size = 100, af_mtime = 1000,
        af_json = Some (JObj [(''text'', JStr ''soon''), (''voice'', JStr ''ar-SA-HamedNeural'')])\<rparr>
      (putFile (AudioCache, ''tts_fajr_preAdhan.mp3'') \<lparr>af_size = 4096, af_mtime = 1000, af_json = None\<rparr> (oldAssets h)),
      Inr (Settled (Inr (ttsResult True ''Valid file exists'' False))))"
  by (simp add: io_run startTask_def speaking_simps validFile_def sidecarName_def oldAssets_def)

lemma speaking_sync:
  shows "snd (syncAudioAssets (sampleAssetEnvOf P speakingConfig) [] False (oldAssets h)) = Inr []"
    and "at_health (fst (syncAudioAssets (sampleAssetEnvOf P speakingConfig) [] False (oldAssets h))) = h"
proof -
  have d: "ensureDirs (sampleAssetEnvOf P speakingConfig) (oldAssets h) = ((oldAssets h), Inr ())" by (simp add: io_run oldAssets_def)
  have "collectTasks (triggersOf speakingConfig) = Inr [speakingTask]"
    by (simp add: collectTasks_def PRAYER_NAMES_def speaking_simps triggerTasks_def getProp_def)
       (simp add: speakingSettings_def)
  then have c: "collectTasks (jget (jget speakingConfig ''automation'') ''triggers'') = Inr [speakingTask]"
    by (simp add: triggersOf_def)
  have t: "truthy (jget (jget speakingConfig ''automation'') ''triggers'')" by (simp add: speakingConfig_def)
  show "snd (syncAudioAssets (sampleAssetEnvOf P speakingConfig) [] False (oldAssets h)) = Inr []"
    "at_health (fst (syncAudioAssets (sampleAssetEnvOf P speakingConfig) [] False (oldAssets h))) = h"
    by (simp_all add: syncAudioAssets_def bindA_def d pureA_def c t runAndReport_def runTasks_def poolStep_def mayStep_def
        running_def numeral_3_eq_3 settledBy_def speaking_start taskWarning_def ttsResult_def)
       (simp_all add: cleanupCache_def cleanupTempAudio_def io_run namesIn_def oldAssets_def putFile_def removeOld_def removeTemp_def)
qed

theorem syncAudioAssets_ready_witness:
  "ready (sampleAssetEnv speakingConfig) speakingConfig speakingTask
     (fst (syncAudioAssets (sampleAssetEnv speakingConfig) [] False (oldAssets JNull)))"
proof -
  let ?E = "sampleAssetEnv speakingConfig"
  have "(\<exists>m. niceName ''fajr'' ''preAdhan'' @ '': '' @ m \<in> set []) \<or>
    ready ?E speakingConfig speakingTask (fst (syncAudioAssets ?E [] False (oldAssets JNull))) \<and>
    jget (getAudioSource speakingSettings ''fajr'' ''preAdhan'') ''path'' = JStr (''cache/'' @ ttsFilename ''fajr'' ''preAdhan'')"
  proof (rule syncAudioAssets_ready)
    show "syncAudioAssets ?E [] False (oldAssets JNull) = (fst (syncAudioAssets ?E [] False (oldAssets JNull)), Inr [])"
      using speaking_sync(1) by (metis prod.collapse)
    show "plainTriggers speakingConfig" by (simp add: plainTriggers_def PRAYER_NAMES_def speaking_simps slash_def)
    show "speech_ok ?E" by (simp add: speech_ok_def sampleAssetEnvOf_def)
  qed (simp_all add: speaking_simps PRAYER_NAMES_def)
  then show ?thesis by simp
qed

section \<open>One file, once more and without monitoring\<close>

text \<open>Nothing fails for the two files of a task.\<close>

definition readable :: "'dt assetEnv \<Rightarrow> ttsTask \<Rightarrow> bool" where
  "readable E t \<longleftrightarrow> (\<forall>op \<in> {Access, ReadFile, Utimes}. av_fault E op (tk_audio t) = None \<and> av_fault E op (tk_meta t) = None)"

lemma ready_starts:
  assumes "ready E config t w" "readable E t"
  shows "\<exists>w'. startTask E config t w = (w', Inr (Settled (Inr (ttsResult True ''Valid file exists'' False)))) \<and>
    (\<forall>p. map_option af_json (fileOf w' p) = map_option af_json (fileOf w p))"
  using assms
  by (auto simp: ready_def readable_def startTask_def validFile_def catchA_def bindA_def pureA_def access_def readJson_def
      utimes_def withFile_def guarded_def)

lemma ensureTTSFile_outcome:
  assumes "ensureTTSFile E prayer event settings config w = (w', Inr v)" "truthy (jget v ''success'')"
    and "soundTask E config \<lparr>tk_prayer = prayer, tk_event = event, tk_settings = settings\<rparr>"
  shows "ready E config \<lparr>tk_prayer = prayer, tk_event = event, tk_settings = settings\<rparr> w'"
proof -
  let ?t = "\<lparr>tk_prayer = prayer, tk_event = event, tk_settings = settings\<rparr>"
  obtain w1 s1 w2 s2 s3 where st: "taskStep E config ?t Waiting w = (w1, s1)" "taskStep E config ?t s1 w1 = (w2, s2)"
    "taskStep E config ?t s2 w2 = (w', s3)" "s3 = Settled (Inr v)"
    using assms(1) by (auto simp: ensureTTSFile_def Let_def simp del: taskStep.simps split: prod.splits taskState.splits)
  have "succeeded s3" using st(4) assms(2) by (simp add: succeeded_def)
  moreover have "succeeded s1 \<Longrightarrow> ready E config ?t w1"
    using tts.step_good [OF assms(3) st(1)] by (simp add: succeeded_def)
  ultimately show ?thesis
    using tts.step_good [OF assms(3) st(2)] tts.step_good [OF assms(3) st(3)] by blast
qed

text \<open>
  A speech file is generated once: when \<open>ensureTTSFile\<close> reports success, the cache holds a file whose sidecar
  has the text and voice of the trigger, and a second call, with the same text and voice and files that can be read,
  finds it: it generates nothing and leaves every sidecar as it is.
\<close>

theorem ensureTTSFile_once:
  assumes "ensureTTSFile E prayer event settings config w = (w', Inr v)" "truthy (jget v ''success'')"
    and "t = \<lparr>tk_prayer = prayer, tk_event = event, tk_settings = settings\<rparr>" "soundTask E config t" "readable E t"
    and "ensureTTSFile E prayer event settings config w' = (w'', r)"
  shows "ready E config t w' \<and> r = Inr (ttsResult True ''Valid file exists'' False) \<and>
    (\<forall>p. map_option af_json (fileOf w'' p) = map_option af_json (fileOf w' p))"
proof -
  have rd: "ready E config t w'" using ensureTTSFile_outcome [OF assms(1,2)] assms(3,4) by simp
  obtain w1 where "startTask E config t w' = (w1, Inr (Settled (Inr (ttsResult True ''Valid file exists'' False))))"
    "\<forall>p. map_option af_json (fileOf w1 p) = map_option af_json (fileOf w' p)"
    using ready_starts [OF rd assms(5)] by blast
  with rd assms(3,6) show ?thesis by (simp add: ensureTTSFile_def settledBy_def)
qed

lemma speaking_ensure:
  "snd (ensureTTSFile (sampleAssetEnv speakingConfig) ''fajr'' ''preAdhan'' speakingSettings speakingConfig (oldAssets JNull)) =
     Inr (ttsResult True ''Valid file exists'' False)"
  by (simp add: ensureTTSFile_def settledBy_def speaking_start)

theorem ensureTTSFile_once_witness:
  "snd (ensureTTSFile (sampleAssetEnv speakingConfig) ''fajr'' ''preAdhan'' speakingSettings speakingConfig
     (fst (ensureTTSFile (sampleAssetEnv speakingConfig) ''fajr'' ''preAdhan'' speakingSettings speakingConfig (oldAssets JNull)))) =
     Inr (ttsResult True ''Valid file exists'' False)"
proof -
  let ?E = "sampleAssetEnv speakingConfig"
  let ?run = "ensureTTSFile ?E ''fajr'' ''preAdhan'' speakingSettings speakingConfig"
  have f: "?run (oldAssets JNull) = (fst (?run (oldAssets JNull)), Inr (ttsResult True ''Valid file exists'' False))"
    using speaking_ensure by (metis prod.collapse)
  have s: "?run (fst (?run (oldAssets JNull))) = (fst (?run (fst (?run (oldAssets JNull)))), snd (?run (fst (?run (oldAssets JNull)))))" by simp
  have "soundTask ?E speakingConfig speakingTask" "readable ?E speakingTask"
    by (simp_all add: soundTask_def plainTask_def PRAYER_NAMES_def slash_def speech_ok_def readable_def speaking_simps)
       (simp add: sampleAssetEnvOf_def)
  from ensureTTSFile_once [OF f _ refl this s] show ?thesis by (simp add: ttsResult_def)
qed

lemma unmonitored_offline:
  assumes "he_config (av_health E) = Inr config" "jget (jget (jget config ''system'') ''healthChecks'') ''tts'' = JBool False"
    and "is_object (at_health w)"
  shows "\<exists>cache. ttsOnline E w = (w\<lparr>at_health := cache\<rparr>, Inr False)"
proof -
  let ?r = "refresh (av_health E) ''tts'' JNull False (at_health w)"
  have "truthy (jget (jget config ''system'') ''healthChecks'')"
    using assms(2) by (cases "jget (jget config ''system'') ''healthChecks''") auto
  then have t: "refreshTarget (av_health E) ''tts'' JNull False = Inr (health False ''Monitoring Disabled'')"
    using assms(1,2) by (simp add: refreshTarget_def orElse_def)
  note one = refresh_one [OF _ assms(3) t]
  have st: "jget (fst ?r) ''tts'' = stamped (av_health E) (at_health w) ''tts'' (health False ''Monitoring Disabled'')"
    using one(1) [of "''tts''"] by simp
  have "is_object (fst ?r)"
    using assms(3) t is_object_truthy [OF assms(3)] by (simp add: refresh_def refreshTargets_def initHealth_def Let_def refreshPorts_def jupd_def is_object_map_entries)
  then have "jget (jget (json_copy (fst ?r)) ''tts'') ''healthy'' = JBool False"
    using st by (simp add: jget_json_copy_defined stamped_def health_def)
  then have "snd ?r = Inr (json_copy (fst ?r))" "\<not> truthy (jget (jget (json_copy (fst ?r)) ''tts'') ''healthy'')"
    using one(2) by simp_all
  then show ?thesis by (auto simp: ttsOnline_def Let_def split: prod.split)
qed

text \<open>
  Switching off the monitoring of the speech service switches off speech: a file that is not in the
  cache is never generated, although the service may be running; the answer says that it is offline, and no file
  changes.
\<close>

theorem ensureTTSFile_unmonitored:
  assumes "he_config (av_health E) = Inr config" "jget (jget (jget config ''system'') ''healthChecks'') ''tts'' = JBool False"
    and "is_object (at_health w)" "fileOf w (AudioCache, ttsFilename prayer event) = None"
    and "resolveTemplate E (jget settings ''template'') prayer (jget settings ''offsetMinutes'') = Inr tx"
    and "ensureTTSFile E prayer event settings config w = (w', r)"
  shows "(\<exists>v. r = Inr v \<and> jget v ''success'' = JBool False \<and> jget v ''generated'' = JBool False) \<and> at_files w' = at_files w"
proof -
  let ?t = "\<lparr>tk_prayer = prayer, tk_event = event, tk_settings = settings\<rparr>"
  have "startTask E config ?t w = (w, Inr Checking)"
    using assms(4,5) by (auto simp: startTask_def validFile_def tk_text_def bindA_def catchA_def pureA_def access_def withFile_def split: option.split)
  moreover obtain cache where "ttsOnline E w = (w\<lparr>at_health := cache\<rparr>, Inr False)"
    using unmonitored_offline [OF assms(1-3)] by blast
  ultimately have "ensureTTSFile E prayer event settings config w =
      (w\<lparr>at_health := cache\<rparr>, Inr (ttsResult False ''TTS Service Offline. Generation will be attempted again at trigger time.'' False))"
    by (simp add: ensureTTSFile_def settledBy_def checkTask_def bindA_def pureA_def)
  with assms(6) show ?thesis by (auto simp: ttsResult_def)
qed

definition unmonitored :: json where
  "unmonitored = JObj [(''system'', JObj [(''healthChecks'', JObj [(''tts'', JBool False)])])]"

theorem ensureTTSFile_unmonitored_witness:
  "he_ttsUp (av_health (sampleAssetEnv unmonitored)) \<and>
   at_files (fst (ensureTTSFile (sampleAssetEnv unmonitored) ''isha'' ''preAdhan'' speakingSettings unmonitored
     (oldAssets (JObj [])))) = at_files (oldAssets (JObj []))"
proof -
  let ?E = "sampleAssetEnv unmonitored"
  let ?r = "ensureTTSFile ?E ''isha'' ''preAdhan'' speakingSettings unmonitored (oldAssets (JObj []))"
  have n: "ttsFilename ''isha'' ''preAdhan'' = ''tts_isha_preAdhan.mp3''" by code_simp
  have "at_files (fst ?r) = at_files (oldAssets (JObj []))"
    by (rule ensureTTSFile_unmonitored [where tx = "''soon''" and r = "snd ?r", THEN conjunct2])
       (simp_all add: n unmonitored_def oldAssets_def resolveTemplate_def speakingSettings_def startsWith_def)
  then show ?thesis by (simp add: sampleAssetEnvOf_def sampleHealth_def)
qed

end
