(* ===== verification/Diagnostics.thy ===== *)
theory Diagnostics
  imports Audio_Sync Scheduler
begin

text \<open>
  \<open>diagnosticsService.js\<close>: what the administrator is told about the triggers of the day and about
  the speech files. The theorems relate both reports to the components they describe: an upcoming
  trigger to the job of the scheduler, a generated file to the synchronisation of the speech files.
  The process runs in its root directory, so that the report and the synchronisation mean the same cache.
\<close>

section \<open>The triggers of the day\<close>

definition statusOf :: "string \<Rightarrow> json" where
  "statusOf s = JObj [(''status'', JStr s)]"

text \<open>\<open>template.substring(0, 30)\<close> in UTF-16 code units, without half of a surrogate pair.\<close>

fun utf16_take :: "nat \<Rightarrow> string \<Rightarrow> string" where
  "utf16_take n [] = []"
| "utf16_take n (c # cs) =
     (if utf16_length [c] \<le> n then c # utf16_take (n - utf16_length [c]) cs else [])"

definition quoteChar :: string where
  "quoteChar = [CHR 0x22]"

definition excerpt :: "string \<Rightarrow> string" where
  "excerpt t = quoteChar @ utf16_take 30 t @ (if utf16_length t > 30 then ''...'' else []) @ quoteChar"

definition needString :: "json \<Rightarrow> (string \<Rightarrow> string) \<Rightarrow> string \<Rightarrow> json res" where
  "needString v f dflt =
     (if \<not> truthy v then Inr (JStr dflt)
      else case v of JStr s \<Rightarrow> Inr (JStr (f s)) | _ \<Rightarrow> Inl (TypeError ''not a string''))"

definition sourceText :: "json \<Rightarrow> json \<Rightarrow> json res" where
  "sourceText type trigger =
     (if type = JStr ''file'' then needString (jget trigger ''path'') path_basename ''No File''
      else if type = JStr ''url'' then Inr (orElse (jget trigger ''url'') (JStr ''No URL''))
      else if type = JStr ''tts'' then needString (jget trigger ''template'') excerpt ''No Template''
      else Inr (JStr ''Unknown''))"

text \<open>\<open>targets.join(", ")\<close>; the targets of a validated trigger are strings.\<close>

definition joinTargets :: "json \<Rightarrow> json res" where
  "joinTargets targets =
     (case orElse targets (JArr []) of
        JArr ts \<Rightarrow> Inr (JStr (join '', '' (map the_str ts)))
      | _ \<Rightarrow> Inl (TypeError ''targets.join is not a function''))"

definition getStatus :: "'dt luxon \<Rightarrow> 'dt \<Rightarrow> json \<Rightarrow> 'dt option \<Rightarrow> json res" where
  "getStatus L now trigger time =
     (if \<not> truthy (jget trigger ''enabled'') then Inr (statusOf ''DISABLED'')
      else case time of
        None \<Rightarrow> Inr (JObj [(''status'', JStr ''ERROR''), (''error'', JStr ''Time calculation failed'')])
      | Some d \<Rightarrow>
          let type = orElse (jget trigger ''type'') (JStr ''file'') in
          bindR (sourceText type trigger) (\<lambda>source.
          bindR (joinTargets (jget trigger ''targets'')) (\<lambda>targets.
          Inr (JObj [(''status'', JStr (if lx_less L d now then ''PASSED'' else ''UPCOMING'')), (''time'', lx_toISO L d),
                 (''details'', JObj [(''type'', type), (''source'', source), (''targets'', targets)])]))))"

definition statusIqamah :: "'dt luxon \<Rightarrow> json \<Rightarrow> json \<Rightarrow> string \<Rightarrow> 'dt option res" where
  "statusIqamah L config prayers prayer =
     (let tz = strOr (jget (jget config ''location'') ''timezone'') in
      bindR (getProp (jget config ''prayers'') prayer) (\<lambda>prayerConfig.
        if jget prayerConfig ''iqamahOverride'' \<noteq> JBool True \<and> truthy (jget prayers ''iqamah'')
           \<and> truthy (jget (jget prayers ''iqamah'') prayer)
        then Inr (Some (lx_setZone L tz (lx_fromISO L (jget (jget prayers ''iqamah'') prayer))))
        else if truthy prayerConfig then
          bindR (calculateIqamah L (jget prayers prayer) prayerConfig tz) (\<lambda>v.
            Inr (Some (lx_setZone L tz (lx_fromISO L v))))
        else Inr None))"

definition minutesBefore :: "'dt luxon \<Rightarrow> json \<Rightarrow> string \<Rightarrow> 'dt option \<Rightarrow> 'dt option res" where
  "minutesBefore L prayerTriggers event time =
     (case time of
        None \<Rightarrow> Inr None
      | Some d \<Rightarrow> bindR (lx_minus L ''minutes'' (offsetOf prayerTriggers event) d) (\<lambda>d. Inr (Some d)))"

text \<open>The two entries of an event and of its announcement.\<close>

definition pairStatus :: "'dt luxon \<Rightarrow> 'dt \<Rightarrow> json \<Rightarrow> string \<Rightarrow> string \<Rightarrow> 'dt option \<Rightarrow> jobj res" where
  "pairStatus L now prayerTriggers event preEvent time =
     bindR (getStatus L now (jget prayerTriggers event) time) (\<lambda>a.
     bindR (minutesBefore L prayerTriggers preEvent time) (\<lambda>prior.
     bindR (getStatus L now (jget prayerTriggers preEvent) prior) (\<lambda>b.
     Inr [(event, a), (preEvent, b)])))"

definition prayerStatus :: "'dt luxon \<Rightarrow> 'dt \<Rightarrow> json \<Rightarrow> json \<Rightarrow> json \<Rightarrow> string \<Rightarrow> json res" where
  "prayerStatus L now config triggers prayers prayer =
     bindR (getProp triggers prayer) (\<lambda>tp.
     bindR (getProp prayers prayer) (\<lambda>startISO.
     let prayerTriggers = orElse tp (JObj []);
         start = lx_setZone L (strOr (jget (jget config ''location'') ''timezone'')) (lx_fromISO L startISO) in
     if \<not> truthy startISO then Inr (JObj [(''error'', JStr ''No time data'')])
     else bindR (statusIqamah L config prayers prayer) (\<lambda>iqamah.
       bindR (pairStatus L now prayerTriggers ''adhan'' ''preAdhan'' (Some start)) (\<lambda>adhan.
       bindR (if prayer = ''sunrise'' then Inr [] else pairStatus L now prayerTriggers ''iqamah'' ''preIqamah'' iqamah) (\<lambda>iq.
       Inr (JObj (adhan @ iq)))))))"

definition getAutomationStatus :: "'dt ptEnv \<Rightarrow> json \<Rightarrow> ptState \<Rightarrow> json res \<times> ptState" where
  "getAutomationStatus P config st =
     (let L = pe_luxon P in
      case bindR (getProp (jget config ''location'') ''timezone'') (\<lambda>tz.
           bindR (getProp (jget config ''automation'') ''triggers'') (\<lambda>triggers. Inr (tz, triggers))) of
        Inl e \<Rightarrow> (Inl e, st)
      | Inr (tz, triggers) \<Rightarrow>
          let now = lx_setZone L (strOr tz) (pe_now P) in
          (case getPrayerTimes P config now st of
             (Inl _, st) \<Rightarrow> (Inr (JObj []), st)
           | (Inr prayerData, st) \<Rightarrow>
               (bindR (getProp prayerData ''prayers'') (\<lambda>prayers.
                foldR (\<lambda>prayer result.
                  bindR (prayerStatus L now config triggers prayers prayer) (\<lambda>s. Inr (jput result prayer s)))
                  prayerNames (JObj [])), st)))"

section \<open>The speech files\<close>

definition eventsOf :: "string \<Rightarrow> string list" where
  "eventsOf prayer =
     (if prayer = ''sunrise'' then [''preAdhan'', ''adhan''] else [''preAdhan'', ''adhan'', ''preIqamah'', ''iqamah''])"

text \<open>The check of one file, with the error that ends it.\<close>

definition checkSpeech :: "'dt assetEnv \<Rightarrow> string \<Rightarrow> string \<Rightarrow> json \<Rightarrow> json io" where
  "checkSpeech E prayer event trigger =
     (let expectedFilename = ''tts_'' @ prayer @ ''_'' @ event @ ''.mp3'';
          meta = (MetaCache, sidecarName expectedFilename) in
      catchA
        (bindA (access E (AudioCache, expectedFilename)) (\<lambda>_.
         bindA (access E meta) (\<lambda>_.
         bindA (readJson E meta) (\<lambda>m.
         bindA (pureA (resolveTemplate E (jget trigger ''template'') prayer (jget trigger ''offsetMinutes''))) (\<lambda>expectedText.
         bindA (pureA (getProp m ''text'')) (\<lambda>t.
         pureA (Inr (if t = JStr expectedText
           then JObj [(''status'', JStr ''GENERATED''), (''detail'', jget m ''generatedAt'')]
           else JObj [(''status'', JStr ''MISMATCH''), (''detail'', JStr ''Template changed'')]))))))))
        (\<lambda>e. pureA (Inr (if e = ENOENT then statusOf ''MISSING''
                else JObj [(''status'', JStr ''ERROR''), (''detail'', JStr ''Corrupt Meta or Access Denied'')]))))"

definition eventAsset :: "'dt assetEnv \<Rightarrow> string \<Rightarrow> json \<Rightarrow> string \<Rightarrow> assets \<Rightarrow> json res" where
  "eventAsset E prayer prayerTriggers event w =
     (let trigger = jget prayerTriggers event; audioType = orElse (jget trigger ''type'') (JStr ''file'') in
      if \<not> truthy trigger \<or> \<not> truthy (jget trigger ''enabled'') then Inr (statusOf ''DISABLED'')
      else if audioType = JStr ''url'' then Inr (JObj [(''status'', JStr ''URL''), (''detail'', jget trigger ''url'')])
      else if audioType = JStr ''file''
      then bindR (needString (jget trigger ''path'') path_basename ''Unknown'') (\<lambda>filename.
        Inr (JObj [(''status'', JStr ''CUSTOM_FILE''), (''detail'', filename)]))
      else if audioType = JStr ''tts'' then snd (checkSpeech E prayer event trigger w)
      else Inr (statusOf ''UNKNOWN''))"

text \<open>The order of the keys of an object aside: the checks of the files end in any order.\<close>

definition getTTSStatus :: "'dt assetEnv \<Rightarrow> json \<Rightarrow> assets \<Rightarrow> json res" where
  "getTTSStatus E config w =
     foldR (\<lambda>prayer result.
       bindR (getProp (jget config ''automation'') ''triggers'') (\<lambda>triggers.
       bindR (getProp triggers prayer) (\<lambda>tp.
       bindR (foldR (\<lambda>event r. bindR (eventAsset E prayer (orElse tp (JObj [])) event w) (\<lambda>s. Inr (jput r event s)))
                (eventsOf prayer) (JObj [])) (\<lambda>r.
       Inr (jput result prayer r)))))
       prayerNames (JObj [])"

section \<open>The report of the speech files and the synchronisation\<close>

lemma foldR_jput_other:
  "foldR (\<lambda>k r. bindR (f k) (\<lambda>v. Inr (jput r k v))) ks acc = Inr out \<Longrightarrow> is_object acc \<Longrightarrow> k \<notin> set ks \<Longrightarrow> jget out k = jget acc k"
  by (induction ks arbitrary: acc) (auto simp: bindR_Inr)

lemma foldR_jput:
  assumes "foldR (\<lambda>k r. bindR (f k) (\<lambda>v. Inr (jput r k v))) ks acc = Inr out" "is_object acc" "k \<in> set ks" "distinct ks"
  shows "f k = Inr (jget out k)"
  using assms
proof (induction ks arbitrary: acc)
  case (Cons a ks)
  then obtain v where v: "f a = Inr v" "foldR (\<lambda>k r. bindR (f k) (\<lambda>v. Inr (jput r k v))) ks (jput acc a v) = Inr out"
    by (auto simp: bindR_Inr)
  show ?case
  proof (cases "k = a")
    case True
    with foldR_jput_other [OF v(2), of a] Cons.prems v(1) show ?thesis by auto
  next
    case False
    with Cons.IH [OF v(2)] Cons.prems show ?thesis by auto
  qed
qed simp

lemma distinct_prayerNames: "distinct prayerNames"
  by (simp add: prayerNames_def)

lemma distinct_eventsOf: "distinct (eventsOf prayer)"
  by (simp add: eventsOf_def)

lemma PRAYER_prayerNames: "PRAYER_NAMES = prayerNames"
  by (simp add: PRAYER_NAMES_def prayerNames_def)

lemma getTTSStatus_entry:
  assumes "getTTSStatus E config w = Inr report" "prayer \<in> set prayerNames" "event \<in> set (eventsOf prayer)"
  shows "eventAsset E prayer (orElse (jget (triggersOf config) prayer) (JObj [])) event w = Inr (jget (jget report prayer) event)"
proof -
  let ?f = "\<lambda>prayer. bindR (getProp (jget config ''automation'') ''triggers'') (\<lambda>triggers.
       bindR (getProp triggers prayer) (\<lambda>tp.
       foldR (\<lambda>event r. bindR (eventAsset E prayer (orElse tp (JObj [])) event w) (\<lambda>s. Inr (jput r event s))) (eventsOf prayer) (JObj [])))"
  have assoc: "bindR (bindR m g) h = bindR m (\<lambda>x. bindR (g x) h)" for m :: "'x res" and g :: "'x \<Rightarrow> 'y res" and h :: "'y \<Rightarrow> 'z res"
    by (cases m) auto
  have "foldR (\<lambda>prayer result. bindR (?f prayer) (\<lambda>v. Inr (jput result prayer v))) prayerNames (JObj []) = Inr report"
    using assms(1) by (simp add: getTTSStatus_def assoc)
  from foldR_jput [OF this _ assms(2) distinct_prayerNames]
  have "?f prayer = Inr (jget report prayer)" by simp
  then have "foldR (\<lambda>event r. bindR (eventAsset E prayer (orElse (jget (triggersOf config) prayer) (JObj [])) event w) (\<lambda>s. Inr (jput r event s)))
      (eventsOf prayer) (JObj []) = Inr (jget report prayer)"
    by (auto simp: bindR_Inr getProp_def triggersOf_def split: if_splits)
  from foldR_jput [OF this _ assms(3) distinct_eventsOf] show ?thesis by simp
qed

text \<open>A trigger whose file is ready, under a name the synchronisation uses.\<close>

lemma checkSpeech_ready:
  assumes "ready E config t w" "plainTask t" "readable E t"
  shows "\<exists>g. snd (checkSpeech E (tk_prayer t) (tk_event t) (tk_settings t) w) = Inr (JObj [(''status'', JStr ''GENERATED''), (''detail'', g)])"
proof -
  have n: "''tts_'' @ tk_prayer t @ ''_'' @ tk_event t @ ''.mp3'' = tk_name t"
    using ttsFilename_plain [of "tk_prayer t" "tk_event t"] assms(2) by (simp add: plainTask_def)
  obtain tx f m meta where r: "tk_text E t = Inr tx" "fileOf w (tk_audio t) = Some f" "fileOf w (tk_meta t) = Some m" "af_json m = Some meta"
    "jget meta ''text'' = JStr tx"
    using assms(1) unfolding ready_def by blast
  then have "getProp meta ''text'' = Inr (JStr tx)" by (auto simp: getProp_def)
  with r assms(3) show ?thesis
    unfolding checkSpeech_def n Let_def tk_text_def
    by (auto simp: catchA_def bindA_def pureA_def access_def readJson_def withFile_def readable_def)
qed

lemma jget_entry: "(k, v) \<in> set (entries x) \<Longrightarrow> distinct (jkeys x) \<Longrightarrow> is_object x \<Longrightarrow> jget x k = v"
  by (cases x) auto

text \<open>
  The report of the speech files tells the truth about a synchronisation: a speech trigger that the
  synchronisation did not warn about is reported as generated, when its files can be read.
\<close>

theorem getTTSStatus_synced:
  assumes sync: "syncAudioAssets E order force w = (w', Inr warnings)" "he_config (av_health E) = Inr config"
    and "plainTriggers config" "speech_ok E" "av_later E - av_now E \<le> 30 * 24 * 60 * 60 * 1000"
    and trigger: "prayer \<in> set PRAYER_NAMES" "is_object (jget (triggersOf config) prayer)"
      "(event, settings) \<in> set (entries (jget (triggersOf config) prayer))" "wanted settings" "event \<in> set (eventsOf prayer)"
    and "\<nexists>m. niceName prayer event @ '': '' @ m \<in> set warnings"
    and "readable E \<lparr>tk_prayer = prayer, tk_event = event, tk_settings = settings\<rparr>"
    and report: "getTTSStatus E config w' = Inr report"
  shows "jget (jget (jget report prayer) event) ''status'' = JStr ''GENERATED''"
proof -
  let ?t = "\<lparr>tk_prayer = prayer, tk_event = event, tk_settings = settings\<rparr>" and ?tp = "jget (triggersOf config) prayer"
  have "ready E config ?t w'" using syncAudioAssets_covers [OF sync assms(3-6) trigger(3,4)] assms(11) by blast
  moreover have "plainTask ?t" using assms(3) trigger(1,3) by (fastforce simp: plainTriggers_def plainTask_def)
  ultimately obtain g where g: "snd (checkSpeech E prayer event settings w') = Inr (JObj [(''status'', JStr ''GENERATED''), (''detail'', g)])"
    using checkSpeech_ready [of E config ?t w'] assms(12) by auto
  have "jget ?tp event = settings" using trigger(2,3) assms(3) trigger(1) by (intro jget_entry) (auto simp: plainTriggers_def)
  moreover have "orElse ?tp (JObj []) = ?tp" using trigger(2) by (cases ?tp) (auto simp: orElse_def)
  moreover have "truthy settings" "truthy (jget settings ''enabled'')" "jget settings ''type'' = JStr ''tts''"
    using trigger(4) truthy_jget [of settings "''enabled''"] by (simp_all add: wanted_def)
  ultimately have "eventAsset E prayer (orElse ?tp (JObj [])) event w' = Inr (JObj [(''status'', JStr ''GENERATED''), (''detail'', g)])"
    using g by (simp add: eventAsset_def Let_def orElse_def)
  then have "jget (jget report prayer) event = JObj [(''status'', JStr ''GENERATED''), (''detail'', g)]"
    using getTTSStatus_entry [OF report _ trigger(5)] trigger(1) by (simp add: PRAYER_prayerNames)
  then show ?thesis by simp
qed

lemma checkSpeech_total: "\<exists>v. snd (checkSpeech E prayer event trigger w) = Inr v"
  by (auto simp: checkSpeech_def Let_def catchA_def pureA_def split: prod.split sum.split)

lemma speaking_report: "\<exists>report. getTTSStatus E speakingConfig w = Inr report"
proof -
  obtain v where "snd (checkSpeech E ''fajr'' ''preAdhan'' speakingSettings w) = Inr v" using checkSpeech_total by blast
  then have "eventAsset E ''fajr'' (JObj [(''preAdhan'', speakingSettings)]) ''preAdhan'' w = Inr v"
    by (simp add: eventAsset_def Let_def) (simp add: speakingSettings_def orElse_def)
  then show ?thesis
    by (simp add: getTTSStatus_def prayerNames_def eventsOf_def speakingConfig_def getProp_def orElse_def)
       (simp add: eventAsset_def Let_def)
qed

theorem getTTSStatus_synced_witness:
  "\<exists>report. getTTSStatus (sampleAssetEnv speakingConfig) speakingConfig
      (fst (syncAudioAssets (sampleAssetEnv speakingConfig) [] False (oldAssets JNull))) = Inr report \<and>
    jget (jget (jget report ''fajr'') ''preAdhan'') ''status'' = JStr ''GENERATED''"
proof -
  let ?E = "sampleAssetEnv speakingConfig"
  let ?w = "fst (syncAudioAssets ?E [] False (oldAssets JNull))"
  have run: "syncAudioAssets ?E [] False (oldAssets JNull) = (?w, Inr [])" using speaking_sync(1) by (metis prod.collapse)
  obtain report where rep: "getTTSStatus ?E speakingConfig ?w = Inr report"
    using speaking_report by blast
  have "jget (jget (jget report ''fajr'') ''preAdhan'') ''status'' = JStr ''GENERATED''"
  proof (rule getTTSStatus_synced [OF run, where settings = speakingSettings])
    show "plainTriggers speakingConfig" by (simp add: plainTriggers_def PRAYER_NAMES_def speaking_simps slash_def)
    show "speech_ok ?E" by (simp add: speech_ok_def sampleAssetEnvOf_def)
    show "getTTSStatus ?E speakingConfig ?w = Inr report" by (rule rep)
  qed (simp_all add: speaking_simps PRAYER_NAMES_def eventsOf_def readable_def)
  with rep show ?thesis by blast
qed

section \<open>The report of the triggers and the scheduler\<close>

text \<open>A step leaves a job with this name and time, if it succeeds.\<close>

definition asks :: "json \<Rightarrow> string \<times> jobSpec \<Rightarrow> schedStep \<Rightarrow> bool" where
  "asks config key a \<longleftrightarrow> (\<forall>s s'. sd_config s = config \<longrightarrow> a s = (Inr (), s') \<longrightarrow> key \<in> jobKey ` set (sd_jobs s'))"

lemma uniform_result:
  assumes "uniform a" "a s = (r, s')"
  shows "sd_config s' = sd_config s" "\<exists>js. sd_jobs s' = sd_jobs s @ js"
proof -
  obtain js where "addsJobs ''automation'' js s s'" using assms unfolding uniform_def by (metis snd_conv)
  then show "sd_config s' = sd_config s" "\<exists>js. sd_jobs s' = sd_jobs s @ js" by (auto simp: addsJobs_def)
qed

lemma asks_first:
  assumes "asks config key a" "uniform b"
  shows "asks config key (thenD a b)"
  unfolding asks_def
proof (intro allI impI)
  fix s s'' assume s: "sd_config s = config" and run: "thenD a b s = (Inr (), s'')"
  obtain s' where s': "a s = (Inr (), s')" "b s' = (Inr (), s'')" using run by (auto simp: thenD_def split: prod.splits sum.splits)
  then have "key \<in> jobKey ` set (sd_jobs s')" using assms(1) s unfolding asks_def by blast
  with uniform_result(2) [OF assms(2) s'(2)] show "key \<in> jobKey ` set (sd_jobs s'')" by auto
qed

lemma asks_second:
  assumes "asks config key b" "uniform a"
  shows "asks config key (thenD a b)"
  unfolding asks_def
proof (intro allI impI)
  fix s s'' assume s: "sd_config s = config" and run: "thenD a b s = (Inr (), s'')"
  obtain s' where s': "a s = (Inr (), s')" "b s' = (Inr (), s'')" using run by (auto simp: thenD_def split: prod.splits sum.splits)
  with uniform_result(1) [OF assms(2) s'(1)] s assms(1) show "key \<in> jobKey ` set (sd_jobs s'')" unfolding asks_def by auto
qed

lemma asks_scheduleEvent:
  assumes ok: "luxon_ok (pe_luxon (se_pt X)) off z" and v: "lx_isValid (pe_luxon (se_pt X)) date"
    and M: "getMaxLeadTime config prayer event = of_int M" and "\<not> globallyOff config event"
    and now: "lx_valueOf (pe_luxon (se_pt X)) (pe_now (se_pt X)) \<le> lx_valueOf (pe_luxon (se_pt X)) date - M"
    and acc: "se_accepts X (At (lx_valueOf (pe_luxon (se_pt X)) date - M))"
  shows "asks config (prayer @ '' - '' @ event, At (lx_valueOf (pe_luxon (se_pt X)) date - M)) (scheduleEvent X date prayer event)"
  unfolding asks_def
proof (intro allI impI)
  fix s s' assume c: "sd_config s = config" and run: "scheduleEvent X date prayer event s = (Inr (), s')"
  obtain d where d: "lx_minus (pe_luxon (se_pt X)) ''milliseconds'' (JNum (of_int M)) date = Inr d"
    "lx_isValid (pe_luxon (se_pt X)) d" "lx_valueOf (pe_luxon (se_pt X)) d = lx_valueOf (pe_luxon (se_pt X)) date - M"
    using luxon_minus_millis [OF ok v, of M] by auto
  have "s' = addJob X (prayer @ '' - '' @ event) ''automation'' (specOf (pe_luxon (se_pt X)) d) (Trigger prayer event) s"
    using run d assms(4) now unfolding scheduleEvent_def Let_def c M by (auto simp: lx_less_def)
  with d acc show "(prayer @ '' - '' @ event, At (lx_valueOf (pe_luxon (se_pt X)) date - M)) \<in> jobKey ` set (sd_jobs s')"
    by (auto simp: addJob_def specOf_def jobKey_def Let_def)
qed

lemma asks_schedulePrayers:
  "asks config key (schedulePrayer X c triggers prayers p) \<Longrightarrow> p \<in> set ps \<Longrightarrow> asks config key (schedulePrayers X c triggers prayers ps)"
  by (induction ps) (auto intro: asks_first asks_second uniform_schedulePrayer uniform_schedulePrayers)

lemma getStatus_upcoming:
  assumes "getStatus L now trigger time = Inr v" "jget v ''status'' = JStr ''UPCOMING''"
  obtains d where "time = Some d" "jget v ''time'' = lx_toISO L d" "\<not> lx_less L d now" "truthy (jget trigger ''enabled'')"
  using assms by (auto simp: getStatus_def statusOf_def bindR_Inr Let_def split: if_splits option.splits)

text \<open>The date of an event of a pair.\<close>

definition pairDate :: "'dt luxon \<Rightarrow> json \<Rightarrow> string \<Rightarrow> string \<Rightarrow> 'dt \<Rightarrow> string \<Rightarrow> 'dt res" where
  "pairDate L tp event preEvent date k =
     (if k = event then Inr date else lx_minus L ''minutes'' (offsetOf tp preEvent) date)"

lemma pairStatus_upcoming:
  assumes "pairStatus L now tp event preEvent time = Inr kvs" "k = event \<or> k = preEvent" "event \<noteq> preEvent"
    and "jget (jget (JObj kvs) k) ''status'' = JStr ''UPCOMING''"
  obtains date d where "time = Some date" "pairDate L tp event preEvent date k = Inr d"
    "jget (jget (JObj kvs) k) ''time'' = lx_toISO L d" "\<not> lx_less L d now" "triggerOn tp k"
proof -
  obtain a prior b where ab: "getStatus L now (jget tp event) time = Inr a" "minutesBefore L tp preEvent time = Inr prior"
    "getStatus L now (jget tp preEvent) prior = Inr b" "kvs = [(event, a), (preEvent, b)]"
    using assms(1) by (auto simp: pairStatus_def bindR_Inr)
  show thesis
  proof (cases "k = event")
    case True
    with ab(1,4) assms(4) show thesis
      by (auto elim!: getStatus_upcoming intro!: that simp: pairDate_def triggerOn_def)
  next
    case False
    with ab assms(2-4) obtain d where d: "prior = Some d" "jget b ''time'' = lx_toISO L d" "\<not> lx_less L d now"
      "truthy (jget (jget tp preEvent) ''enabled'')" by (auto elim!: getStatus_upcoming)
    obtain date where "time = Some date" "lx_minus L ''minutes'' (offsetOf tp preEvent) date = Inr d"
      using ab(2) d(1) by (auto simp: minutesBefore_def bindR_Inr split: option.splits)
    with d ab(4) False assms(2,3) show thesis by (intro that [of date d]) (auto simp: pairDate_def triggerOn_def)
  qed
qed

lemma asks_schedulePair:
  assumes "pairDate (pe_luxon (se_pt X)) tp event preEvent date k = Inr d" "k = event \<or> k = preEvent" "triggerOn tp k"
    and "asks config key (scheduleEvent X d prayer k)"
  shows "asks config key (schedulePair X tp prayer date event preEvent)"
proof (cases "k = event")
  case True
  with assms show ?thesis unfolding schedulePair_def
    by (intro asks_first uniform_whenD uniform_withD uniform_scheduleEvent) (simp_all add: pairDate_def whenD_def)
next
  case False
  with assms show ?thesis unfolding schedulePair_def
    by (intro asks_second uniform_whenD uniform_scheduleEvent) (auto simp: pairDate_def whenD_def)
qed

lemma getProp_Inr: "getProp x k = Inr v \<Longrightarrow> v = jget x k"
  by (simp add: getProp_def split: if_splits)

lemma prayerStatus_entry:
  assumes "prayerStatus L now config triggers prayers prayer = Inr v"
    and "event \<in> set [''adhan'', ''preAdhan'', ''iqamah'', ''preIqamah'']" "jget (jget v event) ''status'' = JStr ''UPCOMING''"
  obtains e pre time kvs where "(e, pre) \<in> {(''adhan'', ''preAdhan''), (''iqamah'', ''preIqamah'')}" "event = e \<or> event = pre"
    "truthy (jget triggers prayer)" "truthy (jget prayers prayer)"
    "pairStatus L now (jget triggers prayer) e pre time = Inr kvs" "jget v event = jget (JObj kvs) event"
    "if e = ''adhan''
     then time = Some (lx_setZone L (strOr (jget (jget config ''location'') ''timezone'')) (lx_fromISO L (jget prayers prayer)))
     else prayer \<noteq> ''sunrise'' \<and> prayerIqamah L config prayers prayer = Inr time"
    "\<exists>i. prayerIqamah L config prayers prayer = Inr i"
proof -
  let ?start = "lx_setZone L (strOr (jget (jget config ''location'') ''timezone'')) (lx_fromISO L (jget prayers prayer))"
  let ?tp = "orElse (jget triggers prayer) (JObj [])"
  have start: "truthy (jget prayers prayer)" using assms by (auto simp: prayerStatus_def bindR_Inr getProp_def Let_def split: if_splits)
  obtain iqamah a b where ab: "statusIqamah L config prayers prayer = Inr iqamah"
    "pairStatus L now ?tp ''adhan'' ''preAdhan'' (Some ?start) = Inr a"
    "(if prayer = ''sunrise'' then Inr [] else pairStatus L now ?tp ''iqamah'' ''preIqamah'' iqamah) = Inr b" "v = JObj (a @ b)"
    using assms(1) start by (auto simp: prayerStatus_def bindR_Inr Let_def dest!: getProp_Inr split del: if_split)
  obtain a1 a2 where a: "a = [(''adhan'', a1), (''preAdhan'', a2)]" using ab(2) by (auto simp: pairStatus_def bindR_Inr)
  have b: "b = [] \<and> prayer = ''sunrise'' \<or> prayer \<noteq> ''sunrise'' \<and> (\<exists>b1 b2. b = [(''iqamah'', b1), (''preIqamah'', b2)])"
    using ab(3) by (auto simp: pairStatus_def bindR_Inr split: if_splits)
  have iq: "prayer \<noteq> ''sunrise'' \<Longrightarrow> prayerIqamah L config prayers prayer = Inr iqamah"
    using ab(1) by (simp add: prayerIqamah_def statusIqamah_def)
  then have some: "\<exists>i. prayerIqamah L config prayers prayer = Inr i" by (cases "prayer = ''sunrise''") (simp_all add: prayerIqamah_def)
  have first: "jget v event = jget (JObj a) event" if "event = ''adhan'' \<or> event = ''preAdhan''" using that ab(4) a by auto
  have "prayer \<noteq> ''sunrise'' \<and> jget v event = jget (JObj b) event \<and> pairStatus L now ?tp ''iqamah'' ''preIqamah'' iqamah = Inr b"
    if n: "\<not> (event = ''adhan'' \<or> event = ''preAdhan'')"
  proof -
    have eq: "jget v event = jget (JObj b) event" using n ab(4) a by simp
    have ns: "prayer \<noteq> ''sunrise''"
    proof
      assume "prayer = ''sunrise''"
      with b have "jget v event = JUndef" using eq by simp
      with assms(3) show False by simp
    qed
    then have "pairStatus L now ?tp ''iqamah'' ''preIqamah'' iqamah = Inr b" using ab(3) by simp
    with eq ns show ?thesis by simp
  qed
  note second = this [THEN conjunct1] this [THEN conjunct2, THEN conjunct1] this [THEN conjunct2, THEN conjunct2]
  have tp: "truthy (jget triggers prayer)"
  proof (rule ccontr)
    assume "\<not> truthy (jget triggers prayer)"
    then have "?tp = JObj []" by (simp add: orElse_def)
    then have no: "pairStatus L now ?tp e pre t = Inr kvs \<Longrightarrow> jget (jget (JObj kvs) k) ''status'' \<noteq> JStr ''UPCOMING''" for e pre t kvs k
      by (auto simp: pairStatus_def bindR_Inr getStatus_def statusOf_def split: if_splits)
    show False using no [OF ab(2), of event] no [of "''iqamah''" "''preIqamah''" iqamah b event] first second(2,3) assms(3) by metis
  qed
  then have eq: "?tp = jget triggers prayer" by (simp add: orElse_def)
  show thesis
  proof (cases "event = ''adhan'' \<or> event = ''preAdhan''")
    case True
    with first show thesis using that [of "''adhan''" "''preAdhan''"] tp start some ab(2) eq by auto
  next
    case False
    then have "event = ''iqamah'' \<or> event = ''preIqamah''" using assms(2) by auto
    then show thesis using that [of "''iqamah''" "''preIqamah''" iqamah b] tp start some second [OF False] eq iq by auto
  qed
qed

lemma asks_schedulePrayer:
  assumes "(e, pre) \<in> {(''adhan'', ''preAdhan''), (''iqamah'', ''preIqamah'')}" "truthy (jget triggers prayer)" "truthy (jget prayers prayer)"
    and "if e = ''adhan''
     then date = lx_setZone (pe_luxon (se_pt X)) (strOr (jget (jget config ''location'') ''timezone'')) (lx_fromISO (pe_luxon (se_pt X)) (jget prayers prayer))
     else prayer \<noteq> ''sunrise'' \<and> prayerIqamah (pe_luxon (se_pt X)) config prayers prayer = Inr (Some date)"
    and "prayerIqamah (pe_luxon (se_pt X)) config prayers prayer = Inr i"
    and "asks c key (schedulePair X (jget triggers prayer) prayer date e pre)"
  shows "asks c key (schedulePrayer X config triggers prayers prayer)"
proof -
  let ?rest = "case i of Some d \<Rightarrow> whenD (prayer \<noteq> ''sunrise'') (schedulePair X (jget triggers prayer) prayer d ''iqamah'' ''preIqamah'')
     | None \<Rightarrow> (\<lambda>s. (Inr (), s))"
  have u: "uniform ?rest" by (auto intro!: uniform_whenD uniform_schedulePair uniform_skip split: option.split)
  have run: "schedulePrayer X config triggers prayers prayer = thenD (schedulePair X (jget triggers prayer) prayer
      (lx_setZone (pe_luxon (se_pt X)) (strOr (jget (jget config ''location'') ''timezone'')) (lx_fromISO (pe_luxon (se_pt X)) (jget prayers prayer)))
      ''adhan'' ''preAdhan'') ?rest"
    using assms(2,3,5) by (simp add: schedulePrayer_def Let_def)
  show ?thesis
  proof (cases "e = ''adhan''")
    case True
    with assms(1,4,6) show ?thesis unfolding run by (intro asks_first [OF _ u]) auto
  next
    case False
    with assms(1,4-6) have "asks c key ?rest" by (auto simp: whenD_def)
    then show ?thesis unfolding run by (rule asks_second [OF _ uniform_schedulePair])
  qed
qed

text \<open>
  The report of the triggers agrees with the scheduler: for every event the report calls upcoming, with the times of the
  day the scheduler works with, the time it shows is that of a date which has not passed, and unless a global
  switch is off or the largest lead time has already begun, the scheduler has asked for the job of this event
  at that date less the lead time.
\<close>

theorem automationStatus_scheduled:
  assumes ok: "luxon_ok L off tz" "L = pe_luxon (se_pt X)" "lx_isValid L (pe_now (se_pt X))"
    and config: "getProp (jget config ''location'') ''timezone'' = Inr (JStr tz)" "getProp (jget config ''automation'') ''triggers'' = Inr triggers"
    and day: "getPrayerTimes (se_pt X) config (lx_setZone L tz (pe_now (se_pt X))) pt = (Inr prayerData, pt')"
    and report: "getAutomationStatus (se_pt X) config pt = (Inr report, pt')"
    and event: "prayer \<in> set prayerNames" "event \<in> set [''adhan'', ''preAdhan'', ''iqamah'', ''preIqamah'']"
      "jget (jget (jget report prayer) event) ''status'' = JStr ''UPCOMING''"
    and run: "schedulePrayers X config triggers (jget prayerData ''prayers'') prayerNames s = (Inr (), s')" "sd_config s = config"
    and M: "getMaxLeadTime config prayer event = of_int M" "\<not> globallyOff config event"
  shows "\<exists>d. jget (jget (jget report prayer) event) ''time'' = lx_toISO L d \<and> \<not> lx_less L d (pe_now (se_pt X)) \<and>
    (lx_isValid L d \<and> lx_valueOf L (pe_now (se_pt X)) \<le> lx_valueOf L d - M \<and> se_accepts X (At (lx_valueOf L d - M)) \<longrightarrow>
     (prayer @ '' - '' @ event, At (lx_valueOf L d - M)) \<in> jobKey ` set (sd_jobs s'))"
proof -
  let ?now = "lx_setZone L tz (pe_now (se_pt X))" and ?prayers = "jget prayerData ''prayers''"
  have now: "lx_isValid L ?now" "lx_valueOf L ?now = lx_valueOf L (pe_now (se_pt X))" using luxon_setZone [OF ok(1,3)] by simp_all
  have "foldR (\<lambda>prayer result. bindR (prayerStatus L ?now config triggers ?prayers prayer) (\<lambda>s. Inr (jput result prayer s))) prayerNames (JObj []) = Inr report"
    using report config day ok(2) by (auto simp: getAutomationStatus_def strOr_def Let_def bindR_Inr getProp_def split: if_splits)
  from foldR_jput [OF this _ event(1) distinct_prayerNames]
  have st: "prayerStatus L ?now config triggers ?prayers prayer = Inr (jget report prayer)" by simp
  obtain e pre time kvs i where p: "(e, pre) \<in> {(''adhan'', ''preAdhan''), (''iqamah'', ''preIqamah'')}" "event = e \<or> event = pre"
    "truthy (jget triggers prayer)" "truthy (jget ?prayers prayer)"
    "pairStatus L ?now (jget triggers prayer) e pre time = Inr kvs" "jget (jget report prayer) event = jget (JObj kvs) event"
    "if e = ''adhan''
     then time = Some (lx_setZone L (strOr (jget (jget config ''location'') ''timezone'')) (lx_fromISO L (jget ?prayers prayer)))
     else prayer \<noteq> ''sunrise'' \<and> prayerIqamah L config ?prayers prayer = Inr time"
    "prayerIqamah L config ?prayers prayer = Inr i"
    by (rule prayerStatus_entry [OF st event(2,3)]) blast
  obtain date d where d: "time = Some date" "pairDate L (jget triggers prayer) e pre date event = Inr d"
    "jget (jget (JObj kvs) event) ''time'' = lx_toISO L d" "\<not> lx_less L d ?now" "triggerOn (jget triggers prayer) event"
    using pairStatus_upcoming [OF p(5,2)] p(1,6) event(3) by auto
  have "(prayer @ '' - '' @ event, At (lx_valueOf L d - M)) \<in> jobKey ` set (sd_jobs s')"
    if "lx_isValid L d" "lx_valueOf L (pe_now (se_pt X)) \<le> lx_valueOf L d - M" "se_accepts X (At (lx_valueOf L d - M))"
  proof -
    have "asks config (prayer @ '' - '' @ event, At (lx_valueOf L d - M)) (scheduleEvent X d prayer event)"
      using asks_scheduleEvent [of X off tz d config prayer event M] ok M that by simp
    then have "asks config (prayer @ '' - '' @ event, At (lx_valueOf L d - M)) (schedulePair X (jget triggers prayer) prayer date e pre)"
      using d(2,5) p(2) ok(2) by (intro asks_schedulePair) auto
    then have "asks config (prayer @ '' - '' @ event, At (lx_valueOf L d - M)) (schedulePrayer X config triggers ?prayers prayer)"
      using p(1,3,4,7,8) d(1) ok(2) by (intro asks_schedulePrayer [of e pre triggers prayer ?prayers date X config i]) auto
    from asks_schedulePrayers [OF this event(1)] run show ?thesis unfolding asks_def by blast
  qed
  moreover have "\<not> lx_less L d (pe_now (se_pt X))" using d(4) now ok(3) by (simp add: lx_less_def)
  ultimately show ?thesis using d(3) p(6) by auto
qed

definition dayCaches :: ptState where
  "dayCaches = emptyCaches\<lparr>pt_mem :=
     JObj [(''meta'', JObj [(''source'', JStr ''mymasjid'')]), (''data'', JObj [(''0'', JObj [(''fajr'', JStr ''5000'')])])]\<rparr>"

definition cachedDay :: json where
  "cachedDay = JObj [(''meta'', JObj [(''date'', JStr ''0''), (''source'', JStr ''mymasjid''), (''lastFetched'', JUndef), (''cached'', JBool True)]),
     (''prayers'', JObj [(''fajr'', JStr ''5000''), (''iqamah'', JObj [])])]"

definition fajrReport :: json where
  "fajrReport =
     JObj [(''adhan'', JObj [(''status'', JStr ''UPCOMING''), (''time'', JStr ''5000''),
         (''details'', JObj [(''type'', JStr ''url''), (''source'', JStr ''https://x/a.mp3''), (''targets'', JStr ''voicemonkey'')])]),
       (''preAdhan'', statusOf ''DISABLED''), (''iqamah'', statusOf ''DISABLED''), (''preIqamah'', statusOf ''DISABLED'')]"

definition dayReport :: json where
  "dayReport =
     JObj ((''fajr'', fajrReport) # map (\<lambda>p. (p, JObj [(''error'', JStr ''No time data'')])) [''sunrise'', ''dhuhr'', ''asr'', ''maghrib'', ''isha''])"

lemma dayReport_fajr:
  "jget (jget (jget dayReport ''fajr'') ''adhan'') ''status'' = JStr ''UPCOMING''"
  "jget (jget (jget dayReport ''fajr'') ''adhan'') ''time'' = JStr ''5000''"
  by (simp_all add: dayReport_def fajrReport_def)

text \<open>The report of the sample day, prayer by prayer.\<close>

definition fajrPlan :: json where
  "fajrPlan = jget (jget (jget locatedConfig ''automation'') ''triggers'') ''fajr''"

lemma fajrPlan_events:
  "jget fajrPlan ''adhan'' = JObj [(''enabled'', JBool True), (''type'', JStr ''url''), (''url'', JStr ''https://x/a.mp3''),
     (''targets'', JArr [JStr ''voicemonkey''])]"
  "jget fajrPlan ''preAdhan'' = JUndef" "jget fajrPlan ''iqamah'' = JUndef" "jget fajrPlan ''preIqamah'' = JUndef"
  by (simp_all add: fajrPlan_def locatedConfig_def triggerConfig_def)

lemma dayReport_instants:
  "lx_setZone utc_luxon ''UTC'' (lx_fromISO utc_luxon (JStr ''5000'')) = Some (5000, ''UTC'')"
  "lx_toISO utc_luxon (Some (5000, ''UTC'')) = JStr ''5000''"
  "\<not> lx_less utc_luxon (Some (5000, ''UTC'')) (Some (0, ''UTC''))"
  "\<exists>d. lx_minus utc_luxon ''minutes'' (JNum 0) t = Inr d"
  proof -
  show "lx_setZone utc_luxon ''UTC'' (lx_fromISO utc_luxon (JStr ''5000'')) = Some (5000, ''UTC'')"
    by (simp add: utc_luxon_def utc_of_json_def int_val_def digit_val_def)
  show "lx_toISO utc_luxon (Some (5000, ''UTC'')) = JStr ''5000''"
    proof -
    have "nat_str 5000 = ''5000''"
      by (simp add: nat_str.simps [of 5000] nat_str.simps [of 500] nat_str.simps [of 50] nat_str.simps [of 5]) (simp add: char_of_def bit_0)
    then show ?thesis by (simp add: utc_luxon_def int_str_def)
  qed
  show "\<not> lx_less utc_luxon (Some (5000, ''UTC'')) (Some (0, ''UTC''))"
    by (simp add: utc_luxon_def lx_less_def)
  show "\<exists>d. lx_minus utc_luxon ''minutes'' (JNum 0) t = Inr d" by (simp add: utc_luxon_def utc_plus_def utc_shift_def)
qed

lemma absent_status: "getStatus L now JUndef t = Inr (statusOf ''DISABLED'')"
  by (simp add: getStatus_def)

lemma dayReport_status:
  "getStatus utc_luxon (Some (0, ''UTC'')) (jget fajrPlan ''adhan'') (Some (Some (5000, ''UTC''))) = Inr (jget fajrReport ''adhan'')"
proof -
  have t: "jget (jget fajrPlan ''adhan'') ''enabled'' = JBool True" "jget (jget fajrPlan ''adhan'') ''type'' = JStr ''url''"
    "jget (jget fajrPlan ''adhan'') ''url'' = JStr ''https://x/a.mp3''" "jget (jget fajrPlan ''adhan'') ''targets'' = JArr [JStr ''voicemonkey'']"
    by (simp_all add: fajrPlan_events)
  have "sourceText (JStr ''url'') (jget fajrPlan ''adhan'') = Inr (JStr ''https://x/a.mp3'')"
    "joinTargets (JArr [JStr ''voicemonkey'']) = Inr (JStr ''voicemonkey'')"
    by (simp_all add: sourceText_def t orElse_def joinTargets_def)
  then show ?thesis
    by (simp add: getStatus_def t Let_def orElse_def dayReport_instants fajrReport_def)
qed

lemma dayReport_pairs:
  "pairStatus utc_luxon (Some (0, ''UTC'')) fajrPlan ''adhan'' ''preAdhan'' (Some (Some (5000, ''UTC''))) =
     Inr [(''adhan'', jget fajrReport ''adhan''), (''preAdhan'', statusOf ''DISABLED'')]"
  "minutesBefore utc_luxon fajrPlan ''preIqamah'' i = Inr p \<Longrightarrow> pairStatus utc_luxon (Some (0, ''UTC'')) fajrPlan ''iqamah'' ''preIqamah'' i =
     Inr [(''iqamah'', statusOf ''DISABLED''), (''preIqamah'', statusOf ''DISABLED'')]"
proof -
  obtain d where "lx_minus utc_luxon ''minutes'' (JNum 0) (Some (5000, ''UTC'')) = Inr d" using dayReport_instants(4) by blast
  then have "minutesBefore utc_luxon fajrPlan ''preAdhan'' (Some (Some (5000, ''UTC''))) = Inr (Some d)"
    by (simp add: minutesBefore_def offsetOf_def fajrPlan_events orElse_def)
  then show "pairStatus utc_luxon (Some (0, ''UTC'')) fajrPlan ''adhan'' ''preAdhan'' (Some (Some (5000, ''UTC''))) =
     Inr [(''adhan'', jget fajrReport ''adhan''), (''preAdhan'', statusOf ''DISABLED'')]"
    by (simp add: pairStatus_def dayReport_status fajrPlan_events(2) absent_status)
qed (simp add: pairStatus_def fajrPlan_events absent_status)

lemma dayReport_fajr_run:
  "prayerStatus utc_luxon (Some (0, ''UTC'')) locatedConfig (jget (jget locatedConfig ''automation'') ''triggers'') (jget cachedDay ''prayers'') ''fajr'' = Inr fajrReport"
proof -
  have "getProp (jget (jget locatedConfig ''automation'') ''triggers'') ''fajr'' = Inr fajrPlan"
    "getProp (jget cachedDay ''prayers'') ''fajr'' = Inr (JStr ''5000'')" "orElse fajrPlan (JObj []) = fajrPlan"
    "strOr (jget (jget locatedConfig ''location'') ''timezone'') = ''UTC''"
    by (simp_all add: fajrPlan_def locatedConfig_def triggerConfig_def cachedDay_def getProp_def orElse_def strOr_def)
  moreover obtain i where "statusIqamah utc_luxon locatedConfig (jget cachedDay ''prayers'') ''fajr'' = Inr i"
    by (simp add: statusIqamah_def locatedConfig_def cachedDay_def getProp_def)
  moreover have "\<exists>p. minutesBefore utc_luxon fajrPlan ''preIqamah'' i = Inr p"
    using dayReport_instants(4) by (cases i) (auto simp: minutesBefore_def offsetOf_def fajrPlan_events orElse_def bindR_Inr)
  then obtain p where "minutesBefore utc_luxon fajrPlan ''preIqamah'' i = Inr p" by blast
  ultimately show ?thesis by (simp add: prayerStatus_def dayReport_instants dayReport_pairs fajrReport_def)
qed

lemma dayReport_other_run:
  assumes "p \<in> {''sunrise'', ''dhuhr'', ''asr'', ''maghrib'', ''isha''}"
  shows "prayerStatus L now locatedConfig (jget (jget locatedConfig ''automation'') ''triggers'') (jget cachedDay ''prayers'') p =
     Inr (JObj [(''error'', JStr ''No time data'')])"
proof -
  have "getProp (jget cachedDay ''prayers'') p = Inr JUndef" "\<exists>t. getProp (jget (jget locatedConfig ''automation'') ''triggers'') p = Inr t"
    using assms by (auto simp: locatedConfig_def cachedDay_def getProp_def triggerConfig_def)
  then show ?thesis by (auto simp: prayerStatus_def Let_def)
qed

lemma dayReport_day: "getPrayerTimes failingEnv locatedConfig (Some (0, ''UTC'')) dayCaches = (Inr cachedDay, dayCaches)"
  by code_simp

lemma dayReport_run: "getAutomationStatus failingEnv locatedConfig dayCaches = (Inr dayReport, dayCaches)"
proof -
  have c: "getProp (jget locatedConfig ''location'') ''timezone'' = Inr (JStr ''UTC'')"
    "getProp (jget locatedConfig ''automation'') ''triggers'' = Inr (jget (jget locatedConfig ''automation'') ''triggers'')"
    "getProp cachedDay ''prayers'' = Inr (jget cachedDay ''prayers'')"
    "pe_luxon failingEnv = utc_luxon" "lx_setZone utc_luxon ''UTC'' (pe_now failingEnv) = Some (0, ''UTC'')"
    by (simp_all add: locatedConfig_def triggerConfig_def cachedDay_def getProp_def failingEnv_def utc_luxon_def)
  have "getAutomationStatus failingEnv locatedConfig dayCaches =
    (foldR (\<lambda>prayer result. bindR (prayerStatus utc_luxon (Some (0, ''UTC'')) locatedConfig
        (jget (jget locatedConfig ''automation'') ''triggers'') (jget cachedDay ''prayers'') prayer) (\<lambda>s. Inr (jput result prayer s)))
       prayerNames (JObj []), dayCaches)"
    by (simp add: getAutomationStatus_def c Let_def strOr_def dayReport_day)
  also have "\<dots> = (Inr dayReport, dayCaches)"
    by (simp add: prayerNames_def dayReport_fajr_run dayReport_other_run dayReport_def)
  finally show ?thesis .
qed

theorem automationStatus_scheduled_witness:
  "\<exists>d. JStr ''5000'' = lx_toISO utc_luxon d \<and> \<not> lx_less utc_luxon d (Some (0, ''local'')) \<and>
     (lx_isValid utc_luxon d \<and> 2000 \<le> lx_valueOf utc_luxon d \<longrightarrow>
      (''fajr - adhan'', At (lx_valueOf utc_luxon d - 2000)) \<in>
        jobKey ` set (sd_jobs (snd (schedulePrayers sampleSched locatedConfig (jget (jget locatedConfig ''automation'') ''triggers'')
          (jget cachedDay ''prayers'') prayerNames (freshSched locatedConfig)))))"
proof -
  let ?s = "schedulePrayers sampleSched locatedConfig (jget (jget locatedConfig ''automation'') ''triggers'')
          (jget cachedDay ''prayers'') prayerNames (freshSched locatedConfig)"
  have L: "utc_luxon = pe_luxon (se_pt sampleSched)" "pe_now (se_pt sampleSched) = Some (0, ''local'')" "se_pt sampleSched = failingEnv"
    "se_accepts sampleSched sp" for sp by (simp_all add: sampleSched_def failingEnv_def)
  have now: "lx_isValid utc_luxon (pe_now (se_pt sampleSched))" "lx_valueOf utc_luxon (pe_now (se_pt sampleSched)) = 0" by code_simp+
  have config: "getProp (jget locatedConfig ''location'') ''timezone'' = Inr (JStr ''UTC'')"
    "getProp (jget locatedConfig ''automation'') ''triggers'' = Inr (jget (jget locatedConfig ''automation'') ''triggers'')" by code_simp+
  have day: "getPrayerTimes (se_pt sampleSched) locatedConfig (lx_setZone utc_luxon ''UTC'' (pe_now (se_pt sampleSched))) dayCaches = (Inr cachedDay, dayCaches)"
    by code_simp
  have "fst ?s = Inr ()" by code_simp
  then have run: "?s = (Inr (), snd ?s)" by (metis prod.collapse)
  have lead: "getMaxLeadTime locatedConfig ''fajr'' ''adhan'' = of_int 2000" "\<not> globallyOff locatedConfig ''adhan''" by code_simp+
  have report: "getAutomationStatus (se_pt sampleSched) locatedConfig dayCaches = (Inr dayReport, dayCaches)" using dayReport_run L(3) by simp
  have "sd_config (freshSched locatedConfig) = locatedConfig" by (simp add: freshSched_def)
  from automationStatus_scheduled [OF utc_luxon_ok L(1) now(1) config day report _ _ dayReport_fajr(1) run this lead]
  show ?thesis unfolding dayReport_fajr(2) L(2) now(2) [unfolded L(2)] using L(4) by (simp add: prayerNames_def del: schedulePrayers.simps)
qed

end
