(* ===== verification/Voices.thy ===== *)
theory Voices
  imports Audio_Assets
begin

text \<open>
  \<open>voiceService.js\<close>: the list of voices of the speech service, cached in memory and in a file for a
  day. Times are instants in milliseconds; a timestamp the file holds is read by a parameter (\<open>None\<close> is an
  invalid date), and so is the answer of the service. A refresh is split at the request, because other calls
  run while it is pending.
\<close>

section \<open>State\<close>

record voiceState =
  vs_voices :: json
  vs_isFetching :: bool
  vs_lastFetched :: "int option option"
  vs_file :: "json option option"

text \<open>
  \<open>vs_lastFetched\<close> is \<open>None\<close> for null and \<open>Some None\<close> for an invalid date; \<open>vs_file\<close> is \<open>None\<close> when there is no
  file and \<open>Some None\<close> when its text is not JSON.
\<close>

definition initVoices :: "json option option \<Rightarrow> voiceState" where
  "initVoices file = \<lparr>vs_voices = JArr [], vs_isFetching = False, vs_lastFetched = None, vs_file = file\<rparr>"

record voiceEnv =
  ve_now :: int
  ve_parseDate :: "json \<Rightarrow> int option"
  ve_stamp :: json
  ve_saveFails :: bool
  ve_answer :: "json res"

definition CACHE_DURATION_MS :: int where
  "CACHE_DURATION_MS = 24 * 60 * 60 * 1000"

definition isCacheValid :: "voiceEnv \<Rightarrow> voiceState \<Rightarrow> bool" where
  "isCacheValid V s =
     (case vs_lastFetched s of
        None \<Rightarrow> False
      | Some None \<Rightarrow> False
      | Some (Some t) \<Rightarrow> ve_now V - t < CACHE_DURATION_MS)"

text \<open>\<open>voices.length\<close>: of undefined or null it throws.\<close>

definition voicesLength :: "json \<Rightarrow> nat option res" where
  "voicesLength v =
     (case v of
        JUndef \<Rightarrow> Inl (TypeError ''Cannot read properties of undefined (reading length)'')
      | JNull \<Rightarrow> Inl (TypeError ''Cannot read properties of null (reading length)'')
      | JArr xs \<Rightarrow> Inr (Some (length xs))
      | JStr s \<Rightarrow> Inr (Some (length s))
      | _ \<Rightarrow> Inr None)"

definition loadFromCache :: "voiceEnv \<Rightarrow> voiceState \<Rightarrow> voiceState \<times> json" where
  "loadFromCache V s =
     (case vs_file s of
        None \<Rightarrow> (s, JNull)
      | Some None \<Rightarrow> (s, JNull)
      | Some (Some data) \<Rightarrow>
          (case getProp data ''timestamp'' of
             Inl _ \<Rightarrow> (s, JNull)
           | Inr timestamp \<Rightarrow>
               let s = s\<lparr>vs_lastFetched := Some (ve_parseDate V timestamp)\<rparr> in
               if isCacheValid V s
               then let s = s\<lparr>vs_voices := jget data ''voices''\<rparr> in
                    (case voicesLength (vs_voices s) of Inl _ \<Rightarrow> (s, JNull) | Inr _ \<Rightarrow> (s, vs_voices s))
               else (s, JNull)))"

definition saveToCache :: "voiceEnv \<Rightarrow> json \<Rightarrow> voiceState \<Rightarrow> voiceState" where
  "saveToCache V newVoices s =
     (if ve_saveFails V then s
      else s\<lparr>vs_file := Some (Some (json_copy (JObj [(''timestamp'', ve_stamp V), (''voices'', newVoices)])))\<rparr>)"

section \<open>A refresh\<close>

text \<open>Up to the request: the answer at once, or a pending request.\<close>

datatype refreshStart = Answered "json res" | Requested

definition startRefresh :: "voiceEnv \<Rightarrow> json res \<Rightarrow> voiceState \<Rightarrow> voiceState \<times> refreshStart" where
  "startRefresh V config s =
     (if vs_isFetching s then (s, Answered (Inr (vs_voices s)))
      else case voicesLength (vs_voices s) of
        Inl e \<Rightarrow> (s, Answered (Inl e))
      | Inr n \<Rightarrow>
          if (case n of Some k \<Rightarrow> k > 0 | None \<Rightarrow> False) \<and> isCacheValid V s then (s, Answered (Inr (vs_voices s)))
          else
            let (s, diskCache) = loadFromCache V s in
            if truthy diskCache then (s, Answered (Inr diskCache))
            else case config of
              Inl e \<Rightarrow> (s, Answered (Inl e))
            | Inr _ \<Rightarrow> (s\<lparr>vs_isFetching := True\<rparr>, Requested))"

definition finishRefresh :: "voiceEnv \<Rightarrow> voiceState \<Rightarrow> voiceState \<times> json" where
  "finishRefresh V s =
     (let s = (case ve_answer V of
                 Inr (JArr vs) \<Rightarrow> saveToCache V (JArr vs) (s\<lparr>vs_voices := JArr vs, vs_lastFetched := Some (Some (ve_now V))\<rparr>)
               | _ \<Rightarrow> s)
      in (s\<lparr>vs_isFetching := False\<rparr>, vs_voices s))"

definition refreshVoices :: "voiceEnv \<Rightarrow> json res \<Rightarrow> voiceState \<Rightarrow> voiceState \<times> json res" where
  "refreshVoices V config s =
     (case startRefresh V config s of
        (s, Answered r) \<Rightarrow> (s, r)
      | (s, Requested) \<Rightarrow> (case finishRefresh V s of (s, v) \<Rightarrow> (s, Inr v)))"

definition getVoices :: "voiceState \<Rightarrow> json" where
  "getVoices s = vs_voices s"

section \<open>The cache\<close>

text \<open>
  Laws of dates: the stamp written is read back as the instant it was taken.
\<close>

definition dates_ok :: "voiceEnv \<Rightarrow> bool" where
  "dates_ok V \<longleftrightarrow> ve_parseDate V (ve_stamp V) = Some (ve_now V) \<and> json_copy (ve_stamp V) = ve_stamp V \<and> ve_stamp V \<noteq> JUndef"

lemma finishRefresh_fetch:
  assumes "ve_answer V = Inr (JArr vs)" "\<not> ve_saveFails V"
  shows "finishRefresh V s = (s\<lparr>vs_voices := JArr vs, vs_lastFetched := Some (Some (ve_now V)), vs_isFetching := False,
     vs_file := Some (Some (json_copy (JObj [(''timestamp'', ve_stamp V), (''voices'', JArr vs)])))\<rparr>, JArr vs)"
  using assms by (simp add: finishRefresh_def saveToCache_def)

text \<open>
  The voice list survives a restart and is fetched once a day: after a successful fetch, a process that starts
  with the file it wrote answers, for the next 24 hours, with the same list and without asking the service,
  whatever the service would say.
\<close>

theorem refreshVoices_restart:
  assumes "startRefresh V config s = (s1, Requested)" "ve_answer V = Inr (JArr vs)" "\<not> ve_saveFails V" "dates_ok V"
    and "s2 = fst (finishRefresh V s1)" "defined (JArr vs)"
    and "ve_parseDate W = ve_parseDate V" "ve_now W - ve_now V < CACHE_DURATION_MS"
  shows "\<exists>s3. startRefresh W config' (initVoices (vs_file s2)) = (s3, Answered (Inr (JArr vs))) \<and> getVoices s3 = JArr vs"
proof -
  have fl: "vs_file s2 = Some (Some (JObj [(''timestamp'', ve_stamp V), (''voices'', JArr vs)]))"
    using assms(4-6) json_copy_defined [of "JArr vs"] finishRefresh_fetch [OF assms(2,3)]
    by (simp add: dates_ok_def)
  let ?s = "initVoices (vs_file s2)"
  have "loadFromCache W ?s = (?s\<lparr>vs_lastFetched := Some (Some (ve_now V)), vs_voices := JArr vs\<rparr>, JArr vs)"
    using assms(4,7,8) by (simp add: loadFromCache_def initVoices_def fl getProp_def dates_ok_def isCacheValid_def voicesLength_def)
  then show ?thesis by (simp add: startRefresh_def voicesLength_def getVoices_def) (simp add: initVoices_def)
qed

definition sampleVoices :: voiceEnv where
  "sampleVoices = \<lparr>ve_now = 1000, ve_parseDate = (\<lambda>v. if v = JStr ''t1000'' then Some 1000 else None), ve_stamp = JStr ''t1000'',
     ve_saveFails = False, ve_answer = Inr (JArr [JStr ''ar-SA-HamedNeural''])\<rparr>"

theorem refreshVoices_restart_witness:
  "\<exists>s3. startRefresh (sampleVoices\<lparr>ve_now := 5000, ve_answer := Inl (Error ''down'')\<rparr>) (Inr (JObj []))
     (initVoices (vs_file (fst (refreshVoices sampleVoices (Inr (JObj [])) (initVoices None))))) =
       (s3, Answered (Inr (JArr [JStr ''ar-SA-HamedNeural'']))) \<and> getVoices s3 = JArr [JStr ''ar-SA-HamedNeural'']"
proof -
  let ?s1 = "(initVoices None)\<lparr>vs_isFetching := True\<rparr>"
  have st: "startRefresh sampleVoices (Inr (JObj [])) (initVoices None) = (?s1, Requested)"
    by (simp add: startRefresh_def voicesLength_def loadFromCache_def initVoices_def)
  have fin: "fst (refreshVoices sampleVoices (Inr (JObj [])) (initVoices None)) = fst (finishRefresh sampleVoices ?s1)"
    by (simp add: refreshVoices_def st split: prod.split)
  show ?thesis
    unfolding fin
    by (rule refreshVoices_restart [OF st]) (simp_all add: sampleVoices_def dates_ok_def CACHE_DURATION_MS_def)
qed

text \<open>A cache file without voices: the list becomes undefined, and without the service every later refresh fails.\<close>

theorem refreshVoices_corrupt:
  assumes "vs_file s = Some (Some data)" "is_object data" "jget data ''voices'' = JUndef" "voicesLength (vs_voices s) = Inr (Some 0)"
    and "ve_parseDate V (jget data ''timestamp'') = Some t" "ve_now V - t < CACHE_DURATION_MS"
    and "\<not> vs_isFetching s" "ve_answer V = Inl e"
  shows "\<exists>s'. refreshVoices V (Inr config) s = (s', Inr JUndef) \<and> getVoices s' = JUndef \<and>
    (\<exists>e'. snd (refreshVoices V' config' s') = Inl e')"
proof -
  have "getProp data ''timestamp'' = Inr (jget data ''timestamp'')" using assms(2) by (auto simp: getProp_def)
  with assms show ?thesis
    by (simp add: refreshVoices_def startRefresh_def loadFromCache_def isCacheValid_def voicesLength_def finishRefresh_def getVoices_def)
qed

end
