(* ===== verification/Controllers.thy ===== *)
theory Controllers
  imports Workflow Audio_Library Diagnostics Voices Network
begin

text \<open>
  The HTTP handlers of \<open>settingsController.js\<close>, \<open>systemController.js\<close>, \<open>envController.js\<close> and
  \<open>prayerController.js\<close>, over one state of the whole server. A handler is a program in a small state and
  exception monad over the components; an error that leaves it goes to the error middleware.
\<close>

section \<open>The state of the server\<close>

record server =
  sv_flow :: flow
  sv_file :: "string option"
  sv_list :: fileListCache
  sv_voices :: voiceState
  sv_out :: "outEvent list"

text \<open>
  \<open>sx_text\<close> is the text of a value that is not a string, \<open>sx_nextISO\<close> the next invocation of a job,
  \<open>sx_daysSince\<close>, \<open>sx_daysBetween\<close> and \<open>sx_late\<close> are the parameters of the maintenance jobs,
  \<open>sx_keepsLocal\<close> says that \<open>local.json\<close> cannot be removed, \<open>sx_issues\<close> are the errors Zod lists.
\<close>

record 'dt serverEnv =
  sx_flow :: "'dt flowEnv"
  sx_auth :: authEnv
  sx_out :: outEnv
  sx_url :: urlEnv
  sx_voices :: voiceEnv
  sx_now :: int
  sx_stamp :: json
  sx_text :: "json \<Rightarrow> string"
  sx_nextISO :: "job \<Rightarrow> json"
  sx_daysSince :: "json \<Rightarrow> rat"
  sx_daysBetween :: "'dt \<Rightarrow> 'dt \<Rightarrow> rat"
  sx_late :: bool
  sx_keepsLocal :: bool
  sx_diskSpace :: "json res"
  sx_issues :: "json \<Rightarrow> json"

type_synonym 'a sv = "server \<Rightarrow> server \<times> 'a res"

definition bindV :: "'a sv \<Rightarrow> ('a \<Rightarrow> 'b sv) \<Rightarrow> 'b sv" where
  "bindV m f s = (case m s of (s', Inl e) \<Rightarrow> (s', Inl e) | (s', Inr x) \<Rightarrow> f x s')"

definition catchV :: "'a sv \<Rightarrow> (err \<Rightarrow> 'a sv) \<Rightarrow> 'a sv" where
  "catchV m h s = (case m s of (s', Inl e) \<Rightarrow> h e s' | (s', Inr x) \<Rightarrow> (s', Inr x))"

definition pureV :: "'a res \<Rightarrow> 'a sv" where
  "pureV r s = (s, r)"

definition getsV :: "(server \<Rightarrow> 'a res) \<Rightarrow> 'a sv" where
  "getsV f s = (s, f s)"

text \<open>The components of the server.\<close>

abbreviation sv_cfg :: "server \<Rightarrow> cfgWorld" where
  "sv_cfg s \<equiv> fl_cfg (sv_flow s)"

abbreviation sv_sched :: "server \<Rightarrow> schedState" where
  "sv_sched s \<equiv> fl_sched (sv_flow s)"

abbreviation sv_assets :: "server \<Rightarrow> assets" where
  "sv_assets s \<equiv> fl_assets (sv_flow s)"

abbreviation sv_env :: "'dt serverEnv \<Rightarrow> server \<Rightarrow> 'dt assetEnv" where
  "sv_env X s \<equiv> assetsEnv (sx_flow X) (sv_cfg s)"

definition onConfig :: "'a step \<Rightarrow> 'a sv" where
  "onConfig m s = (case m (sv_cfg s) of (w, r) \<Rightarrow> (s\<lparr>sv_flow := withConfig w (sv_flow s)\<rparr>, r))"

definition onFlow :: "(flow \<Rightarrow> flow \<times> 'a res) \<Rightarrow> 'a sv" where
  "onFlow m s = (case m (sv_flow s) of (f, r) \<Rightarrow> (s\<lparr>sv_flow := f\<rparr>, r))"

definition onAssets :: "'dt serverEnv \<Rightarrow> ('dt assetEnv \<Rightarrow> 'a io) \<Rightarrow> 'a sv" where
  "onAssets X m s = (case m (sv_env X s) (sv_assets s) of (w, r) \<Rightarrow> (s\<lparr>sv_flow := (sv_flow s)\<lparr>fl_assets := w\<rparr>\<rparr>, r))"

definition onHealth :: "'dt serverEnv \<Rightarrow> ('dt healthEnv \<Rightarrow> json \<Rightarrow> json \<times> 'a res) \<Rightarrow> 'a sv" where
  "onHealth X m = onAssets X (\<lambda>E w. case m (av_health E) (at_health w) of (c, r) \<Rightarrow> (w\<lparr>at_health := c\<rparr>, r))"

definition onSched :: "(schedState \<Rightarrow> 'a res \<times> schedState) \<Rightarrow> 'a sv" where
  "onSched m s = (case m (sv_sched s) of (r, d) \<Rightarrow> (s\<lparr>sv_flow := (sv_flow s)\<lparr>fl_sched := d\<rparr>\<rparr>, r))"

definition onTimes :: "'dt serverEnv \<Rightarrow> ('dt ptEnv \<Rightarrow> ptState \<Rightarrow> 'a res \<times> ptState) \<Rightarrow> 'a sv" where
  "onTimes X m = onSched (\<lambda>d. case m (se_pt (fe_sched (sx_flow X))) (sd_pt d) of (r, pt) \<Rightarrow> (r, d\<lparr>sd_pt := pt\<rparr>))"

definition onStream :: "(sseState \<Rightarrow> sseState) \<Rightarrow> unit sv" where
  "onStream f s = (s\<lparr>sv_flow := (sv_flow s)\<lparr>fl_sse := f (fl_sse (sv_flow s))\<rparr>\<rparr>, Inr ())"

definition onOutputs :: "outEvent list \<times> 'a res \<Rightarrow> 'a sv" where
  "onOutputs run s = (s\<lparr>sv_out := sv_out s @ fst run\<rparr>, snd run)"

definition authOf :: "server \<Rightarrow> authWorld" where
  "authOf s = \<lparr>aw_cfg = sv_cfg s, aw_file = sv_file s\<rparr>"

definition onAuth :: "(authWorld \<Rightarrow> authWorld \<times> 'a res) \<Rightarrow> 'a sv" where
  "onAuth m s = (case m (authOf s) of (w, r) \<Rightarrow> (s\<lparr>sv_flow := withConfig (aw_cfg w) (sv_flow s), sv_file := aw_file w\<rparr>, r))"

definition onLibrary :: "(library \<Rightarrow> library \<times> reply) \<Rightarrow> reply sv" where
  "onLibrary m s =
     (case m \<lparr>lb_assets = sv_assets s, lb_cache = sv_list s\<rparr> of
        (L, r) \<Rightarrow> (s\<lparr>sv_flow := (sv_flow s)\<lparr>fl_assets := lb_assets L\<rparr>, sv_list := lb_cache L\<rparr>, Inr r))"

text \<open>\<open>configService.get\<close>, \<open>reload\<close> and \<open>schedulerService.initScheduler\<close> on the state of the server.\<close>

definition getV :: "json sv" where
  "getV = getsV (\<lambda>s. getConfig (sv_cfg s))"

definition reloadV :: "'dt serverEnv \<Rightarrow> unit sv" where
  "reloadV X = onConfig (reload (fe_schemas (sx_flow X)) (fe_fault (sx_flow X)))"

definition restartV :: "'dt serverEnv \<Rightarrow> unit sv" where
  "restartV X = onSched (\<lambda>d. (Inr (), initScheduler (fe_sched (sx_flow X)) d))"

definition syncV :: "'dt serverEnv \<Rightarrow> bool \<Rightarrow> string list sv" where
  "syncV X forceClean = onAssets X (\<lambda>E. syncAudioAssets E (fe_order (sx_flow X)) forceClean)"

definition asyncHandler :: "reply sv \<Rightarrow> server \<Rightarrow> server \<times> reply" where
  "asyncHandler fn s = (case fn s of (s', Inr r) \<Rightarrow> (s', r) | (s', Inl e) \<Rightarrow> (s', errorHandler e))"

definition withStatus :: "nat \<Rightarrow> json \<Rightarrow> reply" where
  "withStatus code body = (respondWith body)\<lparr>rp_status := code\<rparr>"

text \<open>A value that is used as a name.\<close>

definition nameOf :: "'dt serverEnv \<Rightarrow> json \<Rightarrow> string" where
  "nameOf X v = (case v of JStr n \<Rightarrow> n | _ \<Rightarrow> sx_text X v)"

section \<open>Settings\<close>

definition getSettings :: "'dt serverEnv \<Rightarrow> reply sv" where
  "getSettings X =
     bindV (reloadV X) (\<lambda>_.
     bindV getV (\<lambda>config.
     pureV (Inr (respondWith (maskSecrets (fe_outputs (sx_flow X)) (fe_providers (sx_flow X)) (json_copy config))))))"

definition getPublicSettings :: "'dt serverEnv \<Rightarrow> reply sv" where
  "getPublicSettings X =
     bindV (reloadV X) (\<lambda>_.
     bindV getV (\<lambda>fullConfig.
     pureV (Inr (respondWith (publicSettings (fe_outputs (sx_flow X)) fullConfig)))))"

definition updateSettings :: "'dt serverEnv \<Rightarrow> json \<Rightarrow> reply sv" where
  "updateSettings X body =
     catchV (bindV (onFlow (executeUpdate (sx_flow X) body)) (\<lambda>result. pureV (Inr (respondWith result))))
       (\<lambda>e. pureV (Inr (respond (if str_includes (err_message e) ''Validation Failed'' then 400 else 500)
              [(''error'', JStr ''Update Failed''), (''message'', JStr (err_message e))])))"

text \<open>\<open>access\<close> and \<open>unlink\<close> of \<open>local.json\<close>; their errors are ignored.\<close>

definition removeLocal :: "'dt serverEnv \<Rightarrow> unit sv" where
  "removeLocal X s =
     (if sx_keepsLocal X then s
      else s\<lparr>sv_flow := (sv_flow s)\<lparr>fl_cfg := (sv_cfg s)\<lparr>cw_local := Missing\<rparr>\<rparr>\<rparr>, Inr ())"

definition syncFailed :: "string \<Rightarrow> err \<Rightarrow> reply" where
  "syncFailed what e =
     respond 400 [(''error'', JStr ''Sync Failed''),
       (''message'', JStr (what @ '', but audio synchronisation failed: '' @ err_message e))]"

text \<open>The end of both handlers: the synchronisation, whose error ends the request, and the scheduler.\<close>

definition syncAndRestart :: "'dt serverEnv \<Rightarrow> bool \<Rightarrow> string \<Rightarrow> string \<Rightarrow> json \<Rightarrow> reply sv" where
  "syncAndRestart X forceClean what message result s =
     (case syncV X forceClean s of
        (s', Inl e) \<Rightarrow> (s', Inr (syncFailed what e))
      | (s', Inr warnings) \<Rightarrow>
          bindV (restartV X) (\<lambda>_.
          pureV (Inr (respond 200 [(''message'', JStr message), (''meta'', jget result ''meta''),
            (''warnings'', JArr (map JStr warnings))]))) s')"

definition resetSettings :: "'dt serverEnv \<Rightarrow> reply sv" where
  "resetSettings X =
     bindV (removeLocal X) (\<lambda>_.
     bindV (reloadV X) (\<lambda>_.
     bindV getV (\<lambda>config.
     bindV (onTimes X (\<lambda>P. forceRefresh P config)) (\<lambda>result.
     syncAndRestart X True ''Settings reset'' ''Settings reset to defaults.'' result))))"

definition stopAll :: "unit sv" where
  "stopAll = onSched (\<lambda>d. (Inr (), clearJobs d))"

definition sourcesHealthy :: "'dt serverEnv \<Rightarrow> json \<Rightarrow> bool sv" where
  "sourcesHealthy X config =
     bindV (getsV (\<lambda>s. checkSource (av_health (sv_env X s)) ''primary'')) (\<lambda>primaryHealth.
     bindV (pureV (getProp (jget config ''sources'') ''backup'')) (\<lambda>backup.
     bindV (if truthy backup \<and> jget backup ''enabled'' \<noteq> JBool False
            then getsV (\<lambda>s. checkSource (av_health (sv_env X s)) ''backup'')
            else pureV (Inr (JObj [(''healthy'', JBool False)]))) (\<lambda>backupHealth.
     pureV (Inr (truthy (jget primaryHealth ''healthy'') \<or> truthy (jget backupHealth ''healthy''))))))"

definition refreshCache :: "'dt serverEnv \<Rightarrow> reply sv" where
  "refreshCache X =
     bindV (reloadV X) (\<lambda>_.
     bindV getV (\<lambda>config.
     bindV (sourcesHealthy X config) (\<lambda>healthy.
     if \<not> healthy
     then pureV (Inr (failWith 503 ''System is relying on cache. Cannot reload cache until at least one Prayer API is online.''))
     else
       bindV (onTimes X (\<lambda>P. forceRefresh P config)) (\<lambda>result.
       bindV stopAll (\<lambda>_.
       syncAndRestart X False ''Cache refreshed'' ''Cache refreshed and scheduler reloaded'' result)))))"

definition isBoolOrUndefined :: "json \<Rightarrow> bool" where
  "isBoolOrUndefined v = (case v of JUndef \<Rightarrow> True | JBool _ \<Rightarrow> True | _ \<Rightarrow> False)"

definition updateTourState :: "'dt serverEnv \<Rightarrow> json \<Rightarrow> reply sv" where
  "updateTourState X body =
     (if \<not> isBoolOrUndefined (jget body ''dashboardSeen'') \<or> \<not> isBoolOrUndefined (jget body ''adminSeen'')
      then pureV (Inr (failWith 400 ''Invalid tour state''))
      else
        bindV (onConfig (update (fe_schemas (sx_flow X)) (fe_fault (sx_flow X)) (JObj [(''system'', JObj [(''tours'', body)])]))) (\<lambda>_.
        pureV (Inr (respond 200 [(''success'', JBool True)]))))"

section \<open>The environment\<close>

definition envBlacklist :: "string list" where
  "envBlacklist = [''PATH'', ''NODE_OPTIONS'', ''SHELL'', ''USER'', ''HOME'', ''LD_PRELOAD'']"

definition envKeyAllowed :: "string \<Rightarrow> bool" where
  "envKeyAllowed val =
     (val \<notin> set envBlacklist \<and>
      (startsWith val ''AZAN_'' \<or>
       list_ex (endsWith val) [''_KEY'', ''_TOKEN'', ''_SECRET'', ''_URL'', ''_ID'', ''_DEVICE''] \<or>
       val \<in> set [''PORT'', ''TZ'', ''LOG_LEVEL'']))"

definition envUpdateSchema :: "json \<Rightarrow> (string \<times> string) option" where
  "envUpdateSchema body =
     (case (jget body ''key'', jget body ''value'') of
        (JStr k, JStr v) \<Rightarrow> if is_object body \<and> envKeyAllowed k then Some (k, v) else None
      | _ \<Rightarrow> None)"

definition updateEnv :: "'dt serverEnv \<Rightarrow> json \<Rightarrow> reply sv" where
  "updateEnv X body =
     (case envUpdateSchema body of
        None \<Rightarrow> pureV (Inr (respond 400 [(''success'', JBool False), (''message'', JStr ''Validation failed''), (''errors'', sx_issues X body)]))
      | Some (key, value) \<Rightarrow>
          catchV
            (bindV (onAuth (\<lambda>w. (setEnv (sx_auth X) key value w, Inr ()))) (\<lambda>_.
             bindV (reloadV X) (\<lambda>_.
             pureV (Inr (respond 200 [(''success'', JBool True), (''message'', JStr (key @ '' updated successfully'')),
               (''data'', JObj [(key, JStr value)])])))))
            (\<lambda>e. pureV (Inr (if is_ZodError e
               then respond 400 [(''success'', JBool False), (''message'', JStr ''Validation failed''), (''errors'', sx_issues X body)]
               else respond 500 [(''success'', JBool False), (''message'', JStr ''Internal server error'')]))))"

section \<open>Prayer times\<close>

definition isDateText :: "string \<Rightarrow> bool" where
  "isDateText t =
     (case map (\<lambda>c. digit_val c \<noteq> None) t of
        [True, True, True, True, _, True, True, _, True, True] \<Rightarrow> t ! 4 = CHR ''-'' \<and> t ! 7 = CHR ''-''
      | _ \<Rightarrow> False)"

definition prayerCalendarQuerySchema :: "'dt luxon \<Rightarrow> json \<Rightarrow> (json \<times> json) option" where
  "prayerCalendarQuerySchema L query =
     (let cursorDate = jget query ''cursorDate''; direction = jget query ''direction'' in
      if (case cursorDate of JUndef \<Rightarrow> True | JStr t \<Rightarrow> isDateText t \<and> lx_isValid L (lx_fromISO L cursorDate) | _ \<Rightarrow> False) \<and>
         direction \<in> {JUndef, JStr ''future'', JStr ''past''} \<and> (truthy cursorDate \<longleftrightarrow> truthy direction)
      then Some (cursorDate, direction) else None)"

definition getPrayers :: "'dt serverEnv \<Rightarrow> json \<Rightarrow> reply sv" where
  "getPrayers X query =
     (let P = se_pt (fe_sched (sx_flow X)); L = pe_luxon P in
      case prayerCalendarQuerySchema L query of
        None \<Rightarrow> pureV (Inr (respond 400 [(''error'', JStr ''Bad Request''), (''message'', JStr ''Invalid prayer calendar query parameters.'')]))
      | Some (cursorDate, direction) \<Rightarrow>
          catchV
            (bindV getV (\<lambda>config.
             bindV (pureV (getProp (jget config ''location'') ''timezone'')) (\<lambda>tz.
             let timezone = strOr tz; requestDate = lx_setZone L timezone (pe_now P) in
             bindV (onTimes X (\<lambda>P. getPrayersWithNext P config timezone requestDate)) (\<lambda>result.
             bindV (onTimes X (\<lambda>P. getPrayerCalendarWindow P config timezone cursorDate direction requestDate)) (\<lambda>calendar.
             pureV (Inr (respondWith (spreadMerge result (JObj [(''calendar'', calendar)])))))))))
            (\<lambda>_. pureV (Inr (respond 500 [(''error'', JStr ''Internal Server Error''),
               (''message'', JStr ''Failed to retrieve prayer times. Please check logs.'')]))))"

section \<open>System\<close>

definition healthReply :: "json \<Rightarrow> json \<Rightarrow> reply" where
  "healthReply backup report =
     (let healthy = (\<lambda>k. truthy (jget (jget report k) ''healthy''));
          isBackupNeeded = (jget backup ''enabled'' \<noteq> JBool False);
          isSourceHealthy = (healthy ''primarySource'' \<or> (isBackupNeeded \<and> healthy ''backupSource'')) in
      withStatus (if \<not> healthy ''local'' \<or> \<not> healthy ''tts'' \<or> \<not> isSourceHealthy then 503 else 200) report)"

definition getHealthV :: "'dt serverEnv \<Rightarrow> reply sv" where
  "getHealthV X =
     bindV (onHealth X (\<lambda>H c. case getHealth H c of (c, r) \<Rightarrow> (c, Inr r))) (\<lambda>report.
     bindV getV (\<lambda>config.
     bindV (pureV (getProp (jget config ''sources'') ''backup'')) (\<lambda>backup.
     pureV (Inr (healthReply backup report)))))"

definition toggleHealthCheck :: "'dt serverEnv \<Rightarrow> json \<Rightarrow> reply sv" where
  "toggleHealthCheck X body =
     (case jget body ''enabled'' of
        JBool enabled \<Rightarrow>
          if \<not> truthy (jget body ''serviceId'')
          then pureV (Inr (respond 400 [(''success'', JBool False), (''error'', JStr ''serviceId and enabled (boolean) are required.'')]))
          else bindV (onConfig (toggle (fe_schemas (sx_flow X)) (fe_fault (sx_flow X)) (nameOf X (jget body ''serviceId'')) enabled)) (\<lambda>_.
               pureV (Inr (respond 200 [(''success'', JBool True)])))
      | _ \<Rightarrow> pureV (Inr (respond 400 [(''success'', JBool False), (''error'', JStr ''serviceId and enabled (boolean) are required.'')])))"

definition refreshHealth :: "'dt serverEnv \<Rightarrow> bool \<Rightarrow> json \<Rightarrow> reply sv" where
  "refreshHealth X force body =
     bindV (onHealth X (\<lambda>H. refresh H (nameOf X (orElse (jget body ''target'') (JStr ''all''))) (jget body ''params'') force)) (\<lambda>result.
     pureV (Inr (respondWith result)))"

definition getJobsV :: "'dt serverEnv \<Rightarrow> reply sv" where
  "getJobsV X = getsV (\<lambda>s. Inr (respondWith (getJobs (sx_nextISO X) (sv_sched s))))"

definition automationStatusV :: "'dt serverEnv \<Rightarrow> reply sv" where
  "automationStatusV X =
     bindV (reloadV X) (\<lambda>_.
     bindV getV (\<lambda>config.
     bindV (onTimes X (\<lambda>P. getAutomationStatus P config)) (\<lambda>report.
     pureV (Inr (respondWith report)))))"

definition ttsStatusV :: "'dt serverEnv \<Rightarrow> reply sv" where
  "ttsStatusV X =
     bindV (reloadV X) (\<lambda>_.
     bindV getV (\<lambda>config.
     bindV (getsV (\<lambda>s. getTTSStatus (sv_env X s) config (sv_assets s))) (\<lambda>report.
     pureV (Inr (respondWith report)))))"

definition regenerateTTS :: "'dt serverEnv \<Rightarrow> reply sv" where
  "regenerateTTS X =
     catchV
       (bindV (reloadV X) (\<lambda>_.
        bindV (syncV X True) (\<lambda>_.
        pureV (Inr (respond 200 [(''success'', JBool True), (''message'', JStr ''Audio assets cleared and synchronised.'')])))))
       (\<lambda>e. pureV (Inr (respond 400 [(''success'', JBool False), (''message'', JStr (''Regeneration failed: '' @ err_message e))])))"

definition restartScheduler :: "'dt serverEnv \<Rightarrow> reply sv" where
  "restartScheduler X =
     bindV (reloadV X) (\<lambda>_.
     bindV (onSched (\<lambda>d. (Inr (), hotReload (fe_sched (sx_flow X)) d))) (\<lambda>_.
     pureV (Inr (respond 200 [(''success'', JBool True), (''message'', JStr ''Scheduler restarted.'')]))))"

definition sourceReply :: "json \<Rightarrow> reply" where
  "sourceReply sourceHealth =
     (if truthy (jget sourceHealth ''healthy'')
      then respond 200 [(''success'', JBool True), (''message'', orElse (jget sourceHealth ''message'') (JStr ''Source is online and responding.''))]
      else respond 400 [(''success'', JBool False), (''error'', orElse (jget sourceHealth ''message'') (JStr ''Source test failed.''))])"

definition testSource :: "'dt serverEnv \<Rightarrow> json \<Rightarrow> reply sv" where
  "testSource X body =
     (let refuse = (\<lambda>m. pureV (Inr (respond 400 [(''success'', JBool False), (''error'', JStr m)]))) in
      if jget body ''target'' \<notin> {JStr ''primary'', JStr ''backup''}
      then refuse (''Invalid target. Expected '' @ quoteChar @ ''primary'' @ quoteChar @ '' or '' @ quoteChar @ ''backup'' @ quoteChar @ ''.'')
      else
        let target = the_str (jget body ''target''); healthKey = (if target = ''primary'' then ''primarySource'' else ''backupSource'') in
        bindV (reloadV X) (\<lambda>_.
        bindV getV (\<lambda>config.
        bindV (pureV (getProp (jget config ''sources'') target)) (\<lambda>targetSource.
        if \<not> truthy targetSource then refuse (''Source '' @ quoteChar @ target @ quoteChar @ '' is not configured.'')
        else if target = ''backup'' \<and> jget targetSource ''enabled'' = JBool False then refuse ''Backup source is currently disabled.''
        else
          bindV (onHealth X (\<lambda>H. refresh H healthKey JNull True)) (\<lambda>result.
          pureV (Inr (sourceReply (jget result healthKey))))))))"

definition getStorageStatus :: "'dt serverEnv \<Rightarrow> reply sv" where
  "getStorageStatus X =
     bindV getV (\<lambda>config.
     bindV (getsV (\<lambda>s. Inr (getUsage (storageOf (sv_env X s) (sv_assets s))))) (\<lambda>usage.
     bindV (pureV (calculateRecommendedLimit config)) (\<lambda>recommendedLimit.
     pureV (Inr (respond 200
       [(''usedBytes'', JNum (of_nat (us_total usage))),
        (''limitBytes'', case limitBytes config of Some q \<Rightarrow> JNum q | None \<Rightarrow> JNull),
        (''systemFreeBytes'', getSystemStats (sx_diskSpace X)), (''recommendedLimitGB'', JNum recommendedLimit),
        (''breakdown'', JObj [(''custom'', JNum (of_nat (us_custom usage))), (''cache'', JNum (of_nat (us_cache usage)))])])))))"

definition voicesReply :: "reply sv" where
  "voicesReply = getsV (\<lambda>s. Inr (respondWith (getVoices (sv_voices s))))"

text \<open>\<open>template.length > 50\<close>\<close>

definition tooLong :: "json \<Rightarrow> bool" where
  "tooLong v =
     (case v of
        JStr t \<Rightarrow> utf16_length t > 50
      | JArr xs \<Rightarrow> length xs > 50
      | JObj _ \<Rightarrow> (case to_number (jget v ''length'') of Some q \<Rightarrow> q > 50 | None \<Rightarrow> False)
      | _ \<Rightarrow> False)"

definition previewV :: "'dt serverEnv \<Rightarrow> json \<Rightarrow> reply sv" where
  "previewV X body =
     (let tpl = jget body ''template''; prayerKey = jget body ''prayerKey''; voice = jget body ''voice'' in
      if \<not> truthy tpl \<or> \<not> truthy prayerKey \<or> \<not> truthy voice
      then pureV (Inr (failWith 400 ''Template, prayerKey, and voice are required''))
      else if tooLong tpl then pureV (Inr (failWith 400 ''TTS template must be 50 characters or less''))
      else
        catchV
          (bindV (case prayerKey of
                    JStr p \<Rightarrow> onAssets X (\<lambda>E. previewTTS E tpl p (jget body ''offsetMinutes'') voice)
                  | _ \<Rightarrow> pureV (Inl (TypeError ''prayerKey.toLowerCase is not a function''))) (\<lambda>data.
           pureV (Inr (respondWith data))))
          (\<lambda>e. pureV (Inr (failWith 500 (messageOr ''Failed to generate preview audio'' e)))))"

definition cleanupTempTTS :: "'dt serverEnv \<Rightarrow> reply sv" where
  "cleanupTempTTS X =
     catchV
       (bindV (onAssets X (\<lambda>E. cleanupTempAudio E (av_now E) True)) (\<lambda>_.
        pureV (Inr (respond 200 [(''success'', JBool True), (''message'', JStr ''Temporary TTS files cleaned up successfully.'')]))))
       (\<lambda>_. pureV (Inr (failWith 500 ''Failed to clean up temporary files'')))"

text \<open>The maintenance jobs on the state of the whole server.\<close>

definition maintain :: "'dt serverEnv \<Rightarrow> string \<Rightarrow> unit sv" where
  "maintain X name =
     (if name = ''Maintenance: Health Check'' then bindV (onHealth X runDailyMaintenance) (\<lambda>_. pureV (Inr ()))
      else if name = ''Maintenance: Audio Assets'' then bindV (syncV X False) (\<lambda>_. pureV (Inr ()))
      else if name = ''System: Midnight Refresh'' then bindV (reloadV X) (\<lambda>_. restartV X)
      else onSched (callback (fe_sched (sx_flow X)) (sx_daysSince X) (sx_daysBetween X) (sx_late X) name))"

definition runMaintenance :: "'dt serverEnv \<Rightarrow> string \<Rightarrow> json sv" where
  "runMaintenance X jobName s =
     (let answer = (\<lambda>ok msg. JObj [(''success'', JBool ok), (''message'', JStr msg)]);
          quoted = ''Job '' @ quoteChar @ jobName @ quoteChar in
      if jobName \<notin> set (sd_callbacks (sv_sched s)) then (s, Inr (answer False (quoted @ '' not found.'')))
      else case maintain X jobName s of
        (s', Inr _) \<Rightarrow> (s', Inr (answer True (quoted @ '' executed successfully.'')))
      | (s', Inl e) \<Rightarrow> (s', Inr (answer False (messageOr ''Job execution failed.'' e))))"

definition runJobV :: "'dt serverEnv \<Rightarrow> json \<Rightarrow> reply sv" where
  "runJobV X body =
     (if \<not> truthy (jget body ''jobName'')
      then pureV (Inr (respond 400 [(''success'', JBool False), (''message'', JStr ''jobName is required'')]))
      else
        let jobName = nameOf X (jget body ''jobName'') in
        bindV (runMaintenance X jobName) (\<lambda>result.
        if \<not> truthy (jget result ''success'') then pureV (Inr (withStatus 400 result))
        else bindV (onStream (sseLog (logEntry (sx_stamp X) ''info'' (''Manual trigger: '' @ jobName)))) (\<lambda>_.
             pureV (Inr (respondWith result)))))"

definition outputStrategy :: "'dt serverEnv \<Rightarrow> string \<Rightarrow> strategy res" where
  "outputStrategy X strategyId =
     bindR (getStrategy (fe_outputs (sx_flow X)) strategyId) (\<lambda>_.
     case strategyOf strategyId of Some s \<Rightarrow> Inr s | None \<Rightarrow> Inl (Error ''Not implemented''))"

definition badRequest :: "err \<Rightarrow> reply sv" where
  "badRequest e = pureV (Inr (failWith 400 (err_message e)))"

definition verifyOutput :: "'dt serverEnv \<Rightarrow> string \<Rightarrow> json \<Rightarrow> reply sv" where
  "verifyOutput X strategyId body =
     catchV
       (bindV getV (\<lambda>currentConfig.
        bindV (pureV (outputStrategy X strategyId)) (\<lambda>strategy.
        bindV (onOutputs (verifyCredentials ((sx_out X)\<lparr>oe_config := currentConfig\<rparr>) strategy
                 (unmaskParams (fe_outputs (sx_flow X)) strategyId currentConfig body))) (\<lambda>result.
        pureV (Inr (respondWith result))))))
       badRequest"

definition testOutput :: "'dt serverEnv \<Rightarrow> string \<Rightarrow> json \<Rightarrow> reply sv" where
  "testOutput X strategyId body =
     catchV
       (bindV getV (\<lambda>currentConfig.
        bindV (pureV (outputStrategy X strategyId)) (\<lambda>strategy.
        let source = jget body ''source'' in
        if \<not> typeof_object source then pureV (Inr (failWith 400 ''Audio source is required for testing''))
        else
          let payload = JObj [(''params'', unmaskParams (fe_outputs (sx_flow X)) strategyId currentConfig body), (''source'', source),
                (''baseUrl'', jget (jget currentConfig ''automation'') ''baseUrl'')] in
          bindV (onOutputs (execute ((sx_out X)\<lparr>oe_config := currentConfig\<rparr>) strategy payload)) (\<lambda>_.
          pureV (Inr (respond 200 [(''success'', JBool True)]))))))
       badRequest"

definition validateUrlV :: "'dt serverEnv \<Rightarrow> json \<Rightarrow> reply sv" where
  "validateUrlV X body = (case validateUrl (sx_url X) body of (code, answer) \<Rightarrow> pureV (Inr (withStatus code answer)))"

section \<open>What a program leaves alone\<close>

named_theorems leave

definition leaves :: "(server \<Rightarrow> 'v) \<Rightarrow> 'a sv \<Rightarrow> bool" where
  "leaves view m \<longleftrightarrow> (\<forall>s. view (fst (m s)) = view s)"

lemma leavesD: "leaves view m \<Longrightarrow> m s = (s', r) \<Longrightarrow> view s' = view s"
  by (metis fst_conv leaves_def)

lemma bindV_cases:
  assumes "bindV m f s = (s', r)"
  obtains (error) e where "m s = (s', Inl e)" "r = Inl e"
  | (next_step) s1 x where "m s = (s1, Inr x)" "f x s1 = (s', r)"
  using assms by (auto simp: bindV_def split: prod.splits sum.splits)

lemma leaves_bindV [leave]: "leaves view m \<Longrightarrow> (\<And>x. leaves view (f x)) \<Longrightarrow> leaves view (bindV m f)"
  by (simp add: leaves_def bindV_def split: prod.split sum.split) (metis fst_conv)

lemma leaves_catchV [leave]: "leaves view m \<Longrightarrow> (\<And>e. leaves view (h e)) \<Longrightarrow> leaves view (catchV m h)"
  by (simp add: leaves_def catchV_def split: prod.split sum.split) (metis fst_conv)

lemma leaves_pureV [leave]: "leaves view (pureV r)"
  by (simp add: leaves_def pureV_def)

lemma leaves_getsV [leave]: "leaves view (getsV f)"
  by (simp add: leaves_def getsV_def)

lemma leaves_if [leave]: "(b \<Longrightarrow> leaves view m) \<Longrightarrow> (\<not> b \<Longrightarrow> leaves view n) \<Longrightarrow> leaves view (if b then m else n)"
  by simp

lemma leaves_getV [leave]: "leaves view getV"
  by (simp add: getV_def leaves_getsV)

text \<open>The jobs of the scheduler.\<close>

definition jobsOf :: "server \<Rightarrow> job list \<times> job list \<times> nat" where
  "jobsOf s = (sd_jobs (sv_sched s), sd_live (sv_sched s), sd_next (sv_sched s))"

lemma jobs_onConfig [leave]: "leaves jobsOf (onConfig m)"
  by (simp add: leaves_def onConfig_def jobsOf_def withConfig_def split: prod.split)

lemma jobs_onAssets [leave]: "leaves jobsOf (onAssets X m)"
  by (simp add: leaves_def onAssets_def jobsOf_def split: prod.split)

lemma jobs_onTimes [leave]: "leaves jobsOf (onTimes X m)"
  by (simp add: leaves_def onTimes_def onSched_def jobsOf_def split: prod.split)

lemma jobs_steps [leave]: "leaves jobsOf (reloadV X)" "leaves jobsOf (removeLocal X)" "leaves jobsOf (syncV X c)"
  by (simp_all add: reloadV_def syncV_def leave) (simp add: leaves_def removeLocal_def jobsOf_def)

lemma jobs_sourcesHealthy [leave]: "leaves jobsOf (sourcesHealthy X config)"
  unfolding sourcesHealthy_def by (intro leave)

lemma tracked_jobsOf: "jobsOf s' = jobsOf s \<Longrightarrow> tracked (sv_sched s') = tracked (sv_sched s)"
  by (simp add: tracked_def jobsOf_def)

section \<open>Refreshing and resetting\<close>

text \<open>The jobs alive after a restart are new ones, and all of them are known.\<close>

definition freshJobs :: "server \<Rightarrow> server \<Rightarrow> bool" where
  "freshJobs s s' \<longleftrightarrow> restarted (sv_flow s) (sv_flow s')"

lemma restartV_fresh:
  assumes "restartV X s = (s', r)" "tracked (sv_sched s)" "tracked (sv_sched s0)" "sd_next (sv_sched s0) \<le> sd_next (sv_sched s)"
  shows "freshJobs s0 s'" "r = Inr ()" "sv_cfg s' = sv_cfg s" "sv_assets s' = sv_assets s"
proof -
  have s': "sv_sched s' = initScheduler (fe_sched (sx_flow X)) (sv_sched s)" and "r = Inr ()" "sv_cfg s' = sv_cfg s" "sv_assets s' = sv_assets s"
    using assms(1) by (auto simp: restartV_def onSched_def)
  then show "r = Inr ()" "sv_cfg s' = sv_cfg s" "sv_assets s' = sv_assets s" by simp_all
  have "sd_live (sv_sched s') = sd_jobs (sv_sched s')" "tracked (sv_sched s')"
    using initScheduler_started [OF assms(2)] started_tracked s' by (auto simp: started_def)
  moreover have "jb_id j < sd_next (sv_sched s)" if "j \<in> set (sd_live (sv_sched s0))" for j
    using that assms(3,4) by (fastforce simp: tracked_def)
  then have "j \<notin> set (sd_live (sv_sched s'))" if "j \<in> set (sd_live (sv_sched s0))" for j
    using initScheduler_fresh(1) [OF assms(2), of j] that s' by fastforce
  ultimately show "freshJobs s0 s'" by (auto simp: freshJobs_def restarted_def)
qed

lemma status_simps [simp]:
  "rp_status (respond n b) = n" "rp_status (respondWith v) = 200"
  by (simp_all only: respond_def respondWith_def reply.simps)

lemma status_more [simp]:
  "rp_status (failWith n m) = n" "rp_status (errorHandler e) = 500" "rp_status (syncFailed w e) = 400" "rp_status (withStatus n v) = n"
  by (simp_all only: failWith_def errorHandler_def syncFailed_def withStatus_def respondWith_def status_simps reply.simps reply.update_convs)

lemma syncAndRestart_outcome:
  assumes "syncAndRestart X clean what message result s = (s', q)" "tracked (sv_sched s)" "tracked (sv_sched s0)"
    and "sd_next (sv_sched s0) \<le> sd_next (sv_sched s)"
  shows "(\<exists>e. snd (syncV X clean s) = Inl e \<and> q = Inr (syncFailed what e) \<and> jobsOf s' = jobsOf s \<and> sv_cfg s' = sv_cfg s) \<or>
    (\<exists>warnings r. snd (syncV X clean s) = Inr warnings \<and> q = Inr r \<and> rp_status r = 200 \<and> freshJobs s0 s' \<and> sv_cfg s' = sv_cfg s \<and>
       sv_assets s' = sv_assets (fst (syncV X clean s)) \<and>
       jget (rp_body r) ''meta'' = jget result ''meta'' \<and> jget (rp_body r) ''warnings'' = JArr (map JStr warnings))"
proof -
  obtain s1 y where y: "syncV X clean s = (s1, y)" by fastforce
  have j: "jobsOf s1 = jobsOf s" using leavesD [OF jobs_steps(3) y] .
  have c: "sv_cfg s1 = sv_cfg s" using y by (auto simp: syncV_def onAssets_def split: prod.splits)
  show ?thesis
  proof (cases y)
    case (Inl e)
    then have "s' = s1" "q = Inr (syncFailed what e)" using assms(1) y by (simp_all add: syncAndRestart_def)
    moreover have "snd (syncV X clean s) = Inl e" using y Inl by (simp only: snd_conv)
    ultimately show ?thesis using j c by blast
  next
    case (Inr warnings)
    obtain s2 u where u: "restartV X s1 = (s2, u)" by fastforce
    have "tracked (sv_sched s1)" "sd_next (sv_sched s0) \<le> sd_next (sv_sched s1)"
      using assms(2,4) j tracked_jobsOf [OF j] by (auto simp: jobsOf_def)
    note fr = restartV_fresh [OF u this(1) assms(3) this(2)]
    have run: "s' = s2" "q = Inr (respond 200 [(''message'', JStr message), (''meta'', jget result ''meta''),
        (''warnings'', JArr (map JStr warnings))])"
      using assms(1) y u Inr fr(2) by (simp_all add: syncAndRestart_def bindV_def pureV_def)
    have "jget (rp_body (respond 200 [(''message'', JStr message), (''meta'', jget result ''meta''), (''warnings'', w)])) ''meta'' = jget result ''meta''"
      "jget (rp_body (respond 200 [(''message'', JStr message), (''meta'', jget result ''meta''), (''warnings'', w)])) ''warnings'' = w" for w
      by (simp_all add: respond_def)
    moreover have "snd (syncV X clean s) = Inr warnings" "fst (syncV X clean s) = s1" using y Inr by (simp_all only: snd_conv fst_conv)
    moreover have "freshJobs s0 s'" "sv_cfg s' = sv_cfg s" "sv_assets s' = sv_assets s1" using fr run(1) c by (simp_all only:)
    ultimately show ?thesis using run(2) status_simps(1) by metis
  qed
qed

lemma refreshCache_run:
  assumes "refreshCache X s = (s', q)"
  shows "jobsOf s' = jobsOf s \<and> ((\<exists>e. q = Inl e) \<or> (\<exists>r. q = Inr r \<and> rp_status r = 503)) \<or>
    (\<exists>s1 s2 result. jobsOf s1 = jobsOf s \<and> stopAll s1 = (s2, Inr ()) \<and>
       syncAndRestart X False ''Cache refreshed'' ''Cache refreshed and scheduler reloaded'' result s2 = (s', q))"
  using assms unfolding refreshCache_def
proof (cases rule: bindV_cases)
  case (next_step s1 u)
  note j1 = leavesD [OF jobs_steps(1) next_step(1)]
  from next_step(2) show ?thesis
  proof (cases rule: bindV_cases)
    case (next_step s2 config)
    note j2 = leavesD [OF leaves_getV [of jobsOf] next_step(1)]
    from next_step(2) show ?thesis
    proof (cases rule: bindV_cases)
      case (next_step s3 healthy)
      note j3 = leavesD [OF jobs_sourcesHealthy next_step(1)]
      show ?thesis
      proof (cases healthy)
        case True
        with next_step(2) have run: "bindV (onTimes X (\<lambda>P. forceRefresh P config)) (\<lambda>result. bindV stopAll (\<lambda>_.
            syncAndRestart X False ''Cache refreshed'' ''Cache refreshed and scheduler reloaded'' result)) s3 = (s', q)" by simp
        then show ?thesis
        proof (cases rule: bindV_cases)
          case (next_step s4 result)
          note j4 = leavesD [OF jobs_onTimes next_step(1)]
          obtain s5 where "stopAll s4 = (s5, Inr ())" by (simp add: stopAll_def onSched_def)
          then show ?thesis using next_step(2) j1 j2 j3 j4 by (auto simp: bindV_def)
        qed (use leavesD [OF jobs_onTimes] j1 j2 j3 in fastforce)
      next
        case False
        with next_step(2) have "s' = s3" "\<exists>r. q = Inr r \<and> rp_status r = 503" by (auto simp: pureV_def)
        then show ?thesis using j1 j2 j3 by metis
      qed
    qed (use leavesD [OF jobs_sourcesHealthy] j1 j2 in fastforce)
  qed (use leavesD [OF leaves_getV [of jobsOf]] j1 in fastforce)
qed (use leavesD [OF jobs_steps(1)] in fastforce)


section \<open>A concrete instance\<close>

definition sampleFlowEnv :: "utc flowEnv" where
  "sampleFlowEnv =
     \<lparr>fe_schemas = acceptAll, fe_fault = None, fe_outputs = builtinOutputs, fe_providers = builtinProviders,
      fe_prov = downProv 404, fe_sourceSchema = (\<lambda>_ c. Inr c), fe_sched = sampleSched,
      fe_assets = sampleAssetEnvOf (downProv 404) JNull, fe_order = []\<rparr>"

definition sampleFlow :: flow where
  "sampleFlow = \<lparr>fl_cfg = aw_cfg runningWorld, fl_sched = freshSched versionOne, fl_sse = sseInit, fl_assets = oldAssets JNull\<rparr>"

definition sampleServerEnv :: "utc flowEnv \<Rightarrow> utc serverEnv" where
  "sampleServerEnv F =
     \<lparr>sx_flow = F, sx_auth = toyAuth, sx_out = sampleOut,
      sx_url = \<lparr>ue_protocol = (\<lambda>_. Inr ''https:''), ue_head = (\<lambda>_. Inr ()), ue_get = (\<lambda>_. None)\<rparr>,
      sx_voices = sampleVoices, sx_now = 0, sx_stamp = JStr ''now'', sx_text = (\<lambda>_. ''value''), sx_nextISO = (\<lambda>_. JNull),
      sx_daysSince = (\<lambda>_. 0), sx_daysBetween = (\<lambda>_ _. 0), sx_late = False, sx_keepsLocal = False,
      sx_diskSpace = Inl (Error ''unknown''), sx_issues = (\<lambda>_. JArr [])\<rparr>"

definition serverOf :: "flow \<Rightarrow> server" where
  "serverOf f = \<lparr>sv_flow = f, sv_file = None, sv_list = noCache, sv_voices = initVoices None, sv_out = []\<rparr>"

text \<open>A server with a job alive whose configuration no longer passes the schema.\<close>

definition rejectingEnv :: "utc serverEnv" where
  "rejectingEnv = sampleServerEnv (sampleFlowEnv\<lparr>fe_schemas := \<lparr>sc_config = (\<lambda>_. Inl (Error ''refused'')), sc_provider = (\<lambda>m b c. Inr c)\<rparr>\<rparr>)"

definition oneJob :: job where
  "oneJob = \<lparr>jb_id = 0, jb_name = ''fajr - adhan'', jb_category = ''automation'', jb_spec = At 5000, jb_action = Trigger ''fajr'' ''adhan''\<rparr>"

definition busyServer :: server where
  "busyServer = serverOf (sampleFlow\<lparr>fl_sched := (freshSched versionOne)\<lparr>sd_jobs := [oneJob], sd_live := [oneJob], sd_next := 1\<rparr>\<rparr>)"

lemma rejecting_reload: "\<exists>s' e. reloadV rejectingEnv s = (s', Inl e)"
proof -
  let ?S = "fe_schemas (sx_flow rejectingEnv)" and ?q = "fe_fault (sx_flow rejectingEnv)"
  have no: "sc_config ?S raw \<noteq> Inr c" for raw c
    by (simp add: rejectingEnv_def sampleServerEnv_def)
  obtain w r where w: "reload ?S ?q (sv_cfg s) = (w, r)" by fastforce
  then have "\<exists>e. r = Inl e" using reload_result(5) [OF w] no by (cases r) auto
  with w show ?thesis by (auto simp: reloadV_def onConfig_def)
qed


section \<open>A reset forgets\<close>

text \<open>A step that does not read the configuration in memory.\<close>

named_theorems ignore

definition ignoresConfig :: "'a step \<Rightarrow> bool" where
  "ignoresConfig m \<longleftrightarrow> (\<forall>w c. m (w\<lparr>cw_config := c\<rparr>) = (case m w of (w', r) \<Rightarrow> (w'\<lparr>cw_config := c\<rparr>, r)))"

lemma ignores_bindS [ignore]: "ignoresConfig m \<Longrightarrow> (\<And>x. ignoresConfig (f x)) \<Longrightarrow> ignoresConfig (bindS m f)"
  by (simp add: ignoresConfig_def bindS_def split: prod.split sum.split)

lemma ignores_simple [ignore]: "ignoresConfig (passS g)" "ignoresConfig (returnS x)" "ignoresConfig loadDotenv"
  by (simp_all add: ignoresConfig_def passS_def returnS_def loadDotenv_def)

lemma ignores_if [ignore]: "ignoresConfig m \<Longrightarrow> ignoresConfig n \<Longrightarrow> ignoresConfig (if b then m else n)"
  by simp

lemma ignores_saveLocal [ignore]: "ignoresConfig (saveLocal q c)"
  unfolding saveLocal_def by (intro ignore) (simp add: ignoresConfig_def split: option.split)

lemma ignores_mergeLocal: "ignoresConfig (mergeLocal q raw)"
proof -
  have "ignoresConfig (bindS (passS (\<lambda>_. migrateConfig l)) (\<lambda>m.
      if js_gt (orZero (jget m ''version'')) (orZero (jget l ''version''))
      then bindS (saveLocal q m) (\<lambda>_. returnS (mergeDeep raw m)) else returnS (mergeDeep raw l)))" for l
    by (intro ignore)
  then show ?thesis unfolding mergeLocal_def ignoresConfig_def by (simp split: localFile.split)
qed

lemma ignores_loadDefault [ignore]: "ignoresConfig (\<lambda>w. loadLocal q (cw_default w) w)"
  using ignores_mergeLocal [of q] unfolding ignoresConfig_def loadLocal_def
  by (simp split: prod.split sum.split)

lemma ignores_migrateEnvStep [ignore]: "ignoresConfig (migrateEnvStep q c)"
proof -
  have "ignoresConfig (bindS (saveLocal q x)
      (\<lambda>_ w. (w\<lparr>cw_pendingDeletes := cw_pendingDeletes w @ ks\<rparr>, Inr y)))" for x ks and y :: json
    by (intro ignore) (simp add: ignoresConfig_def)
  then show ?thesis unfolding migrateEnvStep_def ignoresConfig_def by (simp split: sum.split)
qed

lemma ignores_reloadConfig: "ignoresConfig (reloadConfig S q)"
  unfolding reloadConfig_def by (intro ignore)

lemma reload_ignores:
  assumes "reload S q (w\<lparr>cw_config := c\<rparr>) = (w1, Inr x)" "reload S q w = (w2, Inr y)"
  shows "cw_config w1 = cw_config w2"
  using assms ignores_reloadConfig [of S q]
  by (auto simp: reload_eq bindS_def ignoresConfig_def split: prod.splits sum.splits)

lemma cfg_steps [leave]:
  "leaves (\<lambda>s. sv_cfg s) (onTimes X m)" "leaves (\<lambda>s. sv_cfg s) (syncV X c)" "leaves (\<lambda>s. sv_cfg s) (onAssets X n)"
  by (auto simp: leaves_def onTimes_def onSched_def syncV_def onAssets_def split: prod.splits)

lemma resetSettings_run:
  assumes "resetSettings X s = (s', q)" "\<not> sx_keepsLocal X" "tracked (sv_sched s)"
  shows "(case q of Inl _ \<Rightarrow> jobsOf s' = jobsOf s
    | Inr r \<Rightarrow> (rp_status r = 200 \<and> freshJobs s s' \<or> rp_status r = 400 \<and> jobsOf s' = jobsOf s) \<and>
        (\<exists>w. reload (fe_schemas (sx_flow X)) (fe_fault (sx_flow X)) ((sv_cfg s)\<lparr>cw_local := Missing\<rparr>) = (w, Inr ()) \<and>
             sv_cfg s' = w))"
  using assms(1) unfolding resetSettings_def
proof (cases rule: bindV_cases)
  case (next_step s1 u)
  note j1 = leavesD [OF jobs_steps(2) next_step(1)]
  have s1: "sv_cfg s1 = (sv_cfg s)\<lparr>cw_local := Missing\<rparr>" using next_step(1) assms(2) by (auto simp: removeLocal_def)
  from next_step(2) show ?thesis
  proof (cases rule: bindV_cases)
    case (next_step s2 u)
    note j2 = leavesD [OF jobs_steps(1) next_step(1)]
    have s2: "reload (fe_schemas (sx_flow X)) (fe_fault (sx_flow X)) ((sv_cfg s)\<lparr>cw_local := Missing\<rparr>) = (sv_cfg s2, Inr ())"
      using next_step(1) s1 by (auto simp: reloadV_def onConfig_def withConfig_def split: prod.splits)
    from next_step(2) show ?thesis
    proof (cases rule: bindV_cases)
      case (next_step s3 config)
      have s3: "s3 = s2" using next_step(1) by (simp add: getV_def getsV_def)
      from next_step(2) show ?thesis
      proof (cases rule: bindV_cases)
        case (next_step s4 result)
        have s4: "jobsOf s4 = jobsOf s" "sv_cfg s4 = sv_cfg s2"
          using leavesD [OF jobs_onTimes next_step(1)] leavesD [OF cfg_steps(1) next_step(1)] s3 j1 j2 by auto
        have t: "tracked (sv_sched s4)" "sd_next (sv_sched s) \<le> sd_next (sv_sched s4)"
          using tracked_jobsOf [OF s4(1)] s4(1) assms(3) by (auto simp: jobsOf_def)
        from syncAndRestart_outcome [OF next_step(2) t(1) assms(3) t(2)] s2 s4 show ?thesis by auto
      qed (use leavesD [OF jobs_onTimes] s3 j1 j2 in fastforce)
    qed (use leavesD [OF leaves_getV [of jobsOf]] j1 j2 in fastforce)
  qed (use leavesD [OF jobs_steps(1)] j1 in fastforce)
qed (use leavesD [OF jobs_steps(2)] in fastforce)

text \<open>
  A reset forgets the settings: two servers that differ in nothing but the settings file and the configuration in force
  run with the same configuration after it, unless the reset itself fails. The jobs alive are new ones exactly after a
  reply 200; after an error, and also when only the synchronisation of the audio fails, they are still those of the
  configuration before.
\<close>

theorem resetSettings_forgets:
  assumes "\<not> sx_keepsLocal X" "tracked (sv_sched s)" "tracked (sv_sched t)"
    and "asyncHandler (resetSettings X) s = (s', r)" "asyncHandler (resetSettings X) t = (t', u)"
    and "sv_cfg t = (sv_cfg s)\<lparr>cw_config := c, cw_local := l\<rparr>"
  shows "rp_status r \<in> {200, 400, 500} \<and> (if rp_status r = 200 then freshJobs s s' else jobsOf s' = jobsOf s) \<and>
    (rp_status r \<noteq> 500 \<and> rp_status u \<noteq> 500 \<longrightarrow> cw_config (sv_cfg s') = cw_config (sv_cfg t'))"
proof -
  obtain q where q: "resetSettings X s = (s', q)" "r = (case q of Inr r \<Rightarrow> r | Inl e \<Rightarrow> errorHandler e)"
    using assms(4) by (auto simp: asyncHandler_def split: prod.splits sum.splits)
  obtain p where p: "resetSettings X t = (t', p)" "u = (case p of Inr r \<Rightarrow> r | Inl e \<Rightarrow> errorHandler e)"
    using assms(5) by (auto simp: asyncHandler_def split: prod.splits sum.splits)
  have eq: "(sv_cfg t)\<lparr>cw_local := Missing\<rparr> = (sv_cfg s)\<lparr>cw_local := Missing\<rparr>\<lparr>cw_config := c\<rparr>"
    using assms(6) by simp
  note run = resetSettings_run [OF q(1) assms(1,2)]
  note run' = resetSettings_run [OF p(1) assms(1,3), unfolded eq]
  show ?thesis
  proof (intro conjI impI)
    show "rp_status r \<in> {200, 400, 500}" "if rp_status r = 200 then freshJobs s s' else jobsOf s' = jobsOf s"
      using run q(2) by (auto split: sum.splits)
    assume "rp_status r \<noteq> 500 \<and> rp_status u \<noteq> 500"
    then obtain x y where "q = Inr x" "p = Inr y" using q(2) p(2) by (cases q; cases p; auto)
    with run run' show "cw_config (sv_cfg s') = cw_config (sv_cfg t')" using reload_ignores by fastforce
  qed
qed


text \<open>A schema that always answers the same, and a day of prayer times.\<close>

definition resettingEnv :: "utc serverEnv" where
  "resettingEnv = sampleServerEnv (sampleFlowEnv\<lparr>
     fe_schemas := \<lparr>sc_config = (\<lambda>_. Inr sampleConfig), sc_provider = (\<lambda>m b c. Inr c)\<rparr>,
     fe_sched := sampleSched\<lparr>se_pt := oneDayEnv\<rparr>\<rparr>)"

definition storedServer :: "json \<Rightarrow> localFile \<Rightarrow> server" where
  "storedServer c l = serverOf
     \<lparr>fl_cfg = sampleWorld\<lparr>cw_config := c, cw_local := l\<rparr>, fl_sched = freshSched c, fl_sse = sseInit,
      fl_assets = \<lparr>at_dirs = [AudioCache, AudioTemp, AudioCustom, MetaCache, MetaCustom], at_files = [], at_health = JNull\<rparr>\<rparr>"

lemma default_reload:
  "\<exists>w. reload (fe_schemas (sx_flow resettingEnv)) (fe_fault (sx_flow resettingEnv)) (sampleWorld\<lparr>cw_config := c, cw_local := Missing\<rparr>) = (w, Inr ())"
  by (simp add: reload_def bindS_def loadDotenv_def resettingEnv_def sampleServerEnv_def sampleFlowEnv_def
      loadLocal_def mergeLocal_def returnS_def passS_def sampleWorld_def processSensitiveFields_def getEncryptionKey_def envVar_def sampleEnv_def
      processSources_def roles_def mapSource_def jupd_def migrateConfig_def getProp_def migrateEnvStep_def
      migrateEnvSecrets_def applyEnvOverrides_def validateConstraints_def cleanSourceData_def
      validateSources_def parseSchema_def builtinProviders_eq getRegisteredProviders_def
      sensitive_builtin mergeDeep.simps protoKeys_def Let_def)

lemma default_fetch: "\<exists>d st'. forceRefresh oneDayEnv sampleConfig st = (Inr d, st')"
proof -
  let ?d = "Some (0, ''local'') :: utc" and ?st = "st\<lparr>pt_mem := JNull, pt_disk := NoCache\<rparr>"
  have k: "isoKey (pe_luxon oneDayEnv) ?d = ''0''" by code_simp
  have miss: "\<not> inCache (pt_mem ?st) ''0''" "\<not> inCache (diskCache ?st) ''0''"
    by (simp_all add: inCache_def diskCache_def readCache_def Let_def)
  let ?m = "JObj [(''0'', JObj [(''fajr'', JStr ''18000000'')])]"
  have f: "fetchWithFailover oneDayEnv sampleConfig (lx_year (pe_luxon oneDayEnv) ?d) = Inr (?m, JStr ''mymasjid'')"
    by (simp add: fetchWithFailover_def tryFetch_def oneDayEnv_def sampleConfig_def getProviderClass_def
        builtinProviders_eq emptyMap_def)
  have data: "truthy (jget (fetchedData ?st ?m) ''0'')"
    by (simp add: fetchedData_def spreadMerge_def diskCache_def readCache_def orElse_def Let_def)
  have "\<exists>d. fst (getPrayerTimes oneDayEnv sampleConfig ?d ?st) = Inr d"
    using data f unfolding getPrayerTimes_fetch [OF miss [folded k]] k Let_def by auto
  then show ?thesis by (simp add: forceRefresh_def oneDayEnv_def) (metis prod.collapse)
qed


lemma default_sync:
  assumes "he_config (av_health E) = Inr sampleConfig" "\<And>op p. av_fault E op p = None" "w = \<lparr>at_dirs = [AudioCache, AudioTemp, AudioCustom, MetaCache, MetaCustom], at_files = [], at_health = JNull\<rparr>"
  shows "\<exists>w'. syncAudioAssets E order True w = (w', Inr [])"
  using assms by (simp add: syncAudioAssets_def cleanArea_def io_run namesIn_def sampleConfig_def)

lemma reset_succeeds:
  "\<exists>s' r. asyncHandler (resetSettings resettingEnv) (storedServer c l) = (s', r) \<and> rp_status r = 200"
proof -
  let ?X = resettingEnv
  let ?s1 = "storedServer c Missing"
  have s1: "removeLocal ?X (storedServer c l) = (?s1, Inr ())"
    by (simp add: removeLocal_def storedServer_def serverOf_def resettingEnv_def sampleServerEnv_def)
  obtain w where w: "reload (fe_schemas (sx_flow ?X)) (fe_fault (sx_flow ?X)) (sv_cfg ?s1) = (w, Inr ())"
    using default_reload by (auto simp: storedServer_def serverOf_def)
  have "cw_config w = sampleConfig"
    using reload_result(5) [OF w refl] by (simp add: resettingEnv_def sampleServerEnv_def)
  then have c: "getConfig w = Inr sampleConfig" by (simp add: getConfig_def sampleConfig_def)
  define s2 where "s2 = ?s1\<lparr>sv_flow := withConfig w (sv_flow ?s1)\<rparr>"
  have s2: "reloadV ?X ?s1 = (s2, Inr ())" "getV s2 = (s2, Inr sampleConfig)"
    using w c by (simp_all add: reloadV_def onConfig_def s2_def getV_def getsV_def withConfig_def)
  obtain d st where d: "forceRefresh oneDayEnv sampleConfig (sd_pt (sv_sched s2)) = (Inr d, st)" using default_fetch by blast
  obtain s3 where s3: "onTimes ?X (\<lambda>P. forceRefresh P sampleConfig) s2 = (s3, Inr d)" "sv_cfg s3 = w" "sv_assets s3 = sv_assets s2"
    using d by (auto simp: onTimes_def onSched_def resettingEnv_def sampleServerEnv_def s2_def withConfig_def)
  have a: "sv_assets s2 = \<lparr>at_dirs = [AudioCache, AudioTemp, AudioCustom, MetaCache, MetaCustom], at_files = [], at_health = JNull\<rparr>"
    by (simp add: s2_def storedServer_def serverOf_def withConfig_def)
  have "he_config (av_health (sv_env ?X s3)) = Inr sampleConfig" "\<And>op p. av_fault (sv_env ?X s3) op p = None"
    using c s3(2) by (simp_all add: assetsEnv_def resettingEnv_def sampleServerEnv_def sampleFlowEnv_def)
  from default_sync [OF this, of "sv_assets s3" "fe_order (sx_flow ?X)"] obtain s4 where s4: "syncV ?X True s3 = (s4, Inr [])"
    using a s3(3) by (auto simp: syncV_def onAssets_def)
  obtain s5 where s5: "restartV ?X s4 = (s5, Inr ())" by (simp add: restartV_def onSched_def)
  have "asyncHandler (resetSettings ?X) (storedServer c l) =
      (s5, respond 200 [(''message'', JStr ''Settings reset to defaults.''), (''meta'', jget d ''meta''), (''warnings'', JArr [])])"
    by (simp add: asyncHandler_def resetSettings_def bindV_def s1 s2 s3 syncAndRestart_def s4 s5 pureV_def)
  then show ?thesis by simp
qed

theorem resetSettings_forgets_witness:
  "\<exists>s' r t' u. asyncHandler (resetSettings resettingEnv) (storedServer versionOne (Parsed versionOne)) = (s', r) \<and>
     asyncHandler (resetSettings resettingEnv) (storedServer sampleConfig Corrupt) = (t', u) \<and>
     rp_status r = 200 \<and> cw_config (sv_cfg s') = cw_config (sv_cfg t')"
proof -
  obtain s' r where r: "asyncHandler (resetSettings resettingEnv) (storedServer versionOne (Parsed versionOne)) = (s', r)" "rp_status r = 200"
    using reset_succeeds by blast
  obtain t' u where u: "asyncHandler (resetSettings resettingEnv) (storedServer sampleConfig Corrupt) = (t', u)" "rp_status u = 200"
    using reset_succeeds by blast
  have "\<not> sx_keepsLocal resettingEnv" "tracked (sv_sched (storedServer c l))" for c l
    by (simp_all add: resettingEnv_def sampleServerEnv_def storedServer_def serverOf_def freshSched_def tracked_def)
  moreover have "sv_cfg (storedServer sampleConfig Corrupt) =
      (sv_cfg (storedServer versionOne (Parsed versionOne)))\<lparr>cw_config := sampleConfig, cw_local := Corrupt\<rparr>"
    by (simp add: storedServer_def serverOf_def)
  ultimately have "cw_config (sv_cfg s') = cw_config (sv_cfg t')"
    using resetSettings_forgets [OF _ _ _ r(1) u(1)] r(2) u(2) by simp
  with r u show ?thesis by blast
qed

section \<open>A line break in the environment\<close>

text \<open>
  The schema of an environment update looks at neither the key nor the value for line breaks: an update of a permitted key
  can write any other variable into the file, for instance a password hash of its own choice.
\<close>

theorem envUpdate_injects:
  "\<exists>key value. envUpdateSchema (JObj [(''key'', JStr key), (''value'', JStr value)]) = Some (key, value) \<and>
     \<not> envKeyAllowed ''ADMIN_PASSWORD'' \<and>
     (''ADMIN_PASSWORD'', ''mine'') \<in> set (parseEnv (es_file (setEnvValue key value \<lparr>es_file = None, es_process = Map.empty\<rparr>)))"
proof (intro exI conjI)
  let ?k = "''A_URL''" and ?v = "''x'' @ [CHR 0x0A] @ ''ADMIN_PASSWORD=mine''"
  show "envUpdateSchema (JObj [(''key'', JStr ?k), (''value'', JStr ?v)]) = Some (?k, ?v)" by code_simp
  show "\<not> envKeyAllowed ''ADMIN_PASSWORD''" by code_simp
  show "(''ADMIN_PASSWORD'', ''mine'') \<in> set (parseEnv (es_file (setEnvValue ?k ?v \<lparr>es_file = None, es_process = Map.empty\<rparr>)))"
    by code_simp
qed

end
