(* ===== verification/Routes.thy ===== *)
theory Routes
  imports Controllers
begin

text \<open>
  The routes of the server (\<open>routes/\<close>), the middleware in front of the handlers (rate limits, session, quota,
  upload) and what a request does to the state. The package express-rate-limit decides which requests are
  too many; the path of a request is the one Express matches.
\<close>

section \<open>Requests and middleware\<close>

record request =
  rq_method :: string
  rq_path :: string
  rq_query :: json
  rq_body :: json
  rq_token :: "string option"
  rq_ip :: string
  rq_url :: string
  rq_length :: "int option"
  rq_upload :: "(string \<times> string \<times> assetFile) option"
  rq_response :: nat

datatype limiter = SecurityLimiter | OperationsLimiter | GlobalReadLimiter | GlobalWriteLimiter | SseLimiter

fun limitMessage :: "limiter \<Rightarrow> string" where
  "limitMessage SecurityLimiter = ''Too many authentication attempts. Please try again in a minute.''"
| "limitMessage OperationsLimiter = ''Too many operation requests. Please wait 10 seconds.''"
| "limitMessage GlobalReadLimiter = ''Too many read requests. Please wait 10 seconds.''"
| "limitMessage GlobalWriteLimiter = ''Too many update requests. Please wait 10 seconds.''"
| "limitMessage SseLimiter = ''Too many log connection attempts.''"

text \<open>\<open>rt_blocked\<close> is the header \<open>Retry-After\<close> of a request the package refuses, \<open>rt_tables\<close> the constants and registries.\<close>

datatype table = ConstantsTable | ProvidersTable | OutputsTable

record 'dt routeEnv =
  rt_server :: "'dt serverEnv"
  rt_blocked :: "limiter \<Rightarrow> request \<Rightarrow> json option"
  rt_tables :: "table \<Rightarrow> json"

definition limitHandler :: "'dt routeEnv \<Rightarrow> string \<Rightarrow> request \<Rightarrow> json \<Rightarrow> server \<Rightarrow> server \<times> reply" where
  "limitHandler X baseMessage q retryAfter s =
     (let waitMsg = (if truthy retryAfter then '' - Please try again in '' @ nameOf (rt_server X) retryAfter @ '' seconds.'' else []);
          fullMessage = baseMessage @ waitMsg;
          logMsg = ''Rate limit exceeded for '' @ rq_ip q @ '' on '' @ rq_url q @ '': '' @ fullMessage
      in (fst (onStream (sseLog (logEntry (sx_stamp (rt_server X)) ''WARN'' logMsg)) s),
          respond 429 [(''success'', JBool False), (''error'', JStr ''Too many requests''), (''message'', JStr fullMessage),
            (''retryAfter'', retryAfter)]))"

datatype middleware = Limit limiter | Session | Quota | SingleFile

definition MAX_UPLOAD :: nat where
  "MAX_UPLOAD = 10 * 1024 * 1024"

text \<open>The upload package stores the file under its new name, when the filter lets it pass and it is not too large.\<close>

definition receiveUpload :: "'dt serverEnv \<Rightarrow> string \<Rightarrow> string \<Rightarrow> assetFile \<Rightarrow> unit sv" where
  "receiveUpload X originalname mimetype file =
     (let n = uploadFilename originalname in
      bindV (pureV (uploadFileFilter mimetype originalname)) (\<lambda>_.
      if af_size file > MAX_UPLOAD then pureV (Inl (Error ''File too large''))
      else if n \<in> {[], ''.'', ''..''} then pureV (Inl (Error ''EISDIR''))
      else onAssets X (\<lambda>E. guarded E WriteFile (tempFile n) (\<lambda>w.
        if AudioTemp \<notin> set (at_dirs w) then (w, Inl ENOENT) else (putFile (tempFile n) file w, Inr ())))))"

text \<open>A middleware ends the request with a reply or passes it on.\<close>

fun middlewareStep :: "'dt routeEnv \<Rightarrow> request \<Rightarrow> middleware \<Rightarrow> server \<Rightarrow> server \<times> reply option" where
  "middlewareStep X q (Limit l) s =
     (case rt_blocked X l q of
        None \<Rightarrow> (s, None)
      | Some retryAfter \<Rightarrow> (case limitHandler X (limitMessage l) q retryAfter s of (s', r) \<Rightarrow> (s', Some r)))"
| "middlewareStep X q Session s =
     (case authenticateToken (sx_auth (rt_server X)) (sx_now (rt_server X)) (rq_token q) (authOf s) of
        Inl e \<Rightarrow> (s, Some (errorHandler e))
      | Inr (Refuse r) \<Rightarrow> (s, Some r)
      | Inr (NextUser _) \<Rightarrow> (s, None))"
| "middlewareStep X q Quota s =
     (case storageCheck (storageOf (sv_env (rt_server X) s) (sv_assets s)) (rq_length q) of
        Next \<Rightarrow> (s, None)
      | TooLarge body \<Rightarrow> (s, Some (withStatus 413 body)))"
| "middlewareStep X q SingleFile s =
     (case rq_upload q of
        None \<Rightarrow> (s, None)
      | Some (originalname, mimetype, file) \<Rightarrow>
          (case receiveUpload (rt_server X) originalname mimetype file s of
             (s', Inl e) \<Rightarrow> (s', Some (errorHandler e))
           | (s', Inr _) \<Rightarrow> (s', None)))"

fun runMiddleware :: "'dt routeEnv \<Rightarrow> request \<Rightarrow> middleware list \<Rightarrow> server \<Rightarrow> server \<times> reply option" where
  "runMiddleware X q [] s = (s, None)"
| "runMiddleware X q (m # ms) s =
     (case middlewareStep X q m s of
        (s', Some r) \<Rightarrow> (s', Some r)
      | (s', None) \<Rightarrow> runMiddleware X q ms s')"

section \<open>Routes\<close>

datatype endpoint =
    AuthStatus | AuthSetup | AuthChangePassword | AuthLogin | AuthLogout | AuthCheck
  | SystemHealth | HealthToggle | HealthRefresh | Jobs | AudioFiles | Constants | AutomationStatus | TtsStatus | StorageStatus
  | VoiceList | PreviewTts | RegenerateTts | RunJob | RestartScheduler | ValidateUrl | SourceTest | CleanupTempTts
  | ProviderRegistry | ServiceRegistry | OutputRegistry | OutputVerify string | OutputTest string
  | PublicSettings | AllSettings | EnvUpdate | SettingsUpdate | SettingsReset | CacheRefresh | FileUpload | FileRevalidate
  | FileDelete | TourState | Prayers | Logs

definition authRoutes :: "(string \<times> string \<times> middleware list \<times> endpoint) list" where
  "authRoutes =
     [(''GET'', ''/auth/status'', [], AuthStatus),
      (''POST'', ''/auth/setup'', [Limit SecurityLimiter], AuthSetup),
      (''POST'', ''/auth/change-password'', [Limit SecurityLimiter, Session], AuthChangePassword),
      (''POST'', ''/auth/login'', [Limit SecurityLimiter], AuthLogin),
      (''POST'', ''/auth/logout'', [], AuthLogout),
      (''GET'', ''/auth/check'', [Session], AuthCheck)]"

definition systemRoutes :: "(string \<times> string \<times> middleware list \<times> endpoint) list" where
  "systemRoutes =
     [(''GET'', ''/system/health'', [], SystemHealth),
      (''POST'', ''/system/health/toggle'', [Session], HealthToggle),
      (''POST'', ''/system/health/refresh'', [Limit OperationsLimiter, Session], HealthRefresh),
      (''GET'', ''/system/jobs'', [Session], Jobs),
      (''GET'', ''/system/audio-files'', [Session], AudioFiles),
      (''GET'', ''/system/constants'', [Session], Constants),
      (''GET'', ''/system/status/automation'', [Session], AutomationStatus),
      (''GET'', ''/system/status/tts'', [Session], TtsStatus),
      (''GET'', ''/system/storage'', [Session], StorageStatus),
      (''GET'', ''/system/voices'', [Session], VoiceList),
      (''POST'', ''/system/preview-tts'', [Limit OperationsLimiter, Session], PreviewTts),
      (''POST'', ''/system/regenerate-tts'', [Limit OperationsLimiter, Session], RegenerateTts),
      (''POST'', ''/system/run-job'', [Limit OperationsLimiter, Session], RunJob),
      (''POST'', ''/system/restart-scheduler'', [Limit OperationsLimiter, Session], RestartScheduler),
      (''POST'', ''/system/validate-url'', [Limit OperationsLimiter, Session], ValidateUrl),
      (''POST'', ''/system/source/test'', [Limit OperationsLimiter, Session], SourceTest),
      (''POST'', ''/system/cleanup-temp-tts'', [Limit OperationsLimiter, Session], CleanupTempTts),
      (''GET'', ''/system/providers'', [Session], ProviderRegistry),
      (''GET'', ''/system/services/registry'', [Session], ServiceRegistry),
      (''GET'', ''/system/outputs/registry'', [Session], OutputRegistry)]"

definition settingsRoutes :: "(string \<times> string \<times> middleware list \<times> endpoint) list" where
  "settingsRoutes =
     [(''GET'', ''/settings/public'', [], PublicSettings),
      (''GET'', ''/settings'', [Session], AllSettings),
      (''POST'', ''/settings/env'', [Session], EnvUpdate),
      (''POST'', ''/settings/update'', [Session], SettingsUpdate),
      (''POST'', ''/settings/reset'', [Session], SettingsReset),
      (''POST'', ''/settings/refresh-cache'', [Limit OperationsLimiter, Session], CacheRefresh),
      (''POST'', ''/settings/upload'', [Limit OperationsLimiter, Session, Quota, SingleFile], FileUpload),
      (''POST'', ''/settings/files/revalidate'', [Limit OperationsLimiter, Session], FileRevalidate),
      (''DELETE'', ''/settings/files'', [Session], FileDelete),
      (''PATCH'', ''/settings/tour-state'', [Session], TourState)]"

definition routes :: "(string \<times> string \<times> middleware list \<times> endpoint) list" where
  "routes =
     authRoutes @ systemRoutes @ settingsRoutes @
     [(''GET'', ''/prayers'', [], Prayers), (''GET'', ''/logs'', [Limit SseLimiter], Logs)]"

text \<open>The two routes with a parameter.\<close>

definition outputRoute :: "request \<Rightarrow> (middleware list \<times> endpoint) option" where
  "outputRoute q =
     (case split_on slash (rq_path q) of
        [start, area, kind, strategyId, action] \<Rightarrow>
          if rq_method q = ''POST'' \<and> start = [] \<and> area = ''system'' \<and> kind = ''outputs'' \<and> strategyId \<noteq> []
          then (if action = ''verify'' then Some ([Limit OperationsLimiter, Session], OutputVerify strategyId)
                else if action = ''test'' then Some ([Limit OperationsLimiter, Session], OutputTest strategyId)
                else None)
          else None
      | _ \<Rightarrow> None)"

definition findRoute :: "request \<Rightarrow> (middleware list \<times> endpoint) option" where
  "findRoute q =
     (case List.find (\<lambda>(m, p, _). m = rq_method q \<and> p = rq_path q) routes of
        Some (_, _, found) \<Rightarrow> Some found
      | None \<Rightarrow> outputRoute q)"

definition globalLimiters :: "request \<Rightarrow> middleware list" where
  "globalLimiters q =
     (if rq_method q = ''GET'' then (if rq_path q = ''/logs'' then [] else [Limit GlobalReadLimiter]) else [Limit GlobalWriteLimiter])"

section \<open>Handling a request\<close>

definition serviceRegistry :: json where
  "serviceRegistry =
     JArr [JObj [(''id'', JStr ''api''), (''label'', JStr ''API Server'')], JObj [(''id'', JStr ''tts''), (''label'', JStr ''TTS Service'')]]"

definition uploadedName :: "request \<Rightarrow> string option" where
  "uploadedName q = map_option (\<lambda>(originalname, _, _). uploadFilename originalname) (rq_upload q)"

fun handler :: "'dt routeEnv \<Rightarrow> request \<Rightarrow> endpoint \<Rightarrow> reply sv" where
  "handler X q AuthStatus = getsV (\<lambda>s. Inr (checkStatus (authOf s)))"
| "handler X q AuthSetup = onAuth (\<lambda>w. case setupAdmin (sx_auth (rt_server X)) (sx_now (rt_server X)) (rq_body q) w of (w', r) \<Rightarrow> (w', Inr r))"
| "handler X q AuthChangePassword = onAuth (\<lambda>w. case changePassword (sx_auth (rt_server X)) (rq_body q) w of (w', r) \<Rightarrow> (w', Inr r))"
| "handler X q AuthLogin = getsV (\<lambda>s. login (sx_auth (rt_server X)) (sx_now (rt_server X)) (rq_body q) (authOf s))"
| "handler X q AuthLogout = pureV (Inr logout)"
| "handler X q AuthCheck = pureV (Inr checkAuth)"
| "handler X q SystemHealth = getHealthV (rt_server X)"
| "handler X q HealthToggle = toggleHealthCheck (rt_server X) (rq_body q)"
| "handler X q HealthRefresh = refreshHealth (rt_server X) True (rq_body q)"
| "handler X q Jobs = getJobsV (rt_server X)"
| "handler X q AudioFiles = (\<lambda>s. onLibrary (getAudioFiles (sv_env (rt_server X) s) (rq_query q)) s)"
| "handler X q Constants = pureV (Inr (respondWith (rt_tables X ConstantsTable)))"
| "handler X q AutomationStatus = automationStatusV (rt_server X)"
| "handler X q TtsStatus = ttsStatusV (rt_server X)"
| "handler X q StorageStatus = getStorageStatus (rt_server X)"
| "handler X q VoiceList = voicesReply"
| "handler X q PreviewTts = previewV (rt_server X) (rq_body q)"
| "handler X q RegenerateTts = regenerateTTS (rt_server X)"
| "handler X q RunJob = runJobV (rt_server X) (rq_body q)"
| "handler X q RestartScheduler = restartScheduler (rt_server X)"
| "handler X q ValidateUrl = validateUrlV (rt_server X) (rq_body q)"
| "handler X q SourceTest = testSource (rt_server X) (rq_body q)"
| "handler X q CleanupTempTts = cleanupTempTTS (rt_server X)"
| "handler X q ProviderRegistry = pureV (Inr (respondWith (rt_tables X ProvidersTable)))"
| "handler X q ServiceRegistry = pureV (Inr (respondWith serviceRegistry))"
| "handler X q OutputRegistry = pureV (Inr (respondWith (rt_tables X OutputsTable)))"
| "handler X q (OutputVerify strategyId) = verifyOutput (rt_server X) strategyId (rq_body q)"
| "handler X q (OutputTest strategyId) = testOutput (rt_server X) strategyId (rq_body q)"
| "handler X q PublicSettings = getPublicSettings (rt_server X)"
| "handler X q AllSettings = getSettings (rt_server X)"
| "handler X q EnvUpdate = updateEnv (rt_server X) (rq_body q)"
| "handler X q SettingsUpdate = updateSettings (rt_server X) (rq_body q)"
| "handler X q SettingsReset = resetSettings (rt_server X)"
| "handler X q CacheRefresh = refreshCache (rt_server X)"
| "handler X q FileUpload = (\<lambda>s. onLibrary (uploadFile (sv_env (rt_server X) s) (uploadedName q)) s)"
| "handler X q FileRevalidate = (\<lambda>s. onLibrary (revalidateFile (sv_env (rt_server X) s) (rq_body q)) s)"
| "handler X q FileDelete =
     (\<lambda>s. onLibrary (deleteFile (sv_env (rt_server X) s)
        (path_join (av_cwd (sv_env (rt_server X) s)) ''src/public/audio'') (rq_body q)) s)"
| "handler X q TourState = updateTourState (rt_server X) (rq_body q)"
| "handler X q Prayers = getPrayers (rt_server X) (rq_query q)"
| "handler X q Logs = pureV (Inl (Error ''the stream is not a reply''))"

datatype outcome = Replied reply | Streaming | NotRouted

definition serveEndpoint :: "'dt routeEnv \<Rightarrow> request \<Rightarrow> endpoint \<Rightarrow> server \<Rightarrow> server \<times> outcome" where
  "serveEndpoint X q e s =
     (if e = Logs then (fst (onStream (addClient (sx_stamp (rt_server X)) (rq_response q)) s), Streaming)
      else case asyncHandler (handler X q e) s of (s', r) \<Rightarrow> (s', Replied r))"

text \<open>What is not a route of the API goes on to the pages of the client.\<close>

definition notRouted :: "'dt routeEnv \<Rightarrow> request \<Rightarrow> outcome" where
  "notRouted X q =
     (if rq_method q = ''GET'' \<and> rq_path q = ''/health''
      then Replied (respond 200 [(''status'', JStr ''ok''), (''timestamp'', sx_stamp (rt_server X)),
        (''message'', JStr ''Azan Dashboard Server is running'')])
      else NotRouted)"

definition apiRequest :: "'dt routeEnv \<Rightarrow> request \<Rightarrow> server \<Rightarrow> server \<times> outcome" where
  "apiRequest X q s =
     (case runMiddleware X q (globalLimiters q) s of
        (s', Some r) \<Rightarrow> (s', Replied r)
      | (s', None) \<Rightarrow>
          (case findRoute q of
             None \<Rightarrow> (s', notRouted X q)
           | Some (ms, e) \<Rightarrow>
               (case runMiddleware X q ms s' of
                  (s'', Some r) \<Rightarrow> (s'', Replied r)
                | (s'', None) \<Rightarrow> serveEndpoint X q e s'')))"

section \<open>Who may do what\<close>

text \<open>What only the administrator may change: the jobs, the audio files, the environment file, the voices, what the outputs did.\<close>

definition adminView ::
  "server \<Rightarrow> (job list \<times> job list \<times> nat) \<times> (path \<times> assetFile) list \<times> area list \<times> string option \<times> fileListCache \<times> voiceState \<times> outEvent list" where
  "adminView s = (jobsOf s, at_files (sv_assets s), at_dirs (sv_assets s), sv_file s, sv_list s, sv_voices s, sv_out s)"

definition publicEndpoints :: "endpoint list" where
  "publicEndpoints = [AuthStatus, AuthSetup, AuthLogin, AuthLogout, SystemHealth, PublicSettings, Prayers, Logs]"

definition hasSession :: "'dt routeEnv \<Rightarrow> request \<Rightarrow> server \<Rightarrow> bool" where
  "hasSession X q s \<longleftrightarrow>
     (\<exists>user. authenticateToken (sx_auth (rt_server X)) (sx_now (rt_server X)) (rq_token q) (authOf s) = Inr (NextUser user))"

definition limits :: "middleware list \<Rightarrow> bool" where
  "limits = list_all (\<lambda>m. case m of Limit _ \<Rightarrow> True | _ \<Rightarrow> False)"

text \<open>The rows of the tables: a session is asked for right after the limits, or the endpoint is public.\<close>

definition wellGuarded :: "middleware list \<times> endpoint \<Rightarrow> bool" where
  "wellGuarded found \<longleftrightarrow>
     (if Session \<in> set (fst found) then limits (takeWhile (\<lambda>m. m \<noteq> Session) (fst found))
      else limits (fst found) \<and> snd found \<in> set publicEndpoints)"

lemma routes_guarded: "list_all (\<lambda>(m, p, found). wellGuarded found) routes"
  by (simp add: routes_def authRoutes_def systemRoutes_def settingsRoutes_def wellGuarded_def limits_def publicEndpoints_def)

lemma find_mem: "List.find p xs = Some x \<Longrightarrow> x \<in> set xs"
  by (induction xs) (auto split: if_splits)

lemma findRoute_guarded:
  assumes "findRoute q = Some found"
  shows "wellGuarded found"
proof (cases "List.find (\<lambda>(m, p, _). m = rq_method q \<and> p = rq_path q) routes")
  case None
  then show ?thesis
    using assms by (auto simp: findRoute_def outputRoute_def wellGuarded_def limits_def split: list.splits if_splits)
next
  case (Some row)
  then have "snd (snd row) = found" using assms by (simp add: findRoute_def split: prod.splits)
  moreover have "row \<in> set routes" using Some by (rule find_mem)
  ultimately have "row \<in> set routes" "snd (snd row) = found" by simp_all
  moreover obtain m p g where "row = (m, p, g)" by (metis prod_cases3)
  ultimately show ?thesis using routes_guarded by (fastforce simp: list_all_iff)
qed

lemma authOf_stream [simp]: "authOf (fst (onStream f s)) = authOf s"
  by (simp add: onStream_def authOf_def)

lemma adminView_stream [simp]: "adminView (fst (onStream f s)) = adminView s"
  by (simp add: onStream_def adminView_def jobsOf_def)

lemma cfg_stream [simp]: "sv_cfg (fst (onStream f s)) = sv_cfg s"
  by (simp add: onStream_def)

lemma refused_status: "authenticateToken A now tok w = Inr (Refuse r) \<Longrightarrow> rp_status r \<in> {401, 403, 500}"
  by (auto simp: authenticateToken_def bindR_Inr failWith_def respond_def split: option.splits if_splits)

lemma session_step:
  assumes "middlewareStep X q Session s = (s', x)"
  shows "s' = s \<and> (x = None \<longleftrightarrow> hasSession X q s) \<and> (\<forall>r. x = Some r \<longrightarrow> rp_status r \<in> {401, 403, 500})"
  using assms by (auto simp: hasSession_def split: sum.splits authResult.splits dest: refused_status)

lemma limit_step:
  assumes "middlewareStep X q (Limit l) s = (s', x)"
  shows "adminView s' = adminView s \<and> sv_cfg s' = sv_cfg s \<and> authOf s' = authOf s \<and> (\<forall>r. x = Some r \<longrightarrow> rp_status r = 429)"
  using assms by (auto simp: limitHandler_def Let_def split: option.splits)

lemma limits_run:
  assumes "limits ms" "runMiddleware X q ms s = (s', x)"
  shows "adminView s' = adminView s \<and> sv_cfg s' = sv_cfg s \<and> authOf s' = authOf s \<and> (\<forall>r. x = Some r \<longrightarrow> rp_status r = 429)"
  using assms
proof (induction ms arbitrary: s)
  case (Cons m ms)
  then obtain l where m: "m = Limit l" by (auto simp: limits_def split: middleware.splits)
  obtain s1 y where y: "middlewareStep X q m s = (s1, y)" by fastforce
  have "limits ms" using Cons.prems(1) by (simp add: limits_def)
  then show ?case
    using limit_step [OF y [unfolded m]] Cons.IH [of s1] Cons.prems(2) y by (cases y) auto
qed simp

lemma runMiddleware_append:
  "runMiddleware X q (as @ bs) s =
     (case runMiddleware X q as s of (s', Some r) \<Rightarrow> (s', Some r) | (s', None) \<Rightarrow> runMiddleware X q bs s')"
  by (induction as arbitrary: s) (auto split: prod.split option.split)

lemma guarded_run:
  assumes "Session \<in> set ms" "limits (takeWhile (\<lambda>m. m \<noteq> Session) ms)" "\<not> hasSession X q s"
    and "runMiddleware X q ms s = (s', x)"
  shows "adminView s' = adminView s \<and> sv_cfg s' = sv_cfg s \<and> (\<exists>r. x = Some r \<and> rp_status r \<in> {401, 403, 429, 500})"
proof -
  let ?before = "takeWhile (\<lambda>m. m \<noteq> Session) ms"
  obtain rest where ms: "ms = ?before @ Session # rest"
    using assms(1) by (metis (mono_tags, lifting) dropWhile_eq_Cons_conv takeWhile_dropWhile_id dropWhile_eq_Nil_conv neq_Nil_conv)
  obtain s1 y where y: "runMiddleware X q ?before s = (s1, y)" by fastforce
  note l = limits_run [OF assms(2) y]
  show ?thesis
  proof (cases y)
    case (Some r)
    then have "s' = s1" "x = Some r" using assms(4) y ms runMiddleware_append [of X q ?before "Session # rest" s] by auto
    then show ?thesis using l Some by auto
  next
    case None
    obtain s2 z where z: "middlewareStep X q Session s1 = (s2, z)" by fastforce
    have "\<not> hasSession X q s1" using assms(3) l by (simp add: hasSession_def)
    then obtain r where r: "z = Some r" "s2 = s1" "rp_status r \<in> {401, 403, 500}" using session_step [OF z] by (cases z) auto
    then have "s' = s1" "x = Some r"
      using assms(4) y ms z None runMiddleware_append [of X q ?before "Session # rest" s] by auto
    then show ?thesis using l r(3) by auto
  qed
qed

text \<open>The endpoints without a session.\<close>

lemma view_steps [leave]:
  "leaves adminView (onConfig m)" "leaves adminView (onTimes X t)" "leaves adminView (onHealth X h)"
  by (auto simp: leaves_def adminView_def jobsOf_def onConfig_def withConfig_def onTimes_def onSched_def onHealth_def onAssets_def
      split: prod.split)

lemma cfg_health: "leaves (\<lambda>s. sv_cfg s) (onHealth X h)"
  by (auto simp: leaves_def onHealth_def onAssets_def split: prod.split)

lemma getPrayers_leaves: "leaves adminView (getPrayers X query)" "leaves (\<lambda>s. sv_cfg s) (getPrayers X query)"
  unfolding getPrayers_def Let_def by (auto split: option.split intro!: leave)

lemma getHealthV_leaves: "leaves adminView (getHealthV X)" "leaves (\<lambda>s. sv_cfg s) (getHealthV X)"
  unfolding getHealthV_def by (intro leave cfg_health)+

lemma asyncHandler_fst: "fst (asyncHandler m s) = fst (m s)"
  by (auto simp: asyncHandler_def split: prod.split sum.split)

lemma publicSettings_effect:
  "adminView (fst (getPublicSettings X s)) = adminView s \<and>
   sv_cfg (fst (getPublicSettings X s)) = fst (reload (fe_schemas (sx_flow X)) (fe_fault (sx_flow X)) (sv_cfg s))"
proof
  have "leaves adminView (getPublicSettings X)" unfolding getPublicSettings_def reloadV_def by (intro leave)
  then show "adminView (fst (getPublicSettings X s)) = adminView s" by (simp add: leaves_def)
  show "sv_cfg (fst (getPublicSettings X s)) = fst (reload (fe_schemas (sx_flow X)) (fe_fault (sx_flow X)) (sv_cfg s))"
    by (simp add: getPublicSettings_def bindV_def reloadV_def onConfig_def withConfig_def getV_def getsV_def pureV_def
        split: prod.split sum.split)
qed

lemma setup_configured:
  assumes "processEnv (authOf s) ''ADMIN_PASSWORD'' \<noteq> None"
  shows "adminView (fst (handler X q AuthSetup s)) = adminView s \<and> sv_cfg (fst (handler X q AuthSetup s)) = sv_cfg s"
proof -
  have "setupAdmin A now body (authOf s) = (authOf s, failWith 403 ''System already configured. Login to change settings.'')" for A now body
    using assms by (simp add: setupAdmin_def)
  then show ?thesis
    by (simp add: onAuth_def) (simp add: authOf_def adminView_def jobsOf_def withConfig_def)
qed

lemma public_effect:
  assumes "e \<in> set publicEndpoints" "processEnv (authOf s) ''ADMIN_PASSWORD'' \<noteq> None" "serveEndpoint X q e s = (s', out)"
  shows "adminView s' = adminView s \<and>
    sv_cfg s' \<in> {sv_cfg s, fst (reload (fe_schemas (sx_flow (rt_server X))) (fe_fault (sx_flow (rt_server X))) (sv_cfg s))}"
proof (cases "e = Logs")
  case True
  then show ?thesis using assms(3) by (auto simp: serveEndpoint_def)
next
  case False
  have s': "s' = fst (handler X q e s)"
    using assms(3) False asyncHandler_fst [of "handler X q e" s] by (auto simp: serveEndpoint_def split: prod.splits)
  have g: "getsV h s = (s, h s)" and p: "pureV r s = (s, r)" for h :: "server \<Rightarrow> reply res" and r :: "reply res"
    by (simp_all add: getsV_def pureV_def)
  consider "e = AuthStatus" | "e = AuthSetup" | "e = AuthLogin" | "e = AuthLogout" | "e = SystemHealth" | "e = PublicSettings" | "e = Prayers"
    using assms(1) False by (auto simp: publicEndpoints_def)
  then show ?thesis
  proof cases
    case 2
    then show ?thesis unfolding s' using setup_configured [OF assms(2), of X q] by (simp del: handler.simps)
  next
    case 5
    then show ?thesis using getHealthV_leaves [of "rt_server X"] s' by (simp add: leaves_def)
  next
    case 6
    then show ?thesis using publicSettings_effect [of "rt_server X" s] s' by simp
  next
    case 7
    then show ?thesis using getPrayers_leaves [of "rt_server X" "rq_query q"] s' by (simp add: leaves_def)
  qed (use s' g p in simp_all)
qed


definition openRoutes :: "utc routeEnv" where
  "openRoutes = \<lparr>rt_server = rejectingEnv, rt_blocked = (\<lambda>_ _. None), rt_tables = (\<lambda>_. JArr [])\<rparr>"

definition guardedServer :: server where
  "guardedServer = serverOf
     \<lparr>fl_cfg = sampleWorld\<lparr>cw_env := sampleEnv\<lparr>ce_env := (ce_env sampleEnv)(''ADMIN_PASSWORD'' \<mapsto> ''secret'')\<rparr>\<rparr>,
      fl_sched = freshSched versionOne, fl_sse = sseInit, fl_assets = oldAssets JNull\<rparr>"

definition deleteRequest :: request where
  "deleteRequest =
     \<lparr>rq_method = ''DELETE'', rq_path = ''/settings/files'', rq_query = JObj [], rq_body = JObj [(''filename'', JStr ''azan.mp3'')],
      rq_token = None, rq_ip = ''10.0.0.1'', rq_url = ''/api/settings/files'', rq_length = None, rq_upload = None, rq_response = 0\<rparr>"


end
