(* ===== verification/Asset_Metadata.thy ===== *)
theory Asset_Metadata
  imports Audio_Assets
begin

text \<open>
  The sidecars of files that are already there: \<open>generateMetadataForExistingFiles\<close> of
  \<open>audioAssetService.js\<close>, which creates the missing ones, and \<open>assetMigrationService.js\<close>, which adds the verdicts of
  output strategies that were registered later. The migration works in batches of 50 whose files
  do not share a sidecar.
\<close>

section \<open>Missing sidecars\<close>

definition legacyName :: "string \<Rightarrow> string" where
  "legacyName file = file @ ''.json''"

definition redundantName :: "string \<Rightarrow> string" where
  "redundantName file = file @ ''.meta.json''"

definition existingData :: "'dt assetEnv \<Rightarrow> area \<Rightarrow> string \<Rightarrow> json io" where
  "existingData E audio file =
     catchA (bindA (access E (audio, legacyName file)) (\<lambda>_. readJson E (audio, legacyName file))) (\<lambda>_.
     catchA (bindA (access E (audio, redundantName file)) (\<lambda>_. readJson E (audio, redundantName file))) (\<lambda>_.
     pureA (Inr (JObj []))))"

text \<open>The adhan of the program is protected; a property of null cannot be set.\<close>

definition protect :: "string \<Rightarrow> json \<Rightarrow> json res" where
  "protect file data =
     (if file \<noteq> ''azan.mp3'' then Inr data
      else if data = JNull then Inl (TypeError ''Cannot set properties of null'')
      else Inr (if typeof_object data then jput data ''protected'' (JBool True) else data))"

definition createSidecar :: "'dt assetEnv \<Rightarrow> area \<Rightarrow> area \<Rightarrow> string \<Rightarrow> unit io" where
  "createSidecar E audio meta file =
     bindA (analyseAudioFile E (audio, file)) (\<lambda>basicMetadata.
     bindA (existingData E audio file) (\<lambda>existing.
     bindA (pureA (protect file existing)) (\<lambda>existing.
     bindA (writeJson E (meta, sidecarName file) (spreadMerge existing (enrichMetadata E basicMetadata))) (\<lambda>_.
     bindA (ignoreErrors (unlink E (audio, legacyName file))) (\<lambda>_.
     ignoreErrors (unlink E (audio, redundantName file)))))))"

definition metadataFor :: "'dt assetEnv \<Rightarrow> area \<Rightarrow> area \<Rightarrow> string \<Rightarrow> unit io" where
  "metadataFor E audio meta file =
     catchA (access E (meta, sidecarName file)) (\<lambda>_. ignoreErrors (createSidecar E audio meta file))"

definition metadataForDir :: "'dt assetEnv \<Rightarrow> area \<times> area \<Rightarrow> unit io" where
  "metadataForDir E dirSet =
     bindA (catchA (bindA (accessDir E (fst dirSet)) (\<lambda>_. pureA (Inr True))) (\<lambda>_. pureA (Inr False))) (\<lambda>there.
     if \<not> there then pureA (Inr ())
     else bindA (readdir E (fst dirSet)) (\<lambda>files.
       eachA (metadataFor E (fst dirSet) (snd dirSet)) (filter isAudioName files)))"

definition directories :: "(area \<times> area) list" where
  "directories = [(AudioCustom, MetaCustom), (AudioCache, MetaCache)]"

definition generateMetadataForExistingFiles :: "'dt assetEnv \<Rightarrow> unit io" where
  "generateMetadataForExistingFiles E =
     bindA (ensureDirs E) (\<lambda>_. eachA (metadataForDir E) directories)"

section \<open>Migration of sidecars\<close>

text \<open>One strategy of the loop over the registered ones: the metadata, its compatibility block and whether to write.\<close>

definition addVerdict :: "'dt assetEnv \<Rightarrow> path \<Rightarrow> strategy \<Rightarrow> json \<times> json \<times> bool \<Rightarrow> (json \<times> json \<times> bool) io" where
  "addVerdict E p s = (\<lambda>(metadata, compatibility, needsUpdate).
     let i = om_id (strategyMeta s) in
     if truthy (jget compatibility i) then pureA (Inr (metadata, compatibility, needsUpdate))
     else bindA (if \<not> truthy (jget metadata ''format'') \<or> \<not> truthy (jget metadata ''bitrate'')
                 then bindA (analyseAudioFile E p) (\<lambda>analysed. pureA (Inr (if is_object metadata then spreadMerge metadata analysed else metadata)))
                 else pureA (Inr metadata)) (\<lambda>metadata.
          bindA (pureA (setProp compatibility i (validateAsset s (av_stamp E) metadata))) (\<lambda>compatibility.
          pureA (Inr (metadata, compatibility, True)))))"

fun foldA :: "('x \<Rightarrow> 's \<Rightarrow> 's io) \<Rightarrow> 'x list \<Rightarrow> 's \<Rightarrow> 's io" where
  "foldA f [] s = pureA (Inr s)"
| "foldA f (x # xs) s = bindA (f x s) (foldA f xs)"

definition addVerdicts :: "'dt assetEnv \<Rightarrow> path \<Rightarrow> json \<Rightarrow> (json \<times> json \<times> bool) io" where
  "addVerdicts E p metadata =
     bindA (pureA (getProp metadata ''compatibility'')) (\<lambda>c.
     foldA (addVerdict E p) (strategyInstances (he_outputs (av_health E))) (metadata, orElse c (JObj []), False))"

text \<open>A missing or corrupted sidecar, and every error, leave the file as it is.\<close>

definition migrateFile :: "'dt assetEnv \<Rightarrow> area \<times> area \<Rightarrow> string \<Rightarrow> bool io" where
  "migrateFile E dirSet file =
     catchA
       (bindA (access E (snd dirSet, sidecarName file)) (\<lambda>_.
        bindA (readJson E (snd dirSet, sidecarName file)) (\<lambda>metadata.
        bindA (addVerdicts E (fst dirSet, file) metadata) (\<lambda>(metadata, compatibility, needsUpdate).
        if needsUpdate
        then bindA (pureA (setProp metadata ''compatibility'' compatibility)) (\<lambda>metadata.
             bindA (writeJson E (snd dirSet, sidecarName file) (jput metadata ''updatedAt'' (av_stamp E))) (\<lambda>_. pureA (Inr True)))
        else pureA (Inr False)))))
       (\<lambda>_. pureA (Inr False))"

fun migrateEach :: "'dt assetEnv \<Rightarrow> area \<times> area \<Rightarrow> string list \<Rightarrow> nat io" where
  "migrateEach E dirSet [] = pureA (Inr 0)"
| "migrateEach E dirSet (file # files) =
     bindA (migrateFile E dirSet file) (\<lambda>r. bindA (migrateEach E dirSet files) (\<lambda>n. pureA (Inr (n + (if r then 1 else 0)))))"

definition BATCH_SIZE :: nat where
  "BATCH_SIZE = 50"

text \<open>The counts are of files processed and files updated.\<close>

function migrateBatches :: "'dt assetEnv \<Rightarrow> area \<times> area \<Rightarrow> string list \<Rightarrow> nat \<times> nat \<Rightarrow> (nat \<times> nat) io" where
  "migrateBatches E dirSet files counts =
     (if files = [] then pureA (Inr counts)
      else let batch = take BATCH_SIZE files in
           bindA (migrateEach E dirSet batch) (\<lambda>updated.
           migrateBatches E dirSet (drop BATCH_SIZE files) (fst counts + length batch, snd counts + updated)))"
  by pat_completeness auto
termination by (relation "measure (\<lambda>(E, d, files, c). length files)") (auto simp: BATCH_SIZE_def)

declare migrateBatches.simps [simp del]

definition migrateDir :: "'dt assetEnv \<Rightarrow> area \<times> area \<Rightarrow> nat \<times> nat \<Rightarrow> (nat \<times> nat) io" where
  "migrateDir E dirSet counts =
     bindA (catchA (bindA (accessDir E (fst dirSet)) (\<lambda>_. pureA (Inr True))) (\<lambda>_. pureA (Inr False))) (\<lambda>there.
     if \<not> there then pureA (Inr counts)
     else bindA (readdir E (fst dirSet)) (\<lambda>files. migrateBatches E dirSet (filter isAudioName files) counts))"

definition migrateAll :: "'dt assetEnv \<Rightarrow> (nat \<times> nat) io" where
  "migrateAll E = catchA (foldA (migrateDir E) directories (0, 0)) (\<lambda>_. pureA (Inr (0, 0)))"

section \<open>Batches\<close>

lemma bindA_assoc: "bindA (bindA m f) g = bindA m (\<lambda>x. bindA (f x) g)"
  by (auto simp: bindA_def fun_eq_iff split: prod.split sum.split)

lemma bindA_pure [simp]: "bindA (pureA (Inr x)) f = f x" "bindA m (\<lambda>x. pureA (Inr x)) = m"
  by (auto simp: bindA_def pureA_def fun_eq_iff split: prod.split sum.split)

lemma migrateEach_append:
  "migrateEach E d (xs @ ys) = bindA (migrateEach E d xs) (\<lambda>n. bindA (migrateEach E d ys) (\<lambda>m. pureA (Inr (n + m))))"
  by (induction xs) (simp_all add: bindA_assoc ac_simps)

lemma migrateBatches_each:
  "migrateBatches E d files counts =
     bindA (migrateEach E d files) (\<lambda>n. pureA (Inr (fst counts + length files, snd counts + n)))"
proof (induction E d files counts rule: migrateBatches.induct)
  case (1 E d files counts)
  show ?case
  proof (cases "files = []")
    case True
    then show ?thesis by (simp add: migrateBatches.simps)
  next
    case False
    have "migrateEach E d files = bindA (migrateEach E d (take BATCH_SIZE files)) (\<lambda>n.
        bindA (migrateEach E d (drop BATCH_SIZE files)) (\<lambda>m. pureA (Inr (n + m))))"
      using migrateEach_append [of E d "take BATCH_SIZE files" "drop BATCH_SIZE files"] by simp
    moreover have "min (length files) BATCH_SIZE + (length files - BATCH_SIZE) = length files" by (simp add: min_def)
    ultimately show ?thesis using False 1 [OF False refl]
      by (subst migrateBatches.simps) (simp add: bindA_assoc Let_def add.assoc)
  qed
qed

section \<open>What an effect reads\<close>

definition agree :: "path set \<Rightarrow> assets \<Rightarrow> assets \<Rightarrow> bool" where
  "agree S v w \<longleftrightarrow> at_dirs v = at_dirs w \<and> (\<forall>p \<in> S. fileOf v p = fileOf w p)"

definition reads :: "path set \<Rightarrow> 'a io \<Rightarrow> bool" where
  "reads S m \<longleftrightarrow> (\<forall>v w. agree S v w \<longrightarrow> snd (m v) = snd (m w) \<and> agree S (fst (m v)) (fst (m w)))"

named_theorems local_reads \<open>the files an effect depends on\<close>

lemma readsD: "reads S m \<Longrightarrow> agree S v w \<Longrightarrow> snd (m v) = snd (m w) \<and> agree S (fst (m v)) (fst (m w))"
  unfolding reads_def by blast

lemma reads_pure [local_reads]: "reads S (pureA r)"
  by (simp add: reads_def pureA_def)

lemma reads_bind [local_reads]:
  assumes "reads S m" "\<And>x. reads S (f x)"
  shows "reads S (bindA m f)"
  unfolding reads_def
proof (intro allI impI)
  fix v w assume "agree S v w"
  note m = readsD [OF assms(1) this]
  show "snd (bindA m f v) = snd (bindA m f w) \<and> agree S (fst (bindA m f v)) (fst (bindA m f w))"
    using m readsD [OF assms(2)] by (cases "m v"; cases "m w") (auto simp: bindA_def split: sum.split)
qed

lemma reads_catch [local_reads]:
  assumes "reads S m" "\<And>e. reads S (h e)"
  shows "reads S (catchA m h)"
  unfolding reads_def
proof (intro allI impI)
  fix v w assume "agree S v w"
  note m = readsD [OF assms(1) this]
  show "snd (catchA m h v) = snd (catchA m h w) \<and> agree S (fst (catchA m h v)) (fst (catchA m h w))"
    using m readsD [OF assms(2)] by (cases "m v"; cases "m w") (auto simp: catchA_def split: sum.split)
qed

lemma reads_if [local_reads]: "(b \<Longrightarrow> reads S m) \<Longrightarrow> (\<not> b \<Longrightarrow> reads S n) \<Longrightarrow> reads S (if b then m else n)"
  by simp

lemma reads_prod [local_reads]: "(\<And>a b. reads S (f a b)) \<Longrightarrow> reads S (case x of (a, b) \<Rightarrow> f a b)"
  by (cases x) simp

lemma reads_fold [local_reads]: "(\<And>x s. reads S (f x s)) \<Longrightarrow> reads S (foldA f xs s)"
  by (induction xs arbitrary: s) (auto intro!: local_reads)

lemma reads_calls [local_reads]:
  assumes "p \<in> S"
  shows "reads S (access E p)" "reads S (readJson E p)" "reads S (stat E p)" "reads S (writeJson E p v)"
  using assms
  by (auto simp: reads_def agree_def access_def readJson_def stat_def writeJson_def withFile_def guarded_def pureA_def
      split: option.split)

lemma reads_analyse [local_reads]: "p \<in> S \<Longrightarrow> reads S (analyseAudioFile E p)"
  unfolding analyseAudioFile_def
  by (intro local_reads) (auto simp: reads_def agree_def getsA_def split: option.split)

section \<open>A second migration\<close>

abbreviation migrateFiles :: "area \<times> area \<Rightarrow> string \<Rightarrow> path set" where
  "migrateFiles d f \<equiv> {(fst d, f), (snd d, sidecarName f)}"

lemma reads_migrateFile: "reads (migrateFiles d f) (migrateFile E d f)"
  unfolding migrateFile_def addVerdicts_def addVerdict_def Let_def by (intro local_reads) simp_all

text \<open>What the loop over the strategies establishes.\<close>

definition verdictsFor :: "strategy list \<Rightarrow> json \<Rightarrow> bool" where
  "verdictsFor ss compatibility \<longleftrightarrow> (\<forall>s \<in> set ss. truthy (jget compatibility (om_id (strategyMeta s))))"

lemma truthy_validateAsset [simp]: "truthy (validateAsset s t m)"
  by (cases s) (simp_all add: Let_def)

lemma truthy_jget_jput: "is_object c \<Longrightarrow> truthy v \<Longrightarrow> truthy (jget c k) \<or> k = i \<Longrightarrow> truthy (jget (jput c i v) k)"
  by (auto simp: jget_jput)

lemma setProp_object: "setProp x k v = Inr y \<Longrightarrow> typeof_object x \<and> y = jput x k v"
  by (auto simp: setProp_def split: if_splits)

lemma reads_nothing: "analyseAudioFile E p w = (w', r) \<Longrightarrow> w' = w"
  by (auto simp: analyseAudioFile_def bindA_def getsA_def pureA_def stat_def withFile_def split: sum.splits option.splits prod.splits)

lemma typeof_object_jput [simp]: "typeof_object (jput x k v) = typeof_object x"
  by (cases x) (auto split: option.split)

lemma addVerdict_result:
  assumes "addVerdict E p s (m, c, b) w = (w', Inr (m', c', b'))"
  shows "w' = w" "b \<Longrightarrow> b'" "\<not> b' \<Longrightarrow> m' = m \<and> c' = c" "is_object c \<Longrightarrow> is_object c'" "is_object m \<Longrightarrow> is_object m'"
    "is_object c \<Longrightarrow> truthy (jget c' (om_id (strategyMeta s)))"
    "is_object c \<Longrightarrow> truthy (jget c k) \<Longrightarrow> truthy (jget c' k)"
    "typeof_object c' = typeof_object c" "b' \<Longrightarrow> b \<or> typeof_object c" "\<not> is_object m \<Longrightarrow> m' = m"
  using assms
  by (auto simp: addVerdict_def Let_def bindA_Inr pureA_def truthy_jget_jput split: if_splits dest!: setProp_object dest: reads_nothing)

lemma addVerdict_skip: "truthy (jget c (om_id (strategyMeta s))) \<Longrightarrow> addVerdict E p s (m, c, b) w = (w, Inr (m, c, b))"
  by (simp add: addVerdict_def Let_def pureA_def)

lemma verdicts_fold:
  assumes "foldA (addVerdict E p) ss (m, c, b) w = (w', Inr (m', c', b'))"
  shows "w' = w \<and> (b \<longrightarrow> b') \<and> (is_object c \<longrightarrow> is_object c' \<and> verdictsFor ss c' \<and> (\<forall>k. truthy (jget c k) \<longrightarrow> truthy (jget c' k)))
    \<and> (if is_object m then is_object m' else m' = m) \<and> (b' \<longrightarrow> b \<or> typeof_object c)"
  using assms
proof (induction ss arbitrary: m c b w)
  case (Cons s ss)
  obtain w1 m1 c1 b1 where s: "addVerdict E p s (m, c, b) w = (w1, Inr (m1, c1, b1))"
    "foldA (addVerdict E p) ss (m1, c1, b1) w1 = (w', Inr (m', c', b'))"
    using Cons.prems by (auto simp: bindA_Inr)
  note one = addVerdict_result [OF s(1)] and ih = Cons.IH [OF s(2)]
  show ?case
  proof (intro conjI impI)
    show "w' = w" "b \<Longrightarrow> b'" using one(1,2) ih by auto
    assume c: "is_object c"
    then show "is_object c'" "\<forall>k. truthy (jget c k) \<longrightarrow> truthy (jget c' k)" "verdictsFor (s # ss) c'"
      using one(4,6,7) ih by (auto simp: verdictsFor_def)
  next
    show "if is_object m then is_object m' else m' = m" using one(5,10) ih by (auto split: if_splits)
    show "b \<or> typeof_object c" if b' using that one(8,9) ih by auto
  qed
qed (simp add: pureA_def verdictsFor_def)

lemma verdicts_skip: "verdictsFor ss c \<Longrightarrow> foldA (addVerdict E p) ss (m, c, b) w = (w, Inr (m, c, b))"
  by (induction ss) (simp_all add: pureA_def verdictsFor_def bindA_def addVerdict_skip)

text \<open>A sidecar and its block of verdicts are not arrays; a file of the program never is.\<close>

definition plainSidecar :: "json \<Rightarrow> bool" where
  "plainSidecar v \<longleftrightarrow> (\<forall>xs. v \<noteq> JArr xs) \<and> (\<forall>xs. jget v ''compatibility'' \<noteq> JArr xs)"

definition plainSidecars :: "assets \<Rightarrow> bool" where
  "plainSidecars w \<longleftrightarrow> (\<forall>p f v. fileOf w p = Some f \<and> af_json f = Some v \<longrightarrow> plainSidecar v)"

lemma typeof_object_plain: "typeof_object v \<Longrightarrow> \<forall>xs. v \<noteq> JArr xs \<Longrightarrow> is_object v"
  by (cases v) auto

lemma migrateFile_total: "\<exists>b. snd (migrateFile E d f w) = Inr b"
  by (auto simp: migrateFile_def catchA_def pureA_def split: prod.split sum.split)

lemma migrateFile_True:
  assumes "migrateFile E d f w = (w', Inr True)" "plainSidecars w"
  obtains g v where "w' = putFile (snd d, sidecarName f) g w" "af_json g = Some v" "is_object v"
    "is_object (jget v ''compatibility'')" "verdictsFor (strategyInstances (he_outputs (av_health E))) (jget v ''compatibility'')"
    "fileOf w (snd d, sidecarName f) \<noteq> None" "av_fault E Access (snd d, sidecarName f) = None"
    "av_fault E ReadFile (snd d, sidecarName f) = None"
proof -
  let ?p = "(snd d, sidecarName f)" and ?ss = "strategyInstances (he_outputs (av_health E))"
  obtain wa wb wc m0 m1 c1 m2 where run: "access E ?p w = (wa, Inr ())" "readJson E ?p wa = (wb, Inr m0)"
    "addVerdicts E (fst d, f) m0 wb = (wc, Inr (m1, c1, True))" "setProp m1 ''compatibility'' c1 = Inr m2"
    "writeJson E ?p (jput m2 ''updatedAt'' (av_stamp E)) wc = (w', Inr ())"
    using assms(1) by (auto simp: migrateFile_def catchA_Inr bindA_Inr pureA_def split: if_splits prod.splits)
  have acc: "wa = w" "av_fault E Access ?p = None" "fileOf w ?p \<noteq> None"
    using run(1) by (auto simp: access_def withFile_def pureA_def split: option.splits)
  obtain g0 where rd: "wb = w" "av_fault E ReadFile ?p = None" "fileOf w ?p = Some g0" "af_json g0 = Some m0"
    using run(2) acc(1) by (auto simp: readJson_def withFile_def pureA_def split: option.splits)
  have plain: "plainSidecar m0" using assms(2) rd(3,4) unfolding plainSidecars_def by blast
  let ?c0 = "orElse (jget m0 ''compatibility'') (JObj [])"
  have vf: "foldA (addVerdict E (fst d, f)) ?ss (m0, ?c0, False) w = (wc, Inr (m1, c1, True))"
    using run(3) rd(1) by (auto simp: addVerdicts_def bindA_Inr pureA_def getProp_def split: if_splits)
  note fin = verdicts_fold [OF vf]
  have "is_object ?c0"
    using fin plain by (cases "truthy (jget m0 ''compatibility'')") (auto simp: plainSidecar_def orElse_def intro: typeof_object_plain)
  then have c1: "is_object c1" "verdictsFor ?ss c1" using fin by auto
  have m2: "typeof_object m1" "m2 = jput m1 ''compatibility'' c1" using setProp_object [OF run(4)] by auto
  then have m1: "is_object m1" using fin plain by (auto simp: plainSidecar_def intro: typeof_object_plain split: if_splits)
  define v where "v = json_copy (jput m2 ''updatedAt'' (av_stamp E))"
  obtain g where g: "w' = putFile ?p g w" "af_json g = Some v"
    using run(5) fin by (auto simp: writeJson_def guarded_def v_def split: option.splits if_splits)
  have v: "is_object v" "jget v ''compatibility'' = json_copy c1"
    using m1 m2(2) c1(1) by (cases "c1 = JUndef"; auto simp: v_def jget_json_copy_defined)+
  moreover have "verdictsFor ?ss (json_copy c1)"
    using c1 by (auto simp: verdictsFor_def) (metis jget_json_copy_defined truthy.simps truthy_json_copy)
  ultimately show thesis using g c1(1) acc(2,3) rd(2) by (intro that [of g v]) simp_all
qed

text \<open>Effects that only read.\<close>

definition quiet :: "'a io \<Rightarrow> bool" where
  "quiet m \<longleftrightarrow> (\<forall>w. fst (m w) = w)"

lemma quiet_pure: "quiet (pureA r)"
  by (simp add: quiet_def pureA_def)

lemma quiet_bind: "quiet m \<Longrightarrow> (\<And>x. quiet (f x)) \<Longrightarrow> quiet (bindA m f)"
  by (auto simp: quiet_def bindA_def split: prod.split sum.split) (metis fst_conv)+

lemma quiet_if: "quiet m \<Longrightarrow> quiet n \<Longrightarrow> quiet (if b then m else n)"
  by simp

lemma quiet_calls: "quiet (access E p)" "quiet (readJson E p)" "quiet (analyseAudioFile E p)"
  by (auto simp: quiet_def access_def readJson_def withFile_def pureA_def split: option.split)
     (metis prod.collapse reads_nothing)

lemma quiet_addVerdict: "quiet (addVerdict E p s st)"
  unfolding addVerdict_def Let_def
  by (cases st) (auto intro!: quiet_bind quiet_if quiet_pure quiet_calls)

lemma quiet_addVerdicts: "quiet (addVerdicts E p m)"
proof -
  have "quiet (foldA (addVerdict E p) ss st)" for ss st
    by (induction ss arbitrary: st) (auto intro!: quiet_bind quiet_pure quiet_addVerdict)
  then show ?thesis unfolding addVerdicts_def by (intro quiet_bind quiet_pure)
qed

lemma quietD: "quiet m \<Longrightarrow> m w = (w', r) \<Longrightarrow> w' = w"
  unfolding quiet_def by (metis fst_conv)

lemma writeJson_error: "writeJson E p v w = (w', Inl e) \<Longrightarrow> w' = w"
  by (auto simp: writeJson_def guarded_def split: option.splits if_splits)

lemma migrateFile_False: "migrateFile E d f w = (w', Inr False) \<Longrightarrow> w' = w"
  unfolding migrateFile_def
  by (auto simp: catchA_def bindA_def pureA_def split: prod.splits sum.splits if_splits
      dest!: quietD [OF quiet_calls(1)] quietD [OF quiet_calls(2)] quietD [OF quiet_addVerdicts] writeJson_error)

definition sameNames :: "assets \<Rightarrow> assets \<Rightarrow> bool" where
  "sameNames w w' \<longleftrightarrow> at_dirs w' = at_dirs w \<and> map fst (at_files w') = map fst (at_files w)"

lemma map_fst_update: "k \<in> fst ` set al \<Longrightarrow> map fst (AList.update k v al) = map fst al"
  by (induction al) auto

lemma sameNames_namesIn: "sameNames w w' \<Longrightarrow> namesIn w' d = namesIn w d"
proof -
  have "map (\<lambda>e. snd (fst e)) (filter (\<lambda>e. fst (fst e) = d) al) = map snd (filter (\<lambda>p. fst p = d) (map fst al))"
    for al :: "(path \<times> assetFile) list" by (induction al) auto
  then show "sameNames w w' \<Longrightarrow> namesIn w' d = namesIn w d" by (simp add: namesIn_def sameNames_def)
qed

text \<open>A file for which the migration has nothing to do.\<close>

definition migrated :: "'dt assetEnv \<Rightarrow> area \<times> area \<Rightarrow> string \<Rightarrow> assets \<Rightarrow> bool" where
  "migrated E d f w \<longleftrightarrow> migrateFile E d f w = (w, Inr False)"

lemma migrated_local:
  assumes "migrated E d f v" "agree (migrateFiles d f) v w"
  shows "migrated E d f w"
proof -
  have "snd (migrateFile E d f w) = Inr False"
    using readsD [OF reads_migrateFile [of d f E] assms(2)] assms(1) by (simp add: migrated_def)
  then show ?thesis using migrateFile_False by (metis migrated_def prod.collapse)
qed

lemma migrateFile_step:
  assumes "migrateFile E d f w = (w', Inr b)" "plainSidecars w"
  shows "plainSidecars w'" "sameNames w w'" "migrated E d f w'" "p \<noteq> (snd d, sidecarName f) \<Longrightarrow> fileOf w' p = fileOf w p"
proof -
  have "plainSidecars w' \<and> sameNames w w' \<and> migrated E d f w' \<and> (p \<noteq> (snd d, sidecarName f) \<longrightarrow> fileOf w' p = fileOf w p)"
  proof (cases b)
    case False
    with assms migrateFile_False [of E d f w w'] show ?thesis by (auto simp: sameNames_def migrated_def)
  next
    case True
    let ?p = "(snd d, sidecarName f)"
    have tr: "migrateFile E d f w = (w', Inr True)" using True assms(1) by simp
    obtain g v where g: "w' = putFile ?p g w" "af_json g = Some v" "is_object v"
      "is_object (jget v ''compatibility'')" "verdictsFor (strategyInstances (he_outputs (av_health E))) (jget v ''compatibility'')"
      "fileOf w ?p \<noteq> None" "av_fault E Access ?p = None" "av_fault E ReadFile ?p = None"
      using migrateFile_True [OF tr assms(2)] by metis
    have "sameNames w w'"
      using g(1,6) by (auto simp: sameNames_def putFile_def map_of_eq_None_iff intro!: map_fst_update)
    moreover have "plainSidecars w'"
      using assms(2) g(1-4) by (auto simp: plainSidecars_def plainSidecar_def)
    moreover have "getProp v ''compatibility'' = Inr (jget v ''compatibility'')" using g(3) by (auto simp: getProp_def)
    then have "addVerdicts E (fst d, f) v w' = (w', Inr (v, jget v ''compatibility'', False))"
      using is_object_truthy [OF g(4)] verdicts_skip [OF g(5)] by (simp add: addVerdicts_def bindA_def pureA_def orElse_def)
    then have "migrated E d f w'"
      using g(1,2,7,8) by (simp add: migrated_def migrateFile_def catchA_def bindA_def access_def readJson_def withFile_def pureA_def)
    ultimately show ?thesis using g(1) by simp
  qed
  then show "plainSidecars w'" "sameNames w w'" "migrated E d f w'" "p \<noteq> (snd d, sidecarName f) \<Longrightarrow> fileOf w' p = fileOf w p"
    by auto
qed

lemma migrateEach_step:
  assumes "migrateEach E d files w = (w', r)" "plainSidecars w" "distinct files" "fst d \<noteq> snd d"
  shows "(\<exists>n. r = Inr n) \<and> plainSidecars w' \<and> sameNames w w' \<and> (\<forall>f \<in> set files. migrated E d f w') \<and>
    (\<forall>p. p \<notin> Pair (snd d) ` sidecarName ` set files \<longrightarrow> fileOf w' p = fileOf w p)"
  using assms(1-3)
proof (induction files arbitrary: w r)
  case (Cons f files)
  obtain w1 b where one: "migrateFile E d f w = (w1, Inr b)" by (metis migrateFile_total prod.collapse)
  note st = migrateFile_step [OF one Cons.prems(2)]
  obtain r1 where two: "migrateEach E d files w1 = (w', r1)"
    using Cons.prems(1) one by (auto simp: bindA_def pureA_def split: prod.splits sum.splits)
  note ih = Cons.IH [OF two st(1)] Cons.prems(3)
  then have ih: "(\<exists>n. r1 = Inr n)" "plainSidecars w'" "sameNames w1 w'" "\<forall>f \<in> set files. migrated E d f w'"
    "\<forall>p. p \<notin> Pair (snd d) ` sidecarName ` set files \<longrightarrow> fileOf w' p = fileOf w1 p" by auto
  have "(fst d, f) \<notin> Pair (snd d) ` sidecarName ` set files" "(snd d, sidecarName f) \<notin> Pair (snd d) ` sidecarName ` set files"
    using Cons.prems(3) assms(4) by (auto simp: sidecarName_def)
  then have "agree (migrateFiles d f) w1 w'" using ih(3,5) by (simp add: agree_def sameNames_def)
  then have "migrated E d f w'" using st(3) by (rule migrated_local [rotated])
  moreover have "\<exists>n. r = Inr n" using ih(1) one two Cons.prems(1) by (auto simp: bindA_def pureA_def)
  ultimately show ?case using ih st(2,4) by (auto simp: sameNames_def)
qed (auto simp: pureA_def sameNames_def)

lemma migrateEach_total: "\<exists>n. snd (migrateEach E d files w) = Inr n"
proof (induction files arbitrary: w)
  case (Cons f files)
  obtain w1 b where "migrateFile E d f w = (w1, Inr b)" by (metis migrateFile_total prod.collapse)
  moreover obtain w2 n where "migrateEach E d files w1 = (w2, Inr n)" using Cons [of w1] by (metis prod.collapse)
  ultimately show ?case by (simp add: bindA_def pureA_def)
qed (simp add: pureA_def)

lemma migrateEach_again: "\<forall>f \<in> set files. migrated E d f w \<Longrightarrow> migrateEach E d files w = (w, Inr 0)"
  by (induction files) (auto simp: pureA_def bindA_def migrated_def)

text \<open>A directory that cannot be listed, or whose files are all migrated.\<close>

definition unlisted :: "'dt assetEnv \<Rightarrow> area \<Rightarrow> assets \<Rightarrow> bool" where
  "unlisted E d w \<longleftrightarrow> av_fault E Access (d, []) \<noteq> None \<or> d \<notin> set (at_dirs w) \<or> av_fault E Readdir (d, []) \<noteq> None"

definition dirMigrated :: "'dt assetEnv \<Rightarrow> area \<times> area \<Rightarrow> assets \<Rightarrow> bool" where
  "dirMigrated E d w \<longleftrightarrow> unlisted E (fst d) w \<or> (\<forall>f \<in> set (filter isAudioName (namesIn w (fst d))). migrated E d f w)"

lemma migrateDir_run:
  "migrateDir E d counts w =
     (if av_fault E Access (fst d, []) \<noteq> None \<or> fst d \<notin> set (at_dirs w) then (w, Inr counts)
      else case av_fault E Readdir (fst d, []) of
        Some e \<Rightarrow> (w, Inl e)
      | None \<Rightarrow> migrateBatches E d (filter isAudioName (namesIn w (fst d))) counts w)"
  by (auto simp: migrateDir_def bindA_def catchA_def accessDir_def readdir_def guarded_def pureA_def split: option.split)

lemma migrateDir_again:
  assumes "dirMigrated E d w"
  shows "fst (migrateDir E d counts w) = w" "snd (migrateDir E d counts w) = Inr c \<Longrightarrow> snd c = snd counts"
  using assms migrateEach_again [of "filter isAudioName (namesIn w (fst d))" E d w]
  by (auto simp: migrateDir_run dirMigrated_def unlisted_def migrateBatches_each bindA_def pureA_def split: option.splits if_splits)

lemma distinct_namesIn: "distinct (map fst (at_files w)) \<Longrightarrow> distinct (namesIn w d)"
proof -
  have "distinct (map fst al) \<Longrightarrow> distinct (map (\<lambda>e. snd (fst e)) (filter (\<lambda>e. fst (fst e) = d) al))" for al :: "(path \<times> assetFile) list"
    by (induction al) force+
  then show "distinct (map fst (at_files w)) \<Longrightarrow> distinct (namesIn w d)" by (simp add: namesIn_def)
qed

lemma migrateDir_step:
  assumes "migrateDir E d counts w = (w', r)" "plainSidecars w" "distinct (map fst (at_files w))" "fst d \<noteq> snd d"
  shows "plainSidecars w'" "sameNames w w'" "dirMigrated E d w'" "fst p \<noteq> snd d \<Longrightarrow> fileOf w' p = fileOf w p"
proof -
  let ?files = "filter isAudioName (namesIn w (fst d))"
  have "plainSidecars w' \<and> sameNames w w' \<and> dirMigrated E d w' \<and> (fst p \<noteq> snd d \<longrightarrow> fileOf w' p = fileOf w p)"
  proof (cases "unlisted E (fst d) w")
    case True
    then have "w' = w" using assms(1) by (auto simp: migrateDir_run unlisted_def split: option.splits if_splits)
    with True assms(2) show ?thesis by (simp add: dirMigrated_def sameNames_def)
  next
    case False
    then obtain r' where e: "migrateEach E d ?files w = (w', r')"
      using assms(1) by (auto simp: migrateDir_run unlisted_def migrateBatches_each bindA_def pureA_def split: prod.splits sum.splits)
    have "distinct ?files" using assms(3) by (simp add: distinct_namesIn)
    note st = migrateEach_step [OF e assms(2) this assms(4)]
    have "p \<notin> Pair (snd d) ` sidecarName ` set ?files" if "fst p \<noteq> snd d" using that by auto
    then have "fst p \<noteq> snd d \<longrightarrow> fileOf w' p = fileOf w p" using st by blast
    with st sameNames_namesIn [of w w' "fst d"] show ?thesis unfolding dirMigrated_def by auto
  qed
  then show "plainSidecars w'" "sameNames w w'" "dirMigrated E d w'" "fst p \<noteq> snd d \<Longrightarrow> fileOf w' p = fileOf w p" by auto
qed

lemma dirMigrated_local:
  assumes "dirMigrated E d v" "sameNames v w" "\<And>p. fst p \<in> {fst d, snd d} \<Longrightarrow> fileOf w p = fileOf v p"
  shows "dirMigrated E d w"
proof -
  have "agree (migrateFiles d f) v w" for f using assms(2,3) by (auto simp: agree_def sameNames_def)
  then have "migrated E d f v \<Longrightarrow> migrated E d f w" for f by (blast intro: migrated_local)
  then show ?thesis
    using assms(1) sameNames_namesIn [OF assms(2)] assms(2) by (auto simp: dirMigrated_def unlisted_def sameNames_def)
qed

lemma migrateAll_outcome:
  assumes "migrateAll E w = (w', r)" "plainSidecars w" "distinct (map fst (at_files w))"
  shows "(\<forall>d \<in> set directories. dirMigrated E d w') \<or>
    (\<exists>e. migrateDir E (AudioCustom, MetaCustom) (0, 0) w = (w, Inl e) \<and> w' = w)"
    "\<forall>p. fst p \<notin> {MetaCustom, MetaCache} \<longrightarrow> fileOf w' p = fileOf w p"
proof -
  let ?a = "(AudioCustom, MetaCustom)" and ?b = "(AudioCache, MetaCache)"
  obtain w1 r1 where one: "migrateDir E ?a (0, 0) w = (w1, r1)" by fastforce
  note A = migrateDir_step [OF one assms(2,3)]
  have "((\<forall>d \<in> set directories. dirMigrated E d w') \<or>
    (\<exists>e. migrateDir E ?a (0, 0) w = (w, Inl e) \<and> w' = w)) \<and> (\<forall>p. fst p \<notin> {MetaCustom, MetaCache} \<longrightarrow> fileOf w' p = fileOf w p)"
  proof (cases r1)
    case (Inl e)
    then have "w1 = w" using one migrateEach_total [of E ?a "filter isAudioName (namesIn w AudioCustom)" w]
      by (auto simp: migrateDir_run migrateBatches_each bindA_def pureA_def split: option.splits if_splits prod.splits sum.splits)
    with Inl one assms(1) show ?thesis by (auto simp: migrateAll_def directories_def catchA_def bindA_def pureA_def)
  next
    case (Inr c)
    obtain w2 r2 where two: "migrateDir E ?b c w1 = (w2, r2)" by fastforce
    have w': "w' = w2" using assms(1) one two Inr
      by (auto simp: migrateAll_def directories_def catchA_def bindA_def pureA_def split: sum.splits)
    have d1: "distinct (map fst (at_files w1))" using A(2) assms(3) by (simp add: sameNames_def)
    note B = migrateDir_step [OF two A(1) d1]
    have "dirMigrated E ?a w2" using B A by (intro dirMigrated_local [OF A(3) B(2)]) auto
    with B A w' show ?thesis by (auto simp: directories_def)
  qed
  then show "(\<forall>d \<in> set directories. dirMigrated E d w') \<or> (\<exists>e. migrateDir E ?a (0, 0) w = (w, Inl e) \<and> w' = w)"
    "\<forall>p. fst p \<notin> {MetaCustom, MetaCache} \<longrightarrow> fileOf w' p = fileOf w p" by auto
qed

text \<open>
  The migration of the sidecars is idempotent and changes nothing but sidecars: it always ends and answers, no
  audio or temporary file changes, and a second run right after it finds every sidecar up to date and writes
  nothing, whatever files are missing, corrupted or cannot be read or written, and however many batches there are.
\<close>

theorem migrateAll_idempotent:
  assumes "migrateAll E w = (w', r)" "plainSidecars w" "distinct (map fst (at_files w))"
  shows "(\<exists>c. r = Inr c) \<and> (\<forall>p. fst p \<in> {AudioCustom, AudioCache, AudioTemp} \<longrightarrow> fileOf w' p = fileOf w p) \<and>
    (\<exists>n. migrateAll E w' = (w', Inr (n, 0)))"
proof (intro conjI)
  show "\<exists>c. r = Inr c" using assms(1) by (auto simp: migrateAll_def catchA_def pureA_def split: prod.splits sum.splits)
  show "\<forall>p. fst p \<in> {AudioCustom, AudioCache, AudioTemp} \<longrightarrow> fileOf w' p = fileOf w p"
    using migrateAll_outcome(2) [OF assms] by auto
  let ?a = "(AudioCustom, MetaCustom)" and ?b = "(AudioCache, MetaCache)"
  from migrateAll_outcome(1) [OF assms] show "\<exists>n. migrateAll E w' = (w', Inr (n, 0))"
  proof
    assume "\<forall>d \<in> set directories. dirMigrated E d w'"
    then have d: "dirMigrated E ?a w'" "dirMigrated E ?b w'" by (simp_all add: directories_def)
    obtain r1 where one: "migrateDir E ?a (0, 0) w' = (w', r1)" using migrateDir_again(1) [OF d(1)] by (metis prod.collapse)
    show ?thesis
    proof (cases r1)
      case (Inr c)
      then have c: "snd c = 0" using migrateDir_again(2) [OF d(1), of "(0, 0)" c] one by simp
      obtain r2 where two: "migrateDir E ?b c w' = (w', r2)" using migrateDir_again(1) [OF d(2)] by (metis prod.collapse)
      with c migrateDir_again(2) [OF d(2), of c] have "r2 = Inr x \<Longrightarrow> snd x = 0" for x by simp
      then show ?thesis using one two Inr
        by (cases r2) (auto simp: migrateAll_def directories_def catchA_def bindA_def pureA_def)
    qed (use one in \<open>simp add: migrateAll_def directories_def catchA_def bindA_def pureA_def\<close>)
  qed (auto simp: migrateAll_def directories_def catchA_def bindA_def pureA_def)
qed

definition azanAssets :: assets where
  "azanAssets =
     \<lparr>at_dirs = [AudioCustom, MetaCustom],
      at_files = [((AudioCustom, ''azan.mp3''), \<lparr>af_size = 9, af_mtime = 0, af_json = None\<rparr>),
        ((MetaCustom, ''azan.mp3.json''), \<lparr>af_size = 2, af_mtime = 0, af_json = Some (JObj [])\<rparr>)],
      at_health = JNull\<rparr>"

theorem migrateAll_idempotent_witness:
  "\<exists>n. snd (migrateAll (sampleAssetEnv (JObj [])) (fst (migrateAll (sampleAssetEnv (JObj [])) azanAssets))) = Inr (n, 0)"
proof -
  let ?E = "sampleAssetEnv (JObj [])"
  have "plainSidecars azanAssets" by (simp add: plainSidecars_def azanAssets_def plainSidecar_def)
  from migrateAll_idempotent [OF _ this, of ?E "fst (migrateAll ?E azanAssets)" "snd (migrateAll ?E azanAssets)"]
  show ?thesis by (auto simp: azanAssets_def)
qed

section \<open>Creating sidecars\<close>

lemma split_on_append_last: "d \<notin> set t \<Longrightarrow> split_on d (s @ t) = butlast (split_on d s) @ [last (split_on d s) @ t]"
  by (induction s) (auto simp: split_on_word split: list.splits)

lemma json_not_audio: "\<not> isAudioName (f @ ''.json'')"
proof -
  have "strip_slashes (f @ ''.json'') = f @ ''.json''" by (simp add: strip_slashes_def slash_def)
  then have b: "path_basename (f @ ''.json'') = last (split_on slash f) @ ''.json''"
    by (simp add: path_basename_def split_on_append_last slash_def)
  have "path_extname (f @ ''.json'') \<in> {[], ''.json''}" by (auto simp: path_extname_def Let_def b)
  then show ?thesis by (auto simp: isAudioName_def assetExtensions_def toLowerCase_def lower_char_def)
qed

lemma names_not_audio: "\<not> isAudioName (sidecarName f)" "\<not> isAudioName (legacyName f)" "\<not> isAudioName (redundantName f)"
  using json_not_audio [of f] json_not_audio [of "f @ ''.meta''"] by (simp_all add: sidecarName_def legacyName_def redundantName_def)

lemma touches_existing: "touches S (existingData E a f)"
  unfolding existingData_def by (intro frame)

lemma touches_createSidecar:
  "touches {(m, sidecarName f), (a, legacyName f), (a, redundantName f)} (createSidecar E a m f)"
  unfolding createSidecar_def ignoreErrors_def by (intro frame touches_existing) simp_all

lemma touches_metadataFor:
  "touches {(m, sidecarName f), (a, legacyName f), (a, redundantName f)} (metadataFor E a m f)"
  unfolding metadataFor_def ignoreErrors_def by (intro frame touches_createSidecar)

lemma touches_generateMetadata: "touches {p. \<not> isAudioName (snd p)} (generateMetadataForExistingFiles E)"
proof -
  have "touches {p. \<not> isAudioName (snd p)} (metadataFor E a m f)" for a m f
    by (rule touches_mono [OF touches_metadataFor]) (auto simp: names_not_audio)
  then show ?thesis
    unfolding generateMetadataForExistingFiles_def metadataForDir_def by (intro frame)
qed

lemma metadataFor_total: "snd (metadataFor E a m f w) = Inr ()"
  by (auto simp: metadataFor_def ignoreErrors_def catchA_def pureA_def split: prod.split sum.split)

lemma touches_keeps: "touches S m \<Longrightarrow> p \<notin> S \<Longrightarrow> keeps (\<lambda>w. Q (fileOf w p)) m"
  by (simp add: keeps_def touches_fst)

lemma metadataFor_existing:
  assumes "av_fault E Access (m, sidecarName f) = None" "a \<noteq> m"
  shows "keeps (\<lambda>w. fileOf w (m, sidecarName f) = Some x) (metadataFor E a m' f')"
proof (cases "m' = m \<and> f' = f")
  case True
  with assms(1) show ?thesis
    by (simp add: keeps_def metadataFor_def catchA_def access_def withFile_def pureA_def)
next
  case False
  then have "(m, sidecarName f) \<notin> {(m', sidecarName f'), (a, legacyName f'), (a, redundantName f')}"
    using assms(2) by (auto simp: sidecarName_def)
  then show ?thesis by (rule touches_keeps [OF touches_metadataFor])
qed

lemma keeps_writeJson: "keeps (\<lambda>w. fileOf w p \<noteq> None) (writeJson E q v)"
  by (auto simp: keeps_def writeJson_def guarded_def split: option.split)

lemma metadataFor_keeps:
  assumes "a \<noteq> m"
  shows "keeps (\<lambda>w. fileOf w (m, n) \<noteq> None) (metadataFor E a m' f')"
proof -
  have t: "keeps (\<lambda>w. fileOf w (m, n) \<noteq> None) eff" if "touches S eff" "(m, n) \<notin> S" for S and eff :: "'x io"
    using touches_keeps [OF that, of "\<lambda>x. x \<noteq> None"] .
  show ?thesis
    unfolding metadataFor_def createSidecar_def ignoreErrors_def
    by (intro keeps_bind keeps_catch keeps_pure keeps_writeJson t [OF touches_calls(1) [of "{}"]] t [OF touches_analyse [of "{}"]]
        t [OF touches_existing [of "{}"]] t [OF touches_writes(1) [of _ "{_}"]]) (use assms in auto)
qed

lemma keeps_directories:
  assumes "\<And>a m f. (a, m) \<in> set directories \<Longrightarrow> keeps (\<lambda>w. Q (fileOf w p)) (metadataFor E a m f)"
    and "d \<in> set directories"
  shows "keeps (\<lambda>w. Q (fileOf w p)) (metadataForDir E d)"
proof -
  have t: "keeps (\<lambda>w. Q (fileOf w p)) eff" if "touches {} eff" for eff :: "'x io" using touches_keeps [OF that] by simp
  have "keeps (\<lambda>w. Q (fileOf w p)) (metadataFor E (fst d) (snd d) f)" for f using assms by simp
  then show ?thesis
    unfolding metadataForDir_def
    by (auto intro!: keeps_bind keeps_catch keeps_pure keeps_each t [OF touches_dirs(1)] t [OF touches_dirs(2)])
qed

lemma keeps_generateMetadata:
  assumes "\<And>a m f. (a, m) \<in> set directories \<Longrightarrow> keeps (\<lambda>w. Q (fileOf w p)) (metadataFor E a m f)"
  shows "keeps (\<lambda>w. Q (fileOf w p)) (generateMetadataForExistingFiles E)"
  unfolding generateMetadataForExistingFiles_def directories_def
  by (auto intro!: keeps_bind keeps_pure keeps_directories [OF assms] touches_keeps [OF touches_dirs(4) [of "{}"]] simp: directories_def)

lemma quiet_existing: "quiet (existingData E a f)" "\<exists>v. snd (existingData E a f w) = Inr v"
proof -
  have c: "quiet m \<Longrightarrow> (\<And>e. quiet (h e)) \<Longrightarrow> quiet (catchA m h)" for m :: "json io" and h
    by (auto simp: quiet_def catchA_def split: prod.split sum.split) (metis fst_conv)+
  show "quiet (existingData E a f)"
    unfolding existingData_def by (intro c quiet_bind quiet_calls quiet_pure)
  show "\<exists>v. snd (existingData E a f w) = Inr v"
    by (auto simp: existingData_def catchA_def pureA_def split: prod.split sum.split)
qed

lemma analyse_parsed:
  assumes "\<forall>op p. av_fault E op p = None" "fileOf w p = Some g" "av_parse E p g = Inr fmt"
  shows "\<exists>b. analyseAudioFile E p w = (w, Inr b)"
  using assms by (cases p) (simp add: analyseAudioFile_def bindA_def getsA_def stat_def withFile_def pureA_def)

lemma metadataFor_creates:
  assumes nf: "\<forall>op p. av_fault E op p = None" and "fileOf w (a, f) = Some g" "av_parse E (a, f) g = Inr fmt"
    and "m \<in> set (at_dirs w)" "f \<noteq> ''azan.mp3''" "a \<noteq> m"
  shows "fileOf (fst (metadataFor E a m f w)) (m, sidecarName f) \<noteq> None"
proof (cases "fileOf w (m, sidecarName f)")
  case None
  obtain b where b: "analyseAudioFile E (a, f) w = (w, Inr b)" using analyse_parsed [OF nf assms(2,3)] by blast
  obtain v where v: "existingData E a f w = (w, Inr v)" using quiet_existing [of E a f] by (metis prod.collapse quiet_def)
  let ?p = "(m, sidecarName f)"
  obtain w1 where w1: "writeJson E ?p (spreadMerge v (enrichMetadata E b)) w = (w1, Inr ())" "fileOf w1 ?p \<noteq> None"
    using nf assms(4) by (simp add: writeJson_def guarded_def)
  have k: "keeps (\<lambda>w. fileOf w ?p \<noteq> None) (bindA (ignoreErrors (unlink E (a, legacyName f))) (\<lambda>_. ignoreErrors (unlink E (a, redundantName f))))"
    unfolding ignoreErrors_def
    by (intro keeps_bind keeps_catch keeps_pure touches_keeps [OF touches_writes(1) [of _ "{_}"], where Q = "\<lambda>x. x \<noteq> None"])
       (use assms(6) in auto)
  have "createSidecar E a m f w = (bindA (ignoreErrors (unlink E (a, legacyName f))) (\<lambda>_. ignoreErrors (unlink E (a, redundantName f)))) w1"
    using b v w1(1) assms(5) by (simp add: createSidecar_def bindA_def pureA_def protect_def)
  then have "fileOf (fst (createSidecar E a m f w)) ?p \<noteq> None" using k w1(2) by (simp add: keeps_def)
  moreover have "fst (metadataFor E a m f w) = fst (createSidecar E a m f w)"
    using None nf by (auto simp: metadataFor_def ignoreErrors_def catchA_def access_def withFile_def pureA_def split: prod.split sum.split)
  ultimately show ?thesis by simp
qed (use nf in \<open>simp add: metadataFor_def catchA_def access_def withFile_def pureA_def\<close>)

lemma eachA_total: "(\<And>y w. snd (f y w) = Inr ()) \<Longrightarrow> snd (eachA f xs w) = Inr ()"
proof (induction xs arbitrary: w)
  case (Cons y ys)
  obtain w1 where "f y w = (w1, Inr ())" using Cons.prems [of y w] by (metis prod.collapse)
  then show ?case using Cons by (simp add: bindA_def)
qed (simp add: pureA_def)

lemma eachA_establishes:
  assumes "x \<in> set xs" "\<And>y. keeps R (f y)" "\<And>w. R w \<Longrightarrow> P (fst (f x w))" "\<And>y. y \<in> set xs \<Longrightarrow> keeps P (f y)"
    and tot: "\<And>y w. snd (f y w) = Inr ()" and "R w"
  shows "P (fst (eachA f xs w))"
  using assms(1,4,6)
proof (induction xs arbitrary: w)
  case (Cons y ys)
  obtain w1 where y: "f y w = (w1, Inr ())" using tot [of y w] by (metis prod.collapse)
  have run: "eachA f (y # ys) w = eachA f ys w1" using y by (simp add: bindA_def)
  show ?case
  proof (cases "y = x")
    case True
    then have "P w1" using assms(3) [OF Cons.prems(3)] y by simp
    moreover have "keeps P (eachA f ys)" using Cons.prems(2) by (intro keeps_each) simp
    ultimately show ?thesis using run by (simp add: keeps_def)
  next
    case False
    then show ?thesis using Cons.IH [OF _ _ keepsD [OF assms(2) Cons.prems(3) y]] Cons.prems(1,2) run by simp
  qed
qed simp

text \<open>The audio file is there and the directories exist.\<close>

definition canDescribe :: "area \<times> area \<Rightarrow> string \<Rightarrow> assetFile \<Rightarrow> assets \<Rightarrow> bool" where
  "canDescribe d f g w \<longleftrightarrow> fileOf w (fst d, f) = Some g \<and> fst d \<in> set (at_dirs w) \<and> snd d \<in> set (at_dirs w)"

lemma keeps_at_dirs:
  "keeps (\<lambda>w. d \<in> set (at_dirs w)) (access E p)" "keeps (\<lambda>w. d \<in> set (at_dirs w)) (readJson E p)"
  "keeps (\<lambda>w. d \<in> set (at_dirs w)) (writeJson E p v)" "keeps (\<lambda>w. d \<in> set (at_dirs w)) (unlink E p)"
  "keeps (\<lambda>w. d \<in> set (at_dirs w)) (analyseAudioFile E p)"
  by (auto simp: keeps_def access_def readJson_def writeJson_def unlink_def withFile_def guarded_def pureA_def split: option.split)
     (metis prod.collapse reads_nothing)

lemma keeps_canDescribe:
  assumes "isAudioName f"
  shows "keeps (canDescribe d f g) (metadataFor E a m f')"
proof -
  have "keeps (\<lambda>w. x \<in> set (at_dirs w)) (metadataFor E a m f')" for x
    unfolding metadataFor_def createSidecar_def existingData_def ignoreErrors_def
    by (intro keeps_bind keeps_catch keeps_pure keeps_at_dirs)
  moreover have "(fst d, f) \<notin> {(m, sidecarName f'), (a, legacyName f'), (a, redundantName f')}"
    using assms names_not_audio by auto
  ultimately show ?thesis using touches_fst [OF touches_metadataFor [of m f' a E]] by (auto simp: keeps_def canDescribe_def)
qed

lemma metadataForDir_run:
  assumes "\<forall>op p. av_fault E op p = None"
  shows "metadataForDir E d w =
    (if fst d \<in> set (at_dirs w) then eachA (metadataFor E (fst d) (snd d)) (filter isAudioName (namesIn w (fst d))) w else (w, Inr ()))"
  using assms by (simp add: metadataForDir_def bindA_def catchA_def accessDir_def readdir_def guarded_def pureA_def)

lemma metadataForDir_total: "\<forall>op p. av_fault E op p = None \<Longrightarrow> snd (metadataForDir E d w) = Inr ()"
  by (simp add: metadataForDir_run eachA_total metadataFor_total)

lemma fileOf_namesIn: "fileOf w (d, n) = Some g \<Longrightarrow> n \<in> set (namesIn w d)"
  by (force simp: namesIn_def dest: map_of_SomeD)

lemma metadataForDir_creates:
  assumes nf: "\<forall>op p. av_fault E op p = None" and "canDescribe d f g w" "isAudioName f" "av_parse E (fst d, f) g = Inr fmt"
    and "f \<noteq> ''azan.mp3''" "fst d \<noteq> snd d"
  shows "fileOf (fst (metadataForDir E d w)) (snd d, sidecarName f) \<noteq> None"
proof -
  let ?fs = "filter isAudioName (namesIn w (fst d))"
  have "fileOf (fst (eachA (metadataFor E (fst d) (snd d)) ?fs w)) (snd d, sidecarName f) \<noteq> None"
  proof (rule eachA_establishes [where x = f and R = "canDescribe d f g"])
    show "f \<in> set ?fs" using assms(2,3) fileOf_namesIn by (auto simp: canDescribe_def)
    show "fileOf (fst (metadataFor E (fst d) (snd d) f v)) (snd d, sidecarName f) \<noteq> None" if "canDescribe d f g v" for v
      using that metadataFor_creates [OF nf _ assms(4) _ assms(5,6)] by (auto simp: canDescribe_def)
    show "keeps (\<lambda>w. fileOf w (snd d, sidecarName f) \<noteq> None) (metadataFor E (fst d) (snd d) y)" for y
      using assms(6) by (rule metadataFor_keeps)
  qed (use assms(2,3) in \<open>auto intro!: keeps_canDescribe metadataFor_total\<close>)
  with assms(2) show ?thesis using metadataForDir_run [OF nf] by (simp add: canDescribe_def)
qed

lemma ensureDirs_done:
  assumes "\<forall>op p. av_fault E op p = None"
  shows "\<exists>w'. ensureDirs E w = (w', Inr ()) \<and> at_files w' = at_files w \<and> (\<forall>d. d \<in> set (at_dirs w'))"
proof -
  have one: "ensureDir E d w = (w\<lparr>at_dirs := List.insert d (at_dirs w)\<rparr>, Inr ())" for d w
    using assms by (simp add: ensureDir_def mkdir_def catchA_def accessDir_def guarded_def List.insert_def)
  have "d \<in> {AudioCache, AudioTemp, AudioCustom, MetaCache, MetaCustom}" for d by (cases d) auto
  then show ?thesis by (auto simp: ensureDirs_def one)
qed

lemma keeps_canDescribe_dir:
  assumes "isAudioName f" "\<forall>op p. av_fault E op p = None"
  shows "keeps (canDescribe d f g) (metadataForDir E d')"
proof -
  have "keeps (canDescribe d f g) (eachA (metadataFor E (fst d') (snd d')) fs)" for fs
    using assms(1) by (intro keeps_each keeps_canDescribe)
  then show ?thesis using metadataForDir_run [OF assms(2)] by (simp add: keeps_def)
qed

text \<open>
  Every audio file gets a sidecar: when the file system does not fail, the generation of metadata ends
  without an error and leaves a sidecar for each audio file of the two directories that can be parsed; an
  existing sidecar is kept as it is, and no audio file changes. (The adhan of the program is left
  out: a legacy sidecar that is \<open>null\<close> cannot be protected.)
\<close>

theorem generateMetadata_complete:
  assumes "\<forall>op p. av_fault E op p = None" "generateMetadataForExistingFiles E w = (w', r)"
    and "d \<in> set directories" "fileOf w (fst d, f) = Some g" "isAudioName f" "av_parse E (fst d, f) g = Inr fmt"
    and "f \<noteq> ''azan.mp3''"
  shows "r = Inr () \<and> fileOf w' (fst d, f) = Some g \<and>
    (case fileOf w (snd d, sidecarName f) of None \<Rightarrow> fileOf w' (snd d, sidecarName f) \<noteq> None
     | Some x \<Rightarrow> fileOf w' (snd d, sidecarName f) = Some x)"
proof -
  obtain w1 where w1: "ensureDirs E w = (w1, Inr ())" "at_files w1 = at_files w" "\<forall>d. d \<in> set (at_dirs w1)"
    using ensureDirs_done [OF assms(1)] by blast
  have dd: "fst d \<noteq> snd d" "\<And>a m. (a, m) \<in> set directories \<Longrightarrow> a \<noteq> snd d" using assms(3) by (auto simp: directories_def)
  have run: "eachA (metadataForDir E) directories w1 = (w', r)"
    using assms(2) w1(1) by (simp add: generateMetadataForExistingFiles_def bindA_def)
  have "snd (eachA (metadataForDir E) directories w1) = Inr ()" by (rule eachA_total) (rule metadataForDir_total [OF assms(1)])
  then have r: "r = Inr ()" using run by simp
  have audio: "fileOf w' (fst d, f) = Some g" using touchesD [OF touches_generateMetadata assms(2)] assms(4,5) by simp
  have k: "keeps (\<lambda>w. fileOf w (snd d, sidecarName f) \<noteq> None) (metadataForDir E d')" if "d' \<in> set directories" for d'
    using keeps_directories [where Q = "\<lambda>y. y \<noteq> None", OF metadataFor_keeps that] dd(2) by blast
  have "fileOf (fst (eachA (metadataForDir E) directories w1)) (snd d, sidecarName f) \<noteq> None"
  proof (rule eachA_establishes [where x = d and R = "canDescribe d f g"])
    show "canDescribe d f g w1" using w1 assms(4) by (simp add: canDescribe_def)
    show "fileOf (fst (metadataForDir E d v)) (snd d, sidecarName f) \<noteq> None" if "canDescribe d f g v" for v
      using metadataForDir_creates [OF assms(1) that assms(5-7) dd(1)] .
  qed (use assms(1,3,5) k in \<open>auto intro!: keeps_canDescribe_dir metadataForDir_total\<close>)
  moreover have "fileOf w' (snd d, sidecarName f) = Some x" if "fileOf w (snd d, sidecarName f) = Some x" for x
  proof -
    have "keeps (\<lambda>w. fileOf w (snd d, sidecarName f) = Some x) (generateMetadataForExistingFiles E)"
      by (rule keeps_generateMetadata [where Q = "\<lambda>y. y = Some x"]) (use metadataFor_existing dd(2) assms(1) in blast)
    then show ?thesis using keepsD [of "\<lambda>w. fileOf w (snd d, sidecarName f) = Some x"] that assms(2) by blast
  qed
  ultimately show ?thesis using r audio run by (auto split: option.split)
qed

theorem generateMetadata_complete_witness:
  "fileOf (fst (generateMetadataForExistingFiles (sampleAssetEnv (JObj []))
     (putFile (AudioCustom, ''a.mp3'') \<lparr>af_size = 9, af_mtime = 0, af_json = None\<rparr> azanAssets))) (MetaCustom, sidecarName ''a.mp3'') \<noteq> None"
proof -
  let ?E = "sampleAssetEnv (JObj [])" and ?g = "\<lparr>af_size = 9, af_mtime = 0, af_json = None\<rparr>"
  let ?w = "putFile (AudioCustom, ''a.mp3'') ?g azanAssets" and ?d = "(AudioCustom, MetaCustom)"
  have audio: "isAudioName ''a.mp3''" by code_simp
  have "fileOf ?w (snd ?d, sidecarName ''a.mp3'') = None" by (simp add: sidecarName_def azanAssets_def)
  moreover have "snd (generateMetadataForExistingFiles ?E ?w) = Inr () \<and>
      fileOf (fst (generateMetadataForExistingFiles ?E ?w)) (fst ?d, ''a.mp3'') = Some ?g \<and>
      (case fileOf ?w (snd ?d, sidecarName ''a.mp3'') of
         None \<Rightarrow> fileOf (fst (generateMetadataForExistingFiles ?E ?w)) (snd ?d, sidecarName ''a.mp3'') \<noteq> None
       | Some x \<Rightarrow> fileOf (fst (generateMetadataForExistingFiles ?E ?w)) (snd ?d, sidecarName ''a.mp3'') = Some x)"
    by (rule generateMetadata_complete [where fmt = "JObj [(''container'', JStr ''MPEG'')]"])
       (use audio in \<open>simp_all add: directories_def, simp add: sampleAssetEnvOf_def\<close>)
  ultimately show ?thesis by simp
qed

end
