(* ===== verification/Server_Start.thy ===== *)
theory Server_Start
  imports Controllers Asset_Metadata
begin

text \<open>
  \<open>startServer\<close> of \<open>server.js\<close>: the secrets, the wiring of the configuration service, its initialisation, the health checks,
  the voices, the first fetch, the audio files, and the scheduler. The theorem says that the schedule is reached whatever
  the services and the file system do. The rotation of the log files is in \<open>Live_Log\<close>; the migration of the assets runs
  beside the scheduler and shares no state with it.
\<close>

section \<open>The steps\<close>

definition ensureSecrets :: "'dt serverEnv \<Rightarrow> unit sv" where
  "ensureSecrets X =
     onAuth (\<lambda>w. (fst (ensureSecret (sx_auth X) ''ENCRYPTION_SALT'' 32 (fst (ensureSecret (sx_auth X) ''JWT_SECRET'' 64 w))), Inr ()))"

definition wireResolvers :: "'dt serverEnv \<Rightarrow> unit sv" where
  "wireResolvers X =
     (let reg = fe_outputs (sx_flow X) in
      bindV (onConfig (setOutputStrategyResolver (Some (getStrategy reg)))) (\<lambda>_.
      bindV (onConfig (setOutputSecretKeysResolver (Some (getSecretRequirementKeys reg)))) (\<lambda>_.
      onConfig (\<lambda>w. (w\<lparr>cw_migrationKeys := Some (getSecretRequirementKeys reg)\<rparr>, Inr ())))))"

text \<open>The sources are printed: the coordinates of an Aladhan source are read for it.\<close>

definition printSource :: "json \<Rightarrow> json \<Rightarrow> unit res" where
  "printSource config source =
     (if \<not> truthy source then Inr ()
      else if jget source ''type'' = JStr ''aladhan''
      then bindR (getProp (jget config ''location'') ''coordinates'') (\<lambda>coordinates.
           bindR (getProp coordinates ''lat'') (\<lambda>_. Inr ()))
      else Inr ())"

definition printSources :: "json \<Rightarrow> unit res" where
  "printSources config =
     bindR (objectValues (jget config ''sources'')) (\<lambda>sources. foldR (\<lambda>source _. printSource config source) sources ())"

definition tolerated :: "'a sv \<Rightarrow> unit sv" where
  "tolerated m = catchV (bindV m (\<lambda>_. pureV (Inr ()))) (\<lambda>_. pureV (Inr ()))"

definition startVoices :: "'dt serverEnv \<Rightarrow> json sv" where
  "startVoices X s =
     (case refreshVoices (sx_voices X) (getConfig (sv_cfg s)) (sv_voices s) of (v, r) \<Rightarrow> (s\<lparr>sv_voices := v\<rparr>, r))"

definition prepareAudio :: "'dt serverEnv \<Rightarrow> unit sv" where
  "prepareAudio X =
     bindV (syncV X False) (\<lambda>_.
     bindV (onAssets X ensureTestAudio) (\<lambda>_.
     onAssets X generateMetadataForExistingFiles))"

text \<open>An error ends the process: \<open>process.exit(1)\<close>, or a rejection nobody handles.\<close>

definition startServer :: "'dt serverEnv \<Rightarrow> unit sv" where
  "startServer X =
     bindV (ensureSecrets X) (\<lambda>_.
     bindV (wireResolvers X) (\<lambda>_.
     bindV (onConfig (initConfig (fe_schemas (sx_flow X)) (fe_fault (sx_flow X)))) (\<lambda>_.
     bindV (onHealth X (\<lambda>H c. (initHealth H c, Inr ()))) (\<lambda>_.
     bindV getV (\<lambda>config.
     bindV (pureV (printSources config)) (\<lambda>_.
     bindV (onHealth X runStartupChecks) (\<lambda>_.
     bindV (tolerated (startVoices X)) (\<lambda>_.
     bindV (tolerated (onTimes X (\<lambda>P. forceRefresh P config))) (\<lambda>_.
     bindV (tolerated (prepareAudio X)) (\<lambda>_.
     bindV (tolerated (onAssets X migrateAll)) (\<lambda>_.
     restartV X)))))))))))"

section \<open>The schedule is reached\<close>

lemma tolerated_ok: "\<exists>s'. tolerated m s = (s', Inr ())"
  by (auto simp: tolerated_def catchV_def bindV_def pureV_def split: prod.split sum.split)

lemma leaves_tolerated [leave]: "leaves view m \<Longrightarrow> leaves view (tolerated m)"
  unfolding tolerated_def by (intro leave)

lemma jobs_start [leave]:
  "leaves jobsOf (startVoices X)" "leaves jobsOf (onHealth X h)" "leaves jobsOf (onAuth a)" "leaves jobsOf (prepareAudio X)"
  "leaves (\<lambda>s. sv_cfg s) (startVoices X)" "leaves (\<lambda>s. sv_cfg s) (onHealth X h)" "leaves (\<lambda>s. sv_cfg s) (prepareAudio X)"
  by (auto simp: leaves_def startVoices_def jobsOf_def onHealth_def onAssets_def onAuth_def withConfig_def prepareAudio_def
      bindV_def syncV_def split: prod.split sum.split)

text \<open>A configuration whose sources can be printed and checked.\<close>

definition printable :: "json \<Rightarrow> bool" where
  "printable config \<longleftrightarrow> is_object (jget config ''sources'') \<and>
     ((\<exists>source \<in> set (map snd (entries (jget config ''sources''))). jget source ''type'' = JStr ''aladhan'') \<longrightarrow>
        jget (jget config ''location'') ''coordinates'' \<notin> {JUndef, JNull})"

lemma printSources_ok:
  assumes "printable config"
  shows "printSources config = Inr ()"
proof -
  have o: "objectValues (jget config ''sources'') = Inr (map snd (entries (jget config ''sources'')))"
    using assms by (cases "jget config ''sources''") (auto simp: printable_def objectValues_def)
  have one: "printSource config source = Inr ()" if "source \<in> set (map snd (entries (jget config ''sources'')))" for source
  proof (cases "jget source ''type'' = JStr ''aladhan''")
    case True
    then have c: "jget (jget config ''location'') ''coordinates'' \<notin> {JUndef, JNull}"
      using assms that unfolding printable_def by blast
    then have "jget config ''location'' \<notin> {JUndef, JNull}" by auto
    with c show ?thesis by (simp add: printSource_def getProp_def)
  qed (simp add: printSource_def)
  have "foldR (\<lambda>source _. printSource config source) xs () = Inr ()" if "set xs \<subseteq> set (map snd (entries (jget config ''sources'')))" for xs
    using that one by (induction xs) simp_all
  then show ?thesis by (simp add: printSources_def o)
qed

lemma refreshTarget_ok:
  assumes "he_config H = Inr config" "is_object (jget config ''sources'')"
  shows "\<exists>res. refreshTarget H target params force = Inr res"
proof -
  have "\<exists>res. checkSource H role = Inr res" for role
    using assms by (cases "jget config ''sources''") (auto simp: checkSource_def getProp_def)
  then show ?thesis using assms(1) by (auto simp: refreshTarget_def Let_def)
qed

lemma refresh_ok:
  assumes "he_config H = Inr config" "is_object (jget config ''sources'')"
  shows "\<exists>c r. refresh H target params force cache = (c, Inr r)"
proof -
  have "\<exists>us. foldR (\<lambda>t updates. bindR (refreshTarget H t params force) (\<lambda>res. Inr (updates @ [(t, stamped H c t res)]))) ts acc = Inr us"
    for ts c acc
  proof (induction ts arbitrary: acc)
    case (Cons t ts)
    obtain res where "refreshTarget H t params force = Inr res" using refreshTarget_ok [OF assms] by blast
    with Cons show ?case by simp
  qed simp
  then obtain us where "foldR (\<lambda>t updates. bindR (refreshTarget H t params force)
      (\<lambda>res. Inr (updates @ [(t, stamped H (initHealth H cache) t res)]))) (refreshTargets H target) [] = Inr us" by blast
  then show ?thesis by (simp add: refresh_def Let_def)
qed

definition initialise :: "'dt serverEnv \<Rightarrow> unit sv" where
  "initialise X =
     bindV (ensureSecrets X) (\<lambda>_.
     bindV (wireResolvers X) (\<lambda>_.
     onConfig (initConfig (fe_schemas (sx_flow X)) (fe_fault (sx_flow X)))))"

definition afterInit :: "'dt serverEnv \<Rightarrow> unit sv" where
  "afterInit X =
     bindV (onHealth X (\<lambda>H c. (initHealth H c, Inr ()))) (\<lambda>_.
     bindV getV (\<lambda>config.
     bindV (pureV (printSources config)) (\<lambda>_.
     bindV (onHealth X runStartupChecks) (\<lambda>_.
     bindV (tolerated (startVoices X)) (\<lambda>_.
     bindV (tolerated (onTimes X (\<lambda>P. forceRefresh P config))) (\<lambda>_.
     bindV (tolerated (prepareAudio X)) (\<lambda>_.
     bindV (tolerated (onAssets X migrateAll)) (\<lambda>_.
     restartV X))))))))"

lemma bindV_assoc: "bindV (bindV m f) g = bindV m (\<lambda>x. bindV (f x) g)"
  by (auto simp: bindV_def fun_eq_iff split: prod.split sum.split)

lemma bindV_run: "m s = (s', Inr x) \<Longrightarrow> bindV m f s = f x s'"
  by (simp add: bindV_def)

lemma bindV_pure: "bindV (pureV (Inr x)) f = f x"
  by (simp add: bindV_def pureV_def fun_eq_iff)

lemma startServer_eq: "startServer X = bindV (initialise X) (\<lambda>_. afterInit X)"
  by (simp add: startServer_def initialise_def afterInit_def bindV_assoc)

lemma jobs_initialise: "leaves jobsOf (initialise X)"
  unfolding initialise_def ensureSecrets_def wireResolvers_def Let_def by (intro leave)

lemma step_on:
  assumes "leaves jobsOf m" "\<exists>s' x. m s = (s', Inr x)"
    and "\<And>s' x. m s = (s', Inr x) \<Longrightarrow> jobsOf s' = jobsOf s \<Longrightarrow> \<exists>t y. f x s' = (t, Inr y) \<and> P t"
  shows "\<exists>t y. bindV m f s = (t, Inr y) \<and> P t"
  using assms leavesD [OF assms(1)] by (fastforce simp: bindV_def)

lemma tolerated_on:
  assumes "leaves jobsOf m" "\<And>s'. jobsOf s' = jobsOf s \<Longrightarrow> \<exists>t y. f () s' = (t, Inr y) \<and> P t"
  shows "\<exists>t y. bindV (tolerated m) f s = (t, Inr y) \<and> P t"
proof (rule step_on)
  show "leaves jobsOf (tolerated m)" by (rule leaves_tolerated [OF assms(1)])
  show "\<exists>s' x. tolerated m s = (s', Inr x)" using tolerated_ok [of m s] by blast
  show "\<exists>t y. f x s' = (t, Inr y) \<and> P t" if "jobsOf s' = jobsOf s" for s' x
    using assms(2) [OF that] by simp
qed

lemma afterInit_schedules:
  assumes config: "printable (cw_config (sv_cfg s))" and t: "tracked (sv_sched s)"
  shows "\<exists>s' y. afterInit X s = (s', Inr y) \<and> Scheduler.started (fe_sched (sx_flow X)) (sd_next (sv_sched s)) (sv_sched s')"
proof -
  let ?c = "cw_config (sv_cfg s)" and ?P = "\<lambda>s'. Scheduler.started (fe_sched (sx_flow X)) (sd_next (sv_sched s)) (sv_sched s')"
  have o: "is_object (jget ?c ''sources'')" using config by (simp add: printable_def)
  then have get: "getConfig w = Inr ?c" if "cw_config w = ?c" for w
    using that by (cases ?c) (auto simp: getConfig_def)
  obtain s1 where s1: "onHealth X (\<lambda>H c. (initHealth H c, Inr ())) s = (s1, Inr ())"
    by (simp add: onHealth_def onAssets_def)
  have c1: "sv_cfg s1 = sv_cfg s" "jobsOf s1 = jobsOf s"
    using leavesD [OF jobs_start(6) s1] leavesD [OF jobs_start(2) s1] by simp_all
  have "he_config (av_health (sv_env X s1)) = Inr ?c" using get [of "sv_cfg s1"] c1(1) by (simp add: assetsEnv_def)
  from refresh_ok [OF this o, of "''all''" JNull True "at_health (sv_assets s1)"] obtain c r
    where "runStartupChecks (av_health (sv_env X s1)) (at_health (sv_assets s1)) = (c, Inr r)"
    by (auto simp: runStartupChecks_def)
  then obtain s2 where s2: "onHealth X runStartupChecks s1 = (s2, Inr r)"
    by (simp add: onHealth_def onAssets_def)
  have j2: "jobsOf s2 = jobsOf s" using leavesD [OF jobs_start(2) s2] c1(2) by simp
  have restart: "\<exists>s' y. restartV X u = (s', Inr y) \<and> ?P s'" if "jobsOf u = jobsOf s" for u
  proof -
    have "tracked (sv_sched u)" "sd_next (sv_sched u) = sd_next (sv_sched s)"
      using that tracked_jobsOf [OF that] t by (auto simp: jobsOf_def)
    then show ?thesis
      using initScheduler_started [of "sv_sched u" "fe_sched (sx_flow X)"] by (simp add: restartV_def onSched_def)
  qed
  have g: "getV s1 = (s1, Inr ?c)" using get [of "sv_cfg s1"] c1(1) by (simp add: getV_def getsV_def)
  have "\<exists>s' y. bindV (tolerated (startVoices X)) (\<lambda>_. bindV (tolerated (onTimes X (\<lambda>P. forceRefresh P ?c))) (\<lambda>_.
      bindV (tolerated (prepareAudio X)) (\<lambda>_. bindV (tolerated (onAssets X migrateAll)) (\<lambda>_. restartV X)))) s2 = (s', Inr y) \<and> ?P s'"
    using restart j2 by (intro tolerated_on leave) simp_all
  then show ?thesis
    by (simp add: afterInit_def bindV_run s1 g bindV_pure printSources_ok [OF config] s2)
qed

text \<open>
  C10. Startup reaches the schedule: once the configuration is initialised and its sources are readable, the server ends its start
  with the scheduler running (all maintenance jobs the package accepts are alive and can be run by name, no other job of
  before is), whatever the prayer sources, the speech service, the outputs and the file system answer and whichever of
  the steps in between fails. When the initialisation fails, the start fails with its error and no job is touched.
\<close>

theorem startServer_schedules:
  assumes "tracked (sv_sched s)"
  shows "case initialise X s of
      (s0, Inl e) \<Rightarrow> startServer X s = (s0, Inl e) \<and> jobsOf s0 = jobsOf s
    | (s0, Inr _) \<Rightarrow> printable (cw_config (sv_cfg s0)) \<longrightarrow>
        (\<exists>s'. startServer X s = (s', Inr ()) \<and> Scheduler.started (fe_sched (sx_flow X)) (sd_next (sv_sched s)) (sv_sched s'))"
proof -
  obtain s0 r where i: "initialise X s = (s0, r)" by fastforce
  note j = leavesD [OF jobs_initialise i]
  have "tracked (sv_sched s0)" "sd_next (sv_sched s0) = sd_next (sv_sched s)"
    using j tracked_jobsOf [OF j] assms by (auto simp: jobsOf_def)
  with afterInit_schedules [of s0 X] j i show ?thesis
    by (cases r) (auto simp: startServer_eq bindV_def)
qed

text \<open>A start without outputs at which the providers are down, every call of the file system fails and the schema gives a fixed configuration.\<close>

definition brokenStart :: "utc serverEnv" where
  "brokenStart = sampleServerEnv (sampleFlowEnv\<lparr>
     fe_schemas := \<lparr>sc_config = (\<lambda>_. Inr sampleConfig), sc_provider = (\<lambda>m b c. Inr c)\<rparr>, fe_outputs := [],
     fe_assets := (sampleAssetEnvOf (downProv 404) JNull)\<lparr>av_fault := (\<lambda>_ _. Some (Error ''EIO''))\<rparr>\<rparr>)"

lemma brokenStart_init:
  "\<exists>s0. initialise brokenStart (storedServer versionOne Missing) = (s0, Inr ()) \<and> cw_config (sv_cfg s0) = sampleConfig"
proof -
  let ?s = "storedServer versionOne Missing" and ?S = "fe_schemas (sx_flow brokenStart)"
  have env: "processEnv (authOf ?s) ''JWT_SECRET'' = Some ''jwt''" "processEnv (authOf ?s) ''ENCRYPTION_SALT'' = Some ''salt''"
    by (simp_all add: processEnv_def authOf_def storedServer_def serverOf_def sampleWorld_def sampleEnv_def envVar_def)
  define w where "w = sampleWorld\<lparr>cw_config := versionOne, cw_local := Missing, cw_migrationKeys := Some [],
    cw_env := sampleEnv\<lparr>ce_strategyResolver := Some (getStrategy []), ce_secretKeysResolver := Some []\<rparr>\<rparr>"
  have none: "getSecretRequirementKeys [] = []" by (simp add: getSecretRequirementKeys_def)
  have wire: "bindV (ensureSecrets brokenStart) (\<lambda>_. bindV (wireResolvers brokenStart) f) ?s =
      f () (?s\<lparr>sv_flow := withConfig w (sv_flow ?s)\<rparr>)" for f :: "unit \<Rightarrow> unit sv"
    by (simp add: bindV_def ensureSecrets_def onAuth_def ensureSecret_def env wireResolvers_def onConfig_def withConfig_def
        setOutputStrategyResolver_def setOutputSecretKeysResolver_def w_def Let_def)
       (simp add: brokenStart_def sampleServerEnv_def sampleFlowEnv_def authOf_def storedServer_def serverOf_def sampleWorld_def none)
  obtain w' where w': "reload ?S (fe_fault (sx_flow brokenStart)) w = (w', Inr ())"
    "envVar (cw_env w') ''JWT_SECRET'' \<noteq> None" "envVar (cw_env w') ''ENCRYPTION_SALT'' \<noteq> None"
    by (simp add: w_def reload_def bindS_def loadDotenv_def brokenStart_def sampleServerEnv_def sampleFlowEnv_def
      loadLocal_def mergeLocal_def returnS_def passS_def sampleWorld_def processSensitiveFields_def getEncryptionKey_def envVar_def sampleEnv_def
      processSources_def roles_def mapSource_def jupd_def migrateConfig_def getProp_def migrateEnvStep_def
      migrateEnvSecrets_def applyEnvOverrides_def validateConstraints_def cleanSourceData_def
      validateSources_def parseSchema_def builtinProviders_eq getRegisteredProviders_def
      sensitive_builtin mergeDeep.simps protoKeys_def Let_def)
  have c: "cw_config w' = sampleConfig"
    using reload_result(5) [OF w'(1) refl] by (simp add: brokenStart_def sampleServerEnv_def)
  have "\<not> cw_isInitialized w" by (simp add: w_def sampleWorld_def)
  then have "initConfig ?S (fe_fault (sx_flow brokenStart)) w = (w'\<lparr>cw_isInitialized := True\<rparr>, Inr ())"
    using w' by (simp add: initConfig_def bindS_def requireEnv_def)
  then have "onConfig (initConfig ?S (fe_fault (sx_flow brokenStart))) (?s\<lparr>sv_flow := withConfig w (sv_flow ?s)\<rparr>) =
      (?s\<lparr>sv_flow := withConfig (w'\<lparr>cw_isInitialized := True\<rparr>) (withConfig w (sv_flow ?s))\<rparr>, Inr ())"
    by (simp add: onConfig_def withConfig_def)
  then show ?thesis using c by (simp add: initialise_def wire) (simp add: withConfig_def)
qed

theorem startServer_schedules_witness:
  "\<exists>s'. startServer brokenStart (storedServer versionOne Missing) = (s', Inr ()) \<and>
     map fst (maintKeys (sv_sched s')) = map fst maintenanceJobs"
proof -
  obtain s0 where s0: "initialise brokenStart (storedServer versionOne Missing) = (s0, Inr ())" "cw_config (sv_cfg s0) = sampleConfig"
    using brokenStart_init by blast
  have "tracked (sv_sched (storedServer versionOne Missing))"
    by (simp add: storedServer_def serverOf_def freshSched_def tracked_def)
  moreover have "printable sampleConfig" by (simp add: printable_def sampleConfig_def)
  moreover have "map fst (acceptedMaintenance (fe_sched (sx_flow brokenStart))) = map fst maintenanceJobs"
    by (simp add: brokenStart_def sampleServerEnv_def sampleFlowEnv_def sampleSched_def acceptedMaintenance_def maintenanceJobs_def)
  ultimately show ?thesis
    using startServer_schedules [of "storedServer versionOne Missing" brokenStart] s0 by (auto simp: Scheduler.started_def)
qed

end
