(* ===== verification/Client_Settings.thy ===== *)
theory Client_Settings
  imports Controllers "HOL-Library.Sublist"
begin

text \<open>
  The settings context of the browser client (\<open>contexts/SettingsContext.jsx\<close>) with the checks of
  \<open>utils/validation.js\<close>: the configuration last loaded or saved, the draft the forms edit, and the
  requests to the server. The state of the React component is the record \<open>settingsContext\<close>. An
  operation that awaits an answer is split there: its first half runs on the state of the call and
  captures what its closure captures, its second half runs on whatever the state is when the answer
  arrives. An answer of the server is an argument. A function passed to a state setter that throws
  unmounts the page, which is \<open>Inl\<close>.
\<close>

section \<open>The browser\<close>

text \<open>
  \<open>ce_text\<close> is \<open>String\<close> of the values whose text is not written out below, \<open>ce_regex\<close> compiles and
  tests a regular expression, \<open>ce_zone\<close> is \<open>Intl.DateTimeFormat\<close> on a time zone.
\<close>

record clientEnv =
  ce_text :: "json \<Rightarrow> string"
  ce_regex :: "string \<Rightarrow> string \<Rightarrow> bool res"
  ce_zone :: "json \<Rightarrow> bool"

definition js_text :: "clientEnv \<Rightarrow> json \<Rightarrow> string" where
  "js_text E v =
     (case v of
        JStr s \<Rightarrow> s
      | JNull \<Rightarrow> ''null''
      | JUndef \<Rightarrow> ''undefined''
      | JBool b \<Rightarrow> (if b then ''true'' else ''false'')
      | JNum q \<Rightarrow> (if q = of_int \<lfloor>q\<rfloor> \<and> \<bar>q\<bar> < 10 ^ 21 then int_str \<lfloor>q\<rfloor> else ce_text E v)
      | _ \<Rightarrow> ce_text E v)"

text \<open>
  \<open>parseFloat\<close>: the longest decimal prefix, with an exponent; \<open>None\<close> is \<open>NaN\<close>, and stands for the
  infinities too.
\<close>

definition digitsOf :: "string \<Rightarrow> string" where
  "digitsOf s = takeWhile (\<lambda>c. digit_val c \<noteq> None) s"

definition digitsNum :: "string \<Rightarrow> nat" where
  "digitsNum s = (case digits_val 0 s of Some n \<Rightarrow> n | None \<Rightarrow> 0)"

definition signOf :: "string \<Rightarrow> rat \<times> string" where
  "signOf s =
     (case s of
        [] \<Rightarrow> (1, [])
      | c # cs \<Rightarrow> if c = CHR ''-'' then (- 1, cs) else if c = CHR ''+'' then (1, cs) else (1, s))"

definition exponentOf :: "string \<Rightarrow> rat" where
  "exponentOf s =
     (case s of
        [] \<Rightarrow> 1
      | c # cs \<Rightarrow>
          if c \<noteq> CHR ''e'' \<and> c \<noteq> CHR ''E'' then 1
          else let (sg, ds) = signOf cs; n = digitsNum (digitsOf ds) in
            if sg < 0 then 1 / 10 ^ n else 10 ^ n)"

definition parseFloatText :: "string \<Rightarrow> rat option" where
  "parseFloatText s =
     (let (sg, t) = signOf (dropWhile is_ws s);
          whole = digitsOf t; rest = drop (length whole) t;
          frac = (case rest of [] \<Rightarrow> [] | c # cs \<Rightarrow> if c = CHR ''.'' then digitsOf cs else []);
          rest = (case rest of [] \<Rightarrow> [] | c # cs \<Rightarrow> if c = CHR ''.'' then drop (length frac) cs else rest) in
      if whole = [] \<and> frac = [] then None
      else Some (sg * (of_nat (digitsNum whole) + of_nat (digitsNum frac) / 10 ^ length frac) * exponentOf rest))"

definition parseFloat :: "clientEnv \<Rightarrow> json \<Rightarrow> rat option" where
  "parseFloat E v = (case v of JNum q \<Rightarrow> Some q | _ \<Rightarrow> parseFloatText (js_text E v))"

section \<open>Validation\<close>

text \<open>\<open>!v || v.trim() === ""\<close>\<close>

definition blankText :: "json \<Rightarrow> bool res" where
  "blankText v =
     (if \<not> truthy v then Inr True
      else case v of JStr s \<Rightarrow> Inr (trim s = []) | _ \<Rightarrow> Inl (TypeError ''trim is not a function''))"

definition unreachable :: "clientEnv \<Rightarrow> httpResponse res \<Rightarrow> string option" where
  "unreachable E answer =
     (case bindR answer (\<lambda>res. bindR (hr_json res) (\<lambda>data. bindR (getProp data ''valid'') (\<lambda>valid. Inr (data, valid)))) of
        Inl _ \<Rightarrow> Some ''Validation check failed (Network error)''
      | Inr (data, valid) \<Rightarrow>
          if truthy valid then None
          else Some (''URL unreachable: '' @ js_text E (orElse (jget data ''error'') (JStr ''Unknown error''))))"

text \<open>\<open>validateTrigger\<close>, with the answer of the server to the check of the address.\<close>

definition clientTrigger :: "clientEnv \<Rightarrow> httpResponse res \<Rightarrow> json \<Rightarrow> string option res" where
  "clientTrigger E answer trigger =
     bindR (getProp trigger ''enabled'') (\<lambda>enabled.
     if \<not> truthy enabled then Inr None
     else if jget trigger ''type'' = JStr ''tts'' then
       bindR (blankText (jget trigger ''template'')) (\<lambda>blank.
       Inr (if blank then Some ''TTS template is required'' else None))
     else if jget trigger ''type'' = JStr ''file'' then
       Inr (if \<not> truthy (jget trigger ''path'') then Some ''A file must be selected'' else None)
     else if jget trigger ''type'' = JStr ''url'' then
       bindR (blankText (jget trigger ''url'')) (\<lambda>blank.
       Inr (if blank then Some ''URL is required''
            else if \<not> endsWith (toLowerCase (template (jget trigger ''url''))) ''.mp3'' then Some ''URL must point to an .mp3 file''
            else unreachable E answer))
     else Inr None)"

text \<open>A loop that returns the first message.\<close>

fun firstMessage :: "('a \<Rightarrow> string option res) \<Rightarrow> 'a list \<Rightarrow> string option res" where
  "firstMessage f [] = Inr None"
| "firstMessage f (x # xs) =
     bindR (f x) (\<lambda>r. case r of None \<Rightarrow> firstMessage f xs | Some m \<Rightarrow> Inr (Some m))"

definition missing :: "json \<Rightarrow> bool" where
  "missing v = (v = JUndef \<or> v = JNull \<or> v = JStr [])"

definition checkParam :: "clientEnv \<Rightarrow> json \<Rightarrow> json \<Rightarrow> string option res" where
  "checkParam E source param =
     bindR (getProp param ''key'') (\<lambda>key.
     let val = jget source (js_text E key); constraints = jget param ''constraints''; pattern = jget constraints ''pattern'' in
     if truthy (jget constraints ''required'') \<and> missing val
     then Inr (Some (js_text E (jget param ''label'') @ '' is required''))
     else if truthy pattern \<and> truthy val
     then bindR (ce_regex E (js_text E pattern) (js_text E val)) (\<lambda>matches.
          Inr (if matches then None else Some (''Invalid format for '' @ js_text E (jget param ''label''))))
     else Inr None)"

definition validateSourceSettings :: "clientEnv \<Rightarrow> json \<Rightarrow> json \<Rightarrow> string option res" where
  "validateSourceSettings E source providerMetadata =
     (if \<not> truthy source \<or> \<not> truthy providerMetadata \<or> jget source ''enabled'' = JBool False then Inr None
      else case jget providerMetadata ''parameters'' of
        JArr ps \<Rightarrow> firstMessage (checkParam E source) ps
      | JStr _ \<Rightarrow> Inr None
      | _ \<Rightarrow> Inl (TypeError ''parameters is not iterable''))"

section \<open>The state\<close>

record settingsContext =
  sx_config :: json
  sx_draft :: json
  sx_health :: json
  sx_loading :: bool
  sx_saving :: bool
  sx_paused :: bool
  sx_voices :: json
  sx_voicesLoading :: bool
  sx_voicesError :: json
  sx_providers :: json
  sx_providersLoading :: bool
  sx_auth :: json

definition offline :: json where
  "offline = JObj [(''healthy'', JBool False)]"

definition freshSettings :: settingsContext where
  "freshSettings =
     \<lparr>sx_config = JNull, sx_draft = JNull,
      sx_health = JObj [(''local'', offline), (''tts'', offline), (''voicemonkey'', offline)],
      sx_loading = True, sx_saving = False, sx_paused = False, sx_voices = JArr [], sx_voicesLoading = False,
      sx_voicesError = JNull, sx_providers = JArr [], sx_providersLoading = False, sx_auth = JNull\<rparr>"

text \<open>
  Requests in flight, with what the closure that sent them holds: a fetch of the settings knows
  nothing more, a save has its configuration, and the two operations that reload at their end have
  the \<open>fetchSettings\<close> of their render, that is its \<open>pausedPolling\<close>.
\<close>

datatype clientOp =
    FetchSettings
  | FetchHealth
  | FetchVoices
  | FetchProviders
  | RefreshHealth
  | SaveSettings json
  | ResetToDefaults bool
  | UpdateEnv string json bool
  | Reloading

section \<open>Loading\<close>

definition handleRateLimit :: "settingsContext \<Rightarrow> settingsContext" where
  "handleRateLimit s = s\<lparr>sx_paused := True\<rparr>"

definition fetchSettingsStart :: "bool \<Rightarrow> settingsContext \<Rightarrow> settingsContext \<times> bool" where
  "fetchSettingsStart paused s = (if paused then (s, False) else (s\<lparr>sx_loading := True\<rparr>, True))"

definition settingsEndpoint :: "settingsContext \<Rightarrow> string" where
  "settingsEndpoint s = (if truthy (sx_auth s) then ''/api/settings'' else ''/api/settings/public'')"

definition fetchSettings :: "httpResponse res \<Rightarrow> settingsContext \<Rightarrow> settingsContext" where
  "fetchSettings answer s =
     (case answer of
        Inl _ \<Rightarrow> s
      | Inr res \<Rightarrow>
          if hr_status res = 429 then handleRateLimit s
          else if hr_ok res then
            (case hr_json res of Inl _ \<Rightarrow> s | Inr data \<Rightarrow> s\<lparr>sx_config := data, sx_draft := json_copy data\<rparr>)
          else s)\<lparr>sx_loading := False\<rparr>"

definition fetchHealth :: "httpResponse res \<Rightarrow> settingsContext \<Rightarrow> settingsContext" where
  "fetchHealth answer s =
     (case answer of
        Inl _ \<Rightarrow> s
      | Inr res \<Rightarrow>
          if hr_status res = 429 then handleRateLimit s
          else if hr_ok res \<or> hr_status res = 503 then
            (case hr_json res of Inl _ \<Rightarrow> s | Inr data \<Rightarrow> s\<lparr>sx_health := data\<rparr>)
          else s)"

definition fetchVoicesStart :: "settingsContext \<Rightarrow> settingsContext" where
  "fetchVoicesStart s = s\<lparr>sx_voicesLoading := True, sx_voicesError := JNull\<rparr>"

definition fetchVoices :: "httpResponse res \<Rightarrow> settingsContext \<Rightarrow> settingsContext" where
  "fetchVoices answer s =
     (case answer of
        Inl e \<Rightarrow> s\<lparr>sx_voicesError := JStr (err_message e)\<rparr>
      | Inr res \<Rightarrow>
          if hr_ok res then
            (case hr_json res of
               Inl e \<Rightarrow> s\<lparr>sx_voicesError := JStr (err_message e)\<rparr>
             | Inr data \<Rightarrow> s\<lparr>sx_voices := data\<rparr>)
          else s\<lparr>sx_voicesError := JStr ''Failed to fetch voices''\<rparr>)\<lparr>sx_voicesLoading := False\<rparr>"

definition fetchProvidersStart :: "settingsContext \<Rightarrow> settingsContext \<times> bool" where
  "fetchProvidersStart s =
     (if truthy (sx_auth s) then (s\<lparr>sx_providersLoading := True\<rparr>, True) else (s, False))"

definition fetchProviders :: "httpResponse res \<Rightarrow> settingsContext \<Rightarrow> settingsContext" where
  "fetchProviders answer s =
     (case answer of
        Inl _ \<Rightarrow> s
      | Inr res \<Rightarrow>
          if hr_ok res then (case hr_json res of Inl _ \<Rightarrow> s | Inr data \<Rightarrow> s\<lparr>sx_providers := data\<rparr>)
          else s)\<lparr>sx_providersLoading := False\<rparr>"

text \<open>
  The effect that runs on mount and whenever \<open>isAuthenticated\<close> or \<open>pausedPolling\<close> changes, with the
  requests it sends.
\<close>

definition loadAll :: "settingsContext \<Rightarrow> settingsContext \<times> clientOp list" where
  "loadAll s =
     (if sx_paused s then (s, [])
      else
        let (s, settings) = fetchSettingsStart (sx_paused s) s;
            ops = (if settings then [FetchSettings] else []) @ [FetchHealth] in
        if \<not> truthy (sx_auth s) then (s, ops)
        else
          let (s, providers) = fetchProvidersStart (fetchVoicesStart s) in
          (s, ops @ [FetchVoices] @ (if providers then [FetchProviders] else [])))"

definition clientRefreshHealth :: "httpResponse res \<Rightarrow> settingsContext \<Rightarrow> settingsContext \<times> json" where
  "clientRefreshHealth answer s =
     (case answer of
        Inl _ \<Rightarrow> (s, JUndef)
      | Inr res \<Rightarrow>
          (case hr_json res of
             Inl _ \<Rightarrow> (s, JUndef)
           | Inr data \<Rightarrow>
               if hr_status res = 429 then
                 (case getProp data ''message'' of
                    Inl _ \<Rightarrow> (s, JUndef)
                  | Inr m \<Rightarrow> (s, JObj [(''success'', JBool False), (''error'', orElse m (JStr ''Too many requests''))]))
               else if hr_ok res then (s\<lparr>sx_health := spreadMerge (sx_health s) data\<rparr>, data)
               else (s, JUndef)))"

section \<open>Editing the draft\<close>

text \<open>The loop of \<open>updateSetting\<close> and its last assignment.\<close>

fun setIn :: "string list \<Rightarrow> string \<Rightarrow> json \<Rightarrow> json \<Rightarrow> json res" where
  "setIn [] final v target = setProp target final v"
| "setIn (k # ks) final v target =
     bindR (getProp target k) (\<lambda>old.
     bindR (setIn ks final v (if old = JUndef then JObj [] else old)) (setProp target k))"

definition updateSetting :: "string \<Rightarrow> json \<Rightarrow> settingsContext \<Rightarrow> settingsContext res" where
  "updateSetting path value s =
     (if \<not> truthy (sx_draft s) then Inr s
      else
        let ps = split_on (CHR ''.'') path in
        bindR (setIn (butlast ps) (last ps) value (json_copy (sx_draft s))) (\<lambda>next.
        Inr (s\<lparr>sx_draft := next\<rparr>)))"

text \<open>An assignment below a path of existing properties.\<close>

definition modPath :: "string list \<Rightarrow> (json \<Rightarrow> json res) \<Rightarrow> json \<Rightarrow> json res" where
  "modPath ks f = foldr modProp ks f"

definition clampMinutes :: "clientEnv \<Rightarrow> json \<Rightarrow> int" where
  "clampMinutes E minutes =
     (case parseInt (js_text E minutes) of None \<Rightarrow> 0 | Some raw \<Rightarrow> min 60 (max 0 raw))"

text \<open>The prayers a bulk change visits, and the path of what it changes there.\<close>

definition offsetPrayers :: "string \<Rightarrow> string list" where
  "offsetPrayers eventType = filter (\<lambda>prayer. \<not> (eventType = ''preIqamah'' \<and> prayer = ''sunrise'')) PRAYER_NAMES"

definition offsetPath :: "string \<Rightarrow> string \<Rightarrow> string list" where
  "offsetPath eventType prayer = [''automation'', ''triggers'', prayer, eventType]"

definition iqamahPrayers :: "string list" where
  "iqamahPrayers = filter (\<lambda>prayer. prayer \<noteq> ''sunrise'') PRAYER_NAMES"

definition iqamahPath :: "string \<Rightarrow> string list" where
  "iqamahPath prayer = [''prayers'', prayer]"

definition setAll :: "string list list \<Rightarrow> string \<Rightarrow> json \<Rightarrow> json \<Rightarrow> json res" where
  "setAll paths key v config =
     foldR (\<lambda>p c. if truthy (jget_path c p) then modPath p (\<lambda>t. setProp t key v) c else Inr c) paths config"

definition bulkUpdate ::
  "string list list \<Rightarrow> string \<Rightarrow> json \<Rightarrow> settingsContext \<Rightarrow> (settingsContext \<times> nat) res" where
  "bulkUpdate paths key v s =
     (if \<not> truthy (sx_draft s) then Inr (s, 0)
      else bindR (setAll paths key v (json_copy (sx_draft s))) (\<lambda>next.
        Inr (s\<lparr>sx_draft := next\<rparr>, length (filter (\<lambda>p. truthy (jget_path (sx_draft s) p)) paths))))"

definition bulkUpdateOffsets ::
  "clientEnv \<Rightarrow> string \<Rightarrow> json \<Rightarrow> settingsContext \<Rightarrow> (settingsContext \<times> nat) res" where
  "bulkUpdateOffsets E eventType minutes =
     bulkUpdate (map (offsetPath eventType) (offsetPrayers eventType)) ''offsetMinutes'' (JNum (of_int (clampMinutes E minutes)))"

definition bulkUpdateIqamahOffsets ::
  "clientEnv \<Rightarrow> json \<Rightarrow> settingsContext \<Rightarrow> (settingsContext \<times> nat) res" where
  "bulkUpdateIqamahOffsets E minutes =
     bulkUpdate (map iqamahPath iqamahPrayers) ''iqamahOffset'' (JNum (of_int (clampMinutes E minutes)))"

definition resetDraft :: "settingsContext \<Rightarrow> settingsContext" where
  "resetDraft s = (if truthy (sx_config s) then s\<lparr>sx_draft := json_copy (sx_config s)\<rparr> else s)"

text \<open>\<open>JSON.stringify(a) !== JSON.stringify(b)\<close>\<close>

definition differs :: "json \<Rightarrow> json \<Rightarrow> bool" where
  "differs a b = (json_copy a \<noteq> json_copy b)"

definition hasUnsavedChanges :: "settingsContext \<Rightarrow> bool" where
  "hasUnsavedChanges s =
     (truthy (sx_config s) \<and> truthy (sx_draft s) \<and> differs (sx_config s) (sx_draft s))"

definition getVal :: "json \<Rightarrow> string \<Rightarrow> json" where
  "getVal obj p =
     foldl (\<lambda>acc part. if truthy acc \<and> jget acc part \<noteq> JUndef then jget acc part else JUndef) obj (split_on (CHR ''.'') p)"

definition isSectionDirty :: "string \<Rightarrow> settingsContext \<Rightarrow> bool" where
  "isSectionDirty path s =
     (truthy (sx_config s) \<and> truthy (sx_draft s) \<and>
      differs (getVal (sx_config s) path) (getVal (sx_draft s) path))"

section \<open>Saving\<close>

text \<open>A check refuses with a message, lets pass, or throws; the first refusal ends the save.\<close>

definition andThen :: "string option res \<Rightarrow> string option res \<Rightarrow> string option res" where
  "andThen r k = bindR r (\<lambda>m. case m of None \<Rightarrow> k | Some t \<Rightarrow> Inr (Some t))"

definition coordinateOk :: "rat option \<Rightarrow> rat \<Rightarrow> bool" where
  "coordinateOk n bound = (case n of None \<Rightarrow> False | Some q \<Rightarrow> \<not> q < - bound \<and> \<not> q > bound)"

definition checkLocation :: "clientEnv \<Rightarrow> json \<Rightarrow> string option" where
  "checkLocation E config =
     (let location = jget config ''location''; coordinates = orElse (jget location ''coordinates'') (JObj []) in
      if \<not> truthy location then None
      else if \<not> coordinateOk (parseFloat E (jget coordinates ''lat'')) 90
      then Some ''Validation Error: Latitude must be between -90 and 90''
      else if \<not> coordinateOk (parseFloat E (jget coordinates ''long'')) 180
      then Some ''Validation Error: Longitude must be between -180 and 180''
      else if \<not> ce_zone E (jget location ''timezone'') then Some ''Validation Error: Invalid Timezone''
      else None)"

text \<open>\<open>providers.find((p) => p.id === source.type)\<close>\<close>

fun findProvider :: "json \<Rightarrow> json list \<Rightarrow> json res" where
  "findProvider type [] = Inr JUndef"
| "findProvider type (p # ps) =
     bindR (getProp p ''id'') (\<lambda>i. if i = type \<and> \<not> typeof_object i then Inr p else findProvider type ps)"

definition providerFor :: "json \<Rightarrow> json \<Rightarrow> json res" where
  "providerFor known type =
     (case known of JArr ps \<Rightarrow> findProvider type ps | _ \<Rightarrow> Inl (TypeError ''providers.find is not a function''))"

definition sourceProblem :: "clientEnv \<Rightarrow> json \<Rightarrow> json \<Rightarrow> string \<Rightarrow> string option res" where
  "sourceProblem E known sources role =
     (let source = jget sources role in
      if \<not> truthy source \<or> (role = ''backup'' \<and> jget source ''enabled'' = JBool False) then Inr None
      else bindR (providerFor known (jget source ''type'')) (\<lambda>providerMeta.
        bindR (validateSourceSettings E source providerMeta) (\<lambda>sourceError.
        Inr (map_option (\<lambda>m. ''Validation Error ('' @ toUpperCase role @ '' Source): '' @ m) sourceError))))"

definition sourceProblems :: "clientEnv \<Rightarrow> json \<Rightarrow> json \<Rightarrow> string option res" where
  "sourceProblems E known config =
     (let sources = jget config ''sources'' in
      if truthy sources then firstMessage (sourceProblem E known sources) [''primary'', ''backup''] else Inr None)"

text \<open>
  The triggers whose check is awaited, and the warnings the checks give. Each trigger asks the
  server at most once, so the answers are a function of the prayer and the event.
\<close>

definition triggerKinds :: "string list" where
  "triggerKinds = [''preAdhan'', ''adhan'', ''preIqamah'', ''iqamah'']"

definition configTrigger :: "json \<Rightarrow> string \<Rightarrow> string \<Rightarrow> json" where
  "configTrigger config prayer type = jget (jget (triggersOf config) prayer) type"

definition prayersOf :: "json \<Rightarrow> string list" where
  "prayersOf config = (if truthy (jget config ''prayers'') then jkeys (jget config ''prayers'') else [])"

definition enabledTriggers :: "json \<Rightarrow> (string \<times> string) list" where
  "enabledTriggers config =
     filter (\<lambda>(prayer, type). truthy (jget (triggersOf config) prayer) \<and> truthy (configTrigger config prayer type) \<and>
                truthy (jget (configTrigger config prayer type) ''enabled''))
       (List.product (prayersOf config) triggerKinds)"

definition verifyTriggers ::
  "clientEnv \<Rightarrow> (string \<Rightarrow> string \<Rightarrow> httpResponse res) \<Rightarrow> json \<Rightarrow> string list res" where
  "verifyTriggers E asked config =
     foldR (\<lambda>(prayer, type) warningsList.
       bindR (clientTrigger E (asked prayer type) (configTrigger config prayer type)) (\<lambda>error.
       Inr (case error of None \<Rightarrow> warningsList | Some m \<Rightarrow> warningsList @ [niceName prayer type @ '': '' @ m])))
       (enabledTriggers config) []"

definition refusal :: "json \<Rightarrow> json" where
  "refusal e = JObj [(''success'', JBool False), (''error'', e)]"

definition caught :: "json res \<Rightarrow> json" where
  "caught r = (case r of Inl e \<Rightarrow> refusal (JStr (err_message e)) | Inr reply \<Rightarrow> reply)"

text \<open>The argument of \<open>saveSettings\<close>: nothing or a configuration, or the click event of a button.\<close>

datatype saveArg = Clicked | Override json

definition configToSave :: "saveArg \<Rightarrow> settingsContext \<Rightarrow> json" where
  "configToSave arg s =
     (case arg of
        Clicked \<Rightarrow> sx_draft s
      | Override c \<Rightarrow> if truthy c \<and> \<not> truthy (jget c ''nativeEvent'') then c else sx_draft s)"

text \<open>The save up to its first await: a reply, or the configuration to verify and send.\<close>

definition staticCheck :: "clientEnv \<Rightarrow> json \<Rightarrow> json \<Rightarrow> string option res" where
  "staticCheck E known config = andThen (Inr (checkLocation E config)) (sourceProblems E known config)"

definition saveStart :: "clientEnv \<Rightarrow> saveArg \<Rightarrow> settingsContext \<Rightarrow> settingsContext \<times> (json + json)" where
  "saveStart E arg s =
     (let chosen = configToSave arg s; config = json_copy chosen in
      if chosen = JUndef then (s\<lparr>sx_saving := False\<rparr>, Inl (refusal (JStr ''\"undefined\" is not valid JSON'')))
      else if \<not> truthy config then (s\<lparr>sx_saving := False\<rparr>, Inl (refusal (JStr ''No configuration to save'')))
      else case staticCheck E (sx_providers s) config of
        Inl e \<Rightarrow> (s\<lparr>sx_saving := False\<rparr>, Inl (caught (Inl e)))
      | Inr (Some m) \<Rightarrow> (s\<lparr>sx_saving := False\<rparr>, Inl (refusal (JStr m)))
      | Inr None \<Rightarrow> (s\<lparr>sx_saving := True\<rparr>, Inr config))"

definition hasItems :: "json \<Rightarrow> bool" where
  "hasItems v =
     (case v of JArr xs \<Rightarrow> xs \<noteq> [] | JStr t \<Rightarrow> t \<noteq> [] | _ \<Rightarrow> js_gt (jget v ''length'') (JNum 0))"

text \<open>The answers to a save: one per trigger, the one to the update, and its \<open>Retry-After\<close> header.\<close>

record saveAnswers =
  sa_validate :: "string \<Rightarrow> string \<Rightarrow> httpResponse res"
  sa_update :: "json \<Rightarrow> httpResponse res"
  sa_retryAfter :: json

definition saved ::
  "clientEnv \<Rightarrow> saveAnswers \<Rightarrow> json \<Rightarrow> httpResponse \<Rightarrow> settingsContext \<Rightarrow> settingsContext \<times> json res" where
  "saved E N config res s =
     (case hr_json res of
        Inl e \<Rightarrow> (s, Inl e)
      | Inr data \<Rightarrow>
          if hr_status res = 429 then
            (s, bindR (getProp data ''message'') (\<lambda>m.
                Inr (refusal (orElse m (JStr (''Too many requests. Please wait '' @
                  js_text E (orElse (sa_retryAfter N) (JNum 60)) @ '' seconds.''))))))
          else if hr_ok res then
            (s\<lparr>sx_config := config, sx_draft := json_copy config\<rparr>,
             bindR (getProp data ''warnings'') (\<lambda>w.
               let backendWarnings = orElse w (JArr []) in
               Inr (JObj [(''success'', JBool True), (''message'', jget data ''message''),
                 (''warning'', JBool (hasItems backendWarnings)), (''warningsList'', backendWarnings)])))
          else (s, bindR (getProp data ''error'') (\<lambda>e. Inr (refusal e))))"

text \<open>
  The rest of the save, on the state at the end: what was sent to the server, if anything, and the
  reply.
\<close>

definition saveFinish ::
  "clientEnv \<Rightarrow> saveAnswers \<Rightarrow> json \<Rightarrow> settingsContext \<Rightarrow> settingsContext \<times> json option \<times> json" where
  "saveFinish E N config s =
     (case verifyTriggers E (sa_validate N) config of
        Inl e \<Rightarrow> (s\<lparr>sx_saving := False\<rparr>, None, caught (Inl e))
      | Inr [] \<Rightarrow>
          (case sa_update N config of
             Inl e \<Rightarrow> (s\<lparr>sx_saving := False\<rparr>, Some config, caught (Inl e))
           | Inr res \<Rightarrow>
               (case saved E N config res s of
                  (s', r) \<Rightarrow> (s'\<lparr>sx_saving := False\<rparr>, Some config, caught r)))
      | Inr ws \<Rightarrow>
          (s\<lparr>sx_saving := False\<rparr>, None,
           JObj [(''success'', JBool False), (''error'', JStr ''Verification Failed''), (''warningsList'', JArr (map JStr ws))]))"

section \<open>Resetting and the environment\<close>

text \<open>
  Both end with a reload of the settings by the \<open>fetchSettings\<close> of the render that started them;
  the reply waits for it.
\<close>

definition resetToDefaultsStart :: "settingsContext \<Rightarrow> settingsContext" where
  "resetToDefaultsStart s = s\<lparr>sx_saving := True\<rparr>"

definition reloadThen :: "bool \<Rightarrow> settingsContext \<Rightarrow> settingsContext \<times> clientOp option \<times> json" where
  "reloadThen paused s =
     (case fetchSettingsStart paused s of
        (s, True) \<Rightarrow> (s, Some Reloading, JUndef)
      | (s, False) \<Rightarrow> (s\<lparr>sx_saving := False\<rparr>, None, JObj [(''success'', JBool True)]))"

definition resetToDefaults ::
  "bool \<Rightarrow> httpResponse res \<Rightarrow> settingsContext \<Rightarrow> settingsContext \<times> clientOp option \<times> json" where
  "resetToDefaults paused answer s =
     (case answer of
        Inl e \<Rightarrow> (s\<lparr>sx_saving := False\<rparr>, None, caught (Inl e))
      | Inr res \<Rightarrow>
          if hr_ok res then reloadThen paused s
          else (s\<lparr>sx_saving := False\<rparr>, None,
                caught (bindR (hr_json res) (\<lambda>err. bindR (getProp err ''error'') (\<lambda>e. Inr (refusal e))))))"

definition envSettingPath :: "string \<Rightarrow> string" where
  "envSettingPath key = (if key = ''BASE_URL'' then ''automation.baseUrl'' else ''automation.'' @ key)"

definition updateEnvSetting ::
  "bool \<Rightarrow> string \<Rightarrow> json \<Rightarrow> httpResponse res \<Rightarrow> settingsContext \<Rightarrow> (settingsContext \<times> clientOp option \<times> json) res" where
  "updateEnvSetting paused key value answer s =
     (case bindR answer (\<lambda>res. bindR (hr_json res) (\<lambda>data. Inr (res, data))) of
        Inl e \<Rightarrow> Inr (s\<lparr>sx_saving := False\<rparr>, None, caught (Inl e))
      | Inr (res, data) \<Rightarrow>
          if hr_ok res then bindR (updateSetting (envSettingPath key) value s) (\<lambda>s. Inr (reloadThen paused s))
          else Inr (s\<lparr>sx_saving := False\<rparr>, None,
                caught (bindR (getProp data ''message'') (\<lambda>m. Inr (refusal (orElse m (JStr ''Update failed'')))))))"

section \<open>The health of a section\<close>

definition issue :: "string \<Rightarrow> string \<Rightarrow> json" where
  "issue name type = JObj [(''trigger'', JStr name), (''type'', JStr type)]"

definition targetIssues :: "clientEnv \<Rightarrow> settingsContext \<Rightarrow> string \<Rightarrow> json \<Rightarrow> json list" where
  "targetIssues E s name targetId =
     (let k = js_text E targetId; report = jget (sx_health s) k;
          outputConfig = jget (jget (jget (sx_draft s) ''automation'') ''outputs'') k in
      if targetId = JStr ''browser'' then []
      else if truthy outputConfig \<and> \<not> truthy (jget outputConfig ''enabled'') then [issue name (k @ '' Output Disabled'')]
      else if truthy report \<and> \<not> truthy (jget report ''healthy'') then [issue name (k @ '' Output Offline'')]
      else [])"

definition triggerIssues :: "clientEnv \<Rightarrow> settingsContext \<Rightarrow> json \<Rightarrow> string \<Rightarrow> json list res" where
  "triggerIssues E s trigger name =
     (if \<not> truthy trigger \<or> \<not> truthy (jget trigger ''enabled'') then Inr []
      else bindR (triggerTargets trigger) (\<lambda>targets.
        Inr ((if jget trigger ''type'' = JStr ''tts'' \<and> \<not> truthy (jget (jget (sx_health s) ''tts'') ''healthy'')
              then [issue name ''TTS Service Offline''] else []) @
             concat (map (targetIssues E s name) targets))))"

definition prayerIssues :: "clientEnv \<Rightarrow> settingsContext \<Rightarrow> string \<Rightarrow> json \<Rightarrow> json list \<Rightarrow> json list res" where
  "prayerIssues E s prayer triggers issues =
     (if triggers = JUndef \<or> triggers = JNull then Inl (TypeError ''Cannot convert undefined or null to object'')
      else foldR (\<lambda>(type, trigger) is. bindR (triggerIssues E s trigger (prayer @ '' '' @ type)) (\<lambda>js. Inr (is @ js)))
             (entries triggers) issues)"

definition partOf :: "string list \<Rightarrow> nat \<Rightarrow> string" where
  "partOf ps i = (if i < length ps then ps ! i else ''undefined'')"

definition sectionIssues :: "clientEnv \<Rightarrow> string \<Rightarrow> settingsContext \<Rightarrow> json list res" where
  "sectionIssues E path s =
     (let triggers = triggersOf (sx_draft s); ps = split_on (CHR ''.'') path in
      if startsWith path ''prayers.'' then
        (let prayer = partOf ps 1 in
         if truthy (jget triggers prayer) then prayerIssues E s prayer (jget triggers prayer) [] else Inr [])
      else if path = ''automation'' \<or> path = ''automation.triggers'' then
        foldR (\<lambda>(prayer, ts). prayerIssues E s prayer ts) (entries (orElse triggers (JObj []))) []
      else if str_includes path ''automation.triggers.'' then
        (let prayer = partOf ps 2; type = partOf ps 3 in
         triggerIssues E s (jget (jget triggers prayer) type) (prayer @ '' '' @ type))
      else Inr [])"

definition getSectionHealth :: "clientEnv \<Rightarrow> string \<Rightarrow> settingsContext \<Rightarrow> json res" where
  "getSectionHealth E path s =
     (if \<not> truthy (sx_draft s) \<or> \<not> truthy (sx_health s) \<or> \<not> truthy (getVal (sx_draft s) path)
      then Inr (JObj [(''healthy'', JBool True), (''issues'', JArr [])])
      else bindR (sectionIssues E path s) (\<lambda>issues.
        Inr (JObj [(''healthy'', JBool (issues = [])), (''issues'', JArr issues)])))"

section \<open>All orders of events\<close>

text \<open>
  What happens in the page: the forms and buttons, a change of the session, the end of a pause. The
  effect that loads everything runs when the session or the pause changed.
\<close>

datatype pageEvent =
    Edit string json
  | BulkOffsets string json
  | BulkIqamah json
  | Discard
  | Save saveArg
  | Reset
  | SetEnv string json
  | Refresh
  | RefreshVoices
  | RefreshProviders
  | CheckHealth
  | Session json
  | Resume

definition pageStep ::
  "clientEnv \<Rightarrow> pageEvent \<Rightarrow> settingsContext \<Rightarrow> (settingsContext \<times> clientOp list) res" where
  "pageStep E ev s =
     (case ev of
        Edit path value \<Rightarrow> bindR (updateSetting path value s) (\<lambda>s. Inr (s, []))
      | BulkOffsets eventType minutes \<Rightarrow> bindR (bulkUpdateOffsets E eventType minutes s) (\<lambda>(s, _). Inr (s, []))
      | BulkIqamah minutes \<Rightarrow> bindR (bulkUpdateIqamahOffsets E minutes s) (\<lambda>(s, _). Inr (s, []))
      | Discard \<Rightarrow> Inr (resetDraft s, [])
      | Save arg \<Rightarrow>
          Inr (case saveStart E arg s of (s, Inl _) \<Rightarrow> (s, []) | (s, Inr config) \<Rightarrow> (s, [SaveSettings config]))
      | Reset \<Rightarrow> Inr (resetToDefaultsStart s, [ResetToDefaults (sx_paused s)])
      | SetEnv key value \<Rightarrow> Inr (s\<lparr>sx_saving := True\<rparr>, [UpdateEnv key value (sx_paused s)])
      | Refresh \<Rightarrow> Inr (case fetchSettingsStart (sx_paused s) s of (s, b) \<Rightarrow> (s, if b then [FetchSettings] else []))
      | RefreshVoices \<Rightarrow> Inr (fetchVoicesStart s, [FetchVoices])
      | RefreshProviders \<Rightarrow> Inr (case fetchProvidersStart s of (s, b) \<Rightarrow> (s, if b then [FetchProviders] else []))
      | CheckHealth \<Rightarrow> Inr (s, [RefreshHealth])
      | Session auth \<Rightarrow> Inr (if auth = sx_auth s then (s, []) else loadAll (s\<lparr>sx_auth := auth\<rparr>))
      | Resume \<Rightarrow> Inr (if sx_paused s then loadAll (s\<lparr>sx_paused := False\<rparr>) else (s, [])))"

text \<open>The answer to a request in flight, with what is sent next.\<close>

definition settleClient ::
  "clientEnv \<Rightarrow> saveAnswers \<Rightarrow> httpResponse res \<Rightarrow> clientOp \<Rightarrow> settingsContext \<Rightarrow>
   (settingsContext \<times> clientOp list) res" where
  "settleClient E N answer op s =
     (let next = (\<lambda>(s, op, reply). (s, case op of None \<Rightarrow> [] | Some op \<Rightarrow> [op])) in
      case op of
        FetchSettings \<Rightarrow> Inr (fetchSettings answer s, [])
      | FetchHealth \<Rightarrow> Inr (fetchHealth answer s, [])
      | FetchVoices \<Rightarrow> Inr (fetchVoices answer s, [])
      | FetchProviders \<Rightarrow> Inr (fetchProviders answer s, [])
      | RefreshHealth \<Rightarrow> Inr (fst (clientRefreshHealth answer s), [])
      | SaveSettings config \<Rightarrow> Inr (fst (saveFinish E N config s), [])
      | ResetToDefaults paused \<Rightarrow> Inr (next (resetToDefaults paused answer s))
      | UpdateEnv key value paused \<Rightarrow> bindR (updateEnvSetting paused key value answer s) (\<lambda>r. Inr (next r))
      | Reloading \<Rightarrow> Inr ((fetchSettings answer s)\<lparr>sx_saving := False\<rparr>, []))"

text \<open>What the page and the server send is JSON.\<close>

fun jsonEvent :: "pageEvent \<Rightarrow> bool" where
  "jsonEvent (Edit _ value) = wf_json value"
| "jsonEvent (Save (Override c)) = wf_json c"
| "jsonEvent (SetEnv _ value) = wf_json value"
| "jsonEvent _ = True"

definition jsonAnswer :: "httpResponse res \<Rightarrow> bool" where
  "jsonAnswer answer = (\<forall>res data. answer = Inr res \<longrightarrow> hr_json res = Inr data \<longrightarrow> wf_json data \<and> defined data)"

text \<open>The page shows what the states reachable by events and answers in any order hold.\<close>

inductive settingsRun :: "clientEnv \<Rightarrow> settingsContext \<times> clientOp list \<Rightarrow> bool" for E where
  mounted: "settingsRun E (loadAll freshSettings)"
| happens: "settingsRun E (s, ops) \<Longrightarrow> jsonEvent ev \<Longrightarrow> pageStep E ev s = Inr (s', new) \<Longrightarrow> settingsRun E (s', ops @ new)"
| answered: "settingsRun E (s, ops) \<Longrightarrow> op \<in> set ops \<Longrightarrow> jsonAnswer answer \<Longrightarrow>
    settleClient E N answer op s = Inr (s', new) \<Longrightarrow> settingsRun E (s', remove1 op ops @ new)"

section \<open>Laws\<close>

lemma getVal_path: "getVal x p = jget_path x (split_on (CHR ''.'') p)"
proof -
  have "foldl (\<lambda>acc k. if truthy acc \<and> jget acc k \<noteq> JUndef then jget acc k else JUndef) y ks = jget_path y ks" for y ks
  proof (induction ks arbitrary: y)
    case (Cons k ks)
    have "(if truthy y \<and> jget y k \<noteq> JUndef then jget y k else JUndef) = jget y k"
      by (cases y) (auto split: option.splits)
    with Cons show ?case by simp
  qed simp
  then show ?thesis by (simp add: getVal_def)
qed

lemma split_on_not_Nil [simp]: "split_on d s \<noteq> []"
  by (induction s) (auto split: list.splits)

lemma jget_path_append: "jget_path x (p @ q) = jget_path (jget_path x p) q"
  by (induction p arbitrary: x) auto

lemma jget_path_JUndef [simp]: "jget_path JUndef q = JUndef"
  by (induction q) auto

lemma jget_path_empty: "q \<noteq> [] \<Longrightarrow> jget_path (JObj []) q = JUndef"
  by (cases q) auto

subsection \<open>Writing along a path\<close>

text \<open>The containers on the way are objects, or missing from some point on.\<close>

fun objectsOn :: "json \<Rightarrow> string list \<Rightarrow> bool" where
  "objectsOn x [] = is_object x"
| "objectsOn x (k # ks) = (is_object x \<and> (jget x k = JUndef \<or> objectsOn (jget x k) ks))"

definition apart :: "string list \<Rightarrow> string list \<Rightarrow> bool" where
  "apart p q = (\<not> prefix p q \<and> \<not> prefix q p)"

lemma apart_simps [simp]:
  "\<not> apart [] q" "\<not> apart p []" "apart (a # p) (b # q) \<longleftrightarrow> (a = b \<longrightarrow> apart p q)"
  by (auto simp: apart_def)

lemma apart_append: "apart p q \<Longrightarrow> apart (p @ r) (q @ t)"
  using parallel_append [of p q r t] by (simp add: apart_def parallel_def)

lemma objectsOn_fresh: "objectsOn (JObj []) ks"
  by (cases ks) auto

lemma getProp_object: "is_object x \<Longrightarrow> getProp x k = Inr (jget x k)"
  by (cases x) (auto simp: getProp_def)

lemma setIn_path:
  assumes "objectsOn x ks"
  shows "\<exists>y. setIn ks k v x = Inr y \<and> is_object y \<and> jget_path y (ks @ [k]) = v \<and>
    (\<forall>q. apart (ks @ [k]) q \<longrightarrow> jget_path y q = jget_path x q)"
  using assms
proof (induction ks arbitrary: x)
  case Nil
  have "jget_path (jput x k v) q = jget_path x q" if "apart [k] q" for q
    using that Nil by (cases q) auto
  with Nil show ?case by (auto simp: setProp_obj)
next
  case (Cons a ks)
  let ?old = "if jget x a = JUndef then JObj [] else jget x a"
  have "objectsOn ?old ks" using Cons.prems by (auto simp: objectsOn_fresh)
  from Cons.IH [OF this] obtain y where y: "setIn ks k v ?old = Inr y" "is_object y" "jget_path y (ks @ [k]) = v"
    "\<And>q. apart (ks @ [k]) q \<Longrightarrow> jget_path y q = jget_path ?old q" by blast
  have "jget_path (jput x a y) q = jget_path x q" if q: "apart (a # ks @ [k]) q" for q
  proof (cases q)
    case (Cons b r)
    show ?thesis
    proof (cases "b = a")
      case True
      then have r: "apart (ks @ [k]) r" using q Cons by auto
      then have "r \<noteq> []" by auto
      then have "jget_path ?old r = jget_path (jget x a) r" by (auto simp: jget_path_empty)
      with True Cons Cons.prems y(4) [OF r] show ?thesis by simp
    qed (use Cons Cons.prems in auto)
  qed (use q in auto)
  moreover have "setIn (a # ks) k v x = Inr (jput x a y)"
    using Cons.prems y(1) by (simp add: getProp_object setProp_obj)
  ultimately show ?case using Cons.prems y(2,3) by auto
qed

lemma json_copy_differs [simp]: "differs x (json_copy x) = False" "differs (json_copy x) x = False"
  by (simp_all add: differs_def)

text \<open>
  C19. An edit is exact: on a loaded draft whose containers on the way are objects it never fails,
  the form reads back the value it wrote, every part of the draft off the path is as before, the
  loaded configuration is untouched, and the section is marked dirty exactly when its value differs
  from the loaded one.
\<close>

theorem updateSetting_exact:
  assumes draft: "truthy (sx_draft s)"
    and path: "objectsOn (json_copy (sx_draft s)) (butlast (split_on (CHR ''.'') path))"
  shows "\<exists>s'. updateSetting path value s = Inr s' \<and> getVal (sx_draft s') path = value \<and>
    (\<forall>other. apart (split_on (CHR ''.'') path) (split_on (CHR ''.'') other) \<longrightarrow>
       getVal (sx_draft s') other = getVal (json_copy (sx_draft s)) other) \<and>
    s' = s\<lparr>sx_draft := sx_draft s'\<rparr> \<and>
    (truthy (sx_config s) \<longrightarrow> isSectionDirty path s' = differs (getVal (sx_config s) path) value)"
proof -
  let ?ps = "split_on (CHR ''.'') path"
  obtain y where y: "setIn (butlast ?ps) (last ?ps) value (json_copy (sx_draft s)) = Inr y" "is_object y"
    "jget_path y ?ps = value" "\<And>q. apart ?ps q \<Longrightarrow> jget_path y q = jget_path (json_copy (sx_draft s)) q"
    using setIn_path [OF path, of "last ?ps" "value"] by auto
  then have "updateSetting path value s = Inr (s\<lparr>sx_draft := y\<rparr>)"
    using draft by (simp add: updateSetting_def Let_def)
  moreover have "truthy y" using y(2) by (rule is_object_truthy)
  ultimately show ?thesis using y(3,4) by (auto simp: getVal_path isSectionDirty_def)
qed

definition loadedSettings :: settingsContext where
  "loadedSettings =
     (let config = JObj [(''location'', JObj [(''timezone'', JStr ''Europe/London'')]), (''version'', JNum 6)] in
      freshSettings\<lparr>sx_config := config, sx_draft := config, sx_auth := JBool True\<rparr>)"

theorem updateSetting_exact_witness:
  "\<exists>s'. updateSetting ''location.coordinates.lat'' (JNum 51) loadedSettings = Inr s' \<and>
     getVal (sx_draft s') ''location.coordinates.lat'' = JNum 51 \<and>
     getVal (sx_draft s') ''location.timezone'' = JStr ''Europe/London'' \<and>
     isSectionDirty ''location.coordinates.lat'' s'"
proof -
  have a: "truthy (sx_draft loadedSettings)" "truthy (sx_config loadedSettings)"
    "objectsOn (json_copy (sx_draft loadedSettings)) (butlast (split_on (CHR ''.'') ''location.coordinates.lat''))"
    "apart (split_on (CHR ''.'') ''location.coordinates.lat'') (split_on (CHR ''.'') ''location.timezone'')"
    by (simp_all add: loadedSettings_def freshSettings_def Let_def)
  have b: "getVal (json_copy (sx_draft loadedSettings)) ''location.timezone'' = JStr ''Europe/London''"
    "differs (getVal (sx_config loadedSettings) ''location.coordinates.lat'') (JNum 51)"
    by (simp_all add: loadedSettings_def freshSettings_def getVal_def differs_def Let_def)
  show ?thesis using updateSetting_exact [OF a(1,3), of "JNum 51"] a b by fastforce
qed

subsection \<open>What a save has checked\<close>

text \<open>Trigger, source and location that pass, stated of the values.\<close>

definition triggerComplete :: "httpResponse res \<Rightarrow> json \<Rightarrow> bool" where
  "triggerComplete answer trigger =
     ((jget trigger ''type'' = JStr ''tts'' \<longrightarrow> (\<exists>t. jget trigger ''template'' = JStr t \<and> trim t \<noteq> [])) \<and>
      (jget trigger ''type'' = JStr ''file'' \<longrightarrow> truthy (jget trigger ''path'')) \<and>
      (jget trigger ''type'' = JStr ''url'' \<longrightarrow>
         (\<exists>u. jget trigger ''url'' = JStr u \<and> trim u \<noteq> [] \<and> endsWith (toLowerCase u) ''.mp3'') \<and>
         (\<exists>res data. answer = Inr res \<and> hr_json res = Inr data \<and> truthy (jget data ''valid''))))"

lemma blankText_False: "blankText v = Inr False \<Longrightarrow> \<exists>t. v = JStr t \<and> trim t \<noteq> []"
  by (cases v) (auto simp: blankText_def split: if_splits)

lemma unreachable_None:
  "unreachable E answer = None \<Longrightarrow> \<exists>res data. answer = Inr res \<and> hr_json res = Inr data \<and> truthy (jget data ''valid'')"
  by (auto simp: unreachable_def getProp_def bindR_Inr split: sum.splits if_splits)

lemma clientTrigger_None:
  assumes "clientTrigger E answer trigger = Inr None" "truthy (jget trigger ''enabled'')"
  shows "triggerComplete answer trigger"
proof -
  have "getProp trigger ''enabled'' = Inr (jget trigger ''enabled'')"
    using assms(2) by (cases trigger) (auto simp: getProp_def)
  with assms show ?thesis
    by (fastforce simp: clientTrigger_def triggerComplete_def bindR_Inr template_def
        dest!: blankText_False unreachable_None split: if_splits)
qed

lemma foldR_warnings:
  assumes "foldR (\<lambda>x ws. bindR (f x) (\<lambda>e. Inr (case e of None \<Rightarrow> ws | Some m \<Rightarrow> ws @ [g x m]))) xs acc = Inr r"
  shows "\<exists>zs. r = acc @ zs \<and> (zs = [] \<longrightarrow> (\<forall>x \<in> set xs. f x = Inr None))"
  using assms
proof (induction xs arbitrary: acc)
  case (Cons x xs)
  then obtain e where e: "f x = Inr e" by (auto simp: bindR_Inr)
  show ?case
  proof (cases e)
    case None
    then show ?thesis using Cons e by auto
  next
    case (Some m)
    then show ?thesis using Cons.prems e Cons.IH [of "acc @ [g x m]"] by auto
  qed
qed simp

lemma verifyTriggers_complete:
  assumes "verifyTriggers E asked config = Inr []" "(prayer, type) \<in> set (enabledTriggers config)"
  shows "triggerComplete (asked prayer type) (configTrigger config prayer type)"
proof -
  have "foldR (\<lambda>x ws. bindR (clientTrigger E (asked (fst x) (snd x)) (configTrigger config (fst x) (snd x)))
      (\<lambda>e. Inr (case e of None \<Rightarrow> ws | Some m \<Rightarrow> ws @ [niceName (fst x) (snd x) @ '': '' @ m])))
      (enabledTriggers config) [] = Inr []"
    using assms(1) by (simp add: verifyTriggers_def case_prod_unfold)
  from foldR_warnings [OF this] have "clientTrigger E (asked prayer type) (configTrigger config prayer type) = Inr None"
    using assms(2) by fastforce
  then show ?thesis using assms(2) by (intro clientTrigger_None) (auto simp: enabledTriggers_def)
qed

definition paramFilled :: "clientEnv \<Rightarrow> json \<Rightarrow> json \<Rightarrow> bool" where
  "paramFilled E source param =
     (let val = jget source (js_text E (jget param ''key'')); pattern = jget (jget param ''constraints'') ''pattern'' in
      (truthy (jget (jget param ''constraints'') ''required'') \<longrightarrow> \<not> missing val) \<and>
      (truthy pattern \<and> truthy val \<longrightarrow> ce_regex E (js_text E pattern) (js_text E val) = Inr True))"

lemma firstMessage_None: "firstMessage f xs = Inr None \<longleftrightarrow> (\<forall>x \<in> set xs. f x = Inr None)"
  by (induction xs) (auto simp: bindR_Inr split: option.splits)

lemma checkParam_None: "checkParam E source param = Inr None \<Longrightarrow> paramFilled E source param"
  by (auto simp: checkParam_def paramFilled_def Let_def bindR_Inr getProp_def missing_def split: if_splits)

text \<open>The source of a role, when there is one and it is in use, fills what its provider asks for.\<close>

definition sourceFilled :: "clientEnv \<Rightarrow> json \<Rightarrow> json \<Rightarrow> string \<Rightarrow> bool" where
  "sourceFilled E known sources role =
     (let source = jget sources role in
      truthy source \<and> jget source ''enabled'' \<noteq> JBool False \<longrightarrow>
      (\<exists>p. providerFor known (jget source ''type'') = Inr p \<and>
         (\<forall>param \<in> set (arr_of (jget p ''parameters'')). paramFilled E source param)))"

lemma jget_falsy [simp]: "\<not> truthy x \<Longrightarrow> jget x k = JUndef"
  by (cases x) auto

lemma sourceProblem_None:
  assumes "sourceProblem E known sources role = Inr None"
  shows "sourceFilled E known sources role"
  using assms
  by (auto simp: sourceProblem_def sourceFilled_def Let_def bindR_Inr validateSourceSettings_def firstMessage_None
      dest!: checkParam_None split: if_splits json.splits)

definition located :: "clientEnv \<Rightarrow> json \<Rightarrow> bool" where
  "located E location =
     (\<exists>lat long. parseFloat E (jget (jget location ''coordinates'') ''lat'') = Some lat \<and> \<bar>lat\<bar> \<le> 90 \<and>
        parseFloat E (jget (jget location ''coordinates'') ''long'') = Some long \<and> \<bar>long\<bar> \<le> 180 \<and>
        ce_zone E (jget location ''timezone''))"

lemma coordinateOk_iff: "coordinateOk n b \<longleftrightarrow> (\<exists>q. n = Some q \<and> \<bar>q\<bar> \<le> b)"
  by (auto simp: coordinateOk_def split: option.splits)

lemma checkLocation_None:
  assumes "checkLocation E config = None" "truthy (jget config ''location'')"
  shows "located E (jget config ''location'')"
proof -
  have "jget (orElse c (JObj [])) k = jget c k" for c k by (cases c) (auto simp: orElse_def)
  with assms show ?thesis by (auto simp: checkLocation_def located_def Let_def coordinateOk_iff split: if_splits)
qed


definition sampleBrowser :: clientEnv where
  "sampleBrowser = \<lparr>ce_text = (\<lambda>_. ''[object Object]''), ce_regex = (\<lambda>_ _. Inr True), ce_zone = (\<lambda>z. z = JStr ''Europe/London'')\<rparr>"

definition sampleDraft :: json where
  "sampleDraft =
     JObj [(''location'', JObj [(''timezone'', JStr ''Europe/London''),
             (''coordinates'', JObj [(''lat'', JNum 51), (''long'', JNum 0)])]),
           (''prayers'', JObj [(''fajr'', JObj [])]),
           (''automation'', JObj [(''triggers'', JObj [(''fajr'', JObj [(''adhan'',
             JObj [(''enabled'', JBool True), (''type'', JStr ''tts''), (''template'', JStr ''hello'')])])])])]"

definition editedSettings :: settingsContext where
  "editedSettings = freshSettings\<lparr>sx_config := JObj [(''version'', JNum 6)], sx_draft := sampleDraft, sx_auth := JBool True\<rparr>"

definition acceptingServer :: saveAnswers where
  "acceptingServer =
     \<lparr>sa_validate = (\<lambda>_ _. Inl (Error ''unused'')),
      sa_update = (\<lambda>_. Inr \<lparr>hr_status = 200, hr_statusText = ''OK'', hr_json = Inr (JObj [(''message'', JStr ''Saved'')])\<rparr>),
      sa_retryAfter = JNull\<rparr>"

lemma sampleDraft_copy: "json_copy sampleDraft = sampleDraft"
  by (simp add: sampleDraft_def)

lemma sampleDraft_start: "saveStart sampleBrowser Clicked editedSettings = (editedSettings\<lparr>sx_saving := True\<rparr>, Inr sampleDraft)"
proof -
  have "checkLocation sampleBrowser sampleDraft = None"
    by (simp add: checkLocation_def Let_def sampleDraft_def parseFloat_def coordinateOk_def orElse_def sampleBrowser_def)
  moreover have "sourceProblems sampleBrowser k sampleDraft = Inr None" for k
    by (simp add: sourceProblems_def sampleDraft_def)
  moreover have "truthy sampleDraft" "sampleDraft \<noteq> JUndef" by (simp_all add: sampleDraft_def)
  ultimately show ?thesis
    by (simp add: saveStart_def Let_def configToSave_def editedSettings_def sampleDraft_copy staticCheck_def andThen_def)
qed

lemma sampleDraft_verified: "verifyTriggers sampleBrowser asked sampleDraft = Inr []"
proof -
  have "enabledTriggers sampleDraft = [(''fajr'', ''adhan'')]"
    by (simp add: enabledTriggers_def prayersOf_def triggerKinds_def configTrigger_def triggersOf_def sampleDraft_def)
  moreover have "trim ''hello'' \<noteq> []" by (simp add: trim_def is_ws_def)
  ultimately show ?thesis
    by (simp add: verifyTriggers_def clientTrigger_def configTrigger_def triggersOf_def sampleDraft_def getProp_def blankText_def)
qed


subsection \<open>The state stays well typed\<close>

lemma wf_setProp: "setProp x k v = Inr y \<Longrightarrow> wf_json x \<Longrightarrow> wf_json v \<Longrightarrow> wf_json y \<and> truthy y"
proof -
  assume s: "setProp x k v = Inr y" and wf: "wf_json x" "wf_json v"
  then have y: "y = jput x k v" and t: "typeof_object x" by (auto simp: setProp_def split: if_splits)
  show ?thesis
  proof (cases x)
    case (JObj kvs)
    with wf_jput_obj [of x v k] wf y show ?thesis by (auto simp: is_object_truthy)
  next
    case (JArr xs)
    with wf y show ?thesis by (auto simp: list_put_def dest!: subsetD [OF set_update_subset_insert] split: option.splits)
  qed (use t in auto)
qed

lemma wf_getProp: "getProp x k = Inr y \<Longrightarrow> wf_json x \<Longrightarrow> wf_json y"
  by (auto simp: getProp_def wf_jget split: if_splits)

lemma wf_setIn: "setIn ks k v x = Inr y \<Longrightarrow> wf_json x \<Longrightarrow> wf_json v \<Longrightarrow> wf_json y \<and> truthy y"
proof (induction ks arbitrary: x y)
  case (Cons a ks)
  then obtain old z where o: "getProp x a = Inr old" "setIn ks k v (if old = JUndef then JObj [] else old) = Inr z"
    "setProp x a z = Inr y" by (auto simp: bindR_Inr)
  then have "wf_json z" using Cons.IH [OF o(2)] Cons.prems wf_getProp [OF o(1)] by auto
  then show ?case using wf_setProp [OF o(3)] Cons.prems by blast
qed (auto dest: wf_setProp)

lemma wf_modPath:
  assumes "modPath ks f x = Inr y" "wf_json x" and f: "\<And>a b. f a = Inr b \<Longrightarrow> wf_json a \<Longrightarrow> wf_json b \<and> truthy b"
  shows "wf_json y \<and> truthy y"
  using assms(1,2)
proof (induction ks arbitrary: x y)
  case (Cons k ks)
  then obtain old z where o: "getProp x k = Inr old" "modPath ks f old = Inr z" "setProp x k z = Inr y"
    by (auto simp: modPath_def modProp_def bindR_Inr)
  then show ?case using Cons.IH [OF o(2)] wf_getProp [OF o(1)] wf_setProp [OF o(3)] Cons.prems by blast
qed (auto simp: modPath_def dest: f)

lemma wf_setAll:
  assumes "setAll paths key v x = Inr y" "wf_json x" "truthy x" "wf_json v"
  shows "wf_json y \<and> truthy y"
  using assms(1-3)
proof (induction paths arbitrary: x)
  case (Cons p paths)
  then obtain z where z: "(if truthy (jget_path x p) then modPath p (\<lambda>t. setProp t key v) x else Inr x) = Inr z"
    "setAll paths key v z = Inr y" by (auto simp: setAll_def bindR_Inr)
  have "wf_json z \<and> truthy z"
    using z(1) Cons.prems wf_modPath [of p "\<lambda>t. setProp t key v" x z] wf_setProp assms(4) by (auto split: if_splits)
  then show ?case using Cons.IH [OF z(2)] by blast
qed (simp add: setAll_def)

lemma defined_json_copy: "x \<noteq> JUndef \<Longrightarrow> defined (json_copy x)"
proof (induction x rule: json_copy.induct)
  case (1 kvs)
  then show ?case by auto
next
  case (2 xs)
  then show ?case by auto
qed auto

lemma updateSetting_wf:
  "updateSetting path v s = Inr s' \<Longrightarrow> wf_json (sx_draft s) \<Longrightarrow> wf_json v \<Longrightarrow>
   s' = s\<lparr>sx_draft := sx_draft s'\<rparr> \<and> wf_json (sx_draft s') \<and> truthy (sx_draft s') = truthy (sx_draft s)"
  by (auto simp: updateSetting_def Let_def bindR_Inr split: if_splits dest!: wf_setIn intro: wf_json_copy)

lemma bulkUpdate_wf:
  "bulkUpdate paths key (JNum q) s = Inr (s', n) \<Longrightarrow> wf_json (sx_draft s) \<Longrightarrow>
   s' = s\<lparr>sx_draft := sx_draft s'\<rparr> \<and> wf_json (sx_draft s') \<and> truthy (sx_draft s') = truthy (sx_draft s)"
  by (auto simp: bulkUpdate_def bindR_Inr wf_json_copy split: if_splits dest!: wf_setAll)

text \<open>
  Configuration and draft are JSON objects without duplicate properties, loaded together; what a
  save sends is JSON too; every indicator that shows activity belongs to a request in flight.
\<close>

definition settingsTyped :: "settingsContext \<Rightarrow> bool" where
  "settingsTyped s =
     (wf_json (sx_config s) \<and> defined (sx_config s) \<and> wf_json (sx_draft s) \<and> truthy (sx_config s) = truthy (sx_draft s))"

fun opTyped :: "clientOp \<Rightarrow> bool" where
  "opTyped (SaveSettings c) = (wf_json c \<and> defined c \<and> truthy c)"
| "opTyped (UpdateEnv _ v _) = wf_json v"
| "opTyped _ = True"

fun isLoading :: "clientOp \<Rightarrow> bool" where
  "isLoading FetchSettings = True"
| "isLoading Reloading = True"
| "isLoading _ = False"

fun isSaving :: "clientOp \<Rightarrow> bool" where
  "isSaving (SaveSettings _) = True"
| "isSaving (ResetToDefaults _) = True"
| "isSaving (UpdateEnv _ _ _) = True"
| "isSaving Reloading = True"
| "isSaving _ = False"

definition busyFor :: "settingsContext \<Rightarrow> clientOp list \<Rightarrow> bool" where
  "busyFor s ops =
     ((sx_loading s \<longrightarrow> (\<exists>op \<in> set ops. isLoading op)) \<and> (sx_saving s \<longrightarrow> (\<exists>op \<in> set ops. isSaving op)) \<and>
      (sx_voicesLoading s \<longrightarrow> FetchVoices \<in> set ops) \<and> (sx_providersLoading s \<longrightarrow> FetchProviders \<in> set ops))"

definition settingsInv :: "settingsContext \<times> clientOp list \<Rightarrow> bool" where
  "settingsInv c = (settingsTyped (fst c) \<and> (\<forall>op \<in> set (snd c). opTyped op) \<and> busyFor (fst c) (snd c))"

lemma busyFor_more: "busyFor s ops \<Longrightarrow> busyFor s (ops @ new)"
  by (auto simp: busyFor_def)

lemma loadAll_inv:
  assumes "loadAll s = (s', new)" "settingsTyped s" "busyFor s ops"
  shows "settingsTyped s' \<and> (\<forall>op \<in> set new. opTyped op) \<and> busyFor s' (ops @ new)"
proof -
  let ?a = "s\<lparr>sx_loading := True\<rparr>"
  let ?b = "?a\<lparr>sx_voicesLoading := True, sx_voicesError := JNull\<rparr>\<lparr>sx_providersLoading := True\<rparr>"
  show ?thesis
  proof (cases "sx_paused s")
    case True
    then have "s' = s" "new = []" using assms(1) by (simp_all add: loadAll_def)
    then show ?thesis using assms(2,3) by simp
  next
    case False
    show ?thesis
    proof (cases "truthy (sx_auth s)")
      case True
      then have "loadAll s = (?b, [FetchSettings, FetchHealth, FetchVoices, FetchProviders])"
        using False by (simp add: loadAll_def fetchSettingsStart_def fetchProvidersStart_def fetchVoicesStart_def)
      then have e: "s' = ?b" "new = [FetchSettings, FetchHealth, FetchVoices, FetchProviders]" using assms(1) by auto
      have "settingsTyped ?b" using assms(2) by (simp add: settingsTyped_def)
      moreover have "busyFor ?b (ops @ new)" using assms(3) by (auto simp: busyFor_def e(2))
      ultimately show ?thesis by (simp add: e)
    next
      case False
      then have "loadAll s = (?a, [FetchSettings, FetchHealth])"
        using \<open>\<not> sx_paused s\<close> by (simp add: loadAll_def fetchSettingsStart_def)
      then have e: "s' = ?a" "new = [FetchSettings, FetchHealth]" using assms(1) by auto
      have "settingsTyped ?a" using assms(2) by (simp add: settingsTyped_def)
      moreover have "busyFor ?a (ops @ new)" using assms(3) by (auto simp: busyFor_def e(2))
      ultimately show ?thesis by (simp add: e)
    qed
  qed
qed

lemma saveStart_inv:
  assumes "saveStart E arg s = (s', r)" "settingsTyped s" "jsonEvent (Save arg)"
  shows "\<exists>b. s' = s\<lparr>sx_saving := b\<rparr> \<and> (case r of Inl _ \<Rightarrow> \<not> b | Inr c \<Rightarrow> opTyped (SaveSettings c))"
proof -
  have "wf_json (configToSave arg s)"
    using assms(2,3) by (cases arg) (auto simp: configToSave_def settingsTyped_def)
  with assms show ?thesis
    by (auto simp: saveStart_def Let_def wf_json_copy defined_json_copy split: if_splits sum.splits option.splits)
qed

lemma pageStep_inv:
  assumes "pageStep E ev s = Inr (s', new)" "settingsInv (s, ops)" "jsonEvent ev"
  shows "settingsInv (s', ops @ new)"
proof -
  have t: "settingsTyped s" "\<forall>op \<in> set ops. opTyped op" "busyFor s ops" using assms(2) by (auto simp: settingsInv_def)
  have wf: "wf_json (sx_draft s)" using t by (simp add: settingsTyped_def)
  have drafted: "settingsInv (s', ops @ new)"
    if "s' = s\<lparr>sx_draft := sx_draft s'\<rparr>" "wf_json (sx_draft s')" "truthy (sx_draft s') = truthy (sx_draft s)" "new = []"
  proof -
    have "sx_config s' = sx_config s" "sx_loading s' = sx_loading s" "sx_saving s' = sx_saving s"
      "sx_voicesLoading s' = sx_voicesLoading s" "sx_providersLoading s' = sx_providersLoading s"
      by (subst that(1), simp)+
    then show ?thesis using that(2-) t by (simp add: settingsInv_def settingsTyped_def busyFor_def)
  qed
  show ?thesis
  proof (cases ev)
    case (Edit path v)
    then show ?thesis using assms(1,3) updateSetting_wf [OF _ wf, of path v] drafted
      by (auto simp: pageStep_def bindR_Inr)
  next
    case (BulkOffsets e m)
    then show ?thesis using assms(1) bulkUpdate_wf [OF _ wf] drafted
      by (fastforce simp: pageStep_def bindR_Inr bulkUpdateOffsets_def)
  next
    case (BulkIqamah m)
    then show ?thesis using assms(1) bulkUpdate_wf [OF _ wf] drafted
      by (fastforce simp: pageStep_def bindR_Inr bulkUpdateIqamahOffsets_def)
  next
    case Discard
    then show ?thesis using assms(1) t by (auto simp: pageStep_def resetDraft_def settingsInv_def settingsTyped_def busyFor_def wf_json_copy)
  next
    case (Save arg)
    then obtain r where r: "saveStart E arg s = (s', r)" "new = (case r of Inl _ \<Rightarrow> [] | Inr c \<Rightarrow> [SaveSettings c])"
      using assms(1) by (auto simp: pageStep_def split: prod.splits sum.splits)
    from saveStart_inv [OF this(1) t(1)] Save assms(3) obtain b where
      b: "s' = s\<lparr>sx_saving := b\<rparr>" "case r of Inl _ \<Rightarrow> \<not> b | Inr c \<Rightarrow> opTyped (SaveSettings c)" by blast
    have "busyFor s' (ops @ new)" using t(3) b r(2) by (cases r) (auto simp: busyFor_def)
    moreover have "\<forall>op \<in> set new. opTyped op" using b(2) r(2) by (cases r) simp_all
    ultimately show ?thesis using t(1,2) b(1) by (auto simp: settingsInv_def settingsTyped_def)
  next
    case (Session auth)
    have l: "settingsTyped (s\<lparr>sx_auth := auth\<rparr>)" "busyFor (s\<lparr>sx_auth := auth\<rparr>) ops" using t by (simp_all add: settingsTyped_def busyFor_def)
    show ?thesis
    proof (cases "auth \<noteq> sx_auth s")
      case True
      then have "loadAll (s\<lparr>sx_auth := auth\<rparr>) = (s', new)" using assms(1) Session by (simp add: pageStep_def)
      from loadAll_inv [OF this l] show ?thesis using t(2) by (auto simp: settingsInv_def)
    next
      case False
      then show ?thesis using assms(1,2) Session by (simp add: pageStep_def)
    qed
  next
    case Resume
    have l: "settingsTyped (s\<lparr>sx_paused := False\<rparr>)" "busyFor (s\<lparr>sx_paused := False\<rparr>) ops" using t by (simp_all add: settingsTyped_def busyFor_def)
    show ?thesis
    proof (cases "sx_paused s")
      case True
      then have "loadAll (s\<lparr>sx_paused := False\<rparr>) = (s', new)" using assms(1) Resume by (simp add: pageStep_def)
      from loadAll_inv [OF this l] show ?thesis using t(2) by (auto simp: settingsInv_def)
    next
      case False
      then show ?thesis using assms(1,2) Resume by (simp add: pageStep_def)
    qed
  next
    case Reset
    then have "s' = s\<lparr>sx_saving := True\<rparr>" "new = [ResetToDefaults (sx_paused s)]"
      using assms(1) by (simp_all add: pageStep_def resetToDefaultsStart_def)
    then show ?thesis using t by (auto simp: settingsInv_def settingsTyped_def busyFor_def)
  next
    case (SetEnv key v)
    then have "s' = s\<lparr>sx_saving := True\<rparr>" "new = [UpdateEnv key v (sx_paused s)]" "wf_json v"
      using assms(1,3) by (simp_all add: pageStep_def)
    then show ?thesis using t by (auto simp: settingsInv_def settingsTyped_def busyFor_def)
  next
    case Refresh
    then have "s' = s \<and> new = [] \<or> s' = s\<lparr>sx_loading := True\<rparr> \<and> new = [FetchSettings]"
      using assms(1) by (simp add: pageStep_def fetchSettingsStart_def split: if_splits)
    then show ?thesis using t by (auto simp: settingsInv_def settingsTyped_def busyFor_def)
  next
    case RefreshVoices
    then have "s' = s\<lparr>sx_voicesLoading := True, sx_voicesError := JNull\<rparr>" "new = [FetchVoices]"
      using assms(1) by (simp_all add: pageStep_def fetchVoicesStart_def)
    then show ?thesis using t by (auto simp: settingsInv_def settingsTyped_def busyFor_def)
  next
    case RefreshProviders
    then have "s' = s \<and> new = [] \<or> s' = s\<lparr>sx_providersLoading := True\<rparr> \<and> new = [FetchProviders]"
      using assms(1) by (simp add: pageStep_def fetchProvidersStart_def split: if_splits)
    then show ?thesis using t by (auto simp: settingsInv_def settingsTyped_def busyFor_def)
  next
    case CheckHealth
    then have "s' = s" "new = [RefreshHealth]" using assms(1) by (simp_all add: pageStep_def)
    then show ?thesis using t by (auto simp: settingsInv_def settingsTyped_def busyFor_def)
  qed
qed

text \<open>What the answer of an operation may change.\<close>

lemma fetchSettings_typed:
  assumes "jsonAnswer answer" "settingsTyped s"
  shows "settingsTyped (fetchSettings answer s)" "\<not> sx_loading (fetchSettings answer s)"
    "sx_saving (fetchSettings answer s) = sx_saving s"
    "sx_voicesLoading (fetchSettings answer s) = sx_voicesLoading s"
    "sx_providersLoading (fetchSettings answer s) = sx_providersLoading s"
  using assms
  by (auto simp: fetchSettings_def jsonAnswer_def settingsTyped_def handleRateLimit_def wf_json_copy split: sum.splits)

lemma reloadThen_inv:
  assumes "reloadThen paused s = (s', op, reply)" "settingsTyped s"
  shows "settingsTyped s' \<and>
    (op = Some Reloading \<and> s' = s\<lparr>sx_loading := True\<rparr> \<or> op = None \<and> s' = s\<lparr>sx_saving := False\<rparr>)"
  using assms by (auto simp: reloadThen_def fetchSettingsStart_def settingsTyped_def split: if_splits)

lemma saveFinish_typed:
  assumes "opTyped (SaveSettings c)" "settingsTyped s"
  shows "settingsTyped (fst (saveFinish E N c s))" "\<not> sx_saving (fst (saveFinish E N c s))"
    "sx_loading (fst (saveFinish E N c s)) = sx_loading s"
    "sx_voicesLoading (fst (saveFinish E N c s)) = sx_voicesLoading s"
    "sx_providersLoading (fst (saveFinish E N c s)) = sx_providersLoading s"
  using assms
  by (auto simp: saveFinish_def saved_def settingsTyped_def wf_json_copy split: sum.splits list.splits)

text \<open>One operation's indicator goes down, the others are as they were.\<close>

lemma busyFor_remove:
  assumes "busyFor s (ops :: clientOp list)"
    and "sx_loading s' \<longrightarrow> sx_loading s \<and> \<not> isLoading op \<or> Reloading \<in> set new"
    and "sx_saving s' \<longrightarrow> sx_saving s \<and> \<not> isSaving op \<or> Reloading \<in> set new"
    and "sx_voicesLoading s' \<longrightarrow> sx_voicesLoading s \<and> op \<noteq> FetchVoices"
    and "sx_providersLoading s' \<longrightarrow> sx_providersLoading s \<and> op \<noteq> FetchProviders"
  shows "busyFor s' (remove1 op ops @ new)"
proof -
  have keep: "x \<in> set ops \<Longrightarrow> x \<noteq> op \<Longrightarrow> x \<in> set (remove1 op ops)" for x by (simp add: in_set_remove1)
  have "\<exists>x \<in> set (remove1 op ops @ new). isLoading x" if shown: "sx_loading s'"
  proof (cases "Reloading \<in> set new")
    case False
    then obtain x where "x \<in> set ops" "isLoading x" "\<not> isLoading op" using assms shown by (auto simp: busyFor_def)
    then have "x \<in> set (remove1 op ops)" by (metis keep)
    with \<open>isLoading x\<close> show ?thesis by auto
  qed (auto intro: bexI [of _ Reloading])
  moreover have "\<exists>x \<in> set (remove1 op ops @ new). isSaving x" if shown: "sx_saving s'"
  proof (cases "Reloading \<in> set new")
    case False
    then obtain x where "x \<in> set ops" "isSaving x" "\<not> isSaving op" using assms shown by (auto simp: busyFor_def)
    then have "x \<in> set (remove1 op ops)" by (metis keep)
    with \<open>isSaving x\<close> show ?thesis by auto
  qed (auto intro: bexI [of _ Reloading])
  ultimately show ?thesis using assms keep [of FetchVoices] keep [of FetchProviders] by (auto simp: busyFor_def)
qed

lemma settleClient_inv:
  assumes step: "settleClient E N answer op s = Inr (s', new)" and inv: "settingsInv (s, ops)" and op: "op \<in> set ops"
    and json: "jsonAnswer answer"
  shows "settingsInv (s', remove1 op ops @ new)"
proof -
  have t: "settingsTyped s" "\<forall>op \<in> set ops. opTyped op" "busyFor s ops" using inv by (auto simp: settingsInv_def)
  have goal: "settingsInv (s', remove1 op ops @ new)"
    if "settingsTyped s'" "\<forall>op \<in> set new. opTyped op" "busyFor s' (remove1 op ops @ new)"
    using that t set_remove1_subset [of op ops] by (auto simp: settingsInv_def)
  have rest: "busyFor s' (remove1 op ops @ new)"
    if "sx_loading s' \<longrightarrow> sx_loading s \<and> \<not> isLoading op \<or> Reloading \<in> set new"
      "sx_saving s' \<longrightarrow> sx_saving s \<and> \<not> isSaving op \<or> Reloading \<in> set new"
      "sx_voicesLoading s' \<longrightarrow> sx_voicesLoading s \<and> op \<noteq> FetchVoices"
      "sx_providersLoading s' \<longrightarrow> sx_providersLoading s \<and> op \<noteq> FetchProviders"
    using busyFor_remove [OF t(3) that] .
  note fetched = fetchSettings_typed [OF json]
  show ?thesis
  proof (cases op)
    case FetchSettings
    then have "s' = fetchSettings answer s" "new = []" using step by (auto simp: settleClient_def)
    then show ?thesis using fetched t(1) FetchSettings by (intro goal rest) auto
  next
    case FetchHealth
    then have "s' = fetchHealth answer s" "new = []" using step by (auto simp: settleClient_def)
    then show ?thesis using t(1) FetchHealth
      by (intro goal rest) (auto simp: fetchHealth_def handleRateLimit_def settingsTyped_def split: sum.splits if_splits)
  next
    case FetchVoices
    then have "s' = fetchVoices answer s" "new = []" using step by (auto simp: settleClient_def)
    then show ?thesis using t(1) FetchVoices
      by (intro goal rest) (auto simp: fetchVoices_def settingsTyped_def split: sum.splits if_splits)
  next
    case FetchProviders
    then have "s' = fetchProviders answer s" "new = []" using step by (auto simp: settleClient_def)
    then show ?thesis using t(1) FetchProviders
      by (intro goal rest) (auto simp: fetchProviders_def settingsTyped_def split: sum.splits if_splits)
  next
    case RefreshHealth
    then have "s' = fst (clientRefreshHealth answer s)" "new = []" using step by (auto simp: settleClient_def)
    then show ?thesis using t(1) RefreshHealth
      by (intro goal rest) (auto simp: clientRefreshHealth_def settingsTyped_def split: sum.splits if_splits)
  next
    case (SaveSettings c)
    then have "s' = fst (saveFinish E N c s)" "new = []" "opTyped (SaveSettings c)"
      using step t(2) op by (auto simp: settleClient_def)
    then show ?thesis using saveFinish_typed [of c s E N] t(1) SaveSettings by (intro goal rest) auto
  next
    case (ResetToDefaults paused)
    then obtain o' reply where r: "resetToDefaults paused answer s = (s', o', reply)" "new = (case o' of None \<Rightarrow> [] | Some x \<Rightarrow> [x])"
      using step by (auto simp: settleClient_def split: prod.splits)
    then have "reloadThen paused s = (s', o', reply) \<or> s' = s\<lparr>sx_saving := False\<rparr> \<and> o' = None"
      by (auto simp: resetToDefaults_def split: sum.splits if_splits)
    then show ?thesis using t(1) ResetToDefaults r(2) reloadThen_inv [of paused s s' o' reply]
      by (intro goal rest) (auto simp: settingsTyped_def)
  next
    case (UpdateEnv key v paused)
    then obtain o' reply where r: "updateEnvSetting paused key v answer s = Inr (s', o', reply)" "new = (case o' of None \<Rightarrow> [] | Some x \<Rightarrow> [x])"
      using step by (auto simp: settleClient_def bindR_Inr split: prod.splits)
    have wf: "wf_json v" "wf_json (sx_draft s)" using t op UpdateEnv by (auto simp: settingsTyped_def)
    from r(1) have "(\<exists>s1. updateSetting (envSettingPath key) v s = Inr s1 \<and> reloadThen paused s1 = (s', o', reply)) \<or>
        s' = s\<lparr>sx_saving := False\<rparr> \<and> o' = None"
      by (auto simp: updateEnvSetting_def bindR_Inr split: sum.splits if_splits)
    then show ?thesis
    proof
      assume "s' = s\<lparr>sx_saving := False\<rparr> \<and> o' = None"
      then show ?thesis using t(1) UpdateEnv r(2) by (intro goal rest) (auto simp: settingsTyped_def)
    next
      assume "\<exists>s1. updateSetting (envSettingPath key) v s = Inr s1 \<and> reloadThen paused s1 = (s', o', reply)"
      then obtain s1 where s1: "updateSetting (envSettingPath key) v s = Inr s1" "reloadThen paused s1 = (s', o', reply)" by blast
      from updateSetting_wf [OF s1(1) wf(2,1)] obtain d where d: "s1 = s\<lparr>sx_draft := d\<rparr>" "wf_json d" "truthy d = truthy (sx_draft s)"
        by metis
      then have "settingsTyped s1" using t(1) by (simp add: settingsTyped_def)
      from reloadThen_inv [OF s1(2) this] show ?thesis using UpdateEnv r(2) d(1)
        by (intro goal rest) auto
    qed
  next
    case Reloading
    then have "s' = (fetchSettings answer s)\<lparr>sx_saving := False\<rparr>" "new = []" using step by (auto simp: settleClient_def)
    then show ?thesis using fetched t(1) Reloading by (intro goal rest) (auto simp: settingsTyped_def)
  qed
qed

text \<open>
  C16. The settings page is well typed and never stuck: whatever the forms, the buttons, the session
  and the answers do in any order, configuration and draft are JSON without duplicate properties
  and are loaded together, and an indicator that shows loading or saving belongs to a request that is
  still in flight.
\<close>

theorem settingsPage_typed:
  assumes "settingsRun E (s, ops)"
  shows "wf_json (sx_config s) \<and> wf_json (sx_draft s) \<and> truthy (sx_config s) = truthy (sx_draft s) \<and>
    (ops = [] \<longrightarrow> \<not> sx_loading s \<and> \<not> sx_saving s \<and> \<not> sx_voicesLoading s \<and> \<not> sx_providersLoading s) \<and>
    (\<forall>config. SaveSettings config \<in> set ops \<longrightarrow> wf_json config \<and> defined config \<and> truthy config)"
proof -
  have "settingsInv c" if "settingsRun E c" for c
    using that
  proof induction
    case mounted
    have "settingsTyped freshSettings" by (simp add: freshSettings_def settingsTyped_def)
    then show ?case
      by (auto simp: loadAll_def fetchSettingsStart_def settingsInv_def settingsTyped_def busyFor_def freshSettings_def Let_def)
  next
    case (happens s ops ev s' new)
    then show ?case by (intro pageStep_inv)
  next
    case (answered s ops op answer N s' new)
    then show ?case by (intro settleClient_inv)
  qed
  from this [OF assms] show ?thesis by (auto simp: settingsInv_def settingsTyped_def busyFor_def)
qed

definition answeredWith :: "json \<Rightarrow> httpResponse res" where
  "answeredWith data = Inr \<lparr>hr_status = 200, hr_statusText = ''OK'', hr_json = Inr data\<rparr>"

theorem settingsPage_typed_witness:
  "\<exists>s. settingsRun sampleBrowser (s, []) \<and> sx_config s = sampleDraft \<and> wf_json (sx_draft s) \<and> truthy (sx_draft s) \<and>
     \<not> sx_loading s \<and> \<not> sx_saving s"
proof -
  have j: "jsonAnswer (answeredWith sampleDraft)" "jsonAnswer (Inl e)" for e
    by (simp_all add: jsonAnswer_def answeredWith_def sampleDraft_def)
  have "settingsRun sampleBrowser (freshSettings, [FetchSettings, FetchHealth])"
    using settingsRun.mounted [of sampleBrowser]
    by (simp add: loadAll_def fetchSettingsStart_def freshSettings_def)
  from settingsRun.answered [OF this, of FetchSettings "answeredWith sampleDraft"] j
  have "settingsRun sampleBrowser (fetchSettings (answeredWith sampleDraft) freshSettings, [FetchHealth])"
    by (simp add: settleClient_def)
  from settingsRun.answered [OF this, of FetchHealth "Inl (Error ''offline'')"] j
  have r: "settingsRun sampleBrowser (fetchSettings (answeredWith sampleDraft) freshSettings, [])"
    by (simp add: settleClient_def fetchHealth_def)
  have c: "sx_config (fetchSettings (answeredWith sampleDraft) freshSettings) = sampleDraft"
    by (simp add: fetchSettings_def answeredWith_def hr_ok_def)
  from settingsPage_typed [OF r] r c show ?thesis by (metis sampleDraft_def truthy.simps(7))
qed

subsection \<open>Bulk changes\<close>

lemma objectsOn_prefix: "objectsOn x (p @ q) \<Longrightarrow> objectsOn x p"
  by (induction p arbitrary: x) (auto elim: objectsOn.elims)

lemma modPath_path:
  assumes "modPath ks (\<lambda>t. setProp t key v) x = Inr y" "objectsOn x ks" "truthy (jget_path x ks)"
  shows "is_object y \<and> jget_path y (ks @ [key]) = v \<and> (\<forall>q. apart (ks @ [key]) q \<longrightarrow> jget_path y q = jget_path x q) \<and>
    (\<forall>q. apart ks q \<longrightarrow> objectsOn y q = objectsOn x q)"
  using assms
proof (induction ks arbitrary: x y)
  case Nil
  then have "y = jput x key v" "is_object x" by (auto simp: modPath_def setProp_obj)
  moreover have "jget_path (jput x key v) q = jget_path x q" if "apart [key] q" for q
    using that Nil.prems(2) by (cases q) auto
  ultimately show ?case by auto
next
  case (Cons a ks)
  have x: "is_object x" "objectsOn (jget x a) ks"
    using Cons.prems(2,3) by auto
  then obtain z where z: "modPath ks (\<lambda>t. setProp t key v) (jget x a) = Inr z" "y = jput x a z"
    using Cons.prems(1) by (auto simp: modPath_def modProp_def bindR_Inr getProp_object setProp_obj)
  from Cons.IH [OF z(1) x(2)] Cons.prems(3) have i: "is_object z" "jget_path z (ks @ [key]) = v"
    "\<And>q. apart (ks @ [key]) q \<Longrightarrow> jget_path z q = jget_path (jget x a) q"
    "\<And>q. apart ks q \<Longrightarrow> objectsOn z q = objectsOn (jget x a) q" by auto
  have "jget_path y q = jget_path x q" if "apart (a # ks @ [key]) q" for q
    using that x(1) z(2) i(3) by (cases q) (auto simp: jget_jput)
  moreover have "objectsOn y q = objectsOn x q" if q: "apart (a # ks) q" for q
  proof (cases q)
    case (Cons b r)
    have "jget x a \<noteq> JUndef \<and> z \<noteq> JUndef" if "b = a"
      using Cons.prems x i(1) \<open>truthy (jget_path x (a # ks))\<close> by (cases "jget x a") auto
    then show ?thesis using q Cons x(1) z(2) i(4) [of r] by (cases "b = a") auto
  qed (use q in auto)
  ultimately show ?case using z(2) i(1,2) x(1) by auto
qed

text \<open>A visited container that exists is an object, and so are those on the way to it.\<close>

definition settable :: "json \<Rightarrow> string list \<Rightarrow> bool" where
  "settable x p = (truthy (jget_path x p) \<longrightarrow> objectsOn x p)"

lemma setAll_exact:
  assumes "setAll paths key v x = Inr y" "\<forall>p \<in> set paths. settable x p"
    and "distinct paths" "\<forall>p \<in> set paths. \<forall>p' \<in> set paths. p \<noteq> p' \<longrightarrow> apart p p'"
  shows "(\<forall>p \<in> set paths. truthy (jget_path x p) \<longrightarrow> jget_path y (p @ [key]) = v) \<and>
    (\<forall>q. (\<forall>p \<in> set paths. apart (p @ [key]) q) \<longrightarrow> jget_path y q = jget_path x q)"
  using assms
proof (induction paths arbitrary: x)
  case (Cons p paths)
  obtain z where z: "(if truthy (jget_path x p) then modPath p (\<lambda>t. setProp t key v) x else Inr x) = Inr z"
    "setAll paths key v z = Inr y" using Cons.prems(1) by (auto simp: setAll_def bindR_Inr)
  have step: "(truthy (jget_path x p) \<longrightarrow> jget_path z (p @ [key]) = v) \<and>
      (\<forall>q. apart (p @ [key]) q \<longrightarrow> jget_path z q = jget_path x q) \<and> (\<forall>q. apart p q \<longrightarrow> objectsOn z q = objectsOn x q)"
  proof (cases "truthy (jget_path x p)")
    case True
    then show ?thesis using z(1) Cons.prems(2) modPath_path [of p key v x z] by (auto simp: settable_def)
  qed (use z(1) in simp)
  have far: "apart (p @ [k]) (p' @ r)" "apart (p @ [k]) p'" "apart p p'" if "p' \<in> set paths" for p' k r
  proof -
    show "apart p p'" using that Cons.prems(3,4) by auto
    then show "apart (p @ [k]) (p' @ r)" "apart (p @ [k]) p'"
      using apart_append [of p p' "[k]" r] apart_append [of p p' "[k]" "[]"] by simp_all
  qed
  have "\<forall>p' \<in> set paths. settable z p'"
    using Cons.prems(2) step far(2,3) by (auto simp: settable_def)
  then have IH: "(\<forall>p' \<in> set paths. truthy (jget_path z p') \<longrightarrow> jget_path y (p' @ [key]) = v) \<and>
    (\<forall>q. (\<forall>p' \<in> set paths. apart (p' @ [key]) q) \<longrightarrow> jget_path y q = jget_path z q)"
    using Cons.IH [OF z(2)] Cons.prems(3,4) by auto
  have "jget_path y (p @ [key]) = jget_path z (p @ [key])"
  proof -
    have "apart (p' @ [key]) (p @ [key])" if "p' \<in> set paths" for p'
      using far(1) [OF that, of key "[key]"] by (auto simp: apart_def)
    with IH show ?thesis by blast
  qed
  then show ?case using step IH far(2) by auto
qed (simp add: setAll_def)

text \<open>The prayers with a lead time for a trigger: the iqamah of the sunrise has none.\<close>

definition offered :: "string \<Rightarrow> string set" where
  "offered eventType = {prayer \<in> set PRAYER_NAMES. eventType = ''preIqamah'' \<longrightarrow> prayer \<noteq> ''sunrise''}"

lemma offered_offsetPrayers: "offered eventType = set (offsetPrayers eventType)"
  by (auto simp: offered_def offsetPrayers_def)

text \<open>
  C23. A bulk change of the lead times keeps every offset within the hour: whatever was typed, each
  prayer that has this trigger gets the same number of minutes between 0 and 60, the prayers without
  it and everything else in the draft are as before, and the number reported is the number changed.
\<close>

theorem bulkUpdateOffsets_clamped:
  assumes run: "bulkUpdateOffsets E eventType minutes s = Inr (s', n)" and draft: "truthy (sx_draft s)"
    and shape: "\<forall>prayer \<in> offered eventType. settable (json_copy (sx_draft s)) (offsetPath eventType prayer)"
    and whole: "json_copy (sx_draft s) = sx_draft s"
  shows "\<exists>m. 0 \<le> m \<and> m \<le> 60 \<and>
    (\<forall>prayer \<in> offered eventType. truthy (jget_path (sx_draft s) (offsetPath eventType prayer)) \<longrightarrow>
       jget_path (sx_draft s') (offsetPath eventType prayer @ [''offsetMinutes'']) = JNum (of_int m)) \<and>
    (\<forall>q. (\<forall>prayer \<in> offered eventType. apart (offsetPath eventType prayer @ [''offsetMinutes'']) q) \<longrightarrow>
       jget_path (sx_draft s') q = jget_path (sx_draft s) q) \<and>
    n = card {prayer \<in> offered eventType. truthy (jget_path (sx_draft s) (offsetPath eventType prayer))} \<and>
    sx_config s' = sx_config s"
proof -
  let ?m = "clampMinutes E minutes" and ?paths = "map (offsetPath eventType) (offsetPrayers eventType)"
  have m: "0 \<le> ?m" "?m \<le> 60" by (auto simp: clampMinutes_def split: option.splits)
  have d: "distinct (offsetPrayers eventType)" by (simp add: offsetPrayers_def PRAYER_NAMES_def)
  have inj: "inj_on (offsetPath eventType) A" for A by (auto simp: inj_on_def offsetPath_def)
  have "distinct ?paths" using d inj by (simp add: distinct_map)
  moreover have "\<forall>p \<in> set ?paths. \<forall>p' \<in> set ?paths. p \<noteq> p' \<longrightarrow> apart p p'"
    by (auto simp: offsetPath_def)
  moreover obtain y where y: "setAll ?paths ''offsetMinutes'' (JNum (of_int ?m)) (sx_draft s) = Inr y" "s' = s\<lparr>sx_draft := y\<rparr>"
    "n = length (filter (\<lambda>p. truthy (jget_path (sx_draft s) p)) ?paths)"
    using run draft whole by (auto simp: bulkUpdateOffsets_def bulkUpdate_def bindR_Inr)
  moreover have "\<forall>p \<in> set ?paths. settable (sx_draft s) p" using shape whole by (simp add: offered_offsetPrayers)
  ultimately have e: "(\<forall>p \<in> set ?paths. truthy (jget_path (sx_draft s) p) \<longrightarrow> jget_path y (p @ [''offsetMinutes'']) = JNum (of_int ?m)) \<and>
    (\<forall>q. (\<forall>p \<in> set ?paths. apart (p @ [''offsetMinutes'']) q) \<longrightarrow> jget_path y q = jget_path (sx_draft s) q)"
    by (intro setAll_exact)
  have n: "n = card {prayer \<in> set (offsetPrayers eventType). truthy (jget_path (sx_draft s) (offsetPath eventType prayer))}"
    using y(3) d by (simp add: filter_map comp_def distinct_card [symmetric] conj_commute)
  show ?thesis unfolding offered_offsetPrayers using m n e y(2) by (intro exI [of _ ?m]) auto
qed

definition fajrTrigger :: json where
  "fajrTrigger = JObj [(''enabled'', JBool True), (''type'', JStr ''tts''), (''template'', JStr ''hello'')]"

theorem bulkUpdateOffsets_clamped_witness:
  "\<exists>s'. bulkUpdateOffsets sampleBrowser ''adhan'' (JStr ''90'') editedSettings = Inr (s', 1) \<and>
     jget_path (sx_draft s') [''automation'', ''triggers'', ''fajr'', ''adhan'', ''offsetMinutes''] = JNum 60 \<and>
     jget_path (sx_draft s') [''location''] = jget_path sampleDraft [''location'']"
proof -
  have d: "sx_draft editedSettings = sampleDraft" by (simp add: editedSettings_def)
  have m: "clampMinutes sampleBrowser (JStr ''90'') = 60"
    by (simp add: clampMinutes_def js_text_def parseInt_def is_ws_def digit_val_def radixVal_def)
  have p: "offsetPrayers ''adhan'' = PRAYER_NAMES" by (simp add: offsetPrayers_def)
  have reads: "jget_path sampleDraft (offsetPath ''adhan'' prayer) = (if prayer = ''fajr'' then fajrTrigger else JUndef)"
    if "prayer \<in> set PRAYER_NAMES" for prayer
    using that by (auto simp: PRAYER_NAMES_def offsetPath_def sampleDraft_def fajrTrigger_def)
  let ?changed = "jput sampleDraft ''automation'' (JObj [(''triggers'', JObj [(''fajr'', JObj [(''adhan'', jput fajrTrigger ''offsetMinutes'' (JNum 60))])])])"
  have others: "jget_path ?changed (offsetPath ''adhan'' prayer) = JUndef" if "prayer \<in> set PRAYER_NAMES" "prayer \<noteq> ''fajr''" for prayer
    using that by (auto simp: PRAYER_NAMES_def offsetPath_def sampleDraft_def)
  have one: "modPath (offsetPath ''adhan'' ''fajr'') (\<lambda>t. setProp t ''offsetMinutes'' (JNum 60)) sampleDraft = Inr ?changed"
    by (simp add: offsetPath_def sampleDraft_def fajrTrigger_def modPath_def modProp_def getProp_def setProp_def)
  have none: "setAll (map (offsetPath ''adhan'') ps) ''offsetMinutes'' v ?changed = Inr ?changed"
    if "set ps \<subseteq> set PRAYER_NAMES - {''fajr''}" for ps v
    using that by (induction ps) (simp_all add: setAll_def others)
  have "PRAYER_NAMES = ''fajr'' # tl PRAYER_NAMES" "set (tl PRAYER_NAMES) \<subseteq> set PRAYER_NAMES - {''fajr''}"
    by (simp_all add: PRAYER_NAMES_def)
  then have "setAll (map (offsetPath ''adhan'') PRAYER_NAMES) ''offsetMinutes'' (JNum 60) sampleDraft = Inr ?changed"
    using one none [of "tl PRAYER_NAMES" "JNum 60"] reads [of "''fajr''"]
    by (subst \<open>PRAYER_NAMES = _\<close>) (simp add: setAll_def fajrTrigger_def PRAYER_NAMES_def)
  moreover have "length (filter (\<lambda>p. truthy (jget_path sampleDraft p)) (map (offsetPath ''adhan'') PRAYER_NAMES)) = 1"
  proof -
    have "filter (\<lambda>prayer. truthy (jget_path sampleDraft (offsetPath ''adhan'' prayer))) PRAYER_NAMES =
        filter (\<lambda>prayer. prayer = ''fajr'') PRAYER_NAMES"
      using reads by (intro filter_cong) (simp_all add: fajrTrigger_def)
    moreover have "filter (\<lambda>prayer. prayer = ''fajr'') PRAYER_NAMES = [''fajr'']" by (simp add: PRAYER_NAMES_def)
    ultimately show ?thesis by (simp only: filter_map length_map comp_def) simp
  qed
  moreover have "truthy sampleDraft" by (simp add: sampleDraft_def)
  ultimately have "bulkUpdateOffsets sampleBrowser ''adhan'' (JStr ''90'') editedSettings = Inr (editedSettings\<lparr>sx_draft := ?changed\<rparr>, 1)"
    by (simp add: bulkUpdateOffsets_def bulkUpdate_def d m p sampleDraft_copy)
  then obtain s' where s': "bulkUpdateOffsets sampleBrowser ''adhan'' (JStr ''90'') editedSettings = Inr (s', 1)"
    "jget_path (sx_draft s') [''automation'', ''triggers'', ''fajr'', ''adhan'', ''offsetMinutes''] = JNum 60"
    by (simp add: sampleDraft_def fajrTrigger_def)
  have "\<forall>prayer \<in> set (offsetPrayers ''adhan''). settable (json_copy (sx_draft editedSettings)) (offsetPath ''adhan'' prayer)"
    by (simp add: d p sampleDraft_copy) (simp add: PRAYER_NAMES_def settable_def offsetPath_def sampleDraft_def)
  moreover have "truthy (sx_draft editedSettings)" "json_copy (sx_draft editedSettings) = sx_draft editedSettings"
    by (simp_all add: d sampleDraft_copy) (simp add: sampleDraft_def)
  ultimately have "\<forall>q. (\<forall>prayer \<in> set (offsetPrayers ''adhan''). apart (offsetPath ''adhan'' prayer @ [''offsetMinutes'']) q) \<longrightarrow>
      jget_path (sx_draft s') q = jget_path (sx_draft editedSettings) q"
    using bulkUpdateOffsets_clamped [OF s'(1), unfolded offered_offsetPrayers] by blast
  moreover have "apart (offsetPath ''adhan'' prayer @ [''offsetMinutes'']) [''location'']" for prayer
    by (simp add: offsetPath_def)
  ultimately have "jget_path (sx_draft s') [''location''] = jget_path sampleDraft [''location'']"
    unfolding d by blast
  with s' show ?thesis by blast
qed

subsection \<open>Reloading\<close>

text \<open>
  Every reload replaces the draft: unsaved edits are gone after the end of a pause, a change of the
  session or a change of an environment variable, all of which fetch the settings again.
\<close>

lemma fetchSettings_discards:
  assumes "hr_ok res" "hr_json res = Inr data"
  shows "sx_draft (fetchSettings (Inr res) s) = json_copy data \<and> \<not> hasUnsavedChanges (fetchSettings (Inr res) s)"
proof -
  have "hr_status res \<noteq> 429" using assms(1) by (auto simp: hr_ok_def)
  then show ?thesis using assms by (simp add: fetchSettings_def hasUnsavedChanges_def)
qed

end
