(* ===== verification/Client_Prayers.thy ===== *)
theory Client_Prayers
  imports Controllers "HOL-Library.List_Lexorder" "HOL-Library.Char_ord"
begin

text \<open>
  The prayer times of the dashboard (\<open>hooks/usePrayerTimes.js\<close>, \<open>hooks/useMidnightObserver.js\<close>): the
  days loaded so far, the day that counts as today, the day the user looks at, and the way from one
  to the other. The record \<open>prayerView\<close> holds the React state, the refs, the timers and the requests in
  flight. An event runs a handler and then \<open>commit\<close>, the effects whose dependencies changed. Dates
  are ISO texts and are compared as texts; \<open>null\<close> is \<open>None\<close>.
\<close>

section \<open>Dates\<close>

text \<open>
  Luxon and the clock, for the hook: the days between two ISO dates (\<open>None\<close> is \<open>NaN\<close>), the date some
  days later, the time, and today's date in a time zone.
\<close>

record viewEnv =
  ve_days :: "string \<Rightarrow> string \<Rightarrow> rat option"
  ve_plus :: "string \<Rightarrow> int \<Rightarrow> string option"
  ve_now :: int
  ve_today :: "json \<Rightarrow> string"

text \<open>\<open>v || null\<close> of a date in a payload; the server writes ISO dates.\<close>

definition dateOf :: "json \<Rightarrow> string option" where
  "dateOf v = (case v of JStr s \<Rightarrow> if s = [] then None else Some s | _ \<Rightarrow> None)"

definition orDate :: "string option \<Rightarrow> string option \<Rightarrow> string option" where
  "orDate a b = (case a of None \<Rightarrow> b | Some _ \<Rightarrow> a)"

definition getLaterDate :: "string option \<Rightarrow> string option \<Rightarrow> string option" where
  "getLaterDate leftDate rightDate =
     (case leftDate of
        None \<Rightarrow> rightDate
      | Some l \<Rightarrow> (case rightDate of None \<Rightarrow> Some l | Some r \<Rightarrow> if l > r then Some l else Some r))"

text \<open>\<open>calendar[date]\<close>\<close>

definition dayOf :: "json \<Rightarrow> string option \<Rightarrow> json" where
  "dayOf calendar d = (case d of None \<Rightarrow> JUndef | Some k \<Rightarrow> jget calendar k)"

text \<open>\<open>localeCompare\<close> orders ISO dates as their texts.\<close>

definition sortDateKeys :: "json \<Rightarrow> string list" where
  "sortDateKeys calendar = sort (jkeys calendar)"

definition firstOf :: "'a list \<Rightarrow> 'a option" where
  "firstOf xs = (case xs of [] \<Rightarrow> None | x # _ \<Rightarrow> Some x)"

definition minCachedDate :: "json \<Rightarrow> string option" where
  "minCachedDate calendar = firstOf (sortDateKeys calendar)"

definition maxCachedDate :: "json \<Rightarrow> string option" where
  "maxCachedDate calendar = firstOf (rev (sortDateKeys calendar))"

definition withinMonth :: "viewEnv \<Rightarrow> string \<Rightarrow> string \<Rightarrow> bool" where
  "withinMonth E reference date =
     (case ve_days E date reference of None \<Rightarrow> False | Some q \<Rightarrow> \<bar>\<lfloor>q + 1 / 2\<rfloor>\<bar> \<le> 30)"

definition pruneCalendar :: "viewEnv \<Rightarrow> json \<Rightarrow> string \<Rightarrow> json" where
  "pruneCalendar E calendar referenceDate =
     JObj (filter (\<lambda>(date, _). withinMonth E referenceDate date) (entries calendar))"

definition nextOf :: "json \<Rightarrow> string \<Rightarrow> json" where
  "nextOf prayerDay prayerName =
     JObj [(''name'', JStr prayerName), (''time'', jget (jget prayerDay prayerName) ''start''), (''isTomorrow'', JBool False)]"

definition getNextPrayerFromDay :: "json \<Rightarrow> json" where
  "getNextPrayerFromDay prayerDay =
     (case List.find (\<lambda>prayerName. truthy (jget (jget prayerDay prayerName) ''start'')) PRAYER_NAMES of
        None \<Rightarrow> JNull
      | Some prayerName \<Rightarrow> nextOf prayerDay prayerName)"

section \<open>The state\<close>

datatype direction = Past | Future

text \<open>
  A request in flight: a fetch of today with \<open>isInitial\<close>, \<open>preserveViewedDate\<close> and the
  \<open>initialReferenceDate\<close> of its closure; or a chunk of the calendar with its controller, whether that
  was aborted, its direction, and the navigation that waits for it (the number of the request, the
  day of departure and the day to go to).
\<close>

datatype viewRequest =
    Fetch bool bool "string option"
  | Chunk nat bool direction nat string "string option"

record prayerView =
  pr_prayers :: json
  pr_next :: json
  pr_meta :: json
  pr_loading :: bool
  pr_fetching :: bool
  pr_error :: json
  pr_lastUpdated :: int
  pr_calendar :: json
  pr_initialReference :: "string option"
  pr_viewed :: "string option"
  pr_timezone :: json
  pr_boundaryPast :: bool
  pr_boundaryFuture :: bool
  pr_direction :: direction
  pr_transitioning :: bool
  pr_transitionDate :: "string option"
  pr_nonce :: nat
  pr_observed :: "string option"
  pr_active :: "string option"
  rf_abort :: "nat option"
  rf_transitioning :: bool
  rf_reference :: "string option"
  rf_viewed :: "string option"
  rf_calendar :: json
  rf_pending :: nat
  rf_navigation :: nat
  tm_inactivity :: "string option"
  tm_transition :: "string option"
  pr_inflight :: "viewRequest list"
  pr_controllers :: nat

definition freshView :: "viewEnv \<Rightarrow> prayerView" where
  "freshView E =
     \<lparr>pr_prayers = JObj [], pr_next = JNull, pr_meta = JObj [], pr_loading = True, pr_fetching = True, pr_error = JNull,
      pr_lastUpdated = ve_now E, pr_calendar = JObj [], pr_initialReference = None, pr_viewed = None, pr_timezone = JNull,
      pr_boundaryPast = False, pr_boundaryFuture = False, pr_direction = Future, pr_transitioning = False,
      pr_transitionDate = None, pr_nonce = 0, pr_observed = None, pr_active = None,
      rf_abort = None, rf_transitioning = False, rf_reference = None, rf_viewed = None, rf_calendar = JObj [],
      rf_pending = 0, rf_navigation = 0, tm_inactivity = None, tm_transition = None, pr_inflight = [], pr_controllers = 0\<rparr>"

section \<open>Requests\<close>

definition startFetching :: "prayerView \<Rightarrow> prayerView" where
  "startFetching v = v\<lparr>rf_pending := rf_pending v + 1, pr_fetching := True\<rparr>"

definition finishFetching :: "prayerView \<Rightarrow> prayerView" where
  "finishFetching v =
     (let n = rf_pending v - 1 in v\<lparr>rf_pending := n, pr_fetching := (if n = 0 then False else pr_fetching v)\<rparr>)"

definition fetchPrayers :: "bool \<Rightarrow> bool \<Rightarrow> prayerView \<Rightarrow> prayerView" where
  "fetchPrayers isInitial preserveViewedDate v =
     (let v = (if isInitial then v\<lparr>pr_loading := True\<rparr> else v); v = startFetching v in
      v\<lparr>pr_inflight := pr_inflight v @ [Fetch isInitial preserveViewedDate (pr_initialReference v)]\<rparr>)"

text \<open>\<open>abortControllerRef.current?.abort()\<close>\<close>

fun abortRequest :: "nat \<Rightarrow> viewRequest \<Rightarrow> viewRequest" where
  "abortRequest k (Chunk c aborted d n origin target) = Chunk c (aborted \<or> c = k) d n origin target"
| "abortRequest k q = q"

definition abortCurrent :: "prayerView \<Rightarrow> prayerView" where
  "abortCurrent v =
     (case rf_abort v of None \<Rightarrow> v | Some k \<Rightarrow> v\<lparr>pr_inflight := map (abortRequest k) (pr_inflight v)\<rparr>)"

definition fetchCalendarChunk :: "direction \<Rightarrow> nat \<Rightarrow> string \<Rightarrow> string option \<Rightarrow> prayerView \<Rightarrow> prayerView" where
  "fetchCalendarChunk d requestId origin target v =
     (let v = abortCurrent v; c = pr_controllers v; v = startFetching (v\<lparr>rf_abort := Some c, pr_controllers := c + 1\<rparr>) in
      v\<lparr>pr_inflight := pr_inflight v @ [Chunk c False d requestId origin target]\<rparr>)"

section \<open>Handlers\<close>

definition startDayTransition :: "string \<Rightarrow> direction \<Rightarrow> prayerView \<Rightarrow> prayerView" where
  "startDayTransition targetDate d v =
     (if rf_transitioning v then v
      else v\<lparr>rf_transitioning := True, pr_transitionDate := Some targetDate, pr_nonce := pr_nonce v + 1,
             pr_direction := d, pr_transitioning := True, tm_transition := Some targetDate\<rparr>)"

text \<open>The timer of the transition, 300 ms later.\<close>

definition endTransition :: "prayerView \<Rightarrow> prayerView" where
  "endTransition v =
     (case tm_transition v of
        None \<Rightarrow> v
      | Some targetDate \<Rightarrow>
          v\<lparr>tm_transition := None, rf_transitioning := False, rf_viewed := Some targetDate, pr_viewed := Some targetDate,
            pr_transitionDate := None, pr_transitioning := False\<rparr>)"

text \<open>The timer of inactivity, two minutes after the view left today.\<close>

definition inactive :: "prayerView \<Rightarrow> prayerView" where
  "inactive v =
     (case tm_inactivity v of
        None \<Rightarrow> v
      | Some d \<Rightarrow> v\<lparr>tm_inactivity := None, rf_viewed := Some d, pr_viewed := Some d\<rparr>)"

definition handleMidnight :: "viewEnv \<Rightarrow> string \<Rightarrow> prayerView \<Rightarrow> prayerView" where
  "handleMidnight E nextReferenceDate v =
     (let currentReferenceDate = orDate (rf_reference v) (orDate (pr_initialReference v) (Some nextReferenceDate));
          currentViewedDate = rf_viewed v;
          nextViewedDate = (if currentViewedDate = None \<or> currentViewedDate = currentReferenceDate
                            then Some nextReferenceDate else currentViewedDate);
          nextPrayers = dayOf (rf_calendar v) (Some nextReferenceDate);
          v = v\<lparr>pr_calendar := pruneCalendar E (pr_calendar v) nextReferenceDate,
                pr_initialReference := getLaterDate (pr_initialReference v) (Some nextReferenceDate),
                pr_meta := spreadMerge (pr_meta v) (JObj [(''date'', JStr nextReferenceDate)])\<rparr>;
          v = (if truthy nextPrayers then v\<lparr>pr_prayers := nextPrayers, pr_next := getNextPrayerFromDay nextPrayers\<rparr> else v) in
      v\<lparr>pr_viewed := nextViewedDate, rf_reference := Some nextReferenceDate, rf_viewed := nextViewedDate\<rparr>)"

text \<open>The timer of \<open>useMidnightObserver\<close>, with the date it reads.\<close>

definition midnight :: "viewEnv \<Rightarrow> string \<Rightarrow> prayerView \<Rightarrow> prayerView" where
  "midnight E nextReferenceDate v = handleMidnight E nextReferenceDate (v\<lparr>pr_observed := Some nextReferenceDate\<rparr>)"

text \<open>\<open>payloadReferenceDate < currentReferenceDate\<close>\<close>

definition earlier :: "string option \<Rightarrow> string option \<Rightarrow> bool" where
  "earlier a b = (case (a, b) of (Some x, Some y) \<Rightarrow> x < y | _ \<Rightarrow> False)"

text \<open>\<open>initialReference\<close> is the one of the closure that sent the request.\<close>

definition applyPayload :: "viewEnv \<Rightarrow> json \<Rightarrow> bool \<Rightarrow> string option \<Rightarrow> prayerView \<Rightarrow> prayerView res" where
  "applyPayload E payload preserveViewedDate initialReference v =
     bindR (getProp payload ''meta'') (\<lambda>meta.
     let payloadReferenceDate = dateOf (jget meta ''date'');
         currentReferenceDate = orDate (rf_reference v) initialReference;
         nextReference = getLaterDate payloadReferenceDate currentReferenceDate;
         mergedCalendar = spreadMerge (rf_calendar v) (orElse (jget payload ''calendar'') (JObj []));
         isStalePayload = earlier payloadReferenceDate currentReferenceDate;
         day = dayOf mergedCalendar nextReference;
         nextFromDay = getNextPrayerFromDay day in
     Inr (v\<lparr>pr_prayers := (if isStalePayload then orElse day (pr_prayers v)
                           else orElse (jget payload ''prayers'') (orElse day (JObj []))),
            pr_next := (if isStalePayload then orElse nextFromDay (pr_next v)
                        else orElse (jget payload ''nextPrayer'') (orElse nextFromDay JNull)),
            pr_meta := (if truthy meta
                        then spreadMerge meta (JObj [(''date'', case nextReference of Some d \<Rightarrow> JStr d | None \<Rightarrow> jget meta ''date'')])
                        else JObj []),
            rf_calendar := mergedCalendar, pr_calendar := mergedCalendar,
            pr_timezone := orElse (jget meta ''location'') JNull,
            pr_initialReference := getLaterDate (pr_initialReference v) nextReference,
            rf_reference := nextReference, pr_error := JNull, pr_lastUpdated := ve_now E,
            pr_viewed := (if preserveViewedDate \<or> isStalePayload then orDate (pr_viewed v) nextReference else nextReference)\<rparr>))"

text \<open>The body of a successful response; everything else is an error.\<close>

definition responseData :: "httpResponse res \<Rightarrow> json res" where
  "responseData answer =
     bindR answer (\<lambda>response.
     if hr_ok response then hr_json response else Inl (Error (''API Error: '' @ int_str (hr_status response))))"

definition settleFetch :: "viewEnv \<Rightarrow> httpResponse res \<Rightarrow> bool \<Rightarrow> bool \<Rightarrow> string option \<Rightarrow> prayerView \<Rightarrow> prayerView" where
  "settleFetch E answer isInitial preserveViewedDate initialReference v =
     (let v = (case bindR (responseData answer) (\<lambda>data. applyPayload E data preserveViewedDate initialReference v) of
                 Inl e \<Rightarrow> v\<lparr>pr_error := JStr (err_message e)\<rparr>
               | Inr v' \<Rightarrow> v');
          v = finishFetching v in
      if isInitial then v\<lparr>pr_loading := False\<rparr> else v)"

definition setBoundary :: "direction \<Rightarrow> bool \<Rightarrow> prayerView \<Rightarrow> prayerView" where
  "setBoundary d b v = (case d of Past \<Rightarrow> v\<lparr>pr_boundaryPast := b\<rparr> | Future \<Rightarrow> v\<lparr>pr_boundaryFuture := b\<rparr>)"

text \<open>The chunk that was loaded, or \<open>JNull\<close>.\<close>

definition receiveChunk :: "httpResponse res \<Rightarrow> direction \<Rightarrow> prayerView \<Rightarrow> prayerView \<times> json" where
  "receiveChunk answer d v =
     (case bindR (responseData answer) (\<lambda>data. bindR (getProp data ''calendar'') (\<lambda>c. Inr (orElse c (JObj [])))) of
        Inl e \<Rightarrow> (v\<lparr>pr_error := JStr (err_message e)\<rparr>, JNull)
      | Inr chunk \<Rightarrow>
          let n = length (jkeys chunk) in
          if n = 0 then (setBoundary d True v, JNull)
          else (setBoundary d (n < 7) (v\<lparr>pr_calendar := spreadMerge (pr_calendar v) chunk, pr_error := JNull\<rparr>), chunk))"

text \<open>The end of \<open>fetchCalendarChunk\<close> and the rest of the \<open>navigateDay\<close> that waits for it.\<close>

definition settleChunk ::
  "httpResponse res \<Rightarrow> nat \<Rightarrow> bool \<Rightarrow> direction \<Rightarrow> nat \<Rightarrow> string \<Rightarrow> string option \<Rightarrow> prayerView \<Rightarrow> prayerView" where
  "settleChunk answer controller aborted d requestId origin target v =
     (let (v, loadedChunk) = (if aborted then (v, JNull) else receiveChunk answer d v);
          v = finishFetching v;
          v = (if rf_abort v = Some controller then v\<lparr>rf_abort := None\<rparr> else v) in
      case target of
        None \<Rightarrow> v
      | Some targetDate \<Rightarrow>
          if truthy (jget loadedChunk targetDate) \<and> rf_navigation v = requestId \<and> rf_viewed v = Some origin
          then startDayTransition targetDate d v else v)"

text \<open>A step to another day, up to the request for a chunk.\<close>

definition navigateDay :: "viewEnv \<Rightarrow> int \<Rightarrow> prayerView \<Rightarrow> prayerView" where
  "navigateDay E delta v =
     (case pr_viewed v of
        None \<Rightarrow> v
      | Some viewedDate \<Rightarrow>
          if delta = 0 \<or> rf_transitioning v then v
          else
            let d = (if delta > 0 then Future else Past); requestId = rf_navigation v + 1;
                v = v\<lparr>rf_navigation := requestId\<rparr>;
                targetDate = ve_plus E viewedDate delta in
            if truthy (dayOf (pr_calendar v) targetDate) then startDayTransition (the targetDate) d v
            else if (if d = Future then pr_boundaryFuture v else pr_boundaryPast v) then v
            else
              (case (if d = Future then maxCachedDate (pr_calendar v) else minCachedDate (pr_calendar v)) of
                 None \<Rightarrow> v
               | Some cursorDate \<Rightarrow> fetchCalendarChunk d requestId viewedDate targetDate v))"

definition resetViewedDate :: "prayerView \<Rightarrow> prayerView" where
  "resetViewedDate v =
     (case pr_active v of
        None \<Rightarrow> v
      | Some activeReferenceDate \<Rightarrow>
          if pr_viewed v = Some activeReferenceDate \<or> rf_transitioning v then v
          else
            let v = v\<lparr>rf_navigation := rf_navigation v + 1\<rparr> in
            startDayTransition activeReferenceDate
              (if earlier (pr_viewed v) (Some activeReferenceDate) then Future else Past) v)"

definition syncViewedDateToReference :: "prayerView \<Rightarrow> prayerView" where
  "syncViewedDateToReference v =
     (case pr_active v of
        None \<Rightarrow> v
      | Some activeReferenceDate \<Rightarrow>
          v\<lparr>rf_navigation := rf_navigation v + 1, tm_transition := None, tm_inactivity := None,
            rf_transitioning := False, rf_viewed := Some activeReferenceDate, pr_transitionDate := None,
            pr_transitioning := False, pr_viewed := Some activeReferenceDate\<rparr>)"

section \<open>What is shown\<close>

definition activeReference :: "viewEnv \<Rightarrow> prayerView \<Rightarrow> string" where
  "activeReference E v =
     (case orDate (pr_initialReference v) (pr_observed v) of Some d \<Rightarrow> d | None \<Rightarrow> ve_today E (pr_timezone v))"

definition viewedPrayers :: "prayerView \<Rightarrow> json" where
  "viewedPrayers v = orElse (dayOf (pr_calendar v) (pr_viewed v)) (pr_prayers v)"

definition transitionPrayers :: "prayerView \<Rightarrow> json" where
  "transitionPrayers v =
     (if pr_transitionDate v = None then JNull
      else orElse (dayOf (pr_calendar v) (pr_transitionDate v))
             (if pr_transitionDate v = pr_active v then pr_prayers v else JNull))"

definition canNavigateBackward :: "prayerView \<Rightarrow> bool" where
  "canNavigateBackward v =
     (pr_viewed v \<noteq> None \<and> (earlier (minCachedDate (pr_calendar v)) (pr_viewed v) \<or> \<not> pr_boundaryPast v))"

definition canNavigateForward :: "prayerView \<Rightarrow> bool" where
  "canNavigateForward v =
     (pr_viewed v \<noteq> None \<and> (earlier (pr_viewed v) (maxCachedDate (pr_calendar v)) \<or> \<not> pr_boundaryFuture v))"

section \<open>Effects\<close>

text \<open>The effect that fetches: its cleanup, and the effect itself.\<close>

definition stopFetching :: "prayerView \<Rightarrow> prayerView" where
  "stopFetching v = abortCurrent (v\<lparr>tm_inactivity := None, tm_transition := None, rf_transitioning := False\<rparr>)"

text \<open>
  The render and the effects after a handler: \<open>before\<close> is the state the effects last ran on. The fetch
  depends on \<open>initialReferenceDate\<close>, the refs follow their states, the timer of inactivity depends on
  the day viewed and on today. Cleanups run before effects.
\<close>

definition commit :: "viewEnv \<Rightarrow> prayerView \<Rightarrow> prayerView \<Rightarrow> prayerView" where
  "commit E before v =
     (let today = activeReference E v;
          refetch = (pr_initialReference v \<noteq> pr_initialReference before);
          rearm = (pr_active before \<noteq> Some today \<or> pr_viewed v \<noteq> pr_viewed before);
          v = (if refetch then stopFetching v else v);
          v = (if rearm then v\<lparr>tm_inactivity := None\<rparr> else v);
          v = (if refetch then fetchPrayers True False v else v);
          v = (if pr_viewed v \<noteq> pr_viewed before then v\<lparr>rf_viewed := pr_viewed v\<rparr> else v);
          v = (if pr_calendar v \<noteq> pr_calendar before then v\<lparr>rf_calendar := pr_calendar v\<rparr> else v);
          v = (if rearm \<and> pr_viewed v \<noteq> None \<and> pr_viewed v \<noteq> Some today then v\<lparr>tm_inactivity := Some today\<rparr> else v) in
      v\<lparr>pr_active := Some today\<rparr>)"

definition mount :: "viewEnv \<Rightarrow> prayerView" where
  "mount E = (let v = freshView E in commit E v (fetchPrayers True False v))"

section \<open>Events\<close>

datatype viewEvent =
    Interval
  | MidnightTimer string
  | TransitionTimer
  | InactivityTimer
  | NavigateDay int
  | ResetViewedDate
  | SyncViewedDate
  | Answer nat "httpResponse res"

text \<open>The answer to the request at a position; the list keeps the others in their order.\<close>

definition settleRequest :: "viewEnv \<Rightarrow> nat \<Rightarrow> httpResponse res \<Rightarrow> prayerView \<Rightarrow> prayerView" where
  "settleRequest E i answer v =
     (if i < length (pr_inflight v) then
        (let q = pr_inflight v ! i; v = v\<lparr>pr_inflight := take i (pr_inflight v) @ drop (Suc i) (pr_inflight v)\<rparr> in
         case q of
           Fetch isInitial preserve initialReference \<Rightarrow> settleFetch E answer isInitial preserve initialReference v
         | Chunk c aborted d requestId origin target \<Rightarrow> settleChunk answer c aborted d requestId origin target v)
      else v)"

definition handle :: "viewEnv \<Rightarrow> viewEvent \<Rightarrow> prayerView \<Rightarrow> prayerView" where
  "handle E ev v =
     (case ev of
        Interval \<Rightarrow> fetchPrayers False True v
      | MidnightTimer d \<Rightarrow> midnight E d v
      | TransitionTimer \<Rightarrow> endTransition v
      | InactivityTimer \<Rightarrow> inactive v
      | NavigateDay delta \<Rightarrow> navigateDay E delta v
      | ResetViewedDate \<Rightarrow> resetViewedDate v
      | SyncViewedDate \<Rightarrow> syncViewedDateToReference v
      | Answer i answer \<Rightarrow> settleRequest E i answer v)"

definition viewStep :: "viewEnv \<Rightarrow> viewEvent \<Rightarrow> prayerView \<Rightarrow> prayerView" where
  "viewStep E ev v = commit E v (handle E ev v)"

text \<open>The clock moves on between events.\<close>

inductive viewRun :: "prayerView \<Rightarrow> bool" where
  mounted: "viewRun (mount E)"
| event: "viewRun v \<Longrightarrow> viewRun (viewStep E ev v)"

section \<open>The invariant\<close>

fun chunkIds :: "viewRequest list \<Rightarrow> nat list" where
  "chunkIds [] = []"
| "chunkIds (Fetch _ _ _ # qs) = chunkIds qs"
| "chunkIds (Chunk c _ _ _ _ _ # qs) = c # chunkIds qs"

fun isLive :: "nat \<Rightarrow> viewRequest \<Rightarrow> bool" where
  "isLive c (Chunk k aborted _ _ _ _) = (k = c \<and> \<not> aborted)"
| "isLive c (Fetch _ _ _) = False"

fun isFirst :: "viewRequest \<Rightarrow> bool" where
  "isFirst (Fetch isInitial _ _) = isInitial"
| "isFirst _ = False"

text \<open>The requests and their counters; the transition and its timer.\<close>

definition requestsOk :: "prayerView \<Rightarrow> bool" where
  "requestsOk v =
     (rf_pending v = length (pr_inflight v) \<and> pr_fetching v = (pr_inflight v \<noteq> []) \<and>
      (pr_loading v \<longrightarrow> (\<exists>q \<in> set (pr_inflight v). isFirst q)) \<and>
      distinct (chunkIds (pr_inflight v)) \<and> (\<forall>c \<in> set (chunkIds (pr_inflight v)). c < pr_controllers v) \<and>
      (\<forall>q \<in> set (pr_inflight v). \<forall>c. isLive c q \<longrightarrow> rf_abort v = Some c))"

definition transitionOk :: "prayerView \<Rightarrow> bool" where
  "transitionOk v =
     (rf_transitioning v = (tm_transition v \<noteq> None) \<and>
      (\<forall>d. tm_transition v = Some d \<longrightarrow> pr_transitionDate v = Some d \<and> pr_transitioning v))"

definition refsOk :: "prayerView \<Rightarrow> bool" where
  "refsOk v =
     (rf_viewed v = pr_viewed v \<and> rf_calendar v = pr_calendar v \<and> pr_active v \<noteq> None \<and>
      (\<forall>d. tm_inactivity v = Some d \<longrightarrow> pr_active v = Some d) \<and>
      (\<forall>d. pr_initialReference v = Some d \<longrightarrow> pr_active v = Some d))"

text \<open>What a handler leaves for the effects to repair.\<close>

definition pendingRefs :: "prayerView \<Rightarrow> prayerView \<Rightarrow> bool" where
  "pendingRefs before v =
     ((pr_viewed v = pr_viewed before \<longrightarrow> rf_viewed v = pr_viewed v) \<and>
      (pr_calendar v = pr_calendar before \<longrightarrow> rf_calendar v = pr_calendar v) \<and>
      (tm_inactivity v = None \<or> tm_inactivity v = tm_inactivity before))"

definition viewOk :: "prayerView \<Rightarrow> bool" where
  "viewOk v = (requestsOk v \<and> transitionOk v \<and> refsOk v)"

named_theorems view_simps \<open>fields the operations leave alone\<close>

lemma chunkIds_append [simp]: "chunkIds (xs @ ys) = chunkIds xs @ chunkIds ys"
  by (induction xs rule: chunkIds.induct) auto

lemma chunkIds_abort [simp]: "chunkIds (map (abortRequest k) qs) = chunkIds qs"
  by (induction qs rule: chunkIds.induct) auto

lemma isLive_abort: "isLive c (abortRequest k q) \<longleftrightarrow> isLive c q \<and> c \<noteq> k"
  by (cases q) auto

lemma isFirst_abort [simp]: "isFirst (abortRequest k q) = isFirst q"
  by (cases q) auto

lemma chunkIds_mem: "Chunk c a d n origin t \<in> set qs \<Longrightarrow> c \<in> set (chunkIds qs)"
  by (induction qs rule: chunkIds.induct) auto

lemma isLive_mem: "isLive c q \<Longrightarrow> q \<in> set qs \<Longrightarrow> c \<in> set (chunkIds qs)"
  by (cases q) (auto dest: chunkIds_mem)

subsection \<open>Requests\<close>

lemma fetchPrayers_requests: "requestsOk v \<Longrightarrow> requestsOk (fetchPrayers i p v)"
  by (auto simp: requestsOk_def fetchPrayers_def startFetching_def Let_def)

lemma abortCurrent_requests:
  assumes "requestsOk v"
  shows "requestsOk (abortCurrent v) \<and> (\<forall>q \<in> set (pr_inflight (abortCurrent v)). \<forall>c. \<not> isLive c q)"
proof (cases "rf_abort v")
  case None
  then show ?thesis using assms by (auto simp: requestsOk_def abortCurrent_def)
next
  case (Some k)
  then have e: "abortCurrent v = v\<lparr>pr_inflight := map (abortRequest k) (pr_inflight v)\<rparr>" by (simp add: abortCurrent_def)
  have none: "\<not> isLive c (abortRequest k q)" if "q \<in> set (pr_inflight v)" for c q
    using that assms Some by (auto simp: requestsOk_def isLive_abort)
  have "requestsOk (abortCurrent v)"
    unfolding e using assms none by (simp add: requestsOk_def)
  then show ?thesis using none by (simp add: e)
qed

lemma fetchCalendarChunk_requests:
  assumes "requestsOk v"
  shows "requestsOk (fetchCalendarChunk d n origin t v)"
proof -
  let ?v = "abortCurrent v"
  have a: "requestsOk ?v" "\<forall>q \<in> set (pr_inflight ?v). \<forall>c. \<not> isLive c q"
    using abortCurrent_requests [OF assms] by auto
  have "pr_controllers ?v \<notin> set (chunkIds (pr_inflight ?v))" using a(1) by (auto simp: requestsOk_def)
  then show ?thesis using a
    by (auto simp: requestsOk_def fetchCalendarChunk_def startFetching_def Let_def less_Suc_eq)
qed

text \<open>Only these fields matter to the requests, so every other update keeps them.\<close>

lemma requestsOk_cong:
  assumes "rf_pending w = rf_pending v" "pr_inflight w = pr_inflight v" "pr_fetching w = pr_fetching v"
    "pr_loading w = pr_loading v" "pr_controllers w = pr_controllers v" "rf_abort w = rf_abort v"
  shows "requestsOk w = requestsOk v"
  using assms by (simp add: requestsOk_def)

lemma transitionOk_cong:
  assumes "rf_transitioning w = rf_transitioning v" "tm_transition w = tm_transition v"
    "pr_transitionDate w = pr_transitionDate v" "pr_transitioning w = pr_transitioning v"
  shows "transitionOk w = transitionOk v"
  using assms by (simp add: transitionOk_def)

text \<open>A request leaves, with its share of the counters.\<close>

lemma leave_requests:
  assumes ok: "requestsOk v" and i: "i < length (pr_inflight v)"
    and rest: "pr_inflight w = take i (pr_inflight v) @ drop (Suc i) (pr_inflight v)" "rf_pending w = rf_pending v"
      "pr_fetching w = pr_fetching v" "pr_controllers w = pr_controllers v"
    and loading: "pr_loading w' \<longrightarrow> pr_loading v \<and> \<not> isFirst (pr_inflight v ! i)"
    and abort: "rf_abort w' = rf_abort v \<or> rf_abort w' = None \<and> (\<exists>c. rf_abort v = Some c \<and> c \<in> set (chunkIds [pr_inflight v ! i]))"
    and w': "rf_pending w' = rf_pending (finishFetching w)" "pr_fetching w' = pr_fetching (finishFetching w)"
      "pr_inflight w' = pr_inflight w" "pr_controllers w' = pr_controllers w"
  shows "requestsOk w'"
proof -
  let ?q = "pr_inflight v ! i" and ?qs = "take i (pr_inflight v) @ drop (Suc i) (pr_inflight v)"
  have split: "pr_inflight v = take i (pr_inflight v) @ ?q # drop (Suc i) (pr_inflight v)" using i by (rule id_take_nth_drop)
  have ids: "chunkIds (pr_inflight v) = chunkIds (take i (pr_inflight v)) @ chunkIds [?q] @ chunkIds (drop (Suc i) (pr_inflight v))"
    by (subst split) (simp flip: chunkIds_append)
  have d: "distinct (chunkIds ?qs)" "set (chunkIds ?qs) \<subseteq> set (chunkIds (pr_inflight v))"
    "set (chunkIds ?qs) \<inter> set (chunkIds [?q]) = {}"
    using ok by (auto simp: requestsOk_def ids)
  have len: "length ?qs = length (pr_inflight v) - 1" using i by simp
  have mem: "set (pr_inflight v) = insert ?q (set ?qs)" by (subst split) auto
  have first: "pr_loading w' \<longrightarrow> (\<exists>q \<in> set ?qs. isFirst q)" using ok loading mem by (auto simp: requestsOk_def)
  have live: "\<forall>q \<in> set ?qs. \<forall>c. isLive c q \<longrightarrow> rf_abort w' = Some c"
  proof (intro ballI allI impI)
    fix q c assume q: "q \<in> set ?qs" "isLive c q"
    then have "rf_abort v = Some c" using ok mem by (auto simp: requestsOk_def)
    moreover have "c \<in> set (chunkIds ?qs)" using isLive_mem [OF q(2,1)] .
    ultimately show "rf_abort w' = Some c" using abort d(3) by auto
  qed
  have pos: "pr_inflight v \<noteq> []" using i by auto
  have n: "rf_pending w = length (pr_inflight v)" "pr_fetching w" using ok rest pos by (simp_all add: requestsOk_def)
  have "rf_pending w' = length ?qs" unfolding len w'(1) by (simp add: n finishFetching_def Let_def)
  moreover have "pr_fetching w' = (?qs \<noteq> [])"
    unfolding w'(2) length_0_conv [symmetric] len using n by (simp add: finishFetching_def Let_def)
  moreover have "pr_inflight w' = ?qs" "pr_controllers w' = pr_controllers v" using w'(3,4) rest(1,4) by simp_all
  moreover have "\<forall>c \<in> set (chunkIds ?qs). c < pr_controllers v" using d(2) ok by (auto simp: requestsOk_def)
  ultimately show ?thesis using d(1) first live unfolding requestsOk_def by simp
qed

subsection \<open>Handlers\<close>

text \<open>What every handler keeps: the requests, the transition and the debts of the refs.\<close>

definition handled :: "prayerView \<Rightarrow> prayerView \<Rightarrow> bool" where
  "handled v w = (requestsOk w \<and> transitionOk w \<and> pendingRefs v w \<and> pr_active w = pr_active v)"

lemma startDayTransition_ok:
  "handled u v \<Longrightarrow> handled u (startDayTransition t d v)"
  by (auto simp: handled_def startDayTransition_def requestsOk_def transitionOk_def pendingRefs_def)

lemma handled_refl: "viewOk v \<Longrightarrow> handled v v"
  by (simp add: handled_def viewOk_def refsOk_def pendingRefs_def)

lemma handled_cong:
  assumes "handled u v" "rf_pending w = rf_pending v" "pr_inflight w = pr_inflight v" "pr_fetching w = pr_fetching v"
    "pr_loading w = pr_loading v" "pr_controllers w = pr_controllers v" "rf_abort w = rf_abort v"
    "rf_transitioning w = rf_transitioning v" "tm_transition w = tm_transition v"
    "pr_transitionDate w = pr_transitionDate v" "pr_transitioning w = pr_transitioning v"
    "pendingRefs u w" "pr_active w = pr_active u"
  shows "handled u w"
  using assms requestsOk_cong [of w v] transitionOk_cong [of w v] by (simp add: handled_def)

lemma fetchPrayers_ok: "handled u v \<Longrightarrow> handled u (fetchPrayers i p v)"
  using fetchPrayers_requests [of v i p]
  by (auto simp: handled_def transitionOk_def pendingRefs_def fetchPrayers_def startFetching_def Let_def)

lemma fetchCalendarChunk_ok: "handled u v \<Longrightarrow> handled u (fetchCalendarChunk d n origin t v)"
  using fetchCalendarChunk_requests [of v d n origin t]
  by (auto simp: handled_def transitionOk_def pendingRefs_def fetchCalendarChunk_def abortCurrent_def startFetching_def Let_def
      split: option.splits)

lemma navigateDay_ok:
  assumes "viewOk v" shows "handled v (navigateDay E delta v)"
proof -
  have h: "handled v (v\<lparr>rf_navigation := n\<rparr>)" for n
    using handled_refl [OF assms] by (rule handled_cong) (simp_all add: pendingRefs_def assms [unfolded viewOk_def refsOk_def])
  show ?thesis
    using handled_refl [OF assms] startDayTransition_ok [OF h] fetchCalendarChunk_ok [OF h] h
    by (simp add: navigateDay_def Let_def split: option.splits)
qed

lemma resetViewedDate_ok:
  assumes "viewOk v" shows "handled v (resetViewedDate v)"
proof -
  have h: "handled v (v\<lparr>rf_navigation := n\<rparr>)" for n
    using handled_refl [OF assms] by (rule handled_cong) (simp_all add: pendingRefs_def assms [unfolded viewOk_def refsOk_def])
  show ?thesis
    using handled_refl [OF assms] startDayTransition_ok [OF h]
    by (simp add: resetViewedDate_def Let_def split: option.splits)
qed

lemma syncViewedDateToReference_ok:
  assumes "viewOk v" shows "handled v (syncViewedDateToReference v)"
proof (cases "pr_active v")
  case (Some d)
  have v: "requestsOk v" "refsOk v" using assms by (auto simp: viewOk_def)
  show ?thesis
    unfolding handled_def using Some v(2)
    by (intro conjI requestsOk_cong [THEN iffD2, OF _ _ _ _ _ _ v(1)])
       (simp_all add: syncViewedDateToReference_def transitionOk_def pendingRefs_def refsOk_def)
qed (use handled_refl [OF assms] in \<open>simp add: syncViewedDateToReference_def\<close>)

lemma timers_ok:
  assumes "viewOk v" shows "handled v (endTransition v)" "handled v (inactive v)"
proof -
  have v: "requestsOk v" "transitionOk v" "refsOk v" using assms by (auto simp: viewOk_def)
  note same = requestsOk_cong [THEN iffD2, OF _ _ _ _ _ _ v(1)]
  show "handled v (endTransition v)"
  proof (cases "tm_transition v")
    case None
    then show ?thesis using handled_refl [OF assms] by (simp add: endTransition_def)
  next
    case (Some d)
    then show ?thesis using v(3)
      unfolding handled_def by (intro conjI same) (simp_all add: endTransition_def transitionOk_def pendingRefs_def refsOk_def)
  qed
  show "handled v (inactive v)"
  proof (cases "tm_inactivity v")
    case None
    then show ?thesis using handled_refl [OF assms] by (simp add: inactive_def)
  next
    case (Some d)
    then show ?thesis using v(2,3)
      unfolding handled_def by (intro conjI same) (simp_all add: inactive_def transitionOk_def pendingRefs_def refsOk_def)
  qed
qed

lemma midnight_ok:
  assumes "viewOk v" shows "handled v (midnight E d v)"
proof -
  have "pendingRefs v (midnight E d v)"
    using assms by (auto simp: midnight_def handleMidnight_def Let_def pendingRefs_def viewOk_def refsOk_def)
  then show ?thesis
    by (intro handled_cong [OF handled_refl [OF assms]]) (simp_all add: midnight_def handleMidnight_def Let_def)
qed

text \<open>What a payload leaves alone.\<close>

lemma applyPayload_fields:
  assumes "applyPayload E payload p r v = Inr w"
  shows "rf_pending w = rf_pending v" "pr_inflight w = pr_inflight v" "pr_fetching w = pr_fetching v"
    "pr_loading w = pr_loading v" "pr_controllers w = pr_controllers v" "rf_abort w = rf_abort v"
    "rf_transitioning w = rf_transitioning v" "tm_transition w = tm_transition v"
    "pr_transitionDate w = pr_transitionDate v" "pr_transitioning w = pr_transitioning v"
    "pr_active w = pr_active v" "rf_viewed w = rf_viewed v" "tm_inactivity w = tm_inactivity v" "rf_calendar w = pr_calendar w"
  using assms by (auto simp: applyPayload_def Let_def bindR_Inr)

lemma settleFetch_ok:
  assumes ok: "viewOk v" and i: "i < length (pr_inflight v)" "pr_inflight v ! i = Fetch first p r"
  shows "handled v (settleFetch E answer first p r (v\<lparr>pr_inflight := take i (pr_inflight v) @ drop (Suc i) (pr_inflight v)\<rparr>))"
proof -
  let ?u = "v\<lparr>pr_inflight := take i (pr_inflight v) @ drop (Suc i) (pr_inflight v)\<rparr>"
  have v: "requestsOk v" "transitionOk v" "refsOk v" using ok by (auto simp: viewOk_def)
  obtain w where w: "w = (case bindR (responseData answer) (\<lambda>data. applyPayload E data p r ?u) of
      Inl e \<Rightarrow> ?u\<lparr>pr_error := JStr (err_message e)\<rparr> | Inr v' \<Rightarrow> v')" by blast
  have f: "rf_pending w = rf_pending v" "pr_inflight w = take i (pr_inflight v) @ drop (Suc i) (pr_inflight v)"
    "pr_fetching w = pr_fetching v" "pr_loading w = pr_loading v" "pr_controllers w = pr_controllers v" "rf_abort w = rf_abort v"
    "rf_transitioning w = rf_transitioning v" "tm_transition w = tm_transition v"
    "pr_transitionDate w = pr_transitionDate v" "pr_transitioning w = pr_transitioning v"
    "pr_active w = pr_active v" "rf_viewed w = rf_viewed v" "tm_inactivity w = tm_inactivity v" "rf_calendar w = pr_calendar w"
    using w v(3) by (auto simp: refsOk_def bindR_Inr dest: applyPayload_fields split: sum.splits)
  let ?w' = "settleFetch E answer first p r ?u"
  have w': "?w' = (if first then (finishFetching w)\<lparr>pr_loading := False\<rparr> else finishFetching w)"
    using w by (simp add: settleFetch_def Let_def)
  have "requestsOk ?w'"
    by (rule leave_requests [OF v(1) i(1), of w]) (simp_all add: w' f i(2) finishFetching_def Let_def)
  moreover have "transitionOk ?w'"
    using v(2) transitionOk_cong [of ?w' v] by (simp add: w' f finishFetching_def Let_def)
  moreover have "pendingRefs v ?w'" "pr_active ?w' = pr_active v"
    using v(3) by (simp_all add: w' f finishFetching_def Let_def pendingRefs_def refsOk_def)
  ultimately show ?thesis by (simp add: handled_def)
qed

lemma receiveChunk_fields:
  assumes "receiveChunk answer d v = (w, chunk)"
  shows "rf_pending w = rf_pending v" "pr_inflight w = pr_inflight v" "pr_fetching w = pr_fetching v"
    "pr_loading w = pr_loading v" "pr_controllers w = pr_controllers v" "rf_abort w = rf_abort v"
    "rf_transitioning w = rf_transitioning v" "tm_transition w = tm_transition v"
    "pr_transitionDate w = pr_transitionDate v" "pr_transitioning w = pr_transitioning v"
    "pr_active w = pr_active v" "pr_viewed w = pr_viewed v" "rf_viewed w = rf_viewed v" "tm_inactivity w = tm_inactivity v"
    "rf_calendar w = rf_calendar v" "pr_initialReference w = pr_initialReference v" "pr_prayers w = pr_prayers v"
    "rf_navigation w = rf_navigation v" "rf_reference w = rf_reference v"
  using assms
  by (auto simp: receiveChunk_def setBoundary_def Let_def split: sum.splits if_splits direction.splits)

lemma settleChunk_ok:
  assumes ok: "viewOk v" and i: "i < length (pr_inflight v)" "pr_inflight v ! i = Chunk c aborted d n origin target"
  shows "handled v (settleChunk answer c aborted d n origin target
     (v\<lparr>pr_inflight := take i (pr_inflight v) @ drop (Suc i) (pr_inflight v)\<rparr>))"
proof -
  let ?u = "v\<lparr>pr_inflight := take i (pr_inflight v) @ drop (Suc i) (pr_inflight v)\<rparr>"
  have v: "requestsOk v" "transitionOk v" "refsOk v" using ok by (auto simp: viewOk_def)
  obtain w chunk where w: "(if aborted then (?u, JNull) else receiveChunk answer d ?u) = (w, chunk)" by fastforce
  have from_u: "w = ?u \<or> receiveChunk answer d ?u = (w, chunk)" using w by (auto split: if_splits)
  have f: "rf_pending w = rf_pending v" "pr_inflight w = take i (pr_inflight v) @ drop (Suc i) (pr_inflight v)"
    "pr_fetching w = pr_fetching v" "pr_loading w = pr_loading v" "pr_controllers w = pr_controllers v" "rf_abort w = rf_abort v"
    "rf_transitioning w = rf_transitioning v" "tm_transition w = tm_transition v"
    "pr_transitionDate w = pr_transitionDate v" "pr_transitioning w = pr_transitioning v"
    "pr_active w = pr_active v" "pr_viewed w = pr_viewed v" "rf_viewed w = rf_viewed v" "tm_inactivity w = tm_inactivity v"
    "rf_calendar w = rf_calendar v"
    by (rule disjE [OF from_u], simp, simp add: receiveChunk_fields)+
  let ?w' = "if rf_abort (finishFetching w) = Some c then (finishFetching w)\<lparr>rf_abort := None\<rparr> else finishFetching w"
  have "requestsOk ?w'"
    by (rule leave_requests [OF v(1) i(1), of w]) (simp_all add: f i(2) finishFetching_def Let_def)
  moreover have "transitionOk ?w'"
    using v(2) transitionOk_cong [of ?w' v] by (simp add: f finishFetching_def Let_def)
  moreover have "pendingRefs v ?w'" "pr_active ?w' = pr_active v"
    using v(3) by (simp_all add: f finishFetching_def Let_def pendingRefs_def refsOk_def)
  ultimately have h: "handled v ?w'" by (simp add: handled_def)
  obtain z where z: "z = ?w'" by blast
  have "settleChunk answer c aborted d n origin target ?u =
      (case target of None \<Rightarrow> z
       | Some t \<Rightarrow> if truthy (jget chunk t) \<and> rf_navigation z = n \<and> rf_viewed z = Some origin then startDayTransition t d z else z)"
    unfolding settleChunk_def w z Let_def prod.case ..
  then show ?thesis using h startDayTransition_ok [OF h] by (simp add: z [symmetric] split: option.splits)
qed

lemma handle_ok:
  assumes "viewOk v" shows "handled v (handle E ev v)"
proof (cases ev)
  case (Answer i answer)
  show ?thesis
  proof (cases "i < length (pr_inflight v)")
    case True
    then show ?thesis using Answer settleFetch_ok [OF assms True] settleChunk_ok [OF assms True]
      by (cases "pr_inflight v ! i") (simp_all add: handle_def settleRequest_def Let_def)
  qed (use Answer handled_refl [OF assms] in \<open>simp add: handle_def settleRequest_def\<close>)
qed (simp_all add: handle_def fetchPrayers_ok handled_refl midnight_ok timers_ok navigateDay_ok resetViewedDate_ok
    syncViewedDateToReference_ok assms)

subsection \<open>Effects\<close>

lemma stopFetching_ok:
  assumes "handled u v"
  shows "handled u (stopFetching v)"
proof -
  let ?v = "v\<lparr>tm_inactivity := None, tm_transition := None, rf_transitioning := False\<rparr>"
  have "requestsOk ?v" using assms requestsOk_cong [of ?v v] by (simp add: handled_def)
  then have r: "requestsOk (abortCurrent ?v)" using abortCurrent_requests by blast
  have f: "rf_transitioning (abortCurrent w) = rf_transitioning w" "tm_transition (abortCurrent w) = tm_transition w"
    "tm_inactivity (abortCurrent w) = tm_inactivity w" "pr_viewed (abortCurrent w) = pr_viewed w"
    "rf_viewed (abortCurrent w) = rf_viewed w" "pr_calendar (abortCurrent w) = pr_calendar w"
    "rf_calendar (abortCurrent w) = rf_calendar w" "pr_active (abortCurrent w) = pr_active w" for w
    by (simp_all add: abortCurrent_def split: option.splits)
  show ?thesis using assms r
    by (simp add: handled_def stopFetching_def f transitionOk_def pendingRefs_def)
qed

text \<open>The stages of the effects, as named functions of the dependencies.\<close>

definition cleanups :: "bool \<Rightarrow> bool \<Rightarrow> prayerView \<Rightarrow> prayerView" where
  "cleanups refetch rearm v =
     (let v = (if refetch then stopFetching v else v); v = (if rearm then v\<lparr>tm_inactivity := None\<rparr> else v) in
      if refetch then fetchPrayers True False v else v)"

definition syncRefs :: "prayerView \<Rightarrow> prayerView \<Rightarrow> prayerView" where
  "syncRefs before v =
     (let v = (if pr_viewed v \<noteq> pr_viewed before then v\<lparr>rf_viewed := pr_viewed v\<rparr> else v) in
      if pr_calendar v \<noteq> pr_calendar before then v\<lparr>rf_calendar := pr_calendar v\<rparr> else v)"

definition armTimer :: "bool \<Rightarrow> string \<Rightarrow> prayerView \<Rightarrow> prayerView" where
  "armTimer rearm today v =
     (let v = (if rearm \<and> pr_viewed v \<noteq> None \<and> pr_viewed v \<noteq> Some today then v\<lparr>tm_inactivity := Some today\<rparr> else v) in
      v\<lparr>pr_active := Some today\<rparr>)"

lemma commit_stages:
  "commit E before v =
     (let today = activeReference E v; rearm = (pr_active before \<noteq> Some today \<or> pr_viewed v \<noteq> pr_viewed before) in
      armTimer rearm today (syncRefs before (cleanups (pr_initialReference v \<noteq> pr_initialReference before) rearm v)))"
  unfolding commit_def cleanups_def syncRefs_def armTimer_def Let_def ..

lemma cleanups_ok:
  assumes "handled u v"
  shows "handled u (cleanups a b v) \<and> (b \<longrightarrow> tm_inactivity (cleanups a b v) = None)"
proof -
  have h: "handled u (w\<lparr>tm_inactivity := None\<rparr>)" if "handled u w" for w
    by (rule handled_cong [OF that]) (use that in \<open>simp_all add: handled_def pendingRefs_def\<close>)
  have i: "tm_inactivity (fetchPrayers x y w) = tm_inactivity w" for x y w
    by (simp add: fetchPrayers_def startFetching_def Let_def)
  show ?thesis using assms stopFetching_ok [OF assms]
    by (simp add: cleanups_def Let_def h fetchPrayers_ok i)
qed

text \<open>What the cleanups do not touch.\<close>

lemma cleanups_fields [view_simps]:
  "pr_viewed (cleanups a b v) = pr_viewed v" "pr_calendar (cleanups a b v) = pr_calendar v"
  "pr_initialReference (cleanups a b v) = pr_initialReference v" "pr_prayers (cleanups a b v) = pr_prayers v"
  "rf_reference (cleanups a b v) = rf_reference v" "pr_transitioning (cleanups a b v) = pr_transitioning v"
  "pr_meta (cleanups a b v) = pr_meta v"
  by (simp_all add: cleanups_def Let_def stopFetching_def abortCurrent_def fetchPrayers_def startFetching_def split: option.splits)

lemma syncRefs_fields [view_simps]:
  "pr_viewed (syncRefs u v) = pr_viewed v" "pr_calendar (syncRefs u v) = pr_calendar v"
  "pr_initialReference (syncRefs u v) = pr_initialReference v" "pr_prayers (syncRefs u v) = pr_prayers v"
  "rf_reference (syncRefs u v) = rf_reference v" "pr_transitioning (syncRefs u v) = pr_transitioning v"
  "tm_inactivity (syncRefs u v) = tm_inactivity v" "pr_active (syncRefs u v) = pr_active v"
  "tm_transition (syncRefs u v) = tm_transition v" "pr_meta (syncRefs u v) = pr_meta v" "pr_inflight (syncRefs u v) = pr_inflight v"
  by (simp_all add: syncRefs_def Let_def)

lemma armTimer_fields [view_simps]:
  "pr_viewed (armTimer b t v) = pr_viewed v" "pr_calendar (armTimer b t v) = pr_calendar v"
  "pr_initialReference (armTimer b t v) = pr_initialReference v" "pr_prayers (armTimer b t v) = pr_prayers v"
  "rf_reference (armTimer b t v) = rf_reference v" "pr_transitioning (armTimer b t v) = pr_transitioning v"
  "pr_active (armTimer b t v) = Some t" "rf_viewed (armTimer b t v) = rf_viewed v" "rf_calendar (armTimer b t v) = rf_calendar v"
  "tm_transition (armTimer b t v) = tm_transition v" "pr_meta (armTimer b t v) = pr_meta v" "pr_inflight (armTimer b t v) = pr_inflight v"
  by (simp_all add: armTimer_def Let_def)

lemma commit_fields [view_simps]:
  "pr_viewed (commit E u v) = pr_viewed v" "pr_calendar (commit E u v) = pr_calendar v"
  "pr_initialReference (commit E u v) = pr_initialReference v" "pr_prayers (commit E u v) = pr_prayers v"
  "rf_reference (commit E u v) = rf_reference v" "pr_transitioning (commit E u v) = pr_transitioning v"
  "pr_active (commit E u v) = Some (activeReference E v)" "pr_meta (commit E u v) = pr_meta v"
  by (simp_all add: commit_stages Let_def view_simps)

lemma commit_ok:
  assumes h: "handled u w" and u: "\<forall>d. tm_inactivity u = Some d \<longrightarrow> pr_active u = Some d"
  shows "viewOk (commit E u w)"
proof -
  let ?today = "activeReference E w"
  let ?rearm = "pr_active u \<noteq> Some ?today \<or> pr_viewed w \<noteq> pr_viewed u"
  obtain c where c: "c = cleanups (pr_initialReference w \<noteq> pr_initialReference u) ?rearm w" by blast
  have k: "handled u c" "?rearm \<longrightarrow> tm_inactivity c = None" using cleanups_ok [OF h] by (simp_all add: c)
  obtain s where s: "s = syncRefs u c" by blast
  have refs: "rf_viewed s = pr_viewed s" "rf_calendar s = pr_calendar s"
    using k(1) by (auto simp: s syncRefs_def Let_def handled_def pendingRefs_def)
  have core: "requestsOk s" "transitionOk s"
    using k(1) requestsOk_cong [of s c] transitionOk_cong [of s c] by (simp_all add: s syncRefs_def Let_def handled_def)
  have e: "commit E u w = armTimer ?rearm ?today s" by (simp add: commit_stages Let_def s c)
  have "requestsOk (commit E u w)" "transitionOk (commit E u w)"
    using core requestsOk_cong [of "commit E u w" s] transitionOk_cong [of "commit E u w" s]
    by (simp_all add: e armTimer_def Let_def)
  moreover have "tm_inactivity (commit E u w) = Some d \<Longrightarrow> d = ?today" for d
  proof (cases ?rearm)
    case True
    then have "tm_inactivity s = None" using k(2) by (simp add: s view_simps)
    then show "tm_inactivity (commit E u w) = Some d \<Longrightarrow> d = ?today"
      using True by (simp add: e armTimer_def Let_def split: if_splits)
  next
    case False
    then have "tm_inactivity (commit E u w) = tm_inactivity c" by (simp add: e armTimer_def Let_def s view_simps)
    moreover have "tm_inactivity c = None \<or> tm_inactivity c = tm_inactivity u" using k(1) by (auto simp: handled_def pendingRefs_def)
    ultimately show "tm_inactivity (commit E u w) = Some d \<Longrightarrow> d = ?today" using u False by (metis option.distinct(1) option.inject)
  qed
  moreover have "pr_initialReference (commit E u w) = Some d \<Longrightarrow> d = ?today" for d
    by (simp add: view_simps activeReference_def orDate_def)
  moreover have "rf_viewed (commit E u w) = pr_viewed (commit E u w)" "rf_calendar (commit E u w) = pr_calendar (commit E u w)"
    using refs by (simp_all add: e view_simps)
  ultimately show ?thesis by (auto simp: viewOk_def refsOk_def view_simps)
qed

lemma viewStep_ok: "viewOk v \<Longrightarrow> viewOk (viewStep E ev v)"
  unfolding viewStep_def by (rule commit_ok [OF handle_ok]) (auto simp: viewOk_def refsOk_def)

lemma mount_ok: "viewOk (mount E)"
proof -
  have "handled (freshView E) (fetchPrayers True False (freshView E))"
    by (simp add: handled_def requestsOk_def transitionOk_def pendingRefs_def freshView_def fetchPrayers_def startFetching_def Let_def)
  then show ?thesis unfolding mount_def Let_def by (rule commit_ok) (simp add: freshView_def)
qed

lemma viewRun_ok: "viewRun v \<Longrightarrow> viewOk v"
  by (induction rule: viewRun.induct) (auto simp: mount_ok viewStep_ok)

section \<open>Theorems\<close>

lemma commit_transition: "tm_transition w = None \<Longrightarrow> tm_transition (commit E u w) = None"
  by (simp add: commit_stages Let_def view_simps cleanups_def stopFetching_def abortCurrent_def fetchPrayers_def startFetching_def
      split: option.splits)

text \<open>
  C15. The dashboard never gets stuck. In every state that timers, clicks and answers in any order
  lead to: the activity indicator is on exactly while requests are in flight, and the first load is
  over when none is; navigation is locked exactly while the timer of a transition runs, and the timer
  unlocks it; at most the chunk asked for last can still change the calendar, all others are aborted;
  the refs the callbacks read agree with the state on the screen; and the timer of inactivity
  leads back to today.
\<close>

theorem dashboard_never_stuck:
  assumes "viewRun v"
  shows "(pr_fetching v \<longleftrightarrow> pr_inflight v \<noteq> []) \<and> (pr_inflight v = [] \<longrightarrow> \<not> pr_loading v) \<and>
    (rf_transitioning v \<longleftrightarrow> tm_transition v \<noteq> None) \<and> \<not> rf_transitioning (viewStep E TransitionTimer v) \<and>
    (\<forall>c d n origin target. Chunk c False d n origin target \<in> set (pr_inflight v) \<longrightarrow> rf_abort v = Some c) \<and>
    distinct (chunkIds (pr_inflight v)) \<and>
    rf_viewed v = pr_viewed v \<and> rf_calendar v = pr_calendar v \<and>
    (\<forall>d. tm_inactivity v = Some d \<longrightarrow> pr_active v = Some d)"
proof -
  have ok: "viewOk v" using assms by (rule viewRun_ok)
  have "tm_transition (handle E TransitionTimer v) = None"
    by (simp add: handle_def endTransition_def split: option.splits)
  then have "\<not> rf_transitioning (viewStep E TransitionTimer v)"
    using viewStep_ok [OF ok, of E TransitionTimer] commit_transition
    by (auto simp: viewStep_def viewOk_def transitionOk_def)
  then show ?thesis using ok by (fastforce simp: viewOk_def requestsOk_def transitionOk_def refsOk_def)
qed

subsection \<open>Today\<close>

lemma later_monotone [simp]: "\<not> earlier (getLaterDate a b) a" "\<not> earlier (getLaterDate a b) b"
  by (auto simp: earlier_def getLaterDate_def split: option.splits)

lemma later_refl [simp]: "getLaterDate a a = a"
  by (auto simp: getLaterDate_def split: option.splits)

lemma earlier_irrefl [simp]: "\<not> earlier a a"
  by (auto simp: earlier_def split: option.splits)

lemma later_absorb: "earlier a b \<Longrightarrow> getLaterDate a b = b"
  by (auto simp: earlier_def getLaterDate_def split: option.splits)

lemma later_None: "getLaterDate a b = None \<longleftrightarrow> a = None \<and> b = None"
  by (auto simp: getLaterDate_def split: option.splits)

lemma applyPayload_reference:
  "applyPayload E payload p r v = Inr w \<Longrightarrow> \<exists>d. pr_initialReference w = getLaterDate (pr_initialReference v) d"
  by (auto simp: applyPayload_def Let_def bindR_Inr)

lemma handle_reference:
  "pr_initialReference (handle E ev v) = pr_initialReference v \<or>
   (\<exists>d. pr_initialReference (handle E ev v) = getLaterDate (pr_initialReference v) d)"
proof (cases ev)
  case (Answer i answer)
  show ?thesis
  proof (cases "i < length (pr_inflight v)")
    case True
    let ?u = "v\<lparr>pr_inflight := take i (pr_inflight v) @ drop (Suc i) (pr_inflight v)\<rparr>"
    show ?thesis
    proof (cases "pr_inflight v ! i")
      case (Fetch first p r)
      then show ?thesis using True Answer
        by (auto simp: handle_def settleRequest_def settleFetch_def Let_def finishFetching_def bindR_Inr split: sum.splits
            dest!: applyPayload_reference)
    next
      case (Chunk c aborted d n origin target)
      obtain w chunk where w: "(if aborted then (?u, JNull) else receiveChunk answer d ?u) = (w, chunk)" by fastforce
      then have "pr_initialReference w = pr_initialReference v" by (auto dest: receiveChunk_fields split: if_splits)
      then have "pr_initialReference (settleChunk answer c aborted d n origin target ?u) = pr_initialReference v"
        unfolding settleChunk_def w by (simp add: Let_def finishFetching_def startDayTransition_def split: option.splits)
      then show ?thesis using True Answer Chunk by (simp add: handle_def settleRequest_def Let_def)
    qed
  qed (use Answer in \<open>simp add: handle_def settleRequest_def\<close>)
next
  case (MidnightTimer d)
  then show ?thesis by (auto simp: handle_def midnight_def handleMidnight_def Let_def)
next
  case (NavigateDay delta)
  have "pr_initialReference (fetchCalendarChunk d n origin t w) = pr_initialReference w" for d n origin t w
    by (simp add: fetchCalendarChunk_def abortCurrent_def startFetching_def Let_def split: option.splits)
  then show ?thesis using NavigateDay
    by (simp add: handle_def navigateDay_def startDayTransition_def Let_def split: option.splits)
qed (simp_all add: handle_def fetchPrayers_def startFetching_def endTransition_def inactive_def resetViewedDate_def
    startDayTransition_def syncViewedDateToReference_def Let_def split: option.splits)


subsection \<open>Going to another day\<close>

lemma viewStep_kept:
  assumes "pr_initialReference w = pr_initialReference v" "handle E ev v = w"
  shows "tm_transition (viewStep E ev v) = tm_transition w" "pr_inflight (viewStep E ev v) = pr_inflight w"
    "rf_transitioning (viewStep E ev v) = rf_transitioning w" "pr_transitionDate (viewStep E ev v) = pr_transitionDate w"
    "pr_error (viewStep E ev v) = pr_error w" "rf_navigation (viewStep E ev v) = rf_navigation w"
  using assms by (simp_all add: viewStep_def commit_def Let_def)

text \<open>
  An arrow leads to a loaded day. From a day on the screen, with no transition running: when the
  day to go to is loaded, the click announces it and the end of the transition shows that day with its
  own prayers, and no request is sent. When it is not loaded and there is more to load, the click asks for
  the next part of the calendar and leaves the view; the answer then starts the transition to that day, if
  it contains it and the user has not moved on, and an empty answer closes this direction.
\<close>


lemma navigateDay_asks:
  assumes "viewOk v" "pr_viewed v = Some origin" "\<not> rf_transitioning v" "delta \<noteq> 0" "ve_plus E origin delta = Some target"
    and "\<not> truthy (jget (pr_calendar v) target)" "\<not> (if delta > 0 then pr_boundaryFuture v else pr_boundaryPast v)"
    "jkeys (pr_calendar v) \<noteq> []"
  shows "\<exists>c qs. pr_inflight (viewStep E (NavigateDay delta) v) =
      qs @ [Chunk c False (if delta > 0 then Future else Past) (rf_navigation v + 1) origin (Some target)] \<and>
    rf_navigation (viewStep E (NavigateDay delta) v) = rf_navigation v + 1 \<and>
    pr_viewed (viewStep E (NavigateDay delta) v) = Some origin \<and> tm_transition (viewStep E (NavigateDay delta) v) = None \<and>
    length qs = length (pr_inflight v)"
proof -
  let ?d = "if delta > 0 then Future else Past"
  have keys: "sortDateKeys (pr_calendar v) \<noteq> []" using assms(8) by (auto simp: sortDateKeys_def dest: arg_cong [where f = set])
  have some: "xs \<noteq> [] \<Longrightarrow> \<exists>x. firstOf xs = Some x" for xs :: "string list" by (cases xs) (auto simp: firstOf_def)
  have "\<exists>cursor. (if delta > 0 then maxCachedDate (pr_calendar v) else minCachedDate (pr_calendar v)) = Some cursor"
    using some [OF keys] some [of "rev (sortDateKeys (pr_calendar v))"] keys
    by (cases "delta > 0") (simp_all add: maxCachedDate_def minCachedDate_def)
  then obtain cursor where "(if delta > 0 then maxCachedDate (pr_calendar v) else minCachedDate (pr_calendar v)) = Some cursor"
    by blast
  then have h: "handle E (NavigateDay delta) v =
      fetchCalendarChunk ?d (rf_navigation v + 1) origin (Some target) (v\<lparr>rf_navigation := rf_navigation v + 1\<rparr>)"
    using assms by (simp add: handle_def navigateDay_def dayOf_def split: if_splits)
  let ?w = "fetchCalendarChunk ?d (rf_navigation v + 1) origin (Some target) (v\<lparr>rf_navigation := rf_navigation v + 1\<rparr>)"
  have f: "pr_initialReference ?w = pr_initialReference v" "rf_navigation ?w = rf_navigation v + 1" "tm_transition ?w = tm_transition v"
    "pr_viewed ?w = pr_viewed v" "\<exists>c qs. pr_inflight ?w = qs @ [Chunk c False ?d (rf_navigation v + 1) origin (Some target)] \<and> length qs = length (pr_inflight v)"
    by (simp_all add: fetchCalendarChunk_def abortCurrent_def startFetching_def Let_def split: option.splits)
  have "tm_transition v = None" using assms(1,3) by (simp add: viewOk_def transitionOk_def)
  then show ?thesis using viewStep_kept [OF f(1) h] f assms(2) h by (simp add: viewStep_def view_simps)
qed

lemma applyPayload_calendar: "applyPayload E payload p r v = Inr w \<Longrightarrow> is_object (pr_calendar w)"
  by (auto simp: applyPayload_def Let_def bindR_Inr)

lemma receiveChunk_calendar:
  "receiveChunk answer d v = (w, chunk) \<Longrightarrow> is_object (pr_calendar v) \<Longrightarrow> is_object (pr_calendar w)"
  by (auto simp: receiveChunk_def setBoundary_def Let_def split: sum.splits if_splits direction.splits)

lemma pruneCalendar_object [simp]: "is_object (pruneCalendar E c d)"
  by (simp add: pruneCalendar_def)

lemma handle_calendar:
  assumes "is_object (pr_calendar v)" shows "is_object (pr_calendar (handle E ev v))"
proof (cases ev)
  case (Answer i answer)
  show ?thesis
  proof (cases "i < length (pr_inflight v)")
    case True
    let ?u = "v\<lparr>pr_inflight := take i (pr_inflight v) @ drop (Suc i) (pr_inflight v)\<rparr>"
    show ?thesis
    proof (cases "pr_inflight v ! i")
      case (Fetch first p r)
      then show ?thesis using True Answer assms
        by (auto simp: handle_def settleRequest_def settleFetch_def Let_def finishFetching_def bindR_Inr split: sum.splits
            dest!: applyPayload_calendar)
    next
      case (Chunk c aborted d n origin target)
      obtain w chunk where w: "(if aborted then (?u, JNull) else receiveChunk answer d ?u) = (w, chunk)" by fastforce
      then have "is_object (pr_calendar w)" using assms by (auto dest!: receiveChunk_calendar split: if_splits)
      then have "is_object (pr_calendar (settleChunk answer c aborted d n origin target ?u))"
        unfolding settleChunk_def w by (simp add: Let_def finishFetching_def startDayTransition_def split: option.splits)
      then show ?thesis using True Answer Chunk by (simp add: handle_def settleRequest_def Let_def)
    qed
  qed (use Answer assms in \<open>simp add: handle_def settleRequest_def\<close>)
next
  case (NavigateDay delta)
  have "pr_calendar (fetchCalendarChunk d n origin t w) = pr_calendar w" for d n origin t w
    by (simp add: fetchCalendarChunk_def abortCurrent_def startFetching_def Let_def split: option.splits)
  then show ?thesis using NavigateDay assms
    by (simp add: handle_def navigateDay_def startDayTransition_def Let_def split: option.splits)
qed (use assms in \<open>simp_all add: handle_def fetchPrayers_def startFetching_def endTransition_def inactive_def resetViewedDate_def
    midnight_def handleMidnight_def startDayTransition_def syncViewedDateToReference_def Let_def split: option.splits\<close>)

lemma viewRun_calendar: "viewRun v \<Longrightarrow> is_object (pr_calendar v)"
proof (induction rule: viewRun.induct)
  case (mounted E)
  show ?case by (simp add: mount_def Let_def view_simps freshView_def fetchPrayers_def startFetching_def)
qed (simp add: viewStep_def view_simps handle_calendar)

lemma endTransition_shows:
  assumes "tm_transition v = Some target"
  shows "pr_viewed (viewStep E TransitionTimer v) = Some target"
    "viewedPrayers (viewStep E TransitionTimer v) = orElse (jget (pr_calendar v) target) (pr_prayers v)"
  using assms by (simp_all add: viewStep_def view_simps handle_def endTransition_def viewedPrayers_def dayOf_def)

lemma setBoundary_fields [simp]:
  "pr_initialReference (setBoundary d b v) = pr_initialReference v" "tm_transition (setBoundary d b v) = tm_transition v"
  "rf_transitioning (setBoundary d b v) = rf_transitioning v" "pr_calendar (setBoundary d b v) = pr_calendar v"
  "rf_navigation (setBoundary d b v) = rf_navigation v" "rf_viewed (setBoundary d b v) = rf_viewed v"
  "pr_viewed (setBoundary d b v) = pr_viewed v" "rf_abort (setBoundary d b v) = rf_abort v"
  "(case d of Past \<Rightarrow> pr_boundaryPast (setBoundary d b v) | Future \<Rightarrow> pr_boundaryFuture (setBoundary d b v)) = b"
  by (cases d; simp add: setBoundary_def)+

text \<open>The answer to the chunk a navigation waits for.\<close>

lemma settleChunk_leads:
  fixes E :: viewEnv
  assumes ok: "viewOk v" and q: "pr_inflight v = qs @ [Chunk c False d n origin (Some target)]"
    and here: "rf_navigation v = n" "pr_viewed v = Some origin" "tm_transition v = None"
    and data: "responseData answer = Inr payload" "getProp payload ''calendar'' = Inr chunk" "is_object chunk" "wf_json chunk"
      "is_object (pr_calendar v)"
  defines "w \<equiv> viewStep E (Answer (length qs) answer) v"
  shows "truthy (jget chunk target) \<Longrightarrow>
      tm_transition w = Some target \<and> pr_transitionDate w = Some target \<and> jget (pr_calendar w) target = jget chunk target"
    "jkeys chunk = [] \<Longrightarrow> tm_transition w = None \<and> pr_viewed w = Some origin \<and>
      (case d of Past \<Rightarrow> pr_boundaryPast w | Future \<Rightarrow> pr_boundaryFuture w)"
proof -
  let ?u = "v\<lparr>pr_inflight := qs\<rparr>"
  have refs: "rf_viewed v = Some origin" "\<not> rf_transitioning v" using ok here by (simp_all add: viewOk_def refsOk_def transitionOk_def)
  have h: "handle E (Answer (length qs) answer) v = settleChunk answer c False d n origin (Some target) ?u"
    by (simp add: handle_def settleRequest_def q Let_def)
  have chunk: "orElse chunk (JObj []) = chunk" using data(3) by (simp add: orElse_def is_object_truthy)
  {
    assume t: "truthy (jget chunk target)"
    then have "target \<in> fst ` set (entries chunk)"
      using data(3) by (cases chunk) (force dest: map_of_SomeD split: option.splits)+
    then have n: "length (jkeys chunk) \<noteq> 0" and k: "\<exists>x. (target, x) \<in> set (entries chunk)" by auto
    have r: "receiveChunk answer d ?u =
        (setBoundary d (length (jkeys chunk) < 7) (?u\<lparr>pr_calendar := spreadMerge (pr_calendar v) chunk, pr_error := JNull\<rparr>), chunk)"
      using n by (simp add: receiveChunk_def data chunk Let_def)
    have s: "settleChunk answer c False d n origin (Some target) ?u = x \<Longrightarrow>
        pr_initialReference x = pr_initialReference v \<and> tm_transition x = Some target \<and> pr_transitionDate x = Some target \<and>
        pr_calendar x = spreadMerge (pr_calendar v) chunk" for x
      using t refs here(1)
      by (auto simp: settleChunk_def r Let_def finishFetching_def startDayTransition_def)
    show "tm_transition w = Some target \<and> pr_transitionDate w = Some target \<and> jget (pr_calendar w) target = jget chunk target"
      unfolding w_def
      using viewStep_kept [of _ v E "Answer (length qs) answer"] s [OF h [symmetric]] k jget_spreadMerge [OF data(5,3)] data(4)
      by (simp add: viewStep_def view_simps)
  next
    assume e: "jkeys chunk = []"
    then have r: "receiveChunk answer d ?u = (setBoundary d True ?u, JNull)"
      by (simp add: receiveChunk_def data chunk)
    let ?y = "finishFetching (setBoundary d True ?u)"
    have e: "settleChunk answer c False d n origin (Some target) ?u = (if rf_abort ?y = Some c then ?y\<lparr>rf_abort := None\<rparr> else ?y)"
      by (simp add: settleChunk_def r Let_def)
    have f: "pr_initialReference ?y = pr_initialReference v" "tm_transition ?y = None" "pr_viewed ?y = Some origin"
      "case d of Past \<Rightarrow> pr_boundaryPast ?y | Future \<Rightarrow> pr_boundaryFuture ?y"
      using here by (simp_all add: finishFetching_def Let_def setBoundary_def split: direction.split)
    have s: "settleChunk answer c False d n origin (Some target) ?u = x \<Longrightarrow>
        pr_initialReference x = pr_initialReference v \<and> tm_transition x = None \<and> pr_viewed x = Some origin \<and>
        (case d of Past \<Rightarrow> pr_boundaryPast x | Future \<Rightarrow> pr_boundaryFuture x)" for x
      using f e by (cases d) auto
    have b: "pr_boundaryPast (commit E v x) = pr_boundaryPast x" "pr_boundaryFuture (commit E v x) = pr_boundaryFuture x" for x
      by (simp_all add: commit_def Let_def stopFetching_def abortCurrent_def fetchPrayers_def startFetching_def split: option.splits)
    show "tm_transition w = None \<and> pr_viewed w = Some origin \<and> (case d of Past \<Rightarrow> pr_boundaryPast w | Future \<Rightarrow> pr_boundaryFuture w)"
      unfolding w_def
      using viewStep_kept [of _ v E "Answer (length qs) answer"] s [OF h [symmetric]]
      by (cases d) (simp_all add: viewStep_def view_simps b)
  }
qed

text \<open>
  C20. An arrow leads to a loaded day. From a day on the screen, with no transition running: when the
  day to go to is loaded, the click announces it and sends nothing, and the end of the transition shows that day
  with its own prayers. When it is not loaded and the calendar may go on there, the click asks
  for the next part and leaves the view; an answer with that day starts the transition to it, whose end
  shows its prayers, and an empty answer leaves the view and closes this direction.
\<close>

theorem navigateDay_loads:
  assumes run: "viewRun v" and here: "pr_viewed v = Some origin" "\<not> rf_transitioning v" "delta \<noteq> 0" "ve_plus E origin delta = Some target"
  shows "(let v1 = viewStep E (NavigateDay delta) v; v2 = viewStep E TransitionTimer v1 in
     truthy (jget (pr_calendar v) target) \<longrightarrow>
       pr_transitionDate v1 = Some target \<and> pr_inflight v1 = pr_inflight v \<and> pr_viewed v2 = Some target \<and>
       viewedPrayers v2 = jget (pr_calendar v) target) \<and>
   (\<forall>answer payload chunk.
     \<not> truthy (jget (pr_calendar v) target) \<and> \<not> (if delta > 0 then pr_boundaryFuture v else pr_boundaryPast v) \<and>
     jkeys (pr_calendar v) \<noteq> [] \<and>
     responseData answer = Inr payload \<and> getProp payload ''calendar'' = Inr chunk \<and> is_object chunk \<and> wf_json chunk \<longrightarrow>
     (let v1 = viewStep E (NavigateDay delta) v; v2 = viewStep E (Answer (length (pr_inflight v1) - 1) answer) v1;
          v3 = viewStep E TransitionTimer v2 in
      length (pr_inflight v1) = length (pr_inflight v) + 1 \<and> pr_viewed v1 = Some origin \<and>
      (truthy (jget chunk target) \<longrightarrow> pr_viewed v3 = Some target \<and> viewedPrayers v3 = jget chunk target) \<and>
      (jkeys chunk = [] \<longrightarrow> tm_transition v2 = None \<and> pr_viewed v2 = Some origin \<and>
         (if delta > 0 then pr_boundaryFuture v2 else pr_boundaryPast v2))))"
proof (intro conjI allI impI)
  have ok: "viewOk v" and object: "is_object (pr_calendar v)" using run by (rule viewRun_ok, rule viewRun_calendar)
  show "let v1 = viewStep E (NavigateDay delta) v; v2 = viewStep E TransitionTimer v1 in
     truthy (jget (pr_calendar v) target) \<longrightarrow>
       pr_transitionDate v1 = Some target \<and> pr_inflight v1 = pr_inflight v \<and> pr_viewed v2 = Some target \<and>
       viewedPrayers v2 = jget (pr_calendar v) target"
    unfolding Let_def
  proof
    assume t: "truthy (jget (pr_calendar v) target)"
    let ?w = "startDayTransition target (if delta > 0 then Future else Past) (v\<lparr>rf_navigation := rf_navigation v + 1\<rparr>)"
    have h: "handle E (NavigateDay delta) v = ?w"
      using here t by (simp add: handle_def navigateDay_def dayOf_def Let_def)
    have f: "pr_initialReference ?w = pr_initialReference v" "pr_transitionDate ?w = Some target" "tm_transition ?w = Some target"
      "pr_inflight ?w = pr_inflight v" "pr_calendar ?w = pr_calendar v"
      using here(2) by (simp_all add: startDayTransition_def)
    have "tm_transition (viewStep E (NavigateDay delta) v) = Some target" "pr_calendar (viewStep E (NavigateDay delta) v) = pr_calendar v"
      using viewStep_kept(1) [OF f(1) h] f(3,5) h by (simp_all add: viewStep_def view_simps)
    then show "pr_transitionDate (viewStep E (NavigateDay delta) v) = Some target \<and>
       pr_inflight (viewStep E (NavigateDay delta) v) = pr_inflight v \<and>
       pr_viewed (viewStep E TransitionTimer (viewStep E (NavigateDay delta) v)) = Some target \<and>
       viewedPrayers (viewStep E TransitionTimer (viewStep E (NavigateDay delta) v)) = jget (pr_calendar v) target"
      using endTransition_shows [of "viewStep E (NavigateDay delta) v" target E] viewStep_kept(2,4) [OF f(1) h] f t
      by (simp add: orElse_def)
  qed
  fix answer payload chunk
  assume a: "\<not> truthy (jget (pr_calendar v) target) \<and> \<not> (if delta > 0 then pr_boundaryFuture v else pr_boundaryPast v) \<and>
     jkeys (pr_calendar v) \<noteq> [] \<and>
     responseData answer = Inr payload \<and> getProp payload ''calendar'' = Inr chunk \<and> is_object chunk \<and> wf_json chunk"
  define v1 where "v1 = viewStep E (NavigateDay delta) v"
  let ?d = "if delta > 0 then Future else Past"
  obtain c qs where q: "pr_inflight v1 = qs @ [Chunk c False ?d (rf_navigation v + 1) origin (Some target)]"
    "rf_navigation v1 = rf_navigation v + 1" "pr_viewed v1 = Some origin" "tm_transition v1 = None"
    "length qs = length (pr_inflight v)"
    using navigateDay_asks [OF ok here] a unfolding v1_def by blast
  have ok1: "viewOk v1" "is_object (pr_calendar v1)"
    using viewStep_ok [OF ok] viewRun_calendar [OF viewRun.event [OF run]] by (simp_all add: v1_def)
  define v2 where "v2 = viewStep E (Answer (length qs) answer) v1"
  have data: "responseData answer = Inr payload" "getProp payload ''calendar'' = Inr chunk" "is_object chunk" "wf_json chunk"
    using a by auto
  note leads = settleChunk_leads [OF ok1(1) q(1,2,3,4) data ok1(2), of E, folded v2_def]
  have n: "length (pr_inflight v1) = length (pr_inflight v) + 1" using q(1,5) by simp
  have answered: "viewStep E (Answer (length (pr_inflight v1) - 1) answer) v1 = v2" by (simp add: v2_def q(1))
  show "let v1 = viewStep E (NavigateDay delta) v; v2 = viewStep E (Answer (length (pr_inflight v1) - 1) answer) v1;
          v3 = viewStep E TransitionTimer v2 in
      length (pr_inflight v1) = length (pr_inflight v) + 1 \<and> pr_viewed v1 = Some origin \<and>
      (truthy (jget chunk target) \<longrightarrow> pr_viewed v3 = Some target \<and> viewedPrayers v3 = jget chunk target) \<and>
      (jkeys chunk = [] \<longrightarrow> tm_transition v2 = None \<and> pr_viewed v2 = Some origin \<and>
         (if delta > 0 then pr_boundaryFuture v2 else pr_boundaryPast v2))"
    unfolding Let_def v1_def [symmetric] answered
    using n q(3) leads endTransition_shows [of v2 target E]
    by (auto simp: orElse_def split: if_splits)
qed

subsection \<open>Midnight\<close>

text \<open>
  At midnight the handler moves a view of today on and keeps a view of another day. But the date it sets
  restarts the effect that fetches: its cleanup stops the timer of a running transition, which stays
  announced on the screen, and the new fetch does not preserve the view, so its answer
  brings the user back to today.
\<close>

lemma midnight_restarts:
  fixes E :: viewEnv
  assumes "viewOk v" "pr_initialReference v = Some r" "rf_reference v = Some r" "r < d"
  defines "w \<equiv> viewStep E (MidnightTimer d) v"
  shows "pr_viewed w = (if pr_viewed v = None \<or> pr_viewed v = Some r then Some d else pr_viewed v)"
    "tm_transition w = None" "pr_transitioning w = pr_transitioning v"
    "\<exists>qs. pr_inflight w = qs @ [Fetch True False (Some d)]" "rf_reference w = Some d" "pr_initialReference w = Some d"
proof -
  have later: "getLaterDate (Some r) (Some d) = Some d" using assms(4) by (auto simp: getLaterDate_def)
  have refs: "rf_viewed v = pr_viewed v" using assms(1) by (simp add: viewOk_def refsOk_def)
  obtain m where m: "handle E (MidnightTimer d) v = m" "pr_initialReference m = Some d"
      "pr_viewed m = (if pr_viewed v = None \<or> pr_viewed v = Some r then Some d else pr_viewed v)"
      "rf_reference m = Some d" "pr_transitioning m = pr_transitioning v"
    using assms(2,3) refs by (simp add: handle_def midnight_def handleMidnight_def Let_def later orDate_def)
  have changed: "pr_initialReference m \<noteq> pr_initialReference v" using m(2) assms(2,4) by auto
  show "pr_viewed w = (if pr_viewed v = None \<or> pr_viewed v = Some r then Some d else pr_viewed v)"
    "rf_reference w = Some d" "pr_initialReference w = Some d" "pr_transitioning w = pr_transitioning v"
    using m by (simp_all add: w_def viewStep_def view_simps)
  show "tm_transition w = None" "\<exists>qs. pr_inflight w = qs @ [Fetch True False (Some d)]"
    using changed m(2)
    by (auto simp: w_def viewStep_def m(1) commit_stages Let_def view_simps cleanups_def stopFetching_def abortCurrent_def
        fetchPrayers_def startFetching_def split: option.splits)
qed

lemma midnight_resets_view:
  fixes E :: viewEnv
  assumes v: "viewOk v" "pr_initialReference v = Some r" "rf_reference v = Some r" "r < d" and other: "pr_viewed v = Some away" "away \<noteq> r"
    and data: "responseData answer = Inr payload" "getProp payload ''meta'' = Inr meta" "jget meta ''date'' = JStr d"
  defines "w \<equiv> viewStep E (MidnightTimer d) v"
  shows "pr_viewed w = Some away \<and> pr_viewed (viewStep E (Answer (length (pr_inflight w) - 1) answer) w) = Some d"
proof -
  note m = midnight_restarts [OF v, of E, folded w_def]
  obtain qs where q: "pr_inflight w = qs @ [Fetch True False (Some d)]" using m(4) by blast
  have "d \<noteq> []" using v(4) by auto
  then have e: "dateOf (jget meta ''date'') = Some d" using data(3) by (simp add: dateOf_def)
  have "pr_viewed (handle E (Answer (length qs) answer) w) = Some d"
    using data m(5,6) e
    by (simp add: handle_def settleRequest_def q settleFetch_def Let_def applyPayload_def orDate_def finishFetching_def)
  then show ?thesis using m(1) other q by (simp add: viewStep_def view_simps)
qed

subsection \<open>Concrete runs\<close>

definition sampleClock :: viewEnv where
  "sampleClock =
     \<lparr>ve_days = (\<lambda>a b. if a = b then Some 0 else Some 1),
      ve_plus = (\<lambda>s n. if s = ''2026-03-02'' \<and> n = 1 then Some ''2026-03-03'' else None),
      ve_now = 0, ve_today = (\<lambda>_. ''2026-03-02'')\<rparr>"

definition dayAt :: "string \<Rightarrow> json" where
  "dayAt t = JObj [(''fajr'', JObj [(''start'', JStr t)])]"

definition viewPayload :: "string \<Rightarrow> string \<Rightarrow> json" where
  "viewPayload date t =
     JObj [(''meta'', JObj [(''date'', JStr date)]), (''prayers'', dayAt t), (''calendar'', JObj [(date, dayAt t)])]"

definition received :: "string \<Rightarrow> string \<Rightarrow> httpResponse res" where
  "received date t = Inr \<lparr>hr_status = 200, hr_statusText = ''OK'', hr_json = Inr (viewPayload date t)\<rparr>"

definition loadedView :: prayerView where
  "loadedView = viewStep sampleClock (Answer 0 (received ''2026-03-02'' ''05:00'')) (mount sampleClock)"

lemma received_data: "responseData (received date t) = Inr (viewPayload date t)"
  by (simp add: responseData_def received_def hr_ok_def)

lemma loadedView_run: "viewRun loadedView"
  unfolding loadedView_def by (intro viewRun.intros)

lemma loadedView_eqs:
  "pr_viewed loadedView = Some ''2026-03-02''" "pr_initialReference loadedView = Some ''2026-03-02''"
  "rf_reference loadedView = Some ''2026-03-02''" "pr_inflight loadedView = [Fetch True False (Some ''2026-03-02'')]"
  "pr_calendar loadedView = JObj [(''2026-03-02'', dayAt ''05:00'')]" "pr_prayers loadedView = dayAt ''05:00''"
  "rf_transitioning loadedView = False" "pr_boundaryFuture loadedView = False"
proof -
  have m: "pr_inflight (mount sampleClock) = [Fetch True False None]" "rf_reference (mount sampleClock) = None"
    "rf_calendar (mount sampleClock) = JObj []" "pr_initialReference (mount sampleClock) = None"
    "pr_viewed (mount sampleClock) = None" "pr_calendar (mount sampleClock) = JObj []" "rf_abort (mount sampleClock) = None"
    "rf_transitioning (mount sampleClock) = False" "pr_boundaryFuture (mount sampleClock) = False"
    by (simp_all add: mount_def commit_def Let_def freshView_def fetchPrayers_def startFetching_def)
  let ?P = "viewPayload ''2026-03-02'' ''05:00''"
  have p: "getProp ?P ''meta'' = Inr (JObj [(''date'', JStr ''2026-03-02'')])" "jget ?P ''prayers'' = dayAt ''05:00''"
    "jget ?P ''calendar'' = JObj [(''2026-03-02'', dayAt ''05:00'')]"
    by (simp_all add: viewPayload_def getProp_def)
  obtain w where w: "handle sampleClock (Answer 0 (received ''2026-03-02'' ''05:00'')) (mount sampleClock) = w"
    "pr_viewed w = Some ''2026-03-02''" "pr_initialReference w = Some ''2026-03-02''" "rf_reference w = Some ''2026-03-02''"
    "pr_inflight w = []" "pr_calendar w = JObj [(''2026-03-02'', dayAt ''05:00'')]" "pr_prayers w = dayAt ''05:00''"
    "rf_transitioning w = False" "rf_abort w = None" "pr_boundaryFuture w = False"
    by (simp add: handle_def settleRequest_def m settleFetch_def received_data applyPayload_def p Let_def dateOf_def orDate_def
       getLaterDate_def earlier_def finishFetching_def spreadMerge_def orElse_def dayAt_def)
  show "pr_viewed loadedView = Some ''2026-03-02''" "pr_initialReference loadedView = Some ''2026-03-02''"
    "rf_reference loadedView = Some ''2026-03-02''" "pr_calendar loadedView = JObj [(''2026-03-02'', dayAt ''05:00'')]"
    "pr_prayers loadedView = dayAt ''05:00''"
    using w by (simp_all add: loadedView_def viewStep_def view_simps)
  show "pr_inflight loadedView = [Fetch True False (Some ''2026-03-02'')]" "rf_transitioning loadedView = False"
    "pr_boundaryFuture loadedView = False"
    using w m by (simp_all add: loadedView_def viewStep_def commit_def Let_def stopFetching_def abortCurrent_def fetchPrayers_def startFetching_def)
qed

theorem dashboard_never_stuck_witness:
  "viewRun loadedView \<and> pr_fetching loadedView \<and> rf_viewed loadedView = Some ''2026-03-02'' \<and>
   \<not> rf_transitioning (viewStep sampleClock TransitionTimer loadedView)"
  using dashboard_never_stuck [OF loadedView_run, of sampleClock] loadedView_run by (simp add: loadedView_eqs)


theorem navigateDay_loads_witness:
  "let v1 = viewStep sampleClock (NavigateDay 1) loadedView;
       v2 = viewStep sampleClock (Answer 1 (received ''2026-03-03'' ''04:58'')) v1; v3 = viewStep sampleClock TransitionTimer v2 in
   length (pr_inflight v1) = 2 \<and> pr_viewed v3 = Some ''2026-03-03'' \<and> viewedPrayers v3 = dayAt ''04:58''"
proof -
  have here: "pr_viewed loadedView = Some ''2026-03-02''" "\<not> rf_transitioning loadedView" "(1::int) \<noteq> 0"
    "ve_plus sampleClock ''2026-03-02'' 1 = Some ''2026-03-03''"
    by (simp_all add: loadedView_eqs sampleClock_def)
  let ?chunk = "JObj [(''2026-03-03'', dayAt ''04:58'')]"
  have chunk: "getProp (viewPayload ''2026-03-03'' ''04:58'') ''calendar'' = Inr ?chunk" "is_object ?chunk" "wf_json ?chunk"
    "truthy (jget ?chunk ''2026-03-03'')" "jget ?chunk ''2026-03-03'' = dayAt ''04:58''"
    by (simp_all add: viewPayload_def getProp_def dayAt_def)
  have v: "\<not> truthy (jget (pr_calendar loadedView) ''2026-03-03'')" "jkeys (pr_calendar loadedView) \<noteq> []"
    "\<not> (if (1::int) > 0 then pr_boundaryFuture loadedView else pr_boundaryPast loadedView)"
    by (simp_all add: loadedView_eqs)
  from navigateDay_loads [OF loadedView_run here, THEN conjunct2, rule_format, OF conjI, OF v(1) conjI, OF v(3) conjI, OF v(2) conjI,
      OF received_data conjI, OF chunk(1) conjI, OF chunk(2,3)]
  show ?thesis using chunk(4,5) by (auto simp: Let_def loadedView_eqs)
qed

end
