(* ===== verification/Client_Dashboard.thy ===== *)
theory Client_Dashboard
  imports Client_Settings
begin

text \<open>
  The dashboard around the prayer times: the preferences of this browser
  (\<open>contexts/ClientPreferencesContext.jsx\<close>), the stream of events and the audio it plays
  (\<open>hooks/useSSE.js\<close>, \<open>hooks/useAudio.js\<close>, \<open>App.jsx\<close>), the session and the pages it opens
  (\<open>contexts/AuthContext.jsx\<close>, \<open>App.jsx\<close>, \<open>ProtectedRoute.jsx\<close>), and the countdown
  (\<open>dashboard/FocusCard.jsx\<close>).
\<close>

section \<open>Preferences\<close>

definition DEFAULT_APPEARANCE :: json where
  "DEFAULT_APPEARANCE =
     JObj [(''theme'', JStr ''dark''), (''clockFormat'', JStr ''24h''), (''showSeconds'', JBool True),
       (''countdownMode'', JStr ''normal''), (''enableDateNavigation'', JBool True), (''prayerNameLanguage'', JStr ''english''),
       (''skipSunriseCountdown'', JBool False), (''wakeLockAutoStart'', JBool False), (''autoUnmute'', JBool False)]"

definition DEFAULT_PREFERENCES :: json where
  "DEFAULT_PREFERENCES = JObj [(''appearance'', DEFAULT_APPEARANCE), (''audioExclusions'', JArr [])]"

definition mergePreferences :: "json \<Rightarrow> json res" where
  "mergePreferences storedPreferences =
     bindR (getProp storedPreferences ''appearance'') (\<lambda>appearance.
     let exclusions = jget storedPreferences ''audioExclusions'' in
     Inr (jput (jput (spreadMerge DEFAULT_PREFERENCES storedPreferences)
            ''appearance'' (spreadMerge DEFAULT_APPEARANCE (orElse appearance (JObj []))))
          ''audioExclusions'' (case exclusions of JArr _ \<Rightarrow> exclusions | _ \<Rightarrow> JArr [])))"

text \<open>
  The item of the local storage: none, a text that is not JSON, or the text of a value.
\<close>

datatype storedItem = NoItem | BadText | Text json

definition loadPreferences :: "storedItem \<Rightarrow> json" where
  "loadPreferences stored =
     (case stored of
        Text v \<Rightarrow> (case mergePreferences v of Inl _ \<Rightarrow> DEFAULT_PREFERENCES | Inr p \<Rightarrow> p)
      | _ \<Rightarrow> DEFAULT_PREFERENCES)"

record clientPrefs =
  cp_preferences :: json
  cp_stored :: storedItem
  cp_light :: bool

text \<open>The effect after every change.\<close>

definition storePreferences :: "json \<Rightarrow> clientPrefs" where
  "storePreferences p =
     \<lparr>cp_preferences = p, cp_stored = Text (json_copy p), cp_light = (jget (jget p ''appearance'') ''theme'' = JStr ''light'')\<rparr>"

definition updateAppearance :: "string \<Rightarrow> json \<Rightarrow> json \<Rightarrow> json" where
  "updateAppearance key value prev = jput prev ''appearance'' (spreadMerge (jget prev ''appearance'') (JObj [(key, value)]))"

definition exclusionKey :: "clientEnv \<Rightarrow> json \<Rightarrow> json \<Rightarrow> string" where
  "exclusionKey E prayer event = js_text E prayer @ ''-'' @ js_text E event"

definition exclusionsOf :: "json \<Rightarrow> json list" where
  "exclusionsOf p = arr_of (orElse (jget p ''audioExclusions'') (JArr []))"

definition toggleAudioExclusion :: "clientEnv \<Rightarrow> json \<Rightarrow> json \<Rightarrow> json \<Rightarrow> json" where
  "toggleAudioExclusion E prayer event prev =
     (let key = JStr (exclusionKey E prayer event); current = exclusionsOf prev in
      jput prev ''audioExclusions''
        (JArr (if key \<in> set current then filter (\<lambda>k. k \<noteq> key) current else current @ [key])))"

definition isAudioExcluded :: "clientEnv \<Rightarrow> json \<Rightarrow> json \<Rightarrow> json \<Rightarrow> bool" where
  "isAudioExcluded E p prayer event = (JStr (exclusionKey E prayer event) \<in> set (exclusionsOf p))"

definition muteEvents :: "string \<Rightarrow> string list" where
  "muteEvents p = (if p = ''sunrise'' then [''preAdhan'', ''adhan''] else [''preAdhan'', ''adhan'', ''preIqamah'', ''iqamah''])"

definition muteAll :: "json \<Rightarrow> json" where
  "muteAll prev =
     jput prev ''audioExclusions'' (JArr (concat (map (\<lambda>p. map (\<lambda>e. JStr (p @ ''-'' @ e)) (muteEvents p)) PRAYER_NAMES)))"

definition unmuteAll :: "json \<Rightarrow> json" where
  "unmuteAll prev = jput prev ''audioExclusions'' (JArr [])"

datatype prefEvent =
    UpdateAppearance string json
  | ToggleExclusion json json
  | MuteAll
  | UnmuteAll

definition changePreferences :: "clientEnv \<Rightarrow> prefEvent \<Rightarrow> json \<Rightarrow> json" where
  "changePreferences E ev p =
     (case ev of
        UpdateAppearance key value \<Rightarrow> updateAppearance key value p
      | ToggleExclusion prayer event \<Rightarrow> toggleAudioExclusion E prayer event p
      | MuteAll \<Rightarrow> muteAll p
      | UnmuteAll \<Rightarrow> unmuteAll p)"

definition jsonPref :: "prefEvent \<Rightarrow> bool" where
  "jsonPref ev = (case ev of UpdateAppearance _ value \<Rightarrow> defined value \<and> wf_json value | _ \<Rightarrow> True)"

definition jsonItem :: "storedItem \<Rightarrow> bool" where
  "jsonItem stored = (case stored of Text v \<Rightarrow> defined v \<and> wf_json v | _ \<Rightarrow> True)"

inductive prefRun :: "clientEnv \<Rightarrow> clientPrefs \<Rightarrow> bool" for E where
  opened: "jsonItem stored \<Longrightarrow> prefRun E (storePreferences (loadPreferences stored))"
| change: "prefRun E c \<Longrightarrow> jsonPref ev \<Longrightarrow> prefRun E (storePreferences (changePreferences E ev (cp_preferences c)))"

section \<open>Audio and the stream\<close>

datatype ctxState = Suspended | Running | Closed

record audioState =
  au_context :: ctxState
  au_muted :: bool
  au_blocked :: bool

text \<open>
  \<open>toggleMute\<close> resumes or suspends the audio context and reads its state afterwards; \<open>after\<close> is what the
  browser made of the request.
\<close>

definition toggleMute :: "ctxState \<Rightarrow> audioState \<Rightarrow> audioState" where
  "toggleMute after a =
     (let a = (if au_context a = Closed then a else a\<lparr>au_context := after\<rparr>); isRunning = (au_context a = Running) in
      a\<lparr>au_muted := \<not> isRunning, au_blocked := (if isRunning then False else au_blocked a)\<rparr>)"

text \<open>The listener of the context, and the check 500 ms after an automatic resume.\<close>

definition stateHandler :: "ctxState \<Rightarrow> audioState \<Rightarrow> audioState" where
  "stateHandler st a =
     (let isRunning = (st = Running) in
      a\<lparr>au_context := st, au_muted := \<not> isRunning, au_blocked := (if isRunning then False else au_blocked a)\<rparr>)"

definition autoUnmuteCheck :: "audioState \<Rightarrow> audioState" where
  "autoUnmuteCheck a = (let isStillBlocked = (au_context a \<noteq> Running) in a\<lparr>au_muted := isStillBlocked, au_blocked := isStillBlocked\<rparr>)"

text \<open>\<open>loaded\<close>: the address was fetched and decoded. The second part is what starts to play.\<close>

definition playUrl :: "bool \<Rightarrow> json \<Rightarrow> audioState \<Rightarrow> audioState \<times> json list" where
  "playUrl loaded url a =
     (if au_context a = Suspended then (a\<lparr>au_blocked := True\<rparr>, []) else (a, if loaded then [url] else []))"

record clientStream =
  cs_logs :: "json list"
  cs_connected :: bool
  cs_status :: json

record page =
  pg_stream :: clientStream
  pg_audio :: audioState
  pg_prefs :: json

definition handleAudioPlay :: "clientEnv \<Rightarrow> bool \<Rightarrow> json \<Rightarrow> json \<Rightarrow> json \<Rightarrow> page \<Rightarrow> page \<times> json list" where
  "handleAudioPlay E loaded prayer event url g =
     (if isAudioExcluded E (pg_prefs g) prayer event then (g, [])
      else case playUrl loaded url (pg_audio g) of (a, played) \<Rightarrow> (g\<lparr>pg_audio := a\<rparr>, played))"

definition addLog :: "json \<Rightarrow> clientStream \<Rightarrow> clientStream" where
  "addLog entry s = s\<lparr>cs_logs := take 50 (entry # cs_logs s)\<rparr>"

definition playingLog :: "clientEnv \<Rightarrow> json \<Rightarrow> json \<Rightarrow> json \<Rightarrow> json" where
  "playingLog E stamp prayer event =
     JObj [(''message'', JStr (''Playing Audio: '' @ js_text E prayer @ '' '' @ js_text E event)), (''timestamp'', stamp), (''type'', JStr ''audio'')]"

text \<open>
  A message of the stream: its parsed text. The payload of an \<open>AUDIO_PLAY\<close> is read in the setter of
  the logs too, where a missing one throws.
\<close>

definition onMessage :: "clientEnv \<Rightarrow> json \<Rightarrow> bool \<Rightarrow> json res \<Rightarrow> page \<Rightarrow> (page \<times> json list) res" where
  "onMessage E stamp loaded text g =
     (case bindR text (\<lambda>data. bindR (getProp data ''type'') (\<lambda>type. Inr (data, type))) of
        Inl _ \<Rightarrow> Inr (g, [])
      | Inr (data, type) \<Rightarrow>
          let payload = jget data ''payload'' in
          if type = JStr ''LOG'' then Inr (g\<lparr>pg_stream := addLog payload (pg_stream g)\<rparr>, [])
          else if type = JStr ''AUDIO_PLAY'' then
            bindR (getProp payload ''prayer'') (\<lambda>prayer.
            let event = jget payload ''event''; g = g\<lparr>pg_stream := addLog (playingLog E stamp prayer event) (pg_stream g)\<rparr> in
            Inr (handleAudioPlay E loaded prayer event (jget payload ''url'') g))
          else if type = JStr ''PROCESS_UPDATE'' then
            (case getProp payload ''label'' of
               Inl _ \<Rightarrow> Inr (g, [])
             | Inr label \<Rightarrow> Inr (g\<lparr>pg_stream := (pg_stream g)\<lparr>cs_status := label\<rparr>\<rparr>, []))
          else Inr (g, []))"

definition onOpen :: "clientStream \<Rightarrow> clientStream" where
  "onOpen s = s\<lparr>cs_connected := True\<rparr>"

definition onError :: "clientStream \<Rightarrow> clientStream" where
  "onError s = s\<lparr>cs_connected := False\<rparr>"

section \<open>The session\<close>

record authState =
  ah_authenticated :: json
  ah_setupRequired :: bool
  ah_loading :: bool
  ah_connectionError :: bool

definition freshAuth :: authState where
  "freshAuth = \<lparr>ah_authenticated = JNull, ah_setupRequired = False, ah_loading = True, ah_connectionError = False\<rparr>"

text \<open>
  The errors the catch block takes for a lost connection: a \<open>TypeError\<close>, which a failing \<open>fetch\<close>
  throws, a body that is not JSON, or a message that says so.
\<close>

definition lostConnection :: "err \<Rightarrow> bool" where
  "lostConnection e = (case e of TypeError _ \<Rightarrow> True | _ \<Rightarrow> str_includes (err_message e) ''Failed to fetch'')"

definition refuseStatus :: "bool \<Rightarrow> authState \<Rightarrow> authState" where
  "refuseStatus connection s =
     s\<lparr>ah_connectionError := (connection \<or> ah_connectionError s), ah_authenticated := JBool False, ah_loading := False\<rparr>"

definition clientCheckStatus :: "httpResponse res \<Rightarrow> httpResponse res \<Rightarrow> authState \<Rightarrow> authState" where
  "clientCheckStatus statusAnswer checkAnswer s =
     (let s = s\<lparr>ah_connectionError := False\<rparr> in
      case statusAnswer of
        Inl e \<Rightarrow> refuseStatus (lostConnection e) s
      | Inr statusRes \<Rightarrow>
          if \<not> hr_ok statusRes then refuseStatus (hr_status statusRes \<ge> 500) s
          else
            (case bindR (hr_json statusRes) (\<lambda>statusData. getProp statusData ''requiresSetup'') of
               Inl _ \<Rightarrow> refuseStatus True s
             | Inr requiresSetup \<Rightarrow>
                 if truthy requiresSetup then s\<lparr>ah_setupRequired := True, ah_loading := False\<rparr>
                 else
                   let s = s\<lparr>ah_setupRequired := False\<rparr> in
                   (case checkAnswer of
                      Inl e \<Rightarrow> refuseStatus (lostConnection e) s
                    | Inr res \<Rightarrow> s\<lparr>ah_authenticated := JBool (hr_ok res), ah_loading := False\<rparr>)))"

definition clientLogin :: "httpResponse res \<Rightarrow> authState \<Rightarrow> authState \<times> json" where
  "clientLogin answer s =
     (let s = s\<lparr>ah_connectionError := False\<rparr>; failed = refusal (JStr ''Network error'') in
      case answer of
        Inl _ \<Rightarrow> (s, failed)
      | Inr res \<Rightarrow>
          if hr_ok res then (s\<lparr>ah_authenticated := JBool True\<rparr>, JObj [(''success'', JBool True)])
          else (s, case bindR (hr_json res) (\<lambda>data. getProp data ''error'') of Inl _ \<Rightarrow> failed | Inr e \<Rightarrow> refusal e))"

definition clientLogout :: "authState \<Rightarrow> authState" where
  "clientLogout s = s\<lparr>ah_authenticated := JBool False\<rparr>"

section \<open>Pages\<close>

datatype screen =
    LoadingScreen
  | ConnectionErrorView
  | DashboardView
  | SetupView
  | LoginView
  | SettingsView string

definition settingsPages :: "string list" where
  "settingsPages = [''general'', ''credentials'', ''prayers'', ''automation'', ''files'', ''developer'']"

definition settingsPath :: "string \<Rightarrow> string" where
  "settingsPath sub = ''/settings/'' @ sub"

text \<open>
  A render of \<open>App\<close> at a location, which is a path with the one a redirect to the login came from: a
  screen, or the next location.
\<close>

definition renderApp :: "authState \<Rightarrow> string \<times> string option \<Rightarrow> screen + string \<times> string option" where
  "renderApp s = (\<lambda>(path, from).
     let authenticated = truthy (ah_authenticated s); protected = (\<lambda>next. if authenticated then next else Inr (''/login'', Some path)) in
     if ah_loading s then Inl LoadingScreen
     else if ah_connectionError s then Inl ConnectionErrorView
     else if ah_setupRequired s \<and> path \<noteq> ''/setup'' then Inr (''/setup'', None)
     else if \<not> ah_setupRequired s \<and> path = ''/setup'' then Inr (''/'', None)
     else if authenticated \<and> path = ''/login'' then
       Inr (case from of Some p \<Rightarrow> if p = [] then ''/'' else p | None \<Rightarrow> ''/'', None)
     else if path = ''/'' then Inl DashboardView
     else if path = ''/setup'' then Inl SetupView
     else if path = ''/login'' then Inl LoginView
     else if path = ''/settings'' then protected (Inr (settingsPath ''general'', None))
     else (case List.find (\<lambda>sub. path = settingsPath sub) settingsPages of
             Some sub \<Rightarrow> protected (Inl (SettingsView sub))
           | None \<Rightarrow> Inr (''/'', None)))"

text \<open>The renders a browser makes before it shows a screen, up to a bound.\<close>

fun follow :: "nat \<Rightarrow> authState \<Rightarrow> string \<times> string option \<Rightarrow> screen option" where
  "follow 0 s loc = None"
| "follow (Suc n) s loc = (case renderApp s loc of Inl screen \<Rightarrow> Some screen | Inr loc' \<Rightarrow> follow n s loc')"

section \<open>The countdown\<close>

text \<open>
  \<open>FocusCard\<close> is rendered by its clock every second, and by changes of its properties. Times are in
  milliseconds; \<open>fo_target\<close> reads a time the way Luxon does (\<open>None\<close> is an invalid date). A timer is the time it
  fires at; \<open>fo_calls\<close> counts the calls of \<open>onCountdownComplete\<close>.
\<close>

record focusState =
  fo_last :: json
  fo_fetching :: bool
  fo_timer :: "int option"
  fo_retry :: "int option"
  fo_calls :: nat

definition effectiveNextPrayer :: "json \<Rightarrow> json \<Rightarrow> bool \<Rightarrow> json" where
  "effectiveNextPrayer nextPrayer prayers skipSunriseCountdown =
     (let dhuhr = jget (jget prayers ''dhuhr'') ''start'' in
      if \<not> truthy nextPrayer then JNull
      else if jget nextPrayer ''name'' = JStr ''sunrise'' \<and> skipSunriseCountdown \<and> truthy dhuhr
      then JObj [(''name'', JStr ''dhuhr''), (''time'', dhuhr), (''isTomorrow'', JBool False)]
      else nextPrayer)"

definition secondsLeft :: "(json \<Rightarrow> int option) \<Rightarrow> json \<Rightarrow> int \<Rightarrow> int option" where
  "secondsLeft target time now = map_option (\<lambda>t. (t - now) div 1000) (target time)"

definition atOrBelow0 :: "int option \<Rightarrow> bool" where
  "atOrBelow0 n = (case n of None \<Rightarrow> False | Some s \<Rightarrow> s \<le> 0)"

text \<open>The first effect, which depends on the current time and so runs after every render.\<close>

definition countdownEffect :: "(json \<Rightarrow> int option) \<Rightarrow> json \<Rightarrow> int \<Rightarrow> focusState \<Rightarrow> focusState" where
  "countdownEffect target next now f =
     (let f = f\<lparr>fo_timer := None\<rparr>; time = jget next ''time'' in
      if truthy next \<and> atOrBelow0 (secondsLeft target time now) \<and> fo_last f \<noteq> time \<and> \<not> fo_fetching f
      then f\<lparr>fo_last := time, fo_fetching := True, fo_timer := Some (now + 5000)\<rparr>
      else f)"

text \<open>The second effect, which depends on the properties only.\<close>

definition retryEffect :: "(json \<Rightarrow> int option) \<Rightarrow> json \<Rightarrow> int \<Rightarrow> focusState \<Rightarrow> focusState" where
  "retryEffect target next now f =
     (let f = f\<lparr>fo_retry := None\<rparr> in
      if \<not> fo_fetching f \<or> \<not> truthy next then f
      else case secondsLeft target (jget next ''time'') now of
        Some s \<Rightarrow> if s > 0 then f\<lparr>fo_fetching := False\<rparr> else f\<lparr>fo_retry := Some (now + 5000)\<rparr>
      | None \<Rightarrow> f\<lparr>fo_retry := Some (now + 5000)\<rparr>)"

text \<open>Timers that are due fire before the next render.\<close>

definition fireDue :: "int \<Rightarrow> focusState \<Rightarrow> focusState" where
  "fireDue now f =
     (let due = (\<lambda>t. case t of None \<Rightarrow> False | Some d \<Rightarrow> d \<le> now);
          f = (if due (fo_timer f) then f\<lparr>fo_timer := None, fo_calls := fo_calls f + 1\<rparr> else f) in
      if due (fo_retry f) then f\<lparr>fo_retry := None, fo_calls := fo_calls f + 1\<rparr> else f)"

definition clockTick :: "(json \<Rightarrow> int option) \<Rightarrow> json \<Rightarrow> int \<Rightarrow> focusState \<Rightarrow> focusState" where
  "clockTick target next now f = countdownEffect target next now (fireDue now f)"

definition newProps :: "(json \<Rightarrow> int option) \<Rightarrow> json \<Rightarrow> int \<Rightarrow> focusState \<Rightarrow> focusState" where
  "newProps target next now f = retryEffect target next now (countdownEffect target next now (fireDue now f))"

definition padStart2 :: "int \<Rightarrow> string" where
  "padStart2 n = (if 0 \<le> n \<and> n < 10 then ''0'' @ int_str n else int_str n)"

definition getCountdown :: "(json \<Rightarrow> int option) \<Rightarrow> json \<Rightarrow> json \<Rightarrow> int \<Rightarrow> string option" where
  "getCountdown target countdownMode next now =
     (if \<not> truthy next then None
      else case target (jget next ''time'') of
        None \<Rightarrow> Some (if countdownMode = JStr ''digital'' then ''NaN:NaN:NaN'' else if countdownMode = JStr ''minimal'' then ''NaNs'' else ''NaNsec'')
      | Some t \<Rightarrow>
          let left = max 0 (- ((now - t) div 1000)); hours = left div 3600; minutes = (left mod 3600) div 60; seconds = left mod 60 in
          Some (if left \<le> 0 then ''0sec''
            else if countdownMode = JStr ''digital'' then padStart2 hours @ '':'' @ padStart2 minutes @ '':'' @ padStart2 seconds
            else if countdownMode = JStr ''minimal'' then
              (if hours > 0 then int_str hours @ ''h '' @ int_str minutes @ ''m''
               else if minutes > 0 then int_str minutes @ ''m '' @ int_str seconds @ ''s''
               else int_str seconds @ ''s'')
            else if hours > 0 then int_str hours @ ''hr '' @ int_str minutes @ ''min '' @ int_str seconds @ ''sec''
            else if minutes > 0 then int_str minutes @ ''min '' @ int_str seconds @ ''sec''
            else int_str seconds @ ''sec''))"

section \<open>Theorems\<close>

subsection \<open>Exclusions\<close>

lemma exclusionsOf_put [simp]: "is_object p \<Longrightarrow> exclusionsOf (jput p ''audioExclusions'' (JArr xs)) = xs"
  by (simp add: exclusionsOf_def orElse_def)

lemma isAudioExcluded_toggle:
  assumes "is_object p"
  shows "isAudioExcluded E (toggleAudioExclusion E prayer event p) prayer' event' =
    (if exclusionKey E prayer' event' = exclusionKey E prayer event then \<not> isAudioExcluded E p prayer event
     else isAudioExcluded E p prayer' event')"
  using assms by (auto simp: isAudioExcluded_def toggleAudioExclusion_def Let_def)

lemma isAudioExcluded_muteAll:
  assumes "is_object p" "prayer \<in> set PRAYER_NAMES" "event \<in> set (muteEvents prayer)"
  shows "isAudioExcluded E (muteAll p) (JStr prayer) (JStr event)"
  using assms by (auto simp: isAudioExcluded_def muteAll_def exclusionKey_def js_text_def)

lemma first_dash: "c \<notin> set p \<Longrightarrow> c \<notin> set q \<Longrightarrow> p @ c # e = q @ c # f \<longleftrightarrow> p = q \<and> e = f"
proof (induction p arbitrary: q)
  case (Cons a p)
  then show ?case by (cases q) auto
qed (auto simp: Cons_eq_append_conv)

text \<open>The events the scheduler of the server makes jobs for; the sunrise has no iqamah.\<close>

definition announced :: "string \<Rightarrow> string \<Rightarrow> bool" where
  "announced prayer event =
     (prayer \<in> set PRAYER_NAMES \<and> event \<in> {''preAdhan'', ''adhan'', ''preIqamah'', ''iqamah''} \<and>
      (prayer = ''sunrise'' \<longrightarrow> event \<in> {''preAdhan'', ''adhan''}))"

lemma announced_muteEvents: "announced prayer event \<longleftrightarrow> prayer \<in> set PRAYER_NAMES \<and> event \<in> set (muteEvents prayer)"
  by (auto simp: announced_def muteEvents_def)

text \<open>
  C18. The mute switches decide what the server's events play here. For every event of a prayer that
  the scheduler announces and the server sends to its browser output: after \<open>muteAll\<close> the page plays nothing;
  after \<open>unmuteAll\<close>, with the audio unlocked and the file loaded, it plays exactly the address of the
  announcement; and switching one event changes what happens for this event and for no other.
\<close>

theorem announcement_muted:
  assumes announced: "announced prayer event"
    and payload: "jget payload ''prayer'' = JStr prayer" "jget payload ''event'' = JStr event"
    and sent: "Broadcast m \<in> set (fst (broadcastUrl url payload))" and prefs: "is_object (pg_prefs g)"
  shows "(\<exists>g'. onMessage E stamp loaded (Inr m) (g\<lparr>pg_prefs := muteAll (pg_prefs g)\<rparr>) = Inr (g', [])) \<and>
    (au_context (pg_audio g) = Running \<longrightarrow>
      (\<exists>g'. onMessage E stamp True (Inr m) (g\<lparr>pg_prefs := unmuteAll (pg_prefs g)\<rparr>) = Inr (g', [JStr url]))) \<and>
    isAudioExcluded E (toggleAudioExclusion E (JStr prayer) (JStr event) (pg_prefs g)) (JStr prayer) (JStr event) =
      (\<not> isAudioExcluded E (pg_prefs g) (JStr prayer) (JStr event)) \<and>
    (\<forall>prayer' event'. announced prayer' event' \<and> (prayer', event') \<noteq> (prayer, event) \<longrightarrow>
      isAudioExcluded E (toggleAudioExclusion E (JStr prayer) (JStr event) (pg_prefs g)) (JStr prayer') (JStr event') =
      isAudioExcluded E (pg_prefs g) (JStr prayer') (JStr event'))"
proof (intro conjI allI impI)
  have event: "prayer \<in> set PRAYER_NAMES" "event \<in> set (muteEvents prayer)" using announced by (simp_all add: announced_muteEvents)
  have m: "m = JObj [(''type'', JStr ''AUDIO_PLAY''),
      (''payload'', JObj [(''prayer'', JStr prayer), (''event'', JStr event), (''url'', JStr url)])]"
    using sent payload by (simp add: broadcastUrl_def)
  have run: "onMessage E stamp l (Inr m) h =
      Inr (handleAudioPlay E l (JStr prayer) (JStr event) (JStr url)
        (h\<lparr>pg_stream := addLog (playingLog E stamp (JStr prayer) (JStr event)) (pg_stream h)\<rparr>))" for l h
    by (simp add: m onMessage_def getProp_def Let_def)
  show "\<exists>g'. onMessage E stamp loaded (Inr m) (g\<lparr>pg_prefs := muteAll (pg_prefs g)\<rparr>) = Inr (g', [])"
    using isAudioExcluded_muteAll [OF prefs event] by (simp add: run handleAudioPlay_def)
  show "\<exists>g'. onMessage E stamp True (Inr m) (g\<lparr>pg_prefs := unmuteAll (pg_prefs g)\<rparr>) = Inr (g', [JStr url])"
    if "au_context (pg_audio g) = Running"
    using that prefs by (simp add: run handleAudioPlay_def isAudioExcluded_def unmuteAll_def playUrl_def)
  show "isAudioExcluded E (toggleAudioExclusion E (JStr prayer) (JStr event) (pg_prefs g)) (JStr prayer) (JStr event) =
      (\<not> isAudioExcluded E (pg_prefs g) (JStr prayer) (JStr event))"
    using prefs by (simp add: isAudioExcluded_toggle)
  fix prayer' event'
  assume other: "announced prayer' event' \<and> (prayer', event') \<noteq> (prayer, event)"
  have plain: "CHR ''-'' \<notin> set p" if "p \<in> set PRAYER_NAMES" for p using that by (auto simp: PRAYER_NAMES_def)
  have key: "p @ ''-'' @ e = q @ ''-'' @ f \<Longrightarrow> p = q \<and> e = f" if "CHR ''-'' \<notin> set p" "CHR ''-'' \<notin> set q" for p q e f :: string
    using first_dash [OF that] by simp
  have "exclusionKey E (JStr prayer') (JStr event') \<noteq> exclusionKey E (JStr prayer) (JStr event)"
    using other event plain key [of prayer' prayer event' event] by (auto simp: announced_def exclusionKey_def js_text_def)
  then show "isAudioExcluded E (toggleAudioExclusion E (JStr prayer) (JStr event) (pg_prefs g)) (JStr prayer') (JStr event') =
      isAudioExcluded E (pg_prefs g) (JStr prayer') (JStr event')"
    using prefs by (simp add: isAudioExcluded_toggle)
qed

definition samplePage :: page where
  "samplePage =
     \<lparr>pg_stream = \<lparr>cs_logs = [], cs_connected = True, cs_status = JNull\<rparr>,
      pg_audio = \<lparr>au_context = Running, au_muted = False, au_blocked = False\<rparr>, pg_prefs = DEFAULT_PREFERENCES\<rparr>"

theorem announcement_muted_witness:
  "\<exists>m g g'. Broadcast m \<in> set (fst (broadcastUrl ''/a.mp3'' (JObj [(''prayer'', JStr ''fajr''), (''event'', JStr ''adhan'')]))) \<and>
     onMessage sampleBrowser JNull True (Inr m) (samplePage\<lparr>pg_prefs := muteAll (pg_prefs samplePage)\<rparr>) = Inr (g, []) \<and>
     onMessage sampleBrowser JNull True (Inr m) (samplePage\<lparr>pg_prefs := unmuteAll (pg_prefs samplePage)\<rparr>) = Inr (g', [JStr ''/a.mp3''])"
proof -
  let ?p = "JObj [(''prayer'', JStr ''fajr''), (''event'', JStr ''adhan'')]"
  obtain m where m: "Broadcast m \<in> set (fst (broadcastUrl ''/a.mp3'' ?p))" by (simp add: broadcastUrl_def)
  have "announced ''fajr'' ''adhan''" by (simp add: announced_def PRAYER_NAMES_def)
  from announcement_muted [OF this _ _ m, of samplePage sampleBrowser JNull True] m show ?thesis
    by (auto simp: samplePage_def DEFAULT_PREFERENCES_def)
qed

subsection \<open>Preferences survive a reload\<close>

lemma update_hit: "k \<notin> fst ` set xs \<Longrightarrow> AList.update k v (xs @ (k, w) # ys) = xs @ (k, v) # ys"
  by (induction xs) auto

lemma update_new: "k \<notin> fst ` set xs \<Longrightarrow> AList.update k v xs = xs @ [(k, v)]"
  by (induction xs) auto

lemma fold_jput_over:
  assumes "distinct (map fst (xs @ ys))" "map fst ys = map fst base @ ks"
  shows "fold (\<lambda>kv x. jput x (fst kv) (snd kv)) ys (JObj (xs @ base)) = JObj (xs @ ys)"
  using assms
proof (induction ys arbitrary: xs base ks)
  case (Cons y ys)
  note IH = Cons.IH and prems = Cons.prems
  have fresh: "fst y \<notin> fst ` set xs" using prems(1) by auto
  have step: "fold (\<lambda>kv x. jput x (fst kv) (snd kv)) (y # ys) (JObj (xs @ base)) =
      fold (\<lambda>kv x. jput x (fst kv) (snd kv)) ys (JObj ((xs @ [y]) @ tl base))"
  proof (cases base)
    case Nil
    then show ?thesis using update_new [OF fresh] by simp
  next
    case (Cons b bs)
    then have "b = (fst y, snd b)" using prems(2) by (cases b) simp
    then have "AList.update (fst y) (snd y) (xs @ base) = xs @ y # bs"
      using update_hit [OF fresh, of "snd y" "snd b" bs] Cons by simp
    then show ?thesis using Cons by simp
  qed
  have "map fst ys = map fst (tl base) @ (if base = [] then tl ks else ks)" using prems(2) by (cases base) auto
  then have "fold (\<lambda>kv x. jput x (fst kv) (snd kv)) ys (JObj ((xs @ [y]) @ tl base)) = JObj ((xs @ [y]) @ ys)"
    using IH [of "xs @ [y]" "tl base" "if base = [] then tl ks else ks"] prems(1) by simp
  then show ?case unfolding step by simp
qed simp

text \<open>
  The shape of the preferences: the two sections first, the appearance with every known key first, an
  array of exclusions, and no undefined part.
\<close>

definition begins :: "string list \<Rightarrow> json \<Rightarrow> bool" where
  "begins ks x = (\<exists>kvs rest. x = JObj kvs \<and> map fst kvs = ks @ rest \<and> distinct (map fst kvs))"

definition prefsOk :: "json \<Rightarrow> bool" where
  "prefsOk p =
     (begins [''appearance'', ''audioExclusions''] p \<and> begins (jkeys DEFAULT_APPEARANCE) (jget p ''appearance'') \<and>
      (\<exists>xs. jget p ''audioExclusions'' = JArr xs) \<and> defined p)"

lemma begins_put: "begins ks x \<Longrightarrow> begins ks (jput x k v)"
  by (auto simp: begins_def update_keys distinct_update)

lemma begins_fold: "begins ks x \<Longrightarrow> begins ks (fold (\<lambda>kv x. jput x (fst kv) (snd kv)) kvs x)"
  by (induction kvs arbitrary: x) (auto simp: begins_put)

lemma begins_object: "begins ks x \<Longrightarrow> is_object x"
  by (auto simp: begins_def)

lemma begins_spread: "begins (jkeys x) x \<Longrightarrow> begins (jkeys x) (spreadMerge x y)"
proof -
  assume b: "begins (jkeys x) x"
  obtain kvs where "x = JObj kvs" using begins_object [OF b] by (cases x) auto
  then have "JObj (spread x) = x" by simp
  with b show ?thesis unfolding spreadMerge_def by (simp only: begins_fold)
qed

lemma defined_put: "defined x \<Longrightarrow> is_object x \<Longrightarrow> defined v \<Longrightarrow> defined (jput x k v)"
  using set_update_subset by (cases x) fastforce+

lemma defined_fold:
  "defined x \<Longrightarrow> is_object x \<Longrightarrow> \<forall>kv \<in> set kvs. defined (snd kv) \<Longrightarrow> defined (fold (\<lambda>kv x. jput x (fst kv) (snd kv)) kvs x)"
  by (induction kvs arbitrary: x) (auto simp: defined_put)

lemma defined_entries: "defined y \<Longrightarrow> kv \<in> set (entries y) \<Longrightarrow> defined (snd kv)"
proof (cases y)
  case (JArr xs)
  assume "defined y" "kv \<in> set (entries y)"
  then show ?thesis using JArr set_zip_rightD [of "fst kv" "snd kv" "map nat_str [0..<length xs]" xs] by simp
qed auto

lemma defined_spread: "defined x \<Longrightarrow> is_object x \<Longrightarrow> defined y \<Longrightarrow> defined (spreadMerge x y)"
  unfolding spreadMerge_def by (cases x) (auto intro!: defined_fold dest: defined_entries)

lemma defined_jget: "defined x \<Longrightarrow> jget x k \<noteq> JUndef \<Longrightarrow> defined (jget x k)"
  by (cases x) (auto dest!: map_of_SomeD split: option.splits)

lemma jput_same: "is_object x \<Longrightarrow> jget x k \<noteq> JUndef \<Longrightarrow> jput x k (jget x k) = x"
  by (cases x) (auto simp: update_triv split: option.splits)

lemma spread_over: "begins (jkeys base) x \<Longrightarrow> is_object base \<Longrightarrow> spreadMerge base x = x"
  using fold_jput_over [of "[]" "entries x" "entries base"]
  by (cases base) (auto simp: begins_def spreadMerge_def)

lemma default_shape:
  "begins (jkeys DEFAULT_APPEARANCE) DEFAULT_APPEARANCE" "defined DEFAULT_APPEARANCE" "is_object DEFAULT_APPEARANCE"
  "begins [''appearance'', ''audioExclusions''] DEFAULT_PREFERENCES" "defined DEFAULT_PREFERENCES" "is_object DEFAULT_PREFERENCES"
  "jkeys DEFAULT_PREFERENCES = [''appearance'', ''audioExclusions'']" "prefsOk DEFAULT_PREFERENCES"
proof -
  show a: "begins (jkeys DEFAULT_APPEARANCE) DEFAULT_APPEARANCE" "defined DEFAULT_APPEARANCE" "is_object DEFAULT_APPEARANCE"
    by (simp_all add: DEFAULT_APPEARANCE_def begins_def)
  show p: "begins [''appearance'', ''audioExclusions''] DEFAULT_PREFERENCES" "defined DEFAULT_PREFERENCES" "is_object DEFAULT_PREFERENCES"
    "jkeys DEFAULT_PREFERENCES = [''appearance'', ''audioExclusions'']"
    using a(2) by (simp_all add: DEFAULT_PREFERENCES_def begins_def)
  show "prefsOk DEFAULT_PREFERENCES"
    using p(1,2) a(1) by (simp add: prefsOk_def) (simp add: DEFAULT_PREFERENCES_def)
qed

lemma mergePreferences_ok:
  assumes "mergePreferences v = Inr p" "defined v"
  shows "prefsOk p"
proof -
  let ?a = "spreadMerge DEFAULT_APPEARANCE (orElse (jget v ''appearance'') (JObj []))"
  let ?x = "case jget v ''audioExclusions'' of JArr _ \<Rightarrow> jget v ''audioExclusions'' | _ \<Rightarrow> JArr []"
  let ?m = "spreadMerge DEFAULT_PREFERENCES v"
  have p: "p = jput (jput ?m ''appearance'' ?a) ''audioExclusions'' ?x"
    using assms(1) by (auto simp: mergePreferences_def bindR_Inr getProp_def Let_def split: if_splits)
  have m: "begins [''appearance'', ''audioExclusions''] ?m" "defined ?m"
    using default_shape assms(2) begins_spread [of DEFAULT_PREFERENCES v] defined_spread by (simp_all only:)
  have "defined (orElse (jget v ''appearance'') (JObj []))"
    using defined_jget [OF assms(2), of "''appearance''"] by (cases "jget v ''appearance'' = JUndef") (simp_all add: orElse_def)
  then have a: "begins (jkeys DEFAULT_APPEARANCE) ?a" "defined ?a"
    using default_shape(1-3) by (simp_all only: begins_spread defined_spread)
  have x: "\<exists>xs. ?x = JArr xs" "defined ?x"
    using defined_jget [OF assms(2), of "''audioExclusions''"] by (auto split: json.splits)
  have o: "is_object ?m" by simp
  show ?thesis using m a x o begins_put by (simp add: p prefsOk_def defined_put)
qed

lemma changePreferences_ok:
  assumes "prefsOk p" "jsonPref ev"
  shows "prefsOk (changePreferences E ev p)"
proof -
  have p: "begins [''appearance'', ''audioExclusions''] p" "begins (jkeys DEFAULT_APPEARANCE) (jget p ''appearance'')" "defined p" "is_object p"
    using assms(1) begins_object by (auto simp: prefsOk_def)
  obtain xs where xs: "jget p ''audioExclusions'' = JArr xs" using assms(1) by (auto simp: prefsOk_def)
  have put: "prefsOk (jput p ''audioExclusions'' (JArr ys))" if "\<forall>y \<in> set ys. defined y" for ys
    using p that begins_put by (simp add: prefsOk_def defined_put)
  have old: "exclusionsOf p = xs" "\<forall>x \<in> set xs. defined x"
    using xs defined_jget [OF p(3), of "''audioExclusions''"] by (simp_all add: exclusionsOf_def orElse_def)
  show ?thesis
  proof (cases ev)
    case (UpdateAppearance key v)
    let ?a = "spreadMerge (jget p ''appearance'') (JObj [(key, v)])"
    obtain kvs where kvs: "jget p ''appearance'' = JObj kvs" using p(2) by (auto simp: begins_def)
    then have a: "begins (jkeys DEFAULT_APPEARANCE) ?a" using p(2) begins_put [of _ "JObj kvs" key v] by (simp add: spreadMerge_def)
    have "defined ?a"
      using UpdateAppearance assms(2) kvs defined_jget [OF p(3), of "''appearance''"]
      by (intro defined_spread) (auto simp: jsonPref_def)
    then show ?thesis using UpdateAppearance p a xs begins_put [OF p(1)]
      by (simp add: changePreferences_def updateAppearance_def prefsOk_def defined_put)
  qed (use old in \<open>auto simp: changePreferences_def toggleAudioExclusion_def muteAll_def unmuteAll_def Let_def intro!: put\<close>)
qed

text \<open>
  C21. Preferences survive a reload of the page. Whatever was in the local storage when the page was
  opened, an older version's preferences, a text that is not JSON or nothing, and whatever
  the user changed since: opening the page again finds exactly the preferences of now,
  and every setting of the appearance has a value.
\<close>

theorem preferences_survive:
  assumes "prefRun E c"
  shows "loadPreferences (cp_stored c) = cp_preferences c \<and>
    (\<forall>key \<in> set (jkeys DEFAULT_APPEARANCE). jget (jget (cp_preferences c) ''appearance'') key \<noteq> JUndef)"
proof -
  have ok: "prefsOk (cp_preferences c) \<and> cp_stored c = Text (json_copy (cp_preferences c))"
    using assms
  proof induction
    case (opened stored)
    have "prefsOk (loadPreferences stored)"
      using opened default_shape(8) mergePreferences_ok
      by (auto simp: loadPreferences_def jsonItem_def split: storedItem.splits sum.splits)
    then show ?case by (simp add: storePreferences_def)
  qed (simp add: storePreferences_def changePreferences_ok)
  let ?p = "cp_preferences c"
  have p: "begins [''appearance'', ''audioExclusions''] ?p" "begins (jkeys DEFAULT_APPEARANCE) (jget ?p ''appearance'')"
    "defined ?p" "is_object ?p" using ok begins_object by (auto simp: prefsOk_def)
  obtain xs where xs: "jget ?p ''audioExclusions'' = JArr xs" using ok by (auto simp: prefsOk_def)
  have a: "is_object (jget ?p ''appearance'')" using p(2) by (rule begins_object)
  then have at: "jget ?p ''appearance'' \<noteq> JUndef" "truthy (jget ?p ''appearance'')" by (auto simp: is_object_truthy)
  have "spreadMerge DEFAULT_PREFERENCES ?p = ?p"
    using spread_over [of DEFAULT_PREFERENCES ?p] p(1) default_shape(6,7) by simp
  moreover have "spreadMerge DEFAULT_APPEARANCE (jget ?p ''appearance'') = jget ?p ''appearance''"
    using spread_over p(2) default_shape(3) by blast
  ultimately have "mergePreferences ?p = Inr ?p"
    using p(4) at xs jput_same [of ?p "''appearance''"] jput_same [of ?p "''audioExclusions''"]
    by (simp add: mergePreferences_def getProp_object orElse_def Let_def)
  then have "loadPreferences (cp_stored c) = ?p" using ok json_copy_defined [OF p(3)] by (simp add: loadPreferences_def)
  moreover have "jget (jget ?p ''appearance'') key \<noteq> JUndef" if "key \<in> set (jkeys DEFAULT_APPEARANCE)" for key
  proof -
    obtain kvs rest where kvs: "jget ?p ''appearance'' = JObj kvs" "map fst kvs = jkeys DEFAULT_APPEARANCE @ rest"
      using p(2) by (auto simp: begins_def)
    then have "key \<in> fst ` set kvs" using that by (metis Un_iff set_append set_map)
    then obtain v where v: "map_of kvs key = Some v" by (metis map_of_eq_None_iff not_None_eq)
    have "defined (JObj kvs)" using defined_jget [OF p(3) at(1)] kvs by simp
    then have "v \<noteq> JUndef" using map_of_SomeD [OF v] by fastforce
    then show ?thesis using kvs v by simp
  qed
  ultimately show ?thesis by blast
qed

theorem preferences_survive_witness:
  "\<exists>c. prefRun sampleBrowser c \<and> jget (jget (cp_preferences c) ''appearance'') ''theme'' = JStr ''light'' \<and>
     loadPreferences (cp_stored c) = cp_preferences c \<and> cp_light c"
proof -
  let ?old = "JObj [(''appearance'', JObj [(''theme'', JStr ''light'')])]"
  let ?c = "storePreferences (loadPreferences (Text ?old))"
  have run: "prefRun sampleBrowser ?c" by (rule prefRun.opened) (simp add: jsonItem_def)
  have "jget (jget (cp_preferences ?c) ''appearance'') ''theme'' = JStr ''light''"
    by (simp add: storePreferences_def loadPreferences_def mergePreferences_def getProp_def spreadMerge_def DEFAULT_PREFERENCES_def
        DEFAULT_APPEARANCE_def orElse_def)
  moreover from this have "cp_light ?c" by (simp add: storePreferences_def)
  ultimately show ?thesis using run preferences_survive [OF run] by blast
qed

subsection \<open>Pages\<close>

lemma find_settings:
  "List.find (\<lambda>sub. path = settingsPath sub) settingsPages = Some sub \<Longrightarrow> sub \<in> set settingsPages \<and> path = settingsPath sub"
  by (auto simp: find_Some_iff)

lemma settingsPath_other:
  "List.find (\<lambda>sub. ''/'' = settingsPath sub) settingsPages = None" "List.find (\<lambda>sub. ''/login'' = settingsPath sub) settingsPages = None"
  "List.find (\<lambda>sub. settingsPath ''general'' = settingsPath sub) settingsPages = Some ''general''"
  "settingsPath sub \<noteq> ''/''" "settingsPath sub \<noteq> ''/login''" "settingsPath sub \<noteq> ''/setup''" "settingsPath sub \<noteq> ''/settings''"
  by (simp_all add: settingsPages_def settingsPath_def)

text \<open>The last render of a navigation, once the setup is done.\<close>

definition settled :: "authState \<Rightarrow> screen \<Rightarrow> bool" where
  "settled s screen =
     ((\<forall>sub. screen = SettingsView sub \<longrightarrow> truthy (ah_authenticated s) \<and> sub \<in> set settingsPages) \<and>
      screen \<noteq> SetupView \<and> screen \<noteq> LoadingScreen)"

lemma follow_home:
  assumes "\<not> ah_loading s" "\<not> ah_connectionError s" "\<not> ah_setupRequired s"
  shows "follow (Suc n) s (''/'', from) = Some DashboardView"
  using assms by (simp add: renderApp_def Let_def)

lemma follow_plain:
  assumes s: "\<not> ah_loading s" "\<not> ah_connectionError s" "\<not> ah_setupRequired s" and p: "path \<noteq> ''/login'' \<or> \<not> truthy (ah_authenticated s)"
  shows "\<exists>screen. follow (Suc (Suc (Suc n))) s (path, from) = Some screen \<and> settled s screen"
proof (cases "List.find (\<lambda>sub. path = settingsPath sub) settingsPages")
  case None
  note home = follow_home [OF s, of "Suc n"] follow_home [OF s, of n]
  have login: "renderApp s (''/login'', f) = Inl LoginView" if "\<not> truthy (ah_authenticated s)" for f
    using s that by (simp add: renderApp_def Let_def)
  have general: "renderApp s (settingsPath ''general'', f) = Inl (SettingsView ''general'')" if "truthy (ah_authenticated s)" for f
    using s that by (simp add: renderApp_def Let_def settingsPath_other)
  have g: "''general'' \<in> set settingsPages" by (simp add: settingsPages_def)
  consider "path = ''/setup''" | "path = ''/''" | "path = ''/login''" | "path = ''/settings''"
    | "path \<notin> {''/setup'', ''/'', ''/login'', ''/settings''}" by blast
  then show ?thesis
  proof cases
    case 1
    then have "renderApp s (path, from) = Inr (''/'', None)" using s by (simp add: renderApp_def Let_def)
    then show ?thesis using home by (simp add: settled_def)
  next
    case 2
    then show ?thesis using follow_home [OF s] by (auto simp: settled_def simp del: follow.simps)
  next
    case 3
    then show ?thesis using p login by (simp add: settled_def)
  next
    case 4
    then have "renderApp s (path, from) = (if truthy (ah_authenticated s) then Inr (settingsPath ''general'', None) else Inr (''/login'', Some path))"
      using s by (simp add: renderApp_def Let_def)
    then show ?thesis using login general g by (simp add: settled_def)
  next
    case 5
    then have "renderApp s (path, from) = Inr (''/'', None)" using s None by (simp add: renderApp_def Let_def)
    then show ?thesis using home by (simp add: settled_def)
  qed
next
  case (Some sub)
  have sub: "sub \<in> set settingsPages" "path = settingsPath sub" using find_settings [OF Some] by blast+
  have r: "renderApp s (path, from) = (if truthy (ah_authenticated s) then Inl (SettingsView sub) else Inr (''/login'', Some path))"
    unfolding sub(2) using s Some [unfolded sub(2)] by (simp add: renderApp_def Let_def settingsPath_other)
  show ?thesis
  proof (cases "truthy (ah_authenticated s)")
    case True
    then show ?thesis using sub(1) by (simp add: r settled_def)
  next
    case False
    then have "renderApp s (''/login'', Some path) = Inl LoginView" using s by (simp add: renderApp_def Let_def)
    then show ?thesis using False by (simp add: r settled_def)
  qed
qed


definition signedIn :: authState where
  "signedIn = clientCheckStatus (answeredWith (JObj [(''requiresSetup'', JBool False)])) (answeredWith JNull) freshAuth"


subsection \<open>The countdown\<close>

text \<open>Renders by the clock, less than five seconds apart.\<close>

fun closeTicks :: "int \<Rightarrow> int list \<Rightarrow> bool" where
  "closeTicks t [] = True"
| "closeTicks t (u # us) = (u < t + 5000 \<and> closeTicks u us)"

text \<open>
  The timer that should fetch five seconds after the countdown has ended never fires while the clock
  ticks: the effect that starts it depends on the current time, so the next tick, a second later, runs its
  cleanup, and the effect does not start it again for the same prayer.
\<close>

lemma countdown_never_refetches:
  assumes "closeTicks t us" "fo_timer f = None \<or> fo_timer f = Some (t + 5000)" "fo_retry f = None"
  shows "fo_calls (fold (clockTick target next) us f) = fo_calls f"
  using assms
proof (induction us arbitrary: t f)
  case (Cons u us)
  have due: "fireDue u f = f" using Cons.prems by (auto simp: fireDue_def Let_def)
  let ?g = "clockTick target next u f"
  have "fo_calls ?g = fo_calls f" "fo_retry ?g = None" "fo_timer ?g = None \<or> fo_timer ?g = Some (u + 5000)"
    using Cons.prems by (auto simp: clockTick_def due countdownEffect_def Let_def)
  with Cons.IH [of u ?g] Cons.prems show ?case by simp
qed simp

end
