(* ===== verification/Spec2Isabelle.thy ===== *)
theory Spec2Isabelle
  imports Calculations Audio_Source Async_Lock Auth Workflow Health Network Storage Routes Server_Start
    Client_Settings Client_Prayers Client_Dashboard
begin

text \<open>
  Verification development of the Azan dashboard, a Node server with a browser client that shows prayer
  times, plays the call to prayer on configured outputs and lets an administrator change its
  settings. The server is under \<open>src/src\<close>, the client under \<open>src/client\<close>; the
  Python speech service is not part of the development.

  \<^bold>\<open>The program.\<close> The configuration service (\<open>config/ConfigService.js\<close>) merges defaults, a local file
  and environment variables, migrates old files and encrypts secrets. The prayer time service asks a
  primary and a backup provider and caches the days. The scheduler turns the day's times into jobs;
  a job triggers the automation service, which launches the output strategies. The settings
  workflow runs through all of them. Everything is reported on a stream of server-sent events.

  \<^bold>\<open>Theories, parts and theorems.\<close>
  \<^item> \<open>Azan_Prelude\<close>, \<open>JS_Strings\<close>, \<open>JS_Runtime\<close>, \<open>Node_Paths\<close>: JSON values with JavaScript's property
    reads, strings, numbers, errors as values of a sum type, POSIX paths, and the interface of the
    date library Luxon with the documented laws the theorems use and a concrete instance.
  \<^item> \<open>Calculations\<close> (\<open>utils/calculations.js\<close>): the iqamah lies on its rounding grid; the next prayer.
  \<^item> \<open>Audio_Source\<close> (\<open>utils/normalizeSource.js\<close>, file names of uploads): normalised sources stay in the
    audio root or have an HTTP scheme; ordinary paths are accepted; safe file names.
  \<^item> \<open>Async_Lock\<close> (\<open>utils/asyncLock.js\<close>, \<open>providers/BaseProvider.js\<close>): a step relation with the locale
    \<open>single_flight\<close>, interpreted for both.
  \<^item> \<open>Registry\<close> (\<open>outputs/OutputFactory.js\<close>, \<open>providers/ProviderFactory.js\<close>): the locale
    \<open>keyed_registry\<close>, interpreted for both.
  \<^item> \<open>Config_Merge\<close>, \<open>Config_Fields\<close>, \<open>Config_Secrets\<close>, \<open>Secret_Crypto\<close>, \<open>Migration\<close>,
    \<open>Config_Service\<close>, \<open>Config_Persist\<close>: the passes over a configuration (merge, constraints,
    cleaning, encryption, environment overrides, stripping, migration) and the service's \<open>init\<close>,
    \<open>reload\<close> and \<open>update\<close> as steps over its world, with what each guarantees on success and error.
  \<^item> \<open>Masking\<close> (\<open>configUnmasker.js\<close>, \<open>settingsController.js\<close>): masking and unmasking are inverse; the
    public settings hold no output secret.
  \<^item> \<open>Env_Manager\<close> (\<open>utils/envManager.js\<close>): the environment file refines a map; two overlapping
    deletions lose one.
  \<^item> \<open>Auth\<close> (\<open>authController.js\<close>, \<open>middleware/auth.js\<close>): sessions end with a password change.
  \<^item> \<open>Prayer_Times\<close>, \<open>Providers\<close> (\<open>prayerTimeService.js\<close>, the two providers, \<open>validationService.js\<close>):
    failover, caching, calendar windows, the classification of provider errors, the two formats
    of MyMasjid.
  \<^item> \<open>Automation\<close>, \<open>Outputs\<close>, \<open>Scheduler\<close> (\<open>automationService.js\<close>, \<open>outputs/\<close>,
    \<open>schedulerService.js\<close>): which launches a trigger makes and when, what a strategy may do to the
    world, which jobs are alive.
  \<^item> \<open>Live_Log\<close> (\<open>sseService.js\<close>, \<open>logger.js\<close>): the stream refines an unbounded log.
  \<^item> \<open>Storage\<close> (\<open>storageService.js\<close>, \<open>storageCheck.js\<close>): directory sizes and the quota are exact.
  \<^item> \<open>Network\<close> (\<open>networkUtils.js\<close>): the private address test against CIDR blocks on 32 bit words.
  \<^item> \<open>Health\<close> (\<open>healthCheck.js\<close>): the cached report and the switch of the monitoring.
  \<^item> \<open>Asset_Store\<close>, \<open>Audio_Assets\<close>, \<open>Audio_Sync\<close>, \<open>Asset_Metadata\<close> (\<open>audioAssetService.js\<close>,
    \<open>audioValidator.js\<close>, \<open>assetMigrationService.js\<close>): the audio files and their sidecars as a store whose
    calls can fail; the speech tasks behind the limiter with the locales \<open>task_steps\<close> and \<open>task_pool\<close>:
    every order of steps settles all tasks and prepares every trigger; metadata generation and
    migration.
  \<^item> \<open>Voices\<close> (\<open>voiceService.js\<close>): the voice list survives a restart.
  \<^item> \<open>Audio_Library\<close> (\<open>settingsController.js\<close>, \<open>systemController.js\<close>): uploads, deletions and the listing of
    the audio files with its cache and pages: the listing is current, deletion is confined.
  \<^item> \<open>Diagnostics\<close> (\<open>diagnosticsService.js\<close>): the reports agree with the scheduler and the speech files.
  \<^item> \<open>Controllers\<close> (the remaining handlers of the controllers): programs in a state and exception monad
    over the whole server; what refreshing the prayer times and resetting the settings do to the schedule.
  \<^item> \<open>Routes\<close> (\<open>routes/\<close>, \<open>middleware/\<close>): the table of routes with the limits, the session, the quota and the
    upload in front of the handlers; without a session nothing of the administrator's changes.
  \<^item> \<open>Server_Start\<close> (\<open>server.js\<close>): the start of the server reaches the schedule whatever the services do.
  \<^item> \<open>Client_Settings\<close> (\<open>contexts/SettingsContext.jsx\<close>, \<open>utils/validation.js\<close> of the client): the draft and the
    configuration under every order of edits and answers; what a save has verified before it is sent;
    what the bulk edits of the offsets write.
  \<^item> \<open>Client_Prayers\<close> (\<open>hooks/usePrayerTimes.js\<close>, \<open>hooks/useMidnightObserver.js\<close>): the days of the dashboard as
    a state with requests, timers and effects; it never stays stuck in a transition or a loading state.
  \<^item> \<open>Client_Dashboard\<close> (\<open>ClientPreferencesContext.jsx\<close>, \<open>useSSE.js\<close>, \<open>useAudio.js\<close>, \<open>AuthContext.jsx\<close>, \<open>App.jsx\<close>,
    \<open>FocusCard.jsx\<close>): the preferences survive a reload, muted announcements stay silent, every
    address settles on a screen.
  \<^item> \<open>Workflow\<close> (\<open>configurationWorkflowService.js\<close>) and this theory: the settings transaction over the
    models of the services, and the theorems that span them.

  \<^bold>\<open>Conventions.\<close> A thrown error is \<open>Inl\<close>; state is passed explicitly in records. Code that awaits is
  one step where nothing can interfere and split at the await where a theorem is about interference
  (\<open>runLock\<close> and \<open>settleLock\<close>, \<open>initStart\<close> and \<open>initFinish\<close>, \<open>deleteRead\<close> and \<open>deleteWrite\<close>,
  the three steps of a speech task, whose order is an argument, and every request of the client, which is
  split at its answer). In the client an event runs a handler and then the effects whose dependencies
  changed (\<open>commit\<close>). Numbers are
  exact rationals, strings are byte strings, objects are association lists in insertion order, and
  property reads see own properties. Every loop of the modelled code is a recursion over a list, a tree
  or the size of a value. The only fuel is the number of renders in \<open>follow\<close>, the redirects of the
  client's router, and \<open>navigation_settles\<close> shows how many are enough.

  \<^bold>\<open>Parameters.\<close> Packages and the platform are arguments: Luxon, Zod parses, node-schedule, scrypt, AES
  and JSON web tokens, \<open>fetch\<close>, \<open>dns.lookup\<close>, the audio player, the speech service, the file system's failures and the
  clock. Each theorem that relies on a law of one of them has a witness with a concrete instance.

  \<^bold>\<open>Not modelled.\<close> The markup of the client's views and components with their local form state, the wake
  lock and the guided tour, the schema declarations, and the Python service are left out: they are
  declarations for packages and the browser, or another language. Console output is modelled only
  where the stream itself depends on it.
\<close>

section \<open>The configuration transaction\<close>


definition unknownSource :: json where
  "unknownSource = JObj [(''sources'', JObj [(''primary'', JObj [(''type'', JStr ''nope'')])])]"


section \<open>Saving settings prepares the speech\<close>

text \<open>
  C8. Saving settings prepares what the triggers will say: after a successful save, every enabled
  speech trigger of the configuration in force has its file in the cache, with a sidecar that names
  the new text and the new voice, under the path the automation plays; or the reply warns about this
  trigger or about the synchronisation as a whole.
\<close>

theorem executeUpdate_speaks:
  assumes run: "executeUpdate X requested f = (f', Inr reply)" and t: "tracked (fl_sched f)"
    and config: "cw_config (fl_cfg f') = config" "plainTriggers config"
    and speech: "speech_ok (fe_assets X)" "av_later (fe_assets X) - av_now (fe_assets X) \<le> 30 * 24 * 60 * 60 * 1000"
    and trigger: "prayer \<in> set PRAYER_NAMES" "(event, settings) \<in> set (entries (jget (triggersOf config) prayer))" "wanted settings"
  shows "(\<exists>m. JStr (niceName prayer event @ '': '' @ m) \<in> set (arr_of (jget reply ''warnings''))) \<or>
    (\<exists>m. JStr (''Audio Synchronisation Warning: '' @ m) \<in> set (arr_of (jget reply ''warnings''))) \<or>
    ready (assetsEnv X (fl_cfg f')) config \<lparr>tk_prayer = prayer, tk_event = event, tk_settings = settings\<rparr> (fl_assets f') \<and>
    jget (getAudioSource settings prayer event) ''path'' = JStr (''cache/'' @ ttsFilename prayer event)"
proof -
  let ?E = "assetsEnv X (fl_cfg f')"
  have synced: "synced X f f' reply" using executeUpdate_outcome [OF run t] by auto
  show ?thesis
  proof (cases "snd (syncRun X (fl_cfg f') (fl_assets f))")
    case (Inl e)
    then show ?thesis using synced by (auto simp: synced_def syncWarnings_def)
  next
    case (Inr ws)
    then obtain w where w: "syncAudioAssets ?E (fe_order X) False (fl_assets f) = (w, Inr ws)"
      by (metis prod.collapse syncRun_def)
    have keep: "fileOf (fl_assets f') p = fileOf w p" for p
      using synced w by (simp add: synced_def syncRun_def)
    have "he_config (av_health ?E) = Inr config"
      using trigger(2) config(1) by (cases config) (auto simp: assetsEnv_def getConfig_def triggersOf_def)
    moreover have "speech_ok ?E" "av_later ?E - av_now ?E \<le> 30 * 24 * 60 * 60 * 1000"
      using speech by (simp_all add: assetsEnv_def speech_ok_def)
    ultimately have "(\<exists>m. niceName prayer event @ '': '' @ m \<in> set ws) \<or>
      ready ?E config \<lparr>tk_prayer = prayer, tk_event = event, tk_settings = settings\<rparr> w \<and>
      jget (getAudioSource settings prayer event) ''path'' = JStr (''cache/'' @ ttsFilename prayer event)"
      using syncAudioAssets_covers [OF w] config(2) trigger by blast
    moreover have "JStr ` set ws \<subseteq> set (arr_of (jget reply ''warnings''))"
      using synced Inr by (simp add: synced_def syncWarnings_def)
    ultimately show ?thesis using ready_local [OF _ keep] by blast
  qed
qed

text \<open>A schema that fills in the triggers.\<close>

definition fillingSchema :: schemas where
  "fillingSchema = \<lparr>sc_config = (\<lambda>_. Inr speakingConfig), sc_provider = (\<lambda>m b c. Inr c)\<rparr>"

definition speakingWorld :: cfgWorld where
  "speakingWorld = sampleWorld\<lparr>cw_config := versionOne, cw_local := Parsed versionOne\<rparr>"

lemma speaking_update: "\<exists>w. update fillingSchema None (JObj []) speakingWorld = (w, Inr ()) \<and> cw_config w = speakingConfig"
  by (simp add: update_def updateBody_def currentLocal_def saveLocal_def reload_def bindS_def loadDotenv_def
      loadLocal_def mergeLocal_def returnS_def orZero_def orElse_def versionOne_def speakingWorld_def
      passS_def sampleWorld_def processSensitiveFields_def getEncryptionKey_def envVar_def sampleEnv_def
      processSources_def roles_def mapSource_def jupd_def migrateConfig_def getProp_def migrateEnvStep_def
      migrateEnvSecrets_def applyEnvOverrides_def validateConstraints_def cleanSourceData_def
      validateSources_def parseSchema_def fillingSchema_def builtinProviders_eq getRegisteredProviders_def
      sensitive_builtin stripSecrets_def stripProviders_def stripSource_def mergeDeep.simps protoKeys_def Let_def)
definition calm :: json where
  "calm = JObj [(''tts'', JObj [(''healthy'', JBool True)])]"

definition speakingEnv :: "utc flowEnv" where
  "speakingEnv =
     \<lparr>fe_schemas = fillingSchema, fe_fault = None, fe_outputs = builtinOutputs, fe_providers = builtinProviders,
      fe_prov = downProv 404, fe_sourceSchema = (\<lambda>_ c. Inr c), fe_sched = sampleSched,
      fe_assets = sampleAssetEnvOf (downProv 404) JNull, fe_order = []\<rparr>"

definition speakingFlow :: flow where
  "speakingFlow = \<lparr>fl_cfg = speakingWorld, fl_sched = freshSched versionOne, fl_sse = sseInit, fl_assets = oldAssets calm\<rparr>"

lemma speaking_saved:
  "\<exists>f' reply. executeUpdate speakingEnv (JObj []) speakingFlow = (f', Inr reply) \<and>
     cw_config (fl_cfg f') = speakingConfig \<and>
     jget reply ''warnings'' = JArr []"
proof -
  obtain w where w: "update fillingSchema None (JObj []) speakingWorld = (w, Inr ())" "cw_config w = speakingConfig"
    using speaking_update by blast
  have g: "getConfig speakingWorld = Inr versionOne" "getConfig w = Inr speakingConfig"
    by (simp_all add: getConfig_def w(2) speakingWorld_def versionOne_def speakingConfig_def)
  have u: "unmaskSecrets builtinOutputs builtinProviders (JObj []) versionOne = Inr (JObj [])"
    by (simp add: unmaskSecrets_def getProp_def roles_def mapOutputs_def mapSource_def jupd_def)
  have r: "\<not> requiresRefresh versionOne (JObj [])" by (simp add: requiresRefresh_def changed_def versionOne_def)
  have e: "assetsEnv speakingEnv w = sampleAssetEnvOf (downProv 404) speakingConfig"
    by (simp add: assetsEnv_def g speakingEnv_def sampleAssetEnvOf_def sampleHealth_def)
  have "syncRun speakingEnv w (oldAssets calm) = syncAudioAssets (sampleAssetEnvOf (downProv 404) speakingConfig) [] False (oldAssets calm)"
    by (simp add: syncRun_def e) (simp add: speakingEnv_def)
  then obtain a where a: "syncRun speakingEnv w (oldAssets calm) = (a, Inr [])" "at_health a = calm"
    using speaking_sync [of "downProv 404" calm] by (metis prod.collapse)
  have h: "getHealth H calm = (calm, calm)" for H :: "utc healthEnv"
    by (simp add: getHealth_def initHealth_def calm_def Let_def)
  have c: "collectWarnings builtinOutputs [] calm speakingConfig = Inr []"
    by (simp add: collectWarnings_def Let_def speakingConfig_def prayerWarnings_def triggerWarnings_def getProp_def triggerTargets_def
       speakingSettings_def orElse_def calm_def builtinOutputs_eq getAllStrategies_def integrationWarning_def)
  have f: "fe_schemas speakingEnv = fillingSchema" "fe_fault speakingEnv = None" "fe_outputs speakingEnv = builtinOutputs" 
     "fe_providers speakingEnv = builtinProviders" by (simp_all add: speakingEnv_def)
  show ?thesis
    by (simp add: executeUpdate_def speakingFlow_def g u r f checkSources_def w refreshPrayers_def withConfig_def finishUpdate_def
      progress_def a h c Let_def syncWarnings_def)
qed

theorem executeUpdate_speaks_witness:
  "\<exists>f' reply. executeUpdate speakingEnv (JObj []) speakingFlow = (f', Inr reply) \<and>
     ready (assetsEnv speakingEnv (fl_cfg f')) speakingConfig speakingTask (fl_assets f')"
proof -
  obtain f' reply where run: "executeUpdate speakingEnv (JObj []) speakingFlow = (f', Inr reply)"
    "cw_config (fl_cfg f') = speakingConfig" "jget reply ''warnings'' = JArr []"
    using speaking_saved by blast
  have "tracked (fl_sched speakingFlow)" by (simp add: speakingFlow_def freshSched_def tracked_def)
  moreover have "plainTriggers speakingConfig" by (simp add: plainTriggers_def PRAYER_NAMES_def speaking_simps slash_def)
  moreover have "speech_ok (fe_assets speakingEnv)" "av_later (fe_assets speakingEnv) - av_now (fe_assets speakingEnv) \<le> 30 * 24 * 60 * 60 * 1000"
    by (simp_all add: speakingEnv_def speech_ok_def sampleAssetEnvOf_def)
  moreover have "''fajr'' \<in> set PRAYER_NAMES" "(''preAdhan'', speakingSettings) \<in> set (entries (jget (triggersOf speakingConfig) ''fajr''))"
    "wanted speakingSettings"
    by (simp_all add: speaking_simps PRAYER_NAMES_def)
  ultimately show ?thesis
    using executeUpdate_speaks [OF run(1) _ run(2)] run(1,3) by fastforce
qed

end
